(* ===== verification/Prelude.thy ===== *)
theory Prelude
  imports Main "HOL-Library.AList" "HOL-Library.Word"
begin

text \<open>
  Shared vocabulary of the development: the result type of the fallible Rust functions, the
  unsigned 64-bit arithmetic of the development profile (an overflow panics), hash maps, loops
  over a list with an early error return, and the lemma collections the component theories use.

  Profile. The definitions follow the development profile of the build: an arithmetic overflow
  and a failed \<open>debug_assert!\<close> are panics. A computation that returns a value here
  computes the same value in a release build, which differs only where a panic is modelled.
\<close>

section \<open>Results, errors and panics\<close>

text \<open>
  A Rust function of type \<open>Result<T, E>\<close> is a HOL function into \<open>('e, 't) res\<close>: \<open>Inr v\<close> is
  \<open>Ok(v)\<close>, \<open>Inl (Error e)\<close> is \<open>Err(e)\<close>, and \<open>Inl (Panic m)\<close> is a panic, which no \<open>?\<close>
  operator converts and no caller handles.
\<close>

datatype 'e exn = Error 'e | Panic string

type_synonym ('e, 'a) res = "'e exn + 'a"

definition bindR :: "('e, 'a) res \<Rightarrow> ('a \<Rightarrow> ('e, 'b) res) \<Rightarrow> ('e, 'b) res" where
  "bindR m f = (case m of Inl e \<Rightarrow> Inl e | Inr a \<Rightarrow> f a)"

definition map_err :: "('e \<Rightarrow> 'f) \<Rightarrow> ('e, 'a) res \<Rightarrow> ('f, 'a) res" where
  "map_err g m =
     (case m of
        Inl (Error e) \<Rightarrow> Inl (Error (g e))
      | Inl (Panic p) \<Rightarrow> Inl (Panic p)
      | Inr a \<Rightarrow> Inr a)"

definition ok_or :: "'e \<Rightarrow> 'a option \<Rightarrow> ('e, 'a) res" where
  "ok_or e x = (case x of None \<Rightarrow> Inl (Error e) | Some a \<Rightarrow> Inr a)"

definition unwrap :: "string \<Rightarrow> 'a option \<Rightarrow> ('e, 'a) res" where
  "unwrap msg x = (case x of None \<Rightarrow> Inl (Panic msg) | Some a \<Rightarrow> Inr a)"

definition assert_that :: "string \<Rightarrow> bool \<Rightarrow> ('e, unit) res" where
  "assert_that msg b = (if b then Inr () else Inl (Panic msg))"

definition is_panic :: "('e, 'a) res \<Rightarrow> bool" where
  "is_panic m = (case m of Inl (Panic _) \<Rightarrow> True | _ \<Rightarrow> False)"

named_theorems res_simps \<open>evaluation of the result combinators\<close>

lemma bindR_Inr [simp, res_simps]: "bindR (Inr a) f = f a"
  by (simp add: bindR_def)

lemma bindR_Inl [simp, res_simps]: "bindR (Inl e) f = Inl e"
  by (simp add: bindR_def)

lemma bindR_eq_Inr_iff: "bindR m f = Inr b \<longleftrightarrow> (\<exists>a. m = Inr a \<and> f a = Inr b)"
  by (cases m) (auto simp: bindR_def)

lemma bindR_InrE [elim]:
  assumes "bindR m f = Inr b"
  obtains a where "m = Inr a" "f a = Inr b"
  using assms by (auto simp: bindR_eq_Inr_iff)

lemma bindR_assoc: "bindR (bindR m f) g = bindR m (\<lambda>x. bindR (f x) g)"
  by (cases m) auto

lemma bindR_cong [fundef_cong]:
  "m = m' \<Longrightarrow> (\<And>a. m' = Inr a \<Longrightarrow> f a = f' a) \<Longrightarrow> bindR m f = bindR m' f'"
  by (cases m') auto

lemma map_err_Inr [simp, res_simps]: "map_err g (Inr a) = Inr a"
  by (simp add: map_err_def)

lemma map_err_Error [simp, res_simps]: "map_err g (Inl (Error e)) = Inl (Error (g e))"
  by (simp add: map_err_def)

lemma map_err_Panic [simp, res_simps]: "map_err g (Inl (Panic p)) = Inl (Panic p)"
  by (simp add: map_err_def)

lemma map_err_eq_Inr_iff [simp]: "map_err g m = Inr a \<longleftrightarrow> m = Inr a"
  by (auto simp: map_err_def split: sum.splits exn.splits)

lemma ok_or_simps [simp, res_simps]:
  "ok_or e None = Inl (Error e)" "ok_or e (Some a) = Inr a"
  by (simp_all add: ok_or_def)

lemma ok_or_eq_Inr_iff [simp]: "ok_or e x = Inr a \<longleftrightarrow> x = Some a"
  by (cases x) auto

lemma unwrap_simps [simp, res_simps]:
  "unwrap msg None = Inl (Panic msg)" "unwrap msg (Some a) = Inr a"
  by (simp_all add: unwrap_def)

lemma unwrap_eq_Inr_iff [simp]: "unwrap msg x = Inr a \<longleftrightarrow> x = Some a"
  by (cases x) auto

lemma assert_that_simps [simp, res_simps]:
  "assert_that msg True = Inr ()" "assert_that msg False = Inl (Panic msg)"
  by (simp_all add: assert_that_def)

lemma assert_that_eq_Inr_iff [simp]: "assert_that msg b = Inr u \<longleftrightarrow> b"
  by (cases b) auto

section \<open>Unsigned 64-bit arithmetic\<close>

text \<open>Values of type \<open>u64\<close> and \<open>usize\<close> are naturals below \<open>2 ^ 64\<close>.\<close>

definition u64_bound :: nat where
  "u64_bound = 2 ^ 64"

definition u64_add :: "nat \<Rightarrow> nat \<Rightarrow> ('e, nat) res" where
  "u64_add a b =
     (if a + b < u64_bound then Inr (a + b) else Inl (Panic ''attempt to add with overflow''))"

definition u64_mul :: "nat \<Rightarrow> nat \<Rightarrow> ('e, nat) res" where
  "u64_mul a b =
     (if a * b < u64_bound then Inr (a * b) else Inl (Panic ''attempt to multiply with overflow''))"

definition u64_sub :: "nat \<Rightarrow> nat \<Rightarrow> ('e, nat) res" where
  "u64_sub a b =
     (if b \<le> a then Inr (a - b) else Inl (Panic ''attempt to subtract with overflow''))"

lemma u64_add_Inr [simp]: "a + b < u64_bound \<Longrightarrow> u64_add a b = Inr (a + b)"
  by (simp add: u64_add_def)

lemma u64_sub_Inr [simp]: "b \<le> a \<Longrightarrow> u64_sub a b = Inr (a - b)"
  by (simp add: u64_sub_def)

lemma u64_add_eq_Inr_iff: "u64_add a b = Inr c \<longleftrightarrow> a + b < u64_bound \<and> c = a + b"
  by (auto simp: u64_add_def)

lemma u64_sub_eq_Inr_iff: "u64_sub a b = Inr c \<longleftrightarrow> b \<le> a \<and> c = a - b"
  by (auto simp: u64_sub_def)

section \<open>Indexing\<close>

definition vec_index :: "'a list \<Rightarrow> nat \<Rightarrow> ('e, 'a) res" where
  "vec_index xs i = (if i < length xs then Inr (xs ! i) else Inl (Panic ''index out of bounds''))"

lemma vec_index_Inr [simp]: "i < length xs \<Longrightarrow> vec_index xs i = Inr (xs ! i)"
  by (simp add: vec_index_def)

section \<open>Hash maps\<close>

text \<open>
  A \<open>HashMap\<close> is an association list with distinct keys; \<open>map_of\<close> is the lookup. The list order
  stands for the iteration order of the map, which the Rust type leaves open: the code modelled
  here iterates only where the result does not depend on it.
\<close>

type_synonym ('k, 'v) hash_map = "('k \<times> 'v) list"

definition hm_insert :: "'k \<Rightarrow> 'v \<Rightarrow> ('k, 'v) hash_map \<Rightarrow> ('k, 'v) hash_map" where
  "hm_insert k v m = AList.update k v m"

definition hm_remove :: "'k \<Rightarrow> ('k, 'v) hash_map \<Rightarrow> ('k, 'v) hash_map" where
  "hm_remove k m = AList.delete k m"

definition hm_keys :: "('k, 'v) hash_map \<Rightarrow> 'k list" where
  "hm_keys m = map fst m"

text \<open>\<open>collect\<close> of an iterator over pairs, and \<open>extend\<close> with another map.\<close>

definition hm_extend :: "('k, 'v) hash_map \<Rightarrow> ('k \<times> 'v) list \<Rightarrow> ('k, 'v) hash_map" where
  "hm_extend m kvs = fold (\<lambda>(k, v) m'. hm_insert k v m') kvs m"

definition hm_wf :: "('k, 'v) hash_map \<Rightarrow> bool" where
  "hm_wf m = distinct (map fst m)"

lemma map_of_hm_insert [simp]: "map_of (hm_insert k v m) = (map_of m)(k \<mapsto> v)"
  by (simp add: hm_insert_def update_conv')

lemma map_of_hm_remove [simp]: "map_of (hm_remove k m) = (map_of m)(k := None)"
  by (simp add: hm_remove_def delete_conv')

lemma hm_extend_Nil [simp]: "hm_extend m [] = m"
  by (simp add: hm_extend_def)

lemma hm_extend_Cons [simp]: "hm_extend m (kv # kvs) = hm_extend (hm_insert (fst kv) (snd kv) m) kvs"
  by (simp add: hm_extend_def split: prod.split)

lemma map_of_hm_extend: "map_of (hm_extend m kvs) = map_of m ++ map_of (rev kvs)"
proof (induction kvs arbitrary: m)
  case Nil
  show ?case by simp
next
  case (Cons kv kvs)
  show ?case
    by (simp add: Cons.IH) (simp add: fun_eq_iff map_add_def split: option.split)
qed

lemma hm_wf_simps [simp]: "hm_wf []" "hm_wf [kv]"
  by (simp_all add: hm_wf_def)

lemma hm_wf_insert [simp]: "hm_wf m \<Longrightarrow> hm_wf (hm_insert k v m)"
  by (simp add: hm_wf_def hm_insert_def distinct_update)

lemma hm_wf_remove [simp]: "hm_wf m \<Longrightarrow> hm_wf (hm_remove k m)"
  by (simp add: hm_wf_def hm_remove_def distinct_delete)

lemma hm_wf_extend [simp]: "hm_wf m \<Longrightarrow> hm_wf (hm_extend m kvs)"
  by (induction kvs arbitrary: m) auto

lemma dom_map_of_hm_keys: "dom (map_of m) = set (hm_keys m)"
  by (simp add: hm_keys_def dom_map_of_conv_image_fst)

lemma hm_wf_map_of_iff: "hm_wf m \<Longrightarrow> map_of m k = Some v \<longleftrightarrow> (k, v) \<in> set m"
  by (simp add: hm_wf_def)

lemma hm_wf_length: "hm_wf m \<Longrightarrow> length m = card (dom (map_of m))"
  by (simp add: hm_wf_def dom_map_of_conv_image_fst distinct_card flip: set_map)

section \<open>Loops with an early return\<close>

text \<open>\<open>for x in xs { s = f(s, x)?; }\<close>\<close>

fun foldR :: "('s \<Rightarrow> 'x \<Rightarrow> ('e, 's) res) \<Rightarrow> 's \<Rightarrow> 'x list \<Rightarrow> ('e, 's) res" where
  "foldR f s [] = Inr s"
| "foldR f s (x # xs) = bindR (f s x) (\<lambda>s'. foldR f s' xs)"

text \<open>\<open>xs.iter().map(f).collect::<Result<Vec<_>, _>>()\<close>\<close>

fun mapR :: "('x \<Rightarrow> ('e, 'y) res) \<Rightarrow> 'x list \<Rightarrow> ('e, 'y list) res" where
  "mapR f [] = Inr []"
| "mapR f (x # xs) = bindR (f x) (\<lambda>y. bindR (mapR f xs) (\<lambda>ys. Inr (y # ys)))"

lemma foldR_append: "foldR f s (xs @ ys) = bindR (foldR f s xs) (\<lambda>s'. foldR f s' ys)"
  by (induction xs arbitrary: s) (auto simp: bindR_assoc)

lemma foldR_invariant:
  assumes "P s" and "\<And>s x. P s \<Longrightarrow> x \<in> set xs \<Longrightarrow> \<exists>s'. f s x = Inr s' \<and> P s'"
  shows "\<exists>s'. foldR f s xs = Inr s' \<and> P s'"
  using assms
proof (induction xs arbitrary: s)
  case Nil
  then show ?case by simp
next
  case (Cons x xs)
  from Cons.prems obtain s1 where s1: "f s x = Inr s1" "P s1"
    by (meson list.set_intros(1))
  have "\<exists>s'. foldR f s1 xs = Inr s' \<and> P s'"
    using s1(2) Cons.prems(2) by (intro Cons.IH) auto
  with s1 show ?case by simp
qed

lemma mapR_eq_Inr_iff: "mapR f xs = Inr ys \<longleftrightarrow> list_all2 (\<lambda>x y. f x = Inr y) xs ys"
  by (induction xs arbitrary: ys) (auto simp: bindR_eq_Inr_iff list_all2_Cons1)

lemma mapR_total: "(\<And>x. x \<in> set xs \<Longrightarrow> f x = Inr (g x)) \<Longrightarrow> mapR f xs = Inr (map g xs)"
  by (induction xs) auto

end
