(* ===== verification/Bytes.thy ===== *)
theory Bytes
  imports Prelude
begin

text \<open>
  Byte strings, big integers, field elements and the \<open>Hash\<close> type of
  \<open>crates/starknet-os-types/src/hash.rs\<close>.

  A \<open>BigUint\<close> is a natural number. A \<open>Felt252\<close> is its canonical representative, a natural
  number below the prime that the compiled classes name (\<open>STARK_PRIME\<close>). Both are read and
  written in big-endian byte order.
\<close>

section \<open>Big-endian byte strings\<close>

type_synonym bytes = "8 word list"

text \<open>\<open>str::as_bytes\<close> on ASCII strings.\<close>

definition ascii :: "string \<Rightarrow> bytes" where
  "ascii s = map (\<lambda>c. word_of_nat (of_char c)) s"

text \<open>\<open>BigUint::from_bytes_be\<close>\<close>

definition nat_of_bytes_be :: "bytes \<Rightarrow> nat" where
  "nat_of_bytes_be bs = foldl (\<lambda>acc b. acc * 256 + unat b) 0 bs"

fun digits_le :: "nat \<Rightarrow> bytes" where
  "digits_le n = (if n = 0 then [] else word_of_nat n # digits_le (n div 256))"

declare digits_le.simps [simp del]

text \<open>\<open>BigUint::to_bytes_be\<close>: as few bytes as possible, one zero byte for zero.\<close>

definition to_bytes_be :: "nat \<Rightarrow> bytes" where
  "to_bytes_be n = (if n = 0 then [0] else rev (digits_le n))"

text \<open>Exactly \<open>k\<close> bytes: the layout of a fixed-size array.\<close>

fun fixed_le :: "nat \<Rightarrow> nat \<Rightarrow> bytes" where
  "fixed_le 0 n = []"
| "fixed_le (Suc k) n = word_of_nat n # fixed_le k (n div 256)"

definition fixed_be :: "nat \<Rightarrow> nat \<Rightarrow> bytes" where
  "fixed_be k n = rev (fixed_le k n)"

fun nat_of_bytes_le :: "bytes \<Rightarrow> nat" where
  "nat_of_bytes_le [] = 0"
| "nat_of_bytes_le (b # bs) = unat b + 256 * nat_of_bytes_le bs"

lemma foldl_bytes_append:
  "foldl (\<lambda>acc b. acc * 256 + unat b) a (rev bs) = a * 256 ^ length bs + nat_of_bytes_le bs"
  for bs :: bytes
  by (induction bs) (auto simp: algebra_simps)

lemma nat_of_bytes_be_le: "nat_of_bytes_be bs = nat_of_bytes_le (rev bs)"
  using foldl_bytes_append [of 0 "rev bs"] by (simp add: nat_of_bytes_be_def)

lemma unat_byte_of_nat: "unat (word_of_nat n :: 8 word) = n mod 256"
  by (simp add: unat_of_nat)

lemma nat_of_bytes_le_fixed: "nat_of_bytes_le (fixed_le k n) = n mod 256 ^ k"
proof (induction k arbitrary: n)
  case 0
  show ?case by simp
next
  case (Suc k)
  show ?case
    by (simp add: Suc unat_byte_of_nat mod_mult2_eq)
qed

lemma length_fixed_le [simp]: "length (fixed_le k n) = k"
  by (induction k arbitrary: n) auto

lemma length_fixed_be [simp]: "length (fixed_be k n) = k"
  by (simp add: fixed_be_def)

lemma nat_of_bytes_be_fixed [simp]: "nat_of_bytes_be (fixed_be k n) = n mod 256 ^ k"
  by (simp add: nat_of_bytes_be_le fixed_be_def nat_of_bytes_le_fixed)

lemma fixed_le_nat_of_bytes: "fixed_le (length bs) (nat_of_bytes_le bs) = bs"
proof (induction bs)
  case Nil
  show ?case by simp
next
  case (Cons b bs)
  have "unat b < 256"
    by (rule order_less_le_trans [OF unsigned_less]) simp
  then have "(unat b + 256 * nat_of_bytes_le bs) div 256 = nat_of_bytes_le bs"
    by simp
  moreover have "(word_of_nat (unat b + 256 * nat_of_bytes_le bs) :: 8 word) = b"
  proof -
    have "(256 :: 8 word) = 0" by simp
    then show ?thesis by (simp only: of_nat_add of_nat_mult of_nat_numeral) simp
  qed
  ultimately show ?case
    using Cons by simp
qed

lemma fixed_be_nat_of_bytes: "fixed_be (length bs) (nat_of_bytes_be bs) = bs"
  using fixed_le_nat_of_bytes [of "rev bs"] by (simp add: fixed_be_def nat_of_bytes_be_le)

lemma fixed_be_nat_of_bytes' [simp]: "length bs = k \<Longrightarrow> fixed_be k (nat_of_bytes_be bs) = bs"
  using fixed_be_nat_of_bytes by auto

lemma nat_of_bytes_be_inj:
  "length bs = length cs \<Longrightarrow> nat_of_bytes_be bs = nat_of_bytes_be cs \<Longrightarrow> bs = cs"
  by (metis fixed_be_nat_of_bytes)

lemma nat_of_bytes_be_less: "nat_of_bytes_be bs < 256 ^ length bs"
  by (metis fixed_be_nat_of_bytes nat_of_bytes_be_fixed mod_less_divisor zero_less_power
      zero_less_numeral)

lemma fixed_be_inj: "fixed_be k m = fixed_be k n \<Longrightarrow> m < 256 ^ k \<Longrightarrow> n < 256 ^ k \<Longrightarrow> m = n"
  by (metis mod_less nat_of_bytes_be_fixed)

lemma digits_le_0 [simp]: "digits_le 0 = []"
  by (simp add: digits_le.simps)

lemma nat_of_bytes_le_digits [simp]: "nat_of_bytes_le (digits_le n) = n"
proof (induction n rule: digits_le.induct)
  case (1 n)
  show ?case
    using 1 by (cases "n = 0") (simp_all add: digits_le.simps [of n] unat_byte_of_nat)
qed

lemma nat_of_bytes_be_to_bytes_be [simp]: "nat_of_bytes_be (to_bytes_be n) = n"
  by (simp add: to_bytes_be_def nat_of_bytes_be_le)

lemma length_digits_le: "length (digits_le n) \<le> k \<longleftrightarrow> n < 256 ^ k"
proof (induction n arbitrary: k rule: digits_le.induct)
  case (1 n)
  show ?case
  proof (cases "n = 0")
    case True
    then show ?thesis by simp
  next
    case False
    show ?thesis
    proof (cases k)
      case 0
      with False show ?thesis by (simp add: digits_le.simps [of n])
    next
      case (Suc j)
      have "length (digits_le n) \<le> k \<longleftrightarrow> length (digits_le (n div 256)) \<le> j"
        using False Suc by (simp add: digits_le.simps [of n])
      also have "\<dots> \<longleftrightarrow> n div 256 < 256 ^ j"
        using 1 [OF False] by blast
      also have "\<dots> \<longleftrightarrow> n < 256 ^ k"
        using Suc by (simp add: div_less_iff_less_mult mult.commute)
      finally show ?thesis .
    qed
  qed
qed

lemma length_to_bytes_be: "0 < k \<Longrightarrow> length (to_bytes_be n) \<le> k \<longleftrightarrow> n < 256 ^ k"
  by (simp add: to_bytes_be_def length_digits_le)

lemma nat_of_bytes_le_append_zeros [simp]:
  "nat_of_bytes_le (bs @ replicate j 0) = nat_of_bytes_le bs"
proof (induction bs)
  case Nil
  show ?case by (induction j) auto
qed auto

text \<open>Left-padding the minimal encoding gives the fixed-size one.\<close>

lemma pad_to_bytes_be:
  assumes "n < 256 ^ k" and "0 < k"
  shows "replicate (k - length (to_bytes_be n)) 0 @ to_bytes_be n = fixed_be k n"
proof (rule nat_of_bytes_be_inj)
  show "length (replicate (k - length (to_bytes_be n)) 0 @ to_bytes_be n) = length (fixed_be k n)"
    using assms length_to_bytes_be [of k n] by simp
  have "nat_of_bytes_be (replicate (k - length (to_bytes_be n)) 0 @ to_bytes_be n) = n"
    using nat_of_bytes_be_to_bytes_be [of n] by (simp add: nat_of_bytes_be_le)
  with assms show "nat_of_bytes_be (replicate (k - length (to_bytes_be n)) 0 @ to_bytes_be n)
      = nat_of_bytes_be (fixed_be k n)"
    by simp
qed

section \<open>Field elements\<close>

text \<open>
  The prime of the Stark field, \<open>0x800000000000011000...0001\<close>. A field element is a natural
  number below it.
\<close>

type_synonym felt = nat

definition STARK_PRIME :: nat where
  "STARK_PRIME = 2 ^ 251 + 17 * 2 ^ 192 + 1"

definition felt_wf :: "felt \<Rightarrow> bool" where
  "felt_wf x \<longleftrightarrow> x < STARK_PRIME"

text \<open>Conversions from big integers and bytes reduce modulo the prime.\<close>

definition felt_of_nat :: "nat \<Rightarrow> felt" where
  "felt_of_nat n = n mod STARK_PRIME"

definition felt_from_bytes_be_slice :: "bytes \<Rightarrow> felt" where
  "felt_from_bytes_be_slice bs = nat_of_bytes_be bs mod STARK_PRIME"

definition felt_to_bytes_be :: "felt \<Rightarrow> bytes" where
  "felt_to_bytes_be x = fixed_be 32 x"

definition felt_add :: "felt \<Rightarrow> felt \<Rightarrow> felt" where
  "felt_add x y = (x + y) mod STARK_PRIME"

definition felt_sub :: "felt \<Rightarrow> felt \<Rightarrow> felt" where
  "felt_sub x y = (x + (STARK_PRIME - y mod STARK_PRIME)) mod STARK_PRIME"

definition felt_to_u64 :: "felt \<Rightarrow> nat option" where
  "felt_to_u64 x = (if x < u64_bound then Some x else None)"

lemma STARK_PRIME_pos [simp]: "0 < STARK_PRIME"
  by (simp add: STARK_PRIME_def)

lemma STARK_PRIME_less: "STARK_PRIME < 256 ^ 32"
  by (simp add: STARK_PRIME_def)

lemma felt_wf_simps [simp]:
  "felt_wf 0" "felt_wf (felt_of_nat n)" "felt_wf (felt_from_bytes_be_slice bs)"
  "felt_wf (felt_add x y)" "felt_wf (felt_sub x y)"
  by (simp_all add: felt_wf_def felt_of_nat_def felt_from_bytes_be_slice_def felt_add_def
      felt_sub_def)

lemma felt_of_nat_wf [simp]: "felt_wf x \<Longrightarrow> felt_of_nat x = x"
  by (simp add: felt_wf_def felt_of_nat_def)

lemma length_felt_to_bytes_be [simp]: "length (felt_to_bytes_be x) = 32"
  by (simp add: felt_to_bytes_be_def)

lemma felt_wf_less: "felt_wf x \<Longrightarrow> x < 256 ^ 32"
  using STARK_PRIME_less by (simp add: felt_wf_def)

lemma nat_of_felt_bytes [simp]: "felt_wf x \<Longrightarrow> nat_of_bytes_be (felt_to_bytes_be x) = x"
  using felt_wf_less [of x] by (simp add: felt_to_bytes_be_def)

lemma felt_bytes_roundtrip [simp]:
  "felt_wf x \<Longrightarrow> felt_from_bytes_be_slice (felt_to_bytes_be x) = x"
  by (simp add: felt_from_bytes_be_slice_def) (simp add: felt_wf_def)

lemma felt_to_bytes_be_inj: "felt_wf x \<Longrightarrow> felt_wf y \<Longrightarrow> felt_to_bytes_be x = felt_to_bytes_be y \<Longrightarrow> x = y"
  by (metis felt_bytes_roundtrip)

section \<open>Hashes\<close>

type_synonym hash = bytes

definition hash_wf :: "hash \<Rightarrow> bool" where
  "hash_wf h \<longleftrightarrow> length h = 32"

definition EMPTY_HASH :: hash where
  "EMPTY_HASH = replicate 32 0"

definition Hash_from_bytes_be :: "bytes \<Rightarrow> hash" where
  "Hash_from_bytes_be bs = bs"

definition Hash_empty :: hash where
  "Hash_empty = Hash_from_bytes_be EMPTY_HASH"

text \<open>The subtraction \<open>32 - bytes.len()\<close> panics on a slice longer than 32 bytes.\<close>

definition Hash_from_bytes_be_slice :: "bytes \<Rightarrow> ('e, hash) res" where
  "Hash_from_bytes_be_slice bs =
     bindR (u64_sub 32 (length bs)) (\<lambda>start.
       Inr (fold (\<lambda>(i, byte) array. array[start + i := byte]) (enumerate 0 bs) (replicate 32 0)))"

definition felt_of_Hash :: "hash \<Rightarrow> felt" where
  "felt_of_Hash h = felt_from_bytes_be_slice h"

definition biguint_of_Hash :: "hash \<Rightarrow> nat" where
  "biguint_of_Hash h = nat_of_bytes_be h"

definition Hash_of_biguint :: "nat \<Rightarrow> ('e, hash) res" where
  "Hash_of_biguint n = Hash_from_bytes_be_slice (to_bytes_be n)"

definition Hash_of_felt :: "felt \<Rightarrow> hash" where
  "Hash_of_felt x = Hash_from_bytes_be (felt_to_bytes_be x)"

lemma fold_write_slice:
  "length a = k + length bs \<Longrightarrow>
   fold (\<lambda>(i, byte) array. array[i := byte]) (enumerate k bs) a = take k a @ bs"
proof (induction bs arbitrary: k a)
  case Nil
  then show ?case by simp
next
  case (Cons b bs)
  have "fold (\<lambda>(i, byte) array. array[i := byte]) (enumerate (Suc k) bs) (a[k := b])
      = take (Suc k) (a[k := b]) @ bs"
    using Cons.prems by (intro Cons.IH) simp
  also have "take (Suc k) (a[k := b]) = take k a @ [b]"
    using Cons.prems by (simp add: take_Suc_conv_app_nth)
  finally show ?case by simp
qed

lemma enumerate_shift: "map (\<lambda>(i, x). (n + i, x)) (enumerate k xs) = enumerate (n + k) xs"
  by (induction xs arbitrary: k) auto

lemma Hash_from_bytes_be_slice_eq:
  "Hash_from_bytes_be_slice bs =
     (if length bs \<le> 32 then Inr (replicate (32 - length bs) 0 @ bs)
      else Inl (Panic ''attempt to subtract with overflow''))"
proof (cases "length bs \<le> 32")
  case True
  have "fold (\<lambda>(i, byte) array. array[(32 - length bs) + i := byte]) (enumerate 0 bs) a
      = fold (\<lambda>(i, byte) array. array[i := byte])
          (map (\<lambda>(i, x). ((32 - length bs) + i, x)) (enumerate 0 bs)) a" for a :: bytes
    by (simp add: fold_map comp_def case_prod_unfold)
  also have "\<dots> a = fold (\<lambda>(i, byte) array. array[i := byte])
      (enumerate (32 - length bs) bs) a" for a :: bytes
    by (simp only: enumerate_shift add_0_right)
  finally show ?thesis
    using True by (simp add: Hash_from_bytes_be_slice_def fold_write_slice)
next
  case False
  then show ?thesis
    by (simp add: Hash_from_bytes_be_slice_def u64_sub_def)
qed

lemma hash_wf_Hash_empty [simp]: "hash_wf Hash_empty"
  by (simp add: hash_wf_def Hash_empty_def Hash_from_bytes_be_def EMPTY_HASH_def)

lemma Hash_from_slice_32 [simp]: "hash_wf h \<Longrightarrow> Hash_from_bytes_be_slice h = Inr h"
  by (simp add: Hash_from_bytes_be_slice_eq hash_wf_def)

lemma hash_wf_Hash_of_felt [simp]: "hash_wf (Hash_of_felt x)"
  by (simp add: hash_wf_def Hash_of_felt_def Hash_from_bytes_be_def)

lemma Hash_of_biguint_wf:
  "n < 256 ^ 32 \<Longrightarrow> Hash_of_biguint n = Inr (fixed_be 32 n)"
  using pad_to_bytes_be [of n 32] length_to_bytes_be [of 32 n]
  by (simp add: Hash_of_biguint_def Hash_from_bytes_be_slice_eq)

lemma Hash_biguint_roundtrip:
  "hash_wf h \<Longrightarrow> Hash_of_biguint (biguint_of_Hash h) = Inr h"
  using nat_of_bytes_be_less [of h]
  by (simp add: Hash_of_biguint_wf biguint_of_Hash_def hash_wf_def)

lemma biguint_of_Hash_inj: "hash_wf g \<Longrightarrow> hash_wf h \<Longrightarrow> biguint_of_Hash g = biguint_of_Hash h \<Longrightarrow> g = h"
  by (auto simp: biguint_of_Hash_def hash_wf_def intro: nat_of_bytes_be_inj)

lemma felt_of_Hash_of_felt [simp]: "felt_wf x \<Longrightarrow> felt_of_Hash (Hash_of_felt x) = x"
  by (simp add: felt_of_Hash_def Hash_of_felt_def Hash_from_bytes_be_def)

lemma Hash_of_felt_inj: "felt_wf x \<Longrightarrow> felt_wf y \<Longrightarrow> Hash_of_felt x = Hash_of_felt y \<Longrightarrow> x = y"
  by (metis felt_of_Hash_of_felt)

lemma Hash_empty_felt: "Hash_empty = Hash_of_felt 0"
proof (rule nat_of_bytes_be_inj)
  show "nat_of_bytes_be Hash_empty = nat_of_bytes_be (Hash_of_felt 0)"
    using nat_of_bytes_le_append_zeros [of "[]"]
    by (simp add: Hash_empty_def Hash_of_felt_def Hash_from_bytes_be_def EMPTY_HASH_def)
      (simp add: nat_of_bytes_be_le)
qed (simp add: Hash_empty_def Hash_of_felt_def Hash_from_bytes_be_def EMPTY_HASH_def)

lemma Hash_of_felt_empty_iff [simp]: "felt_wf x \<Longrightarrow> Hash_of_felt x = Hash_empty \<longleftrightarrow> x = 0"
  using Hash_of_felt_inj [of x 0] by (auto simp: Hash_empty_felt)

end
