(* ===== verification/Storage.thy ===== *)
theory Storage
  imports Bytes
begin

text \<open>
  Key-value storages and the objects kept in them: \<open>storage/storage.rs\<close>,
  \<open>storage/dict_storage.rs\<close>, \<open>storage/composite_storage.rs\<close>, \<open>storage/cached_storage.rs\<close> and
  the traits of \<open>starkware_utils/serializable.rs\<close> (all under \<open>crates/starknet-os/src\<close>).

  A Rust trait is a record of its methods and an \<open>impl\<close> is a value of that record type; a generic
  function takes the record as an argument. A \<open>FactFetchingContext\<close> is a handle on one shared
  storage, so it is the current state of that storage, passed to and returned by every function
  that writes. An operation that returns an error ends the run that called it, so no state is
  kept for that case.

  The locale \<open>storage_laws\<close> states what the clients of a storage rely on. It is interpreted on
  the dictionary storage and on the composite of two of them.
\<close>

section \<open>Errors\<close>

text \<open>The argument of the two \<open>Json\<close> constructors is the message of \<open>serde_json\<close>.\<close>

datatype serialize_error = SerializeError_Json string | ValueTooLong nat

datatype deserialize_error =
  DeserializeError_Json string | NoVariantWithLength nat | LengthMismatch nat nat

datatype storage_error =
  ContentNotFound | StorageError_Deserialize deserialize_error | StorageError_Serialize serialize_error

section \<open>Traits\<close>

record 's storage_ops =
  set_value :: "'s \<Rightarrow> bytes \<Rightarrow> bytes \<Rightarrow> (storage_error, 's) res"
  get_value :: "'s \<Rightarrow> bytes \<Rightarrow> (storage_error, bytes option) res"

text \<open>\<open>HashFunctionType::hash\<close>; \<open>None\<close> is a panic.\<close>

type_synonym hash_fn = "bytes \<Rightarrow> bytes \<Rightarrow> hash option"

record 'o db_object =
  prefix :: bytes
  serialize :: "'o \<Rightarrow> (serialize_error, bytes) res"
  deserialize :: "bytes \<Rightarrow> (deserialize_error, 'o) res"

text \<open>\<open>Fact::hash\<close>; \<open>None\<close> is a panic.\<close>

record 'o fact = "'o db_object" +
  fact_hash :: "'o \<Rightarrow> hash option"

record 'o leaf_fact = "'o fact" +
  leaf_is_empty :: "'o \<Rightarrow> bool"

definition hash_felts :: "hash_fn \<Rightarrow> felt \<Rightarrow> felt \<Rightarrow> felt option" where
  "hash_felts H x y = map_option felt_of_Hash (H (felt_to_bytes_be x) (felt_to_bytes_be y))"

section \<open>Database objects and facts\<close>

definition HASH_BYTES :: nat where
  "HASH_BYTES = 32"

text \<open>The byte of \<open>":"\<close> is 58.\<close>

definition db_key :: "('o, 'z) db_object_scheme \<Rightarrow> bytes \<Rightarrow> bytes" where
  "db_key D suffix = concat [prefix D, [58], suffix]"

definition db_get ::
  "'s storage_ops \<Rightarrow> ('o, 'z) db_object_scheme \<Rightarrow> 's \<Rightarrow> bytes \<Rightarrow> (storage_error, 'o option) res" where
  "db_get St D s suffix =
     (case get_value St s (db_key D suffix) of
        Inr (Some data) \<Rightarrow>
          bindR (map_err StorageError_Deserialize (deserialize D data)) (\<lambda>value. Inr (Some value))
      | Inr None \<Rightarrow> Inr None
      | Inl e \<Rightarrow> Inl e)"

definition get_or_fail ::
  "'s storage_ops \<Rightarrow> ('o, 'z) db_object_scheme \<Rightarrow> 's \<Rightarrow> bytes \<Rightarrow> (storage_error, 'o) res" where
  "get_or_fail St D s suffix =
     (case db_get St D s suffix of
        Inr (Some content) \<Rightarrow> Inr content
      | Inr None \<Rightarrow> Inl (Error ContentNotFound)
      | Inl e \<Rightarrow> Inl e)"

definition db_set ::
  "'s storage_ops \<Rightarrow> ('o, 'z) db_object_scheme \<Rightarrow> 'o \<Rightarrow> 's \<Rightarrow> bytes \<Rightarrow> (storage_error, 's) res" where
  "db_set St D obj s suffix =
     bindR (map_err StorageError_Serialize (serialize D obj)) (\<lambda>value.
       set_value St s (db_key D suffix) value)"

definition set_fact ::
  "'s storage_ops \<Rightarrow> ('o, 'z) fact_scheme \<Rightarrow> 'o \<Rightarrow> 's \<Rightarrow> (storage_error, hash \<times> 's) res" where
  "set_fact St D obj s =
     bindR (unwrap ''hash'' (fact_hash D obj)) (\<lambda>hash_val.
     bindR (db_set St D obj s hash_val) (\<lambda>s'.
       Inr (hash_val, s')))"

section \<open>Dictionary and composite storages\<close>

type_synonym dict_storage = "(bytes, bytes) hash_map"

definition DictStorage_default :: dict_storage where
  "DictStorage_default = []"

definition DictStorage :: "dict_storage storage_ops" where
  "DictStorage =
     \<lparr> set_value = (\<lambda>db key value. Inr (hm_insert key value db)),
       get_value = (\<lambda>db key. Inr (map_of db key)) \<rparr>"

record ('m, 'f) composite =
  main :: 'm
  fallback :: 'f

definition CompositeStorage ::
  "'m storage_ops \<Rightarrow> 'f storage_ops \<Rightarrow> ('m, 'f) composite storage_ops" where
  "CompositeStorage M F =
     \<lparr> set_value = (\<lambda>s key value.
         bindR (set_value M (main s) key value) (\<lambda>m.
         bindR (set_value F (fallback s) key value) (\<lambda>f.
           Inr (s \<lparr> main := m, fallback := f \<rparr>)))),
       get_value = (\<lambda>s key.
         case get_value M (main s) key of
           Inr (Some value) \<Rightarrow> Inr (Some value)
         | Inr None \<Rightarrow> get_value F (fallback s) key
         | Inl (Error ContentNotFound) \<Rightarrow> get_value F (fallback s) key
         | Inl e \<Rightarrow> Inl e) \<rparr>"

definition CachedStorage ::
  "'s storage_ops \<Rightarrow> (dict_storage, 's) composite storage_ops" where
  "CachedStorage S = CompositeStorage DictStorage S"

section \<open>The contract of a storage\<close>

text \<open>What a storage holds under a key.\<close>

definition st_lookup :: "'s storage_ops \<Rightarrow> 's \<Rightarrow> bytes \<Rightarrow> bytes option" where
  "st_lookup St s k = (case get_value St s k of Inr r \<Rightarrow> r | Inl _ \<Rightarrow> None)"

text \<open>The object that \<open>get_or_fail\<close> returns for a suffix.\<close>

definition db_holds ::
  "'s storage_ops \<Rightarrow> ('o, 'z) db_object_scheme \<Rightarrow> 's \<Rightarrow> bytes \<Rightarrow> 'o \<Rightarrow> bool" where
  "db_holds St D s suffix obj \<longleftrightarrow>
     (case st_lookup St s (db_key D suffix) of
        Some data \<Rightarrow> deserialize D data = Inr obj
      | None \<Rightarrow> False)"

lemma db_holds_get_or_fail: "db_holds St D s k obj \<Longrightarrow> get_or_fail St D s k = Inr obj"
  by (auto simp: db_holds_def st_lookup_def get_or_fail_def db_get_def
      split: option.splits sum.splits)

lemma get_or_fail_db_holds: "get_or_fail St D s k = Inr obj \<Longrightarrow> db_holds St D s k obj"
  by (auto simp: db_holds_def st_lookup_def get_or_fail_def db_get_def bindR_eq_Inr_iff
      split: option.splits sum.splits)

lemma get_or_fail_iff: "get_or_fail St D s k = Inr obj \<longleftrightarrow> db_holds St D s k obj"
  by (blast intro: db_holds_get_or_fail get_or_fail_db_holds)

lemma db_holds_unique: "db_holds St D s k a \<Longrightarrow> db_holds St D s k b \<Longrightarrow> a = b"
  by (auto simp: db_holds_def split: option.splits)

text \<open>The suffixes are hashes, so a key determines both its prefix and its suffix.\<close>

lemma db_key_eq_iff:
  assumes "hash_wf a" and "hash_wf b"
  shows "db_key D a = db_key Q b \<longleftrightarrow> prefix D = prefix Q \<and> a = b"
  using assms by (auto simp: db_key_def hash_wf_def append_eq_append_conv)

locale storage_laws =
  fixes St :: "'s storage_ops"
  assumes set_value_ok: "\<exists>s'. set_value St s k v = Inr s'"
    and get_value_ok: "\<exists>r. get_value St s k = Inr r"
    and get_set: "set_value St s k v = Inr s' \<Longrightarrow>
      get_value St s' k' = (if k' = k then Inr (Some v) else get_value St s k')"
begin

lemma st_lookup_set:
  "set_value St s k v = Inr s' \<Longrightarrow> st_lookup St s' = (st_lookup St s)(k \<mapsto> v)"
  by (auto simp: st_lookup_def fun_eq_iff get_set)

lemma db_set_ok:
  assumes "serialize D obj = Inr data"
  shows "\<exists>s'. db_set St D obj s k = Inr s' \<and>
    st_lookup St s' = (st_lookup St s)(db_key D k \<mapsto> data)"
  using assms set_value_ok [of s "db_key D k" data] st_lookup_set [of s "db_key D k" data]
  by (auto simp: db_set_def)

lemma get_or_fail_missing:
  "st_lookup St s (db_key D k) = None \<Longrightarrow> get_or_fail St D s k = Inl (Error ContentNotFound)"
  using get_value_ok [of s "db_key D k"]
  by (auto simp: st_lookup_def get_or_fail_def db_get_def)

lemma db_set_holds:
  assumes "serialize D obj = Inr data" and "deserialize D data = Inr obj"
  shows "\<exists>s'. db_set St D obj s k = Inr s' \<and> db_holds St D s' k obj"
  using db_set_ok [OF assms(1), of s k] assms(2) by (auto simp: db_holds_def)

lemma db_set_keeps:
  assumes "db_set St D obj s k = Inr s'"
    and "db_holds St Q s j x"
    and "db_key D k \<noteq> db_key Q j"
  shows "db_holds St Q s' j x"
  using assms by (auto simp: db_set_def bindR_eq_Inr_iff db_holds_def st_lookup_set)

lemma set_fact_ok:
  assumes "serialize D obj = Inr data" and "deserialize D data = Inr obj"
    and "fact_hash D obj = Some h"
  shows "\<exists>s'. set_fact St D obj s = Inr (h, s') \<and> db_holds St D s' h obj"
  using db_set_holds [OF assms(1,2), of s h] assms(3) by (auto simp: set_fact_def)

end

lemma DictStorage_laws: "storage_laws DictStorage"
  by unfold_locales (auto simp: DictStorage_def)

interpretation dict: storage_laws DictStorage
  by (rule DictStorage_laws)

text \<open>A composite of two storages that keep the laws keeps them.\<close>

lemma CompositeStorage_laws:
  assumes "storage_laws M" and "storage_laws F"
  shows "storage_laws (CompositeStorage M F)"
proof
  fix s k v
  show "\<exists>s'. set_value (CompositeStorage M F) s k v = Inr s'"
    using storage_laws.set_value_ok [OF assms(1), of "main s" k v]
      storage_laws.set_value_ok [OF assms(2), of "fallback s" k v]
    by (auto simp: CompositeStorage_def)
next
  fix s k
  show "\<exists>r. get_value (CompositeStorage M F) s k = Inr r"
    using storage_laws.get_value_ok [OF assms(1), of "main s" k]
      storage_laws.get_value_ok [OF assms(2), of "fallback s" k]
    by (auto simp: CompositeStorage_def split: option.split)
next
  fix s k v s' k'
  assume "set_value (CompositeStorage M F) s k v = Inr s'"
  then obtain m f where m: "set_value M (main s) k v = Inr m"
    and f: "set_value F (fallback s) k v = Inr f"
    and s': "s' = s \<lparr> main := m, fallback := f \<rparr>"
    by (auto simp: CompositeStorage_def bindR_eq_Inr_iff)
  show "get_value (CompositeStorage M F) s' k' =
      (if k' = k then Inr (Some v) else get_value (CompositeStorage M F) s k')"
    by (auto simp: CompositeStorage_def s' storage_laws.get_set [OF assms(1) m]
        storage_laws.get_set [OF assms(2) f]
        split: sum.split exn.split option.split storage_error.split)
qed

interpretation cached: storage_laws "CachedStorage DictStorage"
  unfolding CachedStorage_def by (rule CompositeStorage_laws [OF DictStorage_laws DictStorage_laws])

text \<open>
  A composite storage reads through: a value found in the main storage wins, a key missing
  there (or reported as missing by the error \<open>ContentNotFound\<close>) is looked up in the fallback
  storage, and any other failure of the main storage is returned.
\<close>

lemma composite_read_through:
  "get_value (CompositeStorage M F) s k =
     (if get_value M (main s) k \<in> {Inr None, Inl (Error ContentNotFound)}
      then get_value F (fallback s) k else get_value M (main s) k)"
  by (auto simp: CompositeStorage_def split: sum.split exn.split option.split storage_error.split)

end
