(* ===== verification/Crypto.thy ===== *)
theory Crypto
  imports Storage
begin

text \<open>
  The hash functions of \<open>crypto/pedersen.rs\<close> and \<open>crypto/poseidon.rs\<close>.

  The functions on field elements come from the crate \<open>starknet_crypto\<close> and are parameters:
  \<open>pedersen_hash\<close>, \<open>poseidon_hash\<close> and \<open>poseidon_hash_many\<close>, functions on representatives whose
  result stands for a field element. The code modelled here converts the byte strings: a conversion
  fails on more than 32 bytes and on a value that is not below the prime, and then the hash
  functions panic.

  The locale \<open>hash_laws\<close> is what the trees use of a hash function; it holds for both functions and
  every choice of the parameters.
\<close>

text \<open>\<open>FieldElement::from_byte_slice_be\<close>\<close>

definition felt_bytes :: "bytes \<Rightarrow> bool" where
  "felt_bytes x \<longleftrightarrow> length x \<le> 32 \<and> nat_of_bytes_be x < STARK_PRIME"

definition FieldElement_from_byte_slice_be :: "bytes \<Rightarrow> felt option" where
  "FieldElement_from_byte_slice_be x = (if felt_bytes x then Some (nat_of_bytes_be x) else None)"

definition PedersenHash :: "(felt \<Rightarrow> felt \<Rightarrow> felt) \<Rightarrow> hash_fn" where
  "PedersenHash pedersen_hash x y =
     (case (FieldElement_from_byte_slice_be x, FieldElement_from_byte_slice_be y) of
        (Some x_felt, Some y_felt) \<Rightarrow>
          Some (Hash_from_bytes_be (felt_to_bytes_be (felt_of_nat (pedersen_hash x_felt y_felt))))
      | _ \<Rightarrow> None)"

definition PoseidonHash :: "(felt \<Rightarrow> felt \<Rightarrow> felt) \<Rightarrow> hash_fn" where
  "PoseidonHash poseidon_hash x y =
     (case (FieldElement_from_byte_slice_be x, FieldElement_from_byte_slice_be y) of
        (Some x_felt, Some y_felt) \<Rightarrow>
          Some (Hash_from_bytes_be (felt_to_bytes_be (felt_of_nat (poseidon_hash x_felt y_felt))))
      | _ \<Rightarrow> None)"

datatype math_error = ByteConversionError

definition poseidon_hash_many_bytes ::
  "(felt list \<Rightarrow> felt) \<Rightarrow> bytes list \<Rightarrow> (math_error, hash) res" where
  "poseidon_hash_many_bytes poseidon_hash_many msgs =
     bindR (mapR (\<lambda>elem. ok_or ByteConversionError (FieldElement_from_byte_slice_be elem)) msgs)
       (\<lambda>field_elements.
         Inr (Hash_from_bytes_be (felt_to_bytes_be (felt_of_nat (poseidon_hash_many field_elements)))))"

text \<open>The hashes that are the bytes of a field element.\<close>

definition hash_valid :: "hash \<Rightarrow> bool" where
  "hash_valid h \<longleftrightarrow> hash_wf h \<and> biguint_of_Hash h < STARK_PRIME"

lemma hash_valid_wf: "hash_valid h \<Longrightarrow> hash_wf h"
  by (simp add: hash_valid_def)

lemma hash_valid_felt_bytes: "hash_valid h \<Longrightarrow> felt_bytes h"
  by (simp add: hash_valid_def felt_bytes_def hash_wf_def biguint_of_Hash_def)

lemma hash_valid_Hash_of_felt [simp]: "felt_wf x \<Longrightarrow> hash_valid (Hash_of_felt x)"
  by (simp add: hash_valid_def biguint_of_Hash_def Hash_of_felt_def Hash_from_bytes_be_def)
    (simp add: hash_wf_def felt_wf_def)

lemma hash_valid_empty [simp]: "hash_valid Hash_empty"
  by (simp add: Hash_empty_felt)

lemma EMPTY_HASH_eq: "EMPTY_HASH = Hash_empty"
  by (simp add: Hash_empty_def Hash_from_bytes_be_def)

lemma felt_bytes_to_bytes_be: "n < STARK_PRIME \<Longrightarrow> felt_bytes (to_bytes_be n)"
  using STARK_PRIME_less length_to_bytes_be [of 32 n] by (simp add: felt_bytes_def)

lemma felt_bytes_felt [simp]: "felt_wf x \<Longrightarrow> felt_bytes (felt_to_bytes_be x)"
  by (simp add: felt_bytes_def) (simp add: felt_wf_def)

locale hash_laws =
  fixes H :: hash_fn
  assumes hash_defined: "felt_bytes x \<Longrightarrow> felt_bytes y \<Longrightarrow> \<exists>h. H x y = Some h \<and> hash_valid h"

lemma PedersenHash_laws: "hash_laws (PedersenHash ped)"
  by unfold_locales (simp add: PedersenHash_def FieldElement_from_byte_slice_be_def
      flip: Hash_of_felt_def)

interpretation pedersen: hash_laws "PedersenHash ped" for ped
  by (rule PedersenHash_laws)

interpretation poseidon: hash_laws "PoseidonHash pos" for pos
  by unfold_locales (simp add: PoseidonHash_def FieldElement_from_byte_slice_be_def
      flip: Hash_of_felt_def)

end
