(* ===== verification/Patricia_Nodes.thy ===== *)
theory Patricia_Nodes
  imports Crypto
begin

text \<open>
  The basic types of the commitment tree and the facts of its nodes:
  \<open>starkware_utils/commitment_tree/\<close> \<open>base_types.rs\<close>, \<open>errors.rs\<close>, \<open>inner_node_fact.rs\<close> and
  \<open>patricia_tree/nodes.rs\<close> (under \<open>crates/starknet-os/src\<close>).

  The one-field structs \<open>NodePath\<close>, \<open>Length\<close> and \<open>Height\<close> are their field. The lemmas show that
  every node fact has exactly one encoding, and which byte strings are rejected.
\<close>

section \<open>Base types and errors\<close>

type_synonym tree_index = nat
type_synonym node_path = nat
type_synonym edge_len = nat
type_synonym height = nat

datatype combine_error =
  CombineError_Storage storage_error
| TreeHeightsDiffer height height
| CannotCombineToVirtualEdgeNode

datatype update_tree_error =
  UpdateTreeError_Storage storage_error
| UpdateTreeError_Combine combine_error

datatype tree_error =
  TreeError_Storage storage_error
| TreeError_UpdateTree update_tree_error
| TreeHeightsMismatch height height
| IsLeaf
| IsEmpty
| InvalidEdgePath node_path edge_len

definition NodePath_serialize :: "node_path \<Rightarrow> (serialize_error, bytes) res" where
  "NodePath_serialize p =
     (let bs = to_bytes_be p in
      bindR (u64_sub HASH_BYTES (length bs)) (\<lambda>n. Inr (replicate n 0 @ bs)))"

definition NodePath_deserialize :: "bytes \<Rightarrow> (deserialize_error, node_path) res" where
  "NodePath_deserialize data = Inr (nat_of_bytes_be data)"

definition Length_serialize :: "edge_len \<Rightarrow> (serialize_error, bytes) res" where
  "Length_serialize l = (if l > 255 then Inl (Error (ValueTooLong 1)) else Inr [word_of_nat l])"

definition Length_deserialize :: "bytes \<Rightarrow> (deserialize_error, edge_len) res" where
  "Length_deserialize data =
     (case data of b # _ \<Rightarrow> Inr (unat b) | [] \<Rightarrow> Inl (Panic ''index out of bounds''))"

text \<open>\<open>[T]::chunks\<close>\<close>

fun chunks :: "nat \<Rightarrow> 'a list \<Rightarrow> 'a list list" where
  "chunks n xs = (if xs = [] \<or> n = 0 then [] else take n xs # chunks n (drop n xs))"

declare chunks.simps [simp del]

section \<open>Node facts\<close>

text \<open>The bytes of \<open>"patricia_node"\<close>.\<close>

definition PATRICIA_NODE_PREFIX :: bytes where
  "PATRICIA_NODE_PREFIX = ascii ''patricia_node''"

record binary_node_fact =
  left_node :: hash
  right_node :: hash

record edge_node_fact =
  edge_bottom_node :: hash
  edge_path :: node_path
  edge_length :: edge_len

datatype patricia_node_fact =
  EmptyFact
| BinaryFact binary_node_fact
| EdgeFact edge_node_fact

datatype binary_node_error = LeftNodeIsEmpty | RightNodeIsEmpty

text \<open>\<open>InnerNodeFact\<close>\<close>

record 'o inner_node_fact = "'o fact" +
  to_tuple :: "'o \<Rightarrow> nat list"

subsection \<open>Empty nodes\<close>

definition EmptyNodeFact_PREIMAGE_LENGTH :: nat where
  "EmptyNodeFact_PREIMAGE_LENGTH = 0"

definition EmptyNodeFact_serialize :: "(serialize_error, bytes) res" where
  "EmptyNodeFact_serialize = Inr []"

subsection \<open>Binary nodes\<close>

definition BinaryNodeFact_PREIMAGE_LENGTH :: nat where
  "BinaryNodeFact_PREIMAGE_LENGTH = 2 * HASH_BYTES"

definition BinaryNodeFact_new :: "hash \<Rightarrow> hash \<Rightarrow> (binary_node_error, binary_node_fact) res" where
  "BinaryNodeFact_new l r =
     (if l = EMPTY_HASH then Inl (Error LeftNodeIsEmpty)
      else if r = EMPTY_HASH then Inl (Error RightNodeIsEmpty)
      else Inr \<lparr> left_node = l, right_node = r \<rparr>)"

definition BinaryNodeFact_to_tuple :: "binary_node_fact \<Rightarrow> nat list" where
  "BinaryNodeFact_to_tuple b = [nat_of_bytes_be (left_node b), nat_of_bytes_be (right_node b)]"

definition BinaryNodeFact_hash :: "hash_fn \<Rightarrow> binary_node_fact \<Rightarrow> hash option" where
  "BinaryNodeFact_hash H b = H (left_node b) (right_node b)"

definition BinaryNodeFact_serialize :: "binary_node_fact \<Rightarrow> (serialize_error, bytes) res" where
  "BinaryNodeFact_serialize b = Inr (left_node b @ right_node b)"

definition BinaryNodeFact_deserialize :: "bytes \<Rightarrow> (deserialize_error, binary_node_fact) res" where
  "BinaryNodeFact_deserialize data =
     (let expected_len = 2 * HASH_BYTES in
      if length data \<noteq> expected_len then Inl (Error (LengthMismatch expected_len (length data)))
      else case chunks HASH_BYTES data of
        l # r # _ \<Rightarrow>
          bindR (Hash_from_bytes_be_slice l) (\<lambda>l'.
          bindR (Hash_from_bytes_be_slice r) (\<lambda>r'.
            Inr \<lparr> left_node = l', right_node = r' \<rparr>))
      | _ \<Rightarrow> Inl (Panic ''unwrap on None''))"

subsection \<open>Edge nodes\<close>

definition verify_path_value :: "node_path \<Rightarrow> edge_len \<Rightarrow> (tree_error, unit) res" where
  "verify_path_value p l = (if p \<ge> 2 ^ l then Inl (Error (InvalidEdgePath p l)) else Inr ())"

definition path_is_ok :: "node_path \<Rightarrow> edge_len \<Rightarrow> bool" where
  "path_is_ok p l = (case verify_path_value p l of Inr _ \<Rightarrow> True | Inl _ \<Rightarrow> False)"

definition serialize_edge :: "bytes \<Rightarrow> node_path \<Rightarrow> edge_len \<Rightarrow> (serialize_error, bytes) res" where
  "serialize_edge bottom p l =
     bindR (NodePath_serialize p) (\<lambda>path_bytes.
     bindR (Length_serialize l) (\<lambda>length_bytes.
       Inr (concat [bottom, path_bytes, length_bytes])))"

definition hash_edge :: "hash_fn \<Rightarrow> bytes \<Rightarrow> node_path \<Rightarrow> edge_len \<Rightarrow> hash option" where
  "hash_edge H bottom p l =
     (case H bottom (to_bytes_be p) of
        None \<Rightarrow> None
      | Some bottom_path_hash \<Rightarrow>
          (let hash_value = felt_add (felt_from_bytes_be_slice bottom_path_hash) l in
           Some (Hash_of_felt hash_value)))"

definition EdgeNodeFact_PREIMAGE_LENGTH :: nat where
  "EdgeNodeFact_PREIMAGE_LENGTH = 2 * HASH_BYTES + 1"

definition EdgeNodeFact_new :: "hash \<Rightarrow> node_path \<Rightarrow> edge_len \<Rightarrow> (tree_error, edge_node_fact) res" where
  "EdgeNodeFact_new bottom p l =
     bindR (verify_path_value p l) (\<lambda>_.
       Inr \<lparr> edge_bottom_node = bottom, edge_path = p, edge_length = l \<rparr>)"

definition EdgeNodeFact_new_unchecked :: "hash \<Rightarrow> node_path \<Rightarrow> edge_len \<Rightarrow> ('e, edge_node_fact) res" where
  "EdgeNodeFact_new_unchecked bottom p l =
     bindR (assert_that ''verify_path_value'' (path_is_ok p l)) (\<lambda>_.
       Inr \<lparr> edge_bottom_node = bottom, edge_path = p, edge_length = l \<rparr>)"

definition EdgeNodeFact_to_tuple :: "edge_node_fact \<Rightarrow> nat list" where
  "EdgeNodeFact_to_tuple n = [edge_length n, edge_path n, biguint_of_Hash (edge_bottom_node n)]"

definition EdgeNodeFact_hash :: "hash_fn \<Rightarrow> edge_node_fact \<Rightarrow> hash option" where
  "EdgeNodeFact_hash H n = hash_edge H (edge_bottom_node n) (edge_path n) (edge_length n)"

definition EdgeNodeFact_serialize :: "edge_node_fact \<Rightarrow> (serialize_error, bytes) res" where
  "EdgeNodeFact_serialize n = serialize_edge (edge_bottom_node n) (edge_path n) (edge_length n)"

definition EdgeNodeFact_deserialize :: "bytes \<Rightarrow> (deserialize_error, edge_node_fact) res" where
  "EdgeNodeFact_deserialize data =
     (let expected_len = 2 * HASH_BYTES + 1 in
      if length data \<noteq> expected_len then Inl (Error (LengthMismatch expected_len (length data)))
      else case chunks HASH_BYTES data of
        b # p # l # _ \<Rightarrow>
          bindR (Hash_from_bytes_be_slice b) (\<lambda>bottom.
          bindR (NodePath_deserialize p) (\<lambda>path.
          bindR (Length_deserialize l) (\<lambda>len.
            EdgeNodeFact_new_unchecked bottom path len)))
      | _ \<Rightarrow> Inl (Panic ''unwrap on None''))"

definition EdgeNodeFact_inf :: "hash_fn \<Rightarrow> edge_node_fact inner_node_fact" where
  "EdgeNodeFact_inf H =
     \<lparr> prefix = PATRICIA_NODE_PREFIX,
       serialize = EdgeNodeFact_serialize,
       deserialize = EdgeNodeFact_deserialize,
       fact_hash = EdgeNodeFact_hash H,
       to_tuple = EdgeNodeFact_to_tuple \<rparr>"

subsection \<open>The sum of the node facts\<close>

definition PatriciaNodeFact_serialize :: "patricia_node_fact \<Rightarrow> (serialize_error, bytes) res" where
  "PatriciaNodeFact_serialize n =
     (case n of
        EmptyFact \<Rightarrow> EmptyNodeFact_serialize
      | BinaryFact b \<Rightarrow> BinaryNodeFact_serialize b
      | EdgeFact e \<Rightarrow> EdgeNodeFact_serialize e)"

definition PatriciaNodeFact_deserialize :: "bytes \<Rightarrow> (deserialize_error, patricia_node_fact) res" where
  "PatriciaNodeFact_deserialize data =
     (if length data = EmptyNodeFact_PREIMAGE_LENGTH then Inr EmptyFact
      else if length data = BinaryNodeFact_PREIMAGE_LENGTH
        then bindR (BinaryNodeFact_deserialize data) (\<lambda>b. Inr (BinaryFact b))
      else if length data = EdgeNodeFact_PREIMAGE_LENGTH
        then bindR (EdgeNodeFact_deserialize data) (\<lambda>e. Inr (EdgeFact e))
      else Inl (Error (NoVariantWithLength (length data))))"

definition PatriciaNodeFact_hash :: "hash_fn \<Rightarrow> patricia_node_fact \<Rightarrow> hash option" where
  "PatriciaNodeFact_hash H n =
     (case n of
        EmptyFact \<Rightarrow> Some Hash_empty
      | BinaryFact b \<Rightarrow> BinaryNodeFact_hash H b
      | EdgeFact e \<Rightarrow> EdgeNodeFact_hash H e)"

definition PatriciaNodeFact_to_tuple :: "patricia_node_fact \<Rightarrow> nat list" where
  "PatriciaNodeFact_to_tuple n =
     (case n of
        EmptyFact \<Rightarrow> []
      | BinaryFact b \<Rightarrow> BinaryNodeFact_to_tuple b
      | EdgeFact e \<Rightarrow> EdgeNodeFact_to_tuple e)"

definition PatriciaNodeFact_inf :: "hash_fn \<Rightarrow> patricia_node_fact inner_node_fact" where
  "PatriciaNodeFact_inf H =
     \<lparr> prefix = PATRICIA_NODE_PREFIX,
       serialize = PatriciaNodeFact_serialize,
       deserialize = PatriciaNodeFact_deserialize,
       fact_hash = PatriciaNodeFact_hash H,
       to_tuple = PatriciaNodeFact_to_tuple \<rparr>"

section \<open>Encodings\<close>

lemma path_is_ok_iff [simp]: "path_is_ok p l \<longleftrightarrow> p < 2 ^ l"
  by (simp add: path_is_ok_def verify_path_value_def)

lemma verify_path_value_Inr [simp]: "p < 2 ^ l \<Longrightarrow> verify_path_value p l = Inr ()"
  by (simp add: verify_path_value_def)

lemma new_unchecked_eq:
  "EdgeNodeFact_new_unchecked b p l =
     (if p < 2 ^ l then Inr \<lparr> edge_bottom_node = b, edge_path = p, edge_length = l \<rparr>
      else Inl (Panic ''verify_path_value''))"
  by (simp add: EdgeNodeFact_new_unchecked_def)

lemma chunks_append:
  "length a = n \<Longrightarrow> 0 < n \<Longrightarrow> chunks n (a @ xs) = a # chunks n xs"
  by (subst chunks.simps) auto

lemma chunks_short: "xs \<noteq> [] \<Longrightarrow> length xs \<le> n \<Longrightarrow> chunks n xs = [xs]"
  by (cases n) (simp_all add: chunks.simps)

lemma binary_encoding:
  "BinaryNodeFact_deserialize data = Inr b \<longleftrightarrow>
     hash_wf (left_node b) \<and> hash_wf (right_node b) \<and> data = left_node b @ right_node b"
  (is "?L \<longleftrightarrow> ?R")
proof
  assume ?L
  then have len: "length data = 64"
    by (auto simp: BinaryNodeFact_deserialize_def HASH_BYTES_def Let_def split: if_splits)
  define l r where "l = take 32 data" and "r = drop 32 data"
  then have d: "data = l @ r" and wf: "hash_wf l" "hash_wf r"
    using len by (simp_all add: hash_wf_def)
  have "chunks 32 data = [l, r]"
    using wf by (simp add: d hash_wf_def chunks_append chunks_short flip: length_greater_0_conv)
  with \<open>?L\<close> len wf have "b = \<lparr> left_node = l, right_node = r \<rparr>"
    by (simp add: BinaryNodeFact_deserialize_def HASH_BYTES_def)
  with d wf show ?R by simp
next
  assume R: ?R
  then have "chunks 32 data = [left_node b, right_node b]"
    by (simp add: hash_wf_def chunks_append chunks_short flip: length_greater_0_conv)
  moreover have "length data = 64"
    using R by (simp add: hash_wf_def)
  ultimately show ?L
    using R by (simp add: BinaryNodeFact_deserialize_def HASH_BYTES_def)
qed

definition edge_wf :: "edge_node_fact \<Rightarrow> bool" where
  "edge_wf e \<longleftrightarrow> hash_wf (edge_bottom_node e) \<and> edge_path e < 2 ^ edge_length e \<and> edge_length e \<le> 255"

lemma edge_wf_path: "edge_wf e \<Longrightarrow> edge_path e < 256 ^ 32"
proof -
  assume "edge_wf e"
  then have "edge_path e < 2 ^ edge_length e" "edge_length e \<le> 255"
    by (auto simp: edge_wf_def)
  moreover have "(2::nat) ^ edge_length e \<le> 2 ^ 256"
    using \<open>edge_length e \<le> 255\<close> by (intro power_increasing) auto
  ultimately show ?thesis by simp
qed

lemma NodePath_serialize_eq: "p < 256 ^ 32 \<Longrightarrow> NodePath_serialize p = Inr (fixed_be 32 p)"
  using pad_to_bytes_be [of p 32] length_to_bytes_be [of 32 p]
  by (simp add: NodePath_serialize_def HASH_BYTES_def)

lemma edge_serialize_eq:
  "edge_wf e \<Longrightarrow> EdgeNodeFact_serialize e =
     Inr (edge_bottom_node e @ fixed_be 32 (edge_path e) @ [word_of_nat (edge_length e)])"
  using edge_wf_path [of e]
  by (simp add: EdgeNodeFact_serialize_def serialize_edge_def NodePath_serialize_eq
      Length_serialize_def edge_wf_def)

lemma chunks_edge:
  assumes "length b = 32" and "length p = 32"
  shows "chunks 32 (b @ p @ [x]) = [b, p, [x]]"
  using assms by (simp add: chunks_append chunks_short)

lemma edge_deserialize_eq:
  assumes "length b = 32" and "length p = 32"
  shows "EdgeNodeFact_deserialize (b @ p @ [x]) =
    EdgeNodeFact_new_unchecked b (nat_of_bytes_be p) (unat x)"
  using assms
  by (simp add: EdgeNodeFact_deserialize_def HASH_BYTES_def chunks_edge NodePath_deserialize_def
      Length_deserialize_def hash_wf_def)

lemma edge_deserialize_serialize:
  assumes "edge_wf e" and "EdgeNodeFact_serialize e = Inr data"
  shows "EdgeNodeFact_deserialize data = Inr e"
  using assms edge_wf_path [of e] unat_byte_of_nat [of "edge_length e"]
  by (auto simp: edge_serialize_eq edge_deserialize_eq edge_wf_def hash_wf_def new_unchecked_eq)

lemma edge_serialize_deserialize:
  assumes "EdgeNodeFact_deserialize data = Inr e"
  shows "edge_wf e \<and> EdgeNodeFact_serialize e = Inr data"
proof -
  have len: "length data = 65"
    using assms by (auto simp: EdgeNodeFact_deserialize_def HASH_BYTES_def Let_def split: if_splits)
  define b p where "b = take 32 data" and "p = take 32 (drop 32 data)"
  then have bp: "length b = 32" "length p = 32"
    using len by simp_all
  obtain x where x: "drop 64 data = [x]"
    using len length_drop [of 64 data] by (auto simp: length_Suc_conv simp del: length_drop)
  have data: "data = b @ p @ [x]"
    using append_take_drop_id [of 32 data] append_take_drop_id [of 32 "drop 32 data"] x
    by (simp add: b_def p_def)
  have "unat x < 256"
    by (rule order_less_le_trans [OF unsigned_less]) simp
  with assms bp have e: "e = \<lparr> edge_bottom_node = b, edge_path = nat_of_bytes_be p, edge_length = unat x \<rparr>"
    and wf: "edge_wf e"
    by (auto simp: data edge_deserialize_eq new_unchecked_eq edge_wf_def hash_wf_def split: if_splits)
  show ?thesis
    using wf edge_serialize_eq [OF wf] bp by (simp add: e data)
qed

text \<open>The node facts with an encoding.\<close>

definition node_fact_wf :: "patricia_node_fact \<Rightarrow> bool" where
  "node_fact_wf n =
     (case n of
        EmptyFact \<Rightarrow> True
      | BinaryFact b \<Rightarrow> hash_wf (left_node b) \<and> hash_wf (right_node b)
      | EdgeFact e \<Rightarrow> edge_wf e)"

lemma node_fact_serialize_ok: "node_fact_wf n \<Longrightarrow> \<exists>data. PatriciaNodeFact_serialize n = Inr data"
  by (auto simp: PatriciaNodeFact_serialize_def node_fact_wf_def EmptyNodeFact_serialize_def
      BinaryNodeFact_serialize_def edge_serialize_eq split: patricia_node_fact.splits)

lemma node_fact_encoding:
  "PatriciaNodeFact_deserialize data = Inr n \<longleftrightarrow>
     node_fact_wf n \<and> PatriciaNodeFact_serialize n = Inr data"
proof (cases n)
  case EmptyFact
  then show ?thesis
    by (auto simp: PatriciaNodeFact_deserialize_def PatriciaNodeFact_serialize_def node_fact_wf_def
        EmptyNodeFact_serialize_def EmptyNodeFact_PREIMAGE_LENGTH_def bindR_eq_Inr_iff)
next
  case (BinaryFact b)
  have "PatriciaNodeFact_deserialize data = Inr n \<longleftrightarrow> BinaryNodeFact_deserialize data = Inr b"
    by (auto simp: BinaryFact PatriciaNodeFact_deserialize_def EmptyNodeFact_PREIMAGE_LENGTH_def
        BinaryNodeFact_PREIMAGE_LENGTH_def HASH_BYTES_def bindR_eq_Inr_iff binary_encoding hash_wf_def)
  then show ?thesis
    by (auto simp: binary_encoding BinaryFact node_fact_wf_def PatriciaNodeFact_serialize_def
        BinaryNodeFact_serialize_def)
next
  case (EdgeFact e)
  have "EdgeNodeFact_deserialize data = Inr e \<Longrightarrow> length data = 65"
    by (auto simp: EdgeNodeFact_deserialize_def HASH_BYTES_def Let_def split: if_splits)
  then have "PatriciaNodeFact_deserialize data = Inr n \<longleftrightarrow> EdgeNodeFact_deserialize data = Inr e"
    by (auto simp: EdgeFact PatriciaNodeFact_deserialize_def EmptyNodeFact_PREIMAGE_LENGTH_def
        BinaryNodeFact_PREIMAGE_LENGTH_def EdgeNodeFact_PREIMAGE_LENGTH_def HASH_BYTES_def
        bindR_eq_Inr_iff)
  also have "\<dots> \<longleftrightarrow> edge_wf e \<and> EdgeNodeFact_serialize e = Inr data"
    using edge_deserialize_serialize edge_serialize_deserialize by blast
  finally show ?thesis
    by (simp add: EdgeFact node_fact_wf_def PatriciaNodeFact_serialize_def)
qed

lemma PatriciaNodeFact_inf_simps [simp]:
  "prefix (PatriciaNodeFact_inf H) = PATRICIA_NODE_PREFIX"
  "serialize (PatriciaNodeFact_inf H) = PatriciaNodeFact_serialize"
  "deserialize (PatriciaNodeFact_inf H) = PatriciaNodeFact_deserialize"
  "fact_hash (PatriciaNodeFact_inf H) = PatriciaNodeFact_hash H"
  "to_tuple (PatriciaNodeFact_inf H) = PatriciaNodeFact_to_tuple"
  by (simp_all add: PatriciaNodeFact_inf_def)

lemma EdgeNodeFact_inf_simps [simp]:
  "prefix (EdgeNodeFact_inf H) = PATRICIA_NODE_PREFIX"
  "serialize (EdgeNodeFact_inf H) = EdgeNodeFact_serialize"
  "deserialize (EdgeNodeFact_inf H) = EdgeNodeFact_deserialize"
  "fact_hash (EdgeNodeFact_inf H) = EdgeNodeFact_hash H"
  "to_tuple (EdgeNodeFact_inf H) = EdgeNodeFact_to_tuple"
  by (simp_all add: EdgeNodeFact_inf_def)

text \<open>
  C17. The byte encoding of the node facts is exact. A byte string decodes to a node fact if and
  only if the fact is well formed (hashes of 32 bytes; an edge of length at most 255 whose path
  fits in its length) and the string is the encoding of that fact. So no two facts share an
  encoding and no fact has two.
\<close>

theorem node_fact_codec:
  "deserialize (PatriciaNodeFact_inf H) data = Inr n \<longleftrightarrow>
     node_fact_wf n \<and> serialize (PatriciaNodeFact_inf H) n = Inr data"
  by (simp add: node_fact_encoding)

text \<open>
  C26. Decoding a node fact distinguishes the variants by the number of bytes alone. Any length
  other than 0, 64 and 65 is the error \<open>NoVariantWithLength\<close>, 0 and 64 bytes always decode, and 65
  bytes decode or stop at the path assertion: no other error comes out.
\<close>

theorem node_fact_decode_errors:
  "PatriciaNodeFact_deserialize data =
     (if length data = 0 then Inr EmptyFact
      else if length data = 64 then
        Inr (BinaryFact \<lparr> left_node = take 32 data, right_node = drop 32 data \<rparr>)
      else if length data = 65 then
        (if nat_of_bytes_be (take 32 (drop 32 data)) < 2 ^ unat (last data)
         then Inr (EdgeFact \<lparr> edge_bottom_node = take 32 data,
                edge_path = nat_of_bytes_be (take 32 (drop 32 data)),
                edge_length = unat (last data) \<rparr>)
         else Inl (Panic ''verify_path_value''))
      else Inl (Error (NoVariantWithLength (length data))))"
proof -
  consider (e) "length data = 0" | (b) "length data = 64" | (d) "length data = 65"
    | (o) "length data \<notin> {0, 64, 65}" by blast
  then show ?thesis
  proof cases
    case b
    then have "BinaryNodeFact_deserialize data =
        Inr \<lparr> left_node = take 32 data, right_node = drop 32 data \<rparr>"
      by (simp add: binary_encoding hash_wf_def)
    with b show ?thesis
      by (auto simp: PatriciaNodeFact_deserialize_def EmptyNodeFact_PREIMAGE_LENGTH_def
          BinaryNodeFact_PREIMAGE_LENGTH_def HASH_BYTES_def)
  next
    case d
    have "data \<noteq> []" using d by auto
    have split: "data = take 32 data @ take 32 (drop 32 data) @ [last data]"
    proof -
      obtain y where y: "drop 64 data = [y]"
        using d length_drop [of 64 data] by (auto simp: length_Suc_conv simp del: length_drop)
      then have "drop 64 data = [last data]"
        using d last_drop [of 64 data] unfolding y by simp
      then show ?thesis
        using append_take_drop_id [of 32 data] append_take_drop_id [of 32 "drop 32 data"] by simp
    qed
    have "EdgeNodeFact_deserialize data = EdgeNodeFact_new_unchecked (take 32 data)
        (nat_of_bytes_be (take 32 (drop 32 data))) (unat (last data))"
      by (subst (1) split, rule edge_deserialize_eq) (use d in simp_all)
    with d \<open>data \<noteq> []\<close> show ?thesis
      by (auto simp: PatriciaNodeFact_deserialize_def EmptyNodeFact_PREIMAGE_LENGTH_def
          BinaryNodeFact_PREIMAGE_LENGTH_def EdgeNodeFact_PREIMAGE_LENGTH_def HASH_BYTES_def
          new_unchecked_eq)
  qed (simp_all add: PatriciaNodeFact_deserialize_def EmptyNodeFact_PREIMAGE_LENGTH_def
      BinaryNodeFact_PREIMAGE_LENGTH_def EdgeNodeFact_PREIMAGE_LENGTH_def HASH_BYTES_def)
qed

end
