(* ===== verification/Traverse.thy ===== *)
theory Traverse
  imports Patricia_Nodes
begin

text \<open>
  The tree traversal loop of \<open>starkware_utils/commitment_tree/merkle_tree/traverse_tree.rs\<close>.

  A traverser is a state and the callback \<open>get_children\<close>, which visits a node, changes the state
  and returns the nodes to visit next. The loop may run forever for an arbitrary callback, so it is
  a partial function and not returning is the value \<open>None\<close>. The locale \<open>traverser\<close> is the contract
  under which it returns: the children of a node weigh less than the node. Each traverser of the
  code is an interpretation of it.
\<close>

type_synonym ('t, 'n) get_children = "'t \<Rightarrow> 'n \<Rightarrow> (tree_error, 'n list \<times> 't) res"

partial_function (option) traverse_queue ::
  "('t, 'n) get_children \<Rightarrow> 't \<Rightarrow> 'n list \<Rightarrow> (tree_error, 't) res option" where
  "traverse_queue gc t queue =
     (case queue of
        [] \<Rightarrow> Some (Inr t)
      | node # rest \<Rightarrow>
          (case gc t node of
             Inl e \<Rightarrow> Some (Inl e)
           | Inr r \<Rightarrow> traverse_queue gc (snd r) (rest @ fst r)))"

declare traverse_queue.simps [code]

definition traverse_tree ::
  "('t, 'n) get_children \<Rightarrow> 't \<Rightarrow> 'n \<Rightarrow> (tree_error, 't) res option" where
  "traverse_tree gc t root = traverse_queue gc t [root]"

text \<open>
  The callers use the result of a loop that returned. A loop that does not return is kept apart
  from every result; the lemma \<open>traverse_returns\<close> below shows for each caller that this case does
  not arise.
\<close>

definition returned :: "('e, 'a) res option \<Rightarrow> ('e, 'a) res" where
  "returned r = (case r of Some v \<Rightarrow> v | None \<Rightarrow> Inl (Panic ''does not return''))"

lemma returned_Some [simp]: "returned (Some v) = v"
  by (simp add: returned_def)

lemma traverse_queue_simps [simp]:
  "traverse_queue gc t [] = Some (Inr t)"
  "traverse_queue gc t (node # rest) =
     (case gc t node of
        Inl e \<Rightarrow> Some (Inl e)
      | Inr r \<Rightarrow> traverse_queue gc (snd r) (rest @ fst r))"
  by (subst traverse_queue.simps, simp)+

locale traverser =
  fixes gc :: "('t, 'n) get_children"
    and weight :: "'n \<Rightarrow> nat"
  assumes lighter: "gc t n = Inr (ns, t') \<Longrightarrow> sum_list (map weight ns) < weight n"
begin

lemma traverse_queue_returns: "\<exists>r. traverse_queue gc t queue = Some r"
proof (induction "sum_list (map weight queue)" arbitrary: t queue rule: less_induct)
  case less
  show ?case
  proof (cases queue)
    case Nil
    then show ?thesis by simp
  next
    case (Cons node rest)
    show ?thesis
    proof (cases "gc t node")
      case (Inl e)
      with Cons show ?thesis by simp
    next
      case (Inr r)
      obtain ns t' where r: "r = (ns, t')" by (cases r)
      have "sum_list (map weight (rest @ ns)) < sum_list (map weight queue)"
        using lighter [of t node ns t'] Inr Cons by (simp add: r)
      from less [OF this] Cons Inr show ?thesis by (simp add: r)
    qed
  qed
qed

lemma traverse_returns: "\<exists>r. traverse_tree gc t root = Some r"
  unfolding traverse_tree_def by (rule traverse_queue_returns)

text \<open>
  The invariant rule: if \<open>P\<close> holds of the state and the queue, and visiting the head of the queue
  succeeds and keeps it, then the traversal succeeds and \<open>P\<close> holds of the final state and the
  empty queue.
\<close>

lemma traverse_queue_invariant:
  assumes "P t queue"
    and step: "\<And>t n rest. P t (n # rest) \<Longrightarrow> \<exists>ns t'. gc t n = Inr (ns, t') \<and> P t' (rest @ ns)"
  shows "\<exists>t'. traverse_queue gc t queue = Some (Inr t') \<and> P t' []"
  using assms(1)
proof (induction "sum_list (map weight queue)" arbitrary: t queue rule: less_induct)
  case less
  show ?case
  proof (cases queue)
    case Nil
    with less.prems show ?thesis by simp
  next
    case (Cons node rest)
    with less.prems step obtain ns t' where gc: "gc t node = Inr (ns, t')" and P: "P t' (rest @ ns)"
      by meson
    have "sum_list (map weight (rest @ ns)) < sum_list (map weight queue)"
      using lighter [OF gc] Cons by simp
    from less.hyps [OF this P] Cons gc show ?thesis by simp
  qed
qed

lemma traverse_invariant:
  assumes "P t [root]"
    and "\<And>t n rest. P t (n # rest) \<Longrightarrow> \<exists>ns t'. gc t n = Inr (ns, t') \<and> P t' (rest @ ns)"
  shows "\<exists>t'. traverse_tree gc t root = Some (Inr t') \<and> P t' []"
  using traverse_queue_invariant [of P t "[root]"] assms by (auto simp: traverse_tree_def)

text \<open>A traversal that returns keeps what every visit keeps.\<close>

lemma traverse_queue_preserves:
  assumes "traverse_queue gc t queue = Some (Inr t')" and "P t"
    and step: "\<And>t n ns t'. gc t n = Inr (ns, t') \<Longrightarrow> P t \<Longrightarrow> P t'"
  shows "P t'"
  using assms(1,2)
proof (induction "sum_list (map weight queue)" arbitrary: t queue rule: less_induct)
  case less
  show ?case
  proof (cases queue)
    case (Cons node rest)
    with less.prems obtain ns t1 where gc: "gc t node = Inr (ns, t1)"
      and rec: "traverse_queue gc t1 (rest @ ns) = Some (Inr t')"
      by (auto split: sum.splits)
    have "sum_list (map weight (rest @ ns)) < sum_list (map weight queue)"
      using lighter [OF gc] Cons by simp
    from less.hyps [OF this rec step [OF gc less.prems(2)]] show ?thesis .
  qed (use less.prems in simp)
qed

lemma traverse_preserves:
  assumes "traverse_tree gc t root = Some (Inr t')" and "P t"
    and "\<And>t n ns t'. gc t n = Inr (ns, t') \<Longrightarrow> P t \<Longrightarrow> P t'"
  shows "P t'"
  using traverse_queue_preserves [of t "[root]" t' P] assms by (auto simp: traverse_tree_def)

end

end
