(* ===== verification/Tree_Node.thy ===== *)
theory Tree_Node
  imports Traverse
begin

text \<open>
  Reading a Patricia tree from the storage: the trait \<open>BinaryFactTreeNode\<close> of
  \<open>starkware_utils/commitment_tree/binary_fact_tree_node.rs\<close> and its implementation
  \<open>VirtualPatriciaNode\<close> of \<open>patricia_tree/virtual_patricia_node.rs\<close>.

  The type parameters \<open>S\<close>, \<open>H\<close> and \<open>LF\<close> of the Rust code are the record \<open>tree_env\<close>: the storage, the
  hash function and the leaf fact. A function that reads takes the state of the storage and the
  optional dictionary of facts, which it returns extended.
\<close>

unbundle bit_operations_syntax

record ('s, 'lf) tree_env =
  env_storage :: "'s storage_ops"
  env_hash :: hash_fn
  env_leaf :: "'lf leaf_fact"

type_synonym binary_fact_dict = "(nat, nat list) hash_map"

definition binary_fact_dict_to_felts :: "binary_fact_dict \<Rightarrow> (felt, felt list) hash_map" where
  "binary_fact_dict_to_felts d =
     hm_extend [] (map (\<lambda>(key, values). (felt_of_nat key, map felt_of_nat values)) d)"

definition read_node_fact ::
  "'s storage_ops \<Rightarrow> 'o inner_node_fact \<Rightarrow> 's \<Rightarrow> bytes \<Rightarrow> binary_fact_dict option
   \<Rightarrow> (storage_error, 'o \<times> binary_fact_dict option) res" where
  "read_node_fact St I s fhash facts =
     bindR (get_or_fail St I s fhash) (\<lambda>inner_node_fact.
       Inr (inner_node_fact,
            map_option (hm_insert (nat_of_bytes_be fhash) (to_tuple I inner_node_fact)) facts))"

definition write_node_fact ::
  "'s storage_ops \<Rightarrow> 'o inner_node_fact \<Rightarrow> 's \<Rightarrow> 'o \<Rightarrow> binary_fact_dict option
   \<Rightarrow> (storage_error, hash \<times> 's \<times> binary_fact_dict option) res" where
  "write_node_fact St I s inner_node_fact facts =
     bindR (set_fact St I inner_node_fact s) (\<lambda>(fhash, s').
       Inr (fhash, s',
            map_option (hm_insert (nat_of_bytes_be fhash) (to_tuple I inner_node_fact)) facts))"

section \<open>Virtual Patricia nodes\<close>

record vpn =
  bottom_node :: hash
  path :: node_path
  length_of :: edge_len
  height :: height

definition VPN_new_unchecked :: "hash \<Rightarrow> node_path \<Rightarrow> edge_len \<Rightarrow> height \<Rightarrow> ('e, vpn) res" where
  "VPN_new_unchecked b p l h =
     bindR (assert_that ''verify_path_value'' (path_is_ok p l)) (\<lambda>_.
       Inr \<lparr> bottom_node = b, path = p, length_of = l, height = h \<rparr>)"

definition VPN_new :: "hash \<Rightarrow> node_path \<Rightarrow> edge_len \<Rightarrow> height \<Rightarrow> (tree_error, vpn) res" where
  "VPN_new b p l h = bindR (verify_path_value p l) (\<lambda>_. VPN_new_unchecked b p l h)"

definition VPN_empty_node :: "height \<Rightarrow> vpn" where
  "VPN_empty_node h = \<lparr> bottom_node = Hash_empty, path = 0, length_of = 0, height = h \<rparr>"

definition VPN_from_hash :: "hash \<Rightarrow> height \<Rightarrow> ('e, vpn) res" where
  "VPN_from_hash hash_value h = VPN_new_unchecked hash_value 0 0 h"

definition VPN_create_leaf :: "hash \<Rightarrow> ('e, vpn) res" where
  "VPN_create_leaf hash_value = VPN_from_hash hash_value 0"

definition VPN_is_empty :: "vpn \<Rightarrow> bool" where
  "VPN_is_empty n \<longleftrightarrow> bottom_node n = EMPTY_HASH"

definition VPN_is_virtual_edge :: "vpn \<Rightarrow> bool" where
  "VPN_is_virtual_edge n \<longleftrightarrow> length_of n \<noteq> 0"

definition VPN_is_leaf :: "vpn \<Rightarrow> bool" where
  "VPN_is_leaf n \<longleftrightarrow> height n = 0"

definition leaf_hash :: "vpn \<Rightarrow> hash option" where
  "leaf_hash n = (if VPN_is_leaf n then Some (bottom_node n) else None)"

definition VPN_commit ::
  "('s, 'lf) tree_env \<Rightarrow> 's \<Rightarrow> vpn \<Rightarrow> binary_fact_dict option
   \<Rightarrow> (tree_error, hash \<times> 's \<times> binary_fact_dict option) res" where
  "VPN_commit e s n facts =
     (if \<not> VPN_is_virtual_edge n then Inr (bottom_node n, s, facts)
      else
        bindR (EdgeNodeFact_new (bottom_node n) (path n) (length_of n)) (\<lambda>edge_node_fact.
          map_err TreeError_Storage
            (write_node_fact (env_storage e) (EdgeNodeFact_inf (env_hash e)) s edge_node_fact facts)))"

definition get_virtual_edge_node_children :: "vpn \<Rightarrow> (tree_error, vpn \<times> vpn) res" where
  "get_virtual_edge_node_children n =
     bindR (u64_sub (height n) 1) (\<lambda>children_height.
     bindR (u64_sub (length_of n) 1) (\<lambda>children_length.
     bindR (VPN_new_unchecked (bottom_node n) (path n AND (2 ^ children_length - 1))
              children_length children_height) (\<lambda>non_empty_child.
     let edge_child_direction = drop_bit children_length (path n);
         empty_child = VPN_empty_node children_height
     in if edge_child_direction = 0 then Inr (non_empty_child, empty_child)
        else Inr (empty_child, non_empty_child))))"

definition read_bottom_node_fact ::
  "('s, 'lf) tree_env \<Rightarrow> 's \<Rightarrow> vpn \<Rightarrow> binary_fact_dict option
   \<Rightarrow> (tree_error, patricia_node_fact \<times> binary_fact_dict option) res" where
  "read_bottom_node_fact e s n facts =
     map_err TreeError_Storage
       (read_node_fact (env_storage e) (PatriciaNodeFact_inf (env_hash e)) s (bottom_node n) facts)"

definition VPN_get_children ::
  "('s, 'lf) tree_env \<Rightarrow> 's \<Rightarrow> vpn \<Rightarrow> binary_fact_dict option
   \<Rightarrow> (tree_error, (vpn \<times> vpn) \<times> binary_fact_dict option) res" where
  "VPN_get_children e s n facts =
     (if VPN_is_leaf n then Inl (Error IsLeaf)
      else
        bindR (u64_sub (height n) 1) (\<lambda>children_height.
        if VPN_is_empty n then
          Inr ((VPN_empty_node children_height, VPN_empty_node children_height), facts)
        else if VPN_is_virtual_edge n then
          bindR (get_virtual_edge_node_children n) (\<lambda>children. Inr (children, facts))
        else
          bindR (read_bottom_node_fact e s n facts) (\<lambda>(fact, facts').
            case fact of
              EdgeFact edge_node_fact \<Rightarrow>
                bindR (VPN_new_unchecked (edge_bottom_node edge_node_fact) (edge_path edge_node_fact)
                         (edge_length edge_node_fact) (height n)) (\<lambda>edge_node.
                bindR (get_virtual_edge_node_children edge_node) (\<lambda>children.
                  Inr (children, facts')))
            | BinaryFact binary_node_fact \<Rightarrow>
                bindR (VPN_from_hash (left_node binary_node_fact) children_height) (\<lambda>l.
                bindR (VPN_from_hash (right_node binary_node_fact) children_height) (\<lambda>r.
                  Inr ((l, r), facts')))
            | EmptyFact \<Rightarrow> Inl (Error IsEmpty))))"

section \<open>Reading leaves\<close>

definition get_leaf_node ::
  "('s, 'lf) tree_env \<Rightarrow> 's \<Rightarrow> vpn \<Rightarrow> (tree_error, (tree_index, 'lf) hash_map) res" where
  "get_leaf_node e s n =
     bindR (map_err TreeError_Storage (get_or_fail (env_storage e) (env_leaf e) s (bottom_node n)))
       (\<lambda>leaf. Inr [(0, leaf)])"

definition get_empty_leaves ::
  "('s, 'lf) tree_env \<Rightarrow> 's \<Rightarrow> tree_index list \<Rightarrow> (tree_error, (tree_index, 'lf) hash_map) res" where
  "get_empty_leaves e s indices =
     (if indices = [] then Inr []
      else
        bindR (map_err TreeError_Storage (get_or_fail (env_storage e) (env_leaf e) s EMPTY_HASH))
          (\<lambda>empty_leaf. Inr (hm_extend [] (map (\<lambda>index. (index, empty_leaf)) indices))))"

definition unify_binary_leaves ::
  "tree_index \<Rightarrow> (tree_index, 'lf) hash_map \<Rightarrow> (tree_index, 'lf) hash_map
   \<Rightarrow> (tree_index, 'lf) hash_map" where
  "unify_binary_leaves middle_index left_leaves right_leaves =
     hm_extend left_leaves (map (\<lambda>(index, leaf). (index + middle_index, leaf)) right_leaves)"

definition unify_edge_leaves ::
  "nat \<Rightarrow> (tree_index, 'lf) hash_map \<Rightarrow> (tree_index, 'lf) hash_map
   \<Rightarrow> (tree_index, 'lf) hash_map" where
  "unify_edge_leaves path_prefix empty_leaves bottom_subtree_leaves =
     hm_extend empty_leaves (map (\<lambda>(index, leaf). (index + path_prefix, leaf)) bottom_subtree_leaves)"

lemma VPN_from_hash_Inr [simp]:
  "VPN_from_hash b h = Inr \<lparr> bottom_node = b, path = 0, length_of = 0, height = h \<rparr>"
  by (simp add: VPN_from_hash_def VPN_new_unchecked_def)

lemma virtual_edge_children_height:
  "get_virtual_edge_node_children n = Inr (l, r) \<Longrightarrow>
   0 < height n \<and> height l = height n - 1 \<and> height r = height n - 1"
  by (auto simp: get_virtual_edge_node_children_def VPN_new_unchecked_def VPN_empty_node_def
      bindR_eq_Inr_iff u64_sub_eq_Inr_iff Let_def split: if_splits)

lemma get_children_height:
  assumes "VPN_get_children e s n facts = Inr ((l, r), facts')"
  shows "0 < height n \<and> height l = height n - 1 \<and> height r = height n - 1"
proof (cases "VPN_is_empty n \<or> VPN_is_virtual_edge n")
  case True
  with assms show ?thesis
    by (auto simp: VPN_get_children_def bindR_eq_Inr_iff u64_sub_eq_Inr_iff VPN_is_leaf_def
        VPN_empty_node_def split: if_splits dest: virtual_edge_children_height)
next
  case False
  with assms obtain fact facts'' where
    "read_bottom_node_fact e s n facts = Inr (fact, facts'')"
    by (auto simp: VPN_get_children_def bindR_eq_Inr_iff split: if_splits)
  with assms False show ?thesis
    by (cases fact) (auto simp: VPN_get_children_def bindR_eq_Inr_iff u64_sub_eq_Inr_iff VPN_is_leaf_def
        VPN_new_unchecked_def split: if_splits dest: virtual_edge_children_height)
qed

function get_leaves ::
  "('s, 'lf) tree_env \<Rightarrow> 's \<Rightarrow> vpn \<Rightarrow> tree_index list \<Rightarrow> binary_fact_dict option
   \<Rightarrow> (tree_error, (tree_index, 'lf) hash_map \<times> binary_fact_dict option) res"
and get_edge_node_leaves ::
  "('s, 'lf) tree_env \<Rightarrow> 's \<Rightarrow> vpn \<Rightarrow> tree_index list \<Rightarrow> binary_fact_dict option
   \<Rightarrow> (tree_error, (tree_index, 'lf) hash_map \<times> binary_fact_dict option) res"
and get_binary_node_leaves ::
  "('s, 'lf) tree_env \<Rightarrow> 's \<Rightarrow> vpn \<Rightarrow> tree_index list \<Rightarrow> binary_fact_dict option
   \<Rightarrow> (tree_error, (tree_index, 'lf) hash_map \<times> binary_fact_dict option) res"
where
  "get_leaves e s n indices facts =
     (if indices = [] then Inr ([], facts)
      else if VPN_is_empty n then
        bindR (get_empty_leaves e s indices) (\<lambda>leaves. Inr (leaves, facts))
      else if VPN_is_leaf n then
        bindR (get_leaf_node e s n) (\<lambda>leaves. Inr (leaves, facts))
      else if VPN_is_virtual_edge n then get_edge_node_leaves e s n indices facts
      else get_binary_node_leaves e s n indices facts)"
| "get_edge_node_leaves e s n indices facts =
     bindR (u64_sub (height n) (length_of n)) (\<lambda>path_suffix_width.
       let path_prefix = path n * 2 ^ path_suffix_width;
           in_bottom = (\<lambda>index. drop_bit path_suffix_width index = path n);
           bottom_subtree_indices = map (\<lambda>index. index - path_prefix) (filter in_bottom indices);
           empty_indices = filter (\<lambda>index. \<not> in_bottom index) indices
       in
         bindR (VPN_from_hash (bottom_node n) path_suffix_width) (\<lambda>bottom_subtree_root.
         bindR (get_leaves e s bottom_subtree_root bottom_subtree_indices facts) (\<lambda>(bottom_leaves, facts').
         bindR (get_empty_leaves e s empty_indices) (\<lambda>empty_leaves.
           Inr (unify_edge_leaves path_prefix empty_leaves bottom_leaves, facts')))))"
| "get_binary_node_leaves e s n indices facts =
     bindR (assert_that ''otherwise pow() below will overflow'' (0 < height n)) (\<lambda>_.
     bindR (u64_sub (height n) 1) (\<lambda>exponent.
       let mid = 2 ^ exponent;
           left_indices = filter (\<lambda>index. index < mid) indices;
           right_indices = map (\<lambda>index. index - mid) (filter (\<lambda>index. \<not> index < mid) indices)
       in
         bindR (VPN_get_children e s n facts) (\<lambda>((left_child, right_child), facts1).
         bindR (get_leaves e s left_child left_indices facts1) (\<lambda>(left_leaves, facts2).
         bindR (get_leaves e s right_child right_indices facts2) (\<lambda>(right_leaves, facts3).
           Inr (unify_binary_leaves mid left_leaves right_leaves, facts3))))))"
  by pat_completeness auto
termination
proof (relation "measure (\<lambda>x. case x of
      Inl (e, s, n, _) \<Rightarrow> 2 * height n + 1
    | Inr (Inl (e, s, n, _)) \<Rightarrow> (if length_of n = 0 then 2 * height n + 2 else 2 * height n)
    | Inr (Inr (e, s, n, _)) \<Rightarrow> 2 * height n)", goal_cases)
  case 1
  show ?case by simp
qed (auto simp: VPN_is_virtual_edge_def u64_sub_eq_Inr_iff dest: get_children_height)

declare get_leaves.simps [simp del] get_edge_node_leaves.simps [simp del]
  get_binary_node_leaves.simps [simp del]

section \<open>Comparing two trees\<close>

record 'lf node_diff =
  nd_path :: nat
  nd_previous :: 'lf
  nd_current :: 'lf

record tree_diff =
  diff_path :: nat
  diff_previous :: vpn
  diff_current :: vpn

text \<open>The state of \<open>BinaryFactTreeTraverser\<close>: the dictionary of facts and the result so far.\<close>

record 'lf diff_traverser =
  diff_facts :: "binary_fact_dict option"
  diff_result :: "'lf node_diff list"

text \<open>The path is a \<open>usize\<close>: the left shift drops the bit that leaves the word.\<close>

definition usize_shl1 :: "nat \<Rightarrow> nat" where
  "usize_shl1 p = (2 * p) mod u64_bound"

definition diff_get_children ::
  "('s, 'lf) tree_env \<Rightarrow> 's \<Rightarrow> ('lf diff_traverser, tree_diff) get_children" where
  "diff_get_children e s t node =
     (if VPN_is_leaf (diff_previous node) then
        bindR (unwrap ''leaf_hash'' (leaf_hash (diff_previous node))) (\<lambda>previous_hash.
        bindR (map_err TreeError_Storage (get_or_fail (env_storage e) (env_leaf e) s previous_hash)) (\<lambda>previous.
        bindR (unwrap ''leaf_hash'' (leaf_hash (diff_current node))) (\<lambda>current_hash.
        bindR (map_err TreeError_Storage (get_or_fail (env_storage e) (env_leaf e) s current_hash)) (\<lambda>current.
          Inr ([], t \<lparr> diff_result := diff_result t @
            [\<lparr> nd_path = diff_path node, nd_previous = previous, nd_current = current \<rparr>] \<rparr>)))))
      else
        bindR (VPN_get_children e s (diff_previous node) (diff_facts t)) (\<lambda>((previous_left, previous_right), facts1).
        bindR (VPN_get_children e s (diff_current node) facts1) (\<lambda>((current_left, current_right), facts2).
          let left = (if previous_left \<noteq> current_left
                then [\<lparr> diff_path = usize_shl1 (diff_path node),
                        diff_previous = previous_left, diff_current = current_left \<rparr>]
                else []);
              right = (if previous_right \<noteq> current_right
                then [\<lparr> diff_path = usize_shl1 (diff_path node) + 1,
                        diff_previous = previous_right, diff_current = current_right \<rparr>]
                else [])
          in Inr (left @ right, t \<lparr> diff_facts := facts2 \<rparr>))))"

definition get_diff_between_trees ::
  "('s, 'lf) tree_env \<Rightarrow> 's \<Rightarrow> vpn \<Rightarrow> vpn \<Rightarrow> binary_fact_dict option
   \<Rightarrow> (tree_error, 'lf node_diff list \<times> binary_fact_dict option) res" where
  "get_diff_between_trees e s self other facts =
     (if height self \<noteq> height other then
        Inl (Error (TreeHeightsMismatch (height self) (height other)))
      else
        bindR (returned (traverse_tree (diff_get_children e s)
            \<lparr> diff_facts = facts, diff_result = [] \<rparr>
            \<lparr> diff_path = 0, diff_previous = self, diff_current = other \<rparr>)) (\<lambda>t.
          Inr (diff_result t, diff_facts t)))"

definition diff_weight :: "tree_diff \<Rightarrow> nat" where
  "diff_weight d = 2 ^ (height (diff_previous d) + 1) - 1"

lemma diff_get_children_lighter:
  assumes "diff_get_children e s t node = Inr (ns, t')"
  shows "sum_list (map diff_weight ns) < diff_weight node"
proof (cases "VPN_is_leaf (diff_previous node)")
  case True
  with assms show ?thesis
    by (auto simp: diff_get_children_def bindR_eq_Inr_iff diff_weight_def VPN_is_leaf_def)
next
  case False
  with assms obtain l r facts1 where
    ch: "VPN_get_children e s (diff_previous node) (diff_facts t) = Inr ((l, r), facts1)"
    and ns: "\<forall>c\<in>set ns. diff_previous c \<in> {l, r}" "length ns \<le> 2"
    by (auto simp: diff_get_children_def bindR_eq_Inr_iff split: if_splits)
  obtain k where k: "height (diff_previous node) = Suc k" "height l = k" "height r = k"
    using get_children_height [OF ch] by (cases "height (diff_previous node)") auto
  then have "\<forall>c\<in>set ns. diff_weight c \<le> 2 ^ Suc k - 1"
    using ns(1) by (auto simp: diff_weight_def)
  then have "sum_list (map diff_weight ns) \<le> length ns * (2 ^ Suc k - 1)"
    by (induction ns) auto
  also have "\<dots> \<le> 2 * (2 ^ Suc k - 1)"
    using ns(2) by (rule mult_le_mono1)
  also have "\<dots> < diff_weight node"
  proof -
    obtain x where "(2 :: nat) ^ k = Suc x" by (cases "(2 :: nat) ^ k") auto
    then show ?thesis by (simp add: diff_weight_def k)
  qed
  finally show ?thesis .
qed

interpretation diff: traverser "diff_get_children e s" diff_weight for e s
  by unfold_locales (rule diff_get_children_lighter)

end
