(* ===== verification/Calculation.thy ===== *)
theory Calculation
  imports Tree_Node
begin

text \<open>
  Hash calculations, which build an updated tree before any of its hashes is computed:
  \<open>starkware_utils/commitment_tree/calculation.rs\<close> and
  \<open>patricia_tree/virtual_calculation_node.rs\<close>.

  The enum \<open>HashCalculationImpl\<close> is a datatype; the boxed trait objects of the source
  (\<open>DependencyWrapper\<close>, \<open>clone_box\<close>) only forward to it.
\<close>

section \<open>Hash calculations\<close>

record 'lf node_fact_dict =
  inner_nodes :: "(hash, patricia_node_fact) hash_map"
  leaves :: "(hash, 'lf) hash_map"

definition NodeFactDict_default :: "'lf node_fact_dict" where
  "NodeFactDict_default = \<lparr> inner_nodes = [], leaves = [] \<rparr>"

datatype 'lf hash_calculation =
  BinaryCalculation "'lf hash_calculation" "'lf hash_calculation"
| EdgeCalculation "'lf hash_calculation" node_path edge_len
| LeafFactCalculation 'lf
| ConstantCalculation hash

definition EdgeCalculation_new ::
  "'lf hash_calculation \<Rightarrow> node_path \<Rightarrow> edge_len \<Rightarrow> ('e, 'lf hash_calculation) res" where
  "EdgeCalculation_new bottom p l =
     bindR (assert_that ''verify_path_value'' (path_is_ok p l)) (\<lambda>_. Inr (EdgeCalculation bottom p l))"

fun get_dependency_calculations :: "'lf hash_calculation \<Rightarrow> 'lf hash_calculation list" where
  "get_dependency_calculations (BinaryCalculation l r) = [l, r]"
| "get_dependency_calculations (EdgeCalculation b p n) = [b]"
| "get_dependency_calculations (LeafFactCalculation f) = []"
| "get_dependency_calculations (ConstantCalculation h) = []"

definition dependency_result :: "hash list \<Rightarrow> nat \<Rightarrow> ('e, hash) res" where
  "dependency_result results i =
     (if i < length results then Inr (results ! i) else Inl (Panic ''index out of bounds''))"

definition BinaryCalculation_calculate ::
  "hash_fn \<Rightarrow> hash list \<Rightarrow> 'lf node_fact_dict \<Rightarrow> ('e, hash \<times> 'lf node_fact_dict) res" where
  "BinaryCalculation_calculate H results fact_nodes =
     bindR (dependency_result results 0) (\<lambda>left_hash.
     bindR (dependency_result results 1) (\<lambda>right_hash.
     let fact = \<lparr> left_node = left_hash, right_node = right_hash \<rparr> in
     bindR (unwrap ''hash'' (BinaryNodeFact_hash H fact)) (\<lambda>fhash.
       Inr (fhash, fact_nodes \<lparr> inner_nodes := hm_insert fhash (BinaryFact fact) (inner_nodes fact_nodes) \<rparr>))))"

definition EdgeCalculation_calculate ::
  "hash_fn \<Rightarrow> node_path \<Rightarrow> edge_len \<Rightarrow> hash list \<Rightarrow> 'lf node_fact_dict
   \<Rightarrow> ('e, hash \<times> 'lf node_fact_dict) res" where
  "EdgeCalculation_calculate H p l results fact_nodes =
     bindR (dependency_result results 0) (\<lambda>bottom_hash.
     bindR (EdgeNodeFact_new_unchecked bottom_hash p l) (\<lambda>fact.
     bindR (unwrap ''hash'' (EdgeNodeFact_hash H fact)) (\<lambda>fhash.
       Inr (fhash, fact_nodes \<lparr> inner_nodes := hm_insert fhash (EdgeFact fact) (inner_nodes fact_nodes) \<rparr>))))"

definition LeafFactCalculation_calculate ::
  "'lf leaf_fact \<Rightarrow> 'lf \<Rightarrow> 'lf node_fact_dict \<Rightarrow> ('e, hash \<times> 'lf node_fact_dict) res" where
  "LeafFactCalculation_calculate LF leaf fact_nodes =
     bindR (unwrap ''hash'' (fact_hash LF leaf)) (\<lambda>hash_result.
       Inr (hash_result, fact_nodes \<lparr> leaves := hm_insert hash_result leaf (leaves fact_nodes) \<rparr>))"

fun calculate ::
  "('s, 'lf) tree_env \<Rightarrow> 'lf hash_calculation \<Rightarrow> hash list \<Rightarrow> 'lf node_fact_dict
   \<Rightarrow> ('e, hash \<times> 'lf node_fact_dict) res" where
  "calculate e (BinaryCalculation l r) results fact_nodes =
     BinaryCalculation_calculate (env_hash e) results fact_nodes"
| "calculate e (EdgeCalculation b p n) results fact_nodes =
     EdgeCalculation_calculate (env_hash e) p n results fact_nodes"
| "calculate e (LeafFactCalculation f) results fact_nodes =
     LeafFactCalculation_calculate (env_leaf e) f fact_nodes"
| "calculate e (ConstantCalculation h) results fact_nodes = Inr (h, fact_nodes)"

text \<open>
  \<open>full_calculate\<close> first produces the results of the dependencies, in order and with the same
  dictionary of facts, then its own.
\<close>

function full_calculate ::
  "('s, 'lf) tree_env \<Rightarrow> 'lf hash_calculation \<Rightarrow> 'lf node_fact_dict
   \<Rightarrow> ('e, hash \<times> 'lf node_fact_dict) res"
and full_calculate_dependencies ::
  "('s, 'lf) tree_env \<Rightarrow> 'lf hash_calculation list \<Rightarrow> 'lf node_fact_dict
   \<Rightarrow> ('e, hash list \<times> 'lf node_fact_dict) res"
where
  "full_calculate e c fact_nodes =
     bindR (full_calculate_dependencies e (get_dependency_calculations c) fact_nodes) (\<lambda>(results, fact_nodes').
       calculate e c results fact_nodes')"
| "full_calculate_dependencies e [] fact_nodes = Inr ([], fact_nodes)"
| "full_calculate_dependencies e (c # cs) fact_nodes =
     bindR (full_calculate e c fact_nodes) (\<lambda>(r, fact_nodes').
     bindR (full_calculate_dependencies e cs fact_nodes') (\<lambda>(rs, fact_nodes'').
       Inr (r # rs, fact_nodes'')))"
  by pat_completeness auto
termination
proof (relation "measure (\<lambda>x. case x of
      Inl (e, c, _) \<Rightarrow> 5 * size c + 1
    | Inr (e, cs, _) \<Rightarrow> sum_list (map (\<lambda>c. 5 * size c + 2) cs))", goal_cases)
  case (2 e c fact_nodes)
  show ?case by (cases c) auto
qed auto

declare full_calculate.simps [simp del]

definition HashCalculation_is_empty :: "'lf leaf_fact \<Rightarrow> 'lf hash_calculation \<Rightarrow> bool" where
  "HashCalculation_is_empty LF c =
     (case c of
        ConstantCalculation value \<Rightarrow> value = EMPTY_HASH
      | LeafFactCalculation leaf \<Rightarrow> leaf_is_empty LF leaf
      | _ \<Rightarrow> False)"

section \<open>Virtual calculation nodes\<close>

record 'lf vcn =
  bottom_calculation :: "'lf hash_calculation"
  calc_path :: node_path
  calc_length :: edge_len
  calc_height :: height

definition VCN_new_unchecked ::
  "'lf hash_calculation \<Rightarrow> node_path \<Rightarrow> edge_len \<Rightarrow> height \<Rightarrow> ('e, 'lf vcn) res" where
  "VCN_new_unchecked b p l h =
     bindR (assert_that ''verify_path_value'' (path_is_ok p l)) (\<lambda>_.
       Inr \<lparr> bottom_calculation = b, calc_path = p, calc_length = l, calc_height = h \<rparr>)"

definition VCN_new ::
  "'lf hash_calculation \<Rightarrow> node_path \<Rightarrow> edge_len \<Rightarrow> height \<Rightarrow> (tree_error, 'lf vcn) res" where
  "VCN_new b p l h = bindR (verify_path_value p l) (\<lambda>_. VCN_new_unchecked b p l h)"

definition VCN_empty_node :: "height \<Rightarrow> ('e, 'lf vcn) res" where
  "VCN_empty_node h = VCN_new_unchecked (ConstantCalculation Hash_empty) 0 0 h"

definition VCN_is_empty :: "'lf leaf_fact \<Rightarrow> 'lf vcn \<Rightarrow> bool" where
  "VCN_is_empty LF n = HashCalculation_is_empty LF (bottom_calculation n)"

definition VCN_is_virtual_edge :: "'lf vcn \<Rightarrow> bool" where
  "VCN_is_virtual_edge n \<longleftrightarrow> calc_length n \<noteq> 0"

definition VCN_is_leaf :: "'lf vcn \<Rightarrow> bool" where
  "VCN_is_leaf n \<longleftrightarrow> calc_height n = 0"

definition VCN_commit :: "'lf vcn \<Rightarrow> ('e, 'lf hash_calculation) res" where
  "VCN_commit n =
     (if \<not> VCN_is_virtual_edge n then Inr (bottom_calculation n)
      else EdgeCalculation_new (bottom_calculation n) (calc_path n) (calc_length n))"

definition combine_to_binary_node :: "'lf vcn \<Rightarrow> 'lf vcn \<Rightarrow> ('e, 'lf vcn) res" where
  "combine_to_binary_node left right =
     bindR (u64_add (calc_height right) 1) (\<lambda>h.
     bindR (VCN_commit left) (\<lambda>l.
     bindR (VCN_commit right) (\<lambda>r.
       VCN_new_unchecked (BinaryCalculation l r) 0 0 h)))"

definition decommit ::
  "('s, 'lf) tree_env \<Rightarrow> 's \<Rightarrow> 'lf vcn \<Rightarrow> binary_fact_dict option
   \<Rightarrow> (storage_error, 'lf vcn \<times> binary_fact_dict option) res" where
  "decommit e s n facts =
     (if VCN_is_leaf n \<or> VCN_is_empty (env_leaf e) n \<or> VCN_is_virtual_edge n then Inr (n, facts)
      else case bottom_calculation n of
        EdgeCalculation b p l \<Rightarrow>
          bindR (VCN_new_unchecked b p l (calc_height n)) (\<lambda>n'. Inr (n', facts))
      | ConstantCalculation value \<Rightarrow>
          bindR (read_node_fact (env_storage e) (PatriciaNodeFact_inf (env_hash e)) s value facts)
            (\<lambda>(bottom_fact, facts').
              case bottom_fact of
                EdgeFact edge_node_fact \<Rightarrow>
                  bindR (VCN_new_unchecked (ConstantCalculation (edge_bottom_node edge_node_fact))
                           (edge_path edge_node_fact) (edge_length edge_node_fact) (calc_height n))
                    (\<lambda>n'. Inr (n', facts'))
              | _ \<Rightarrow> Inr (n, facts'))
      | _ \<Rightarrow> Inr (n, facts))"

definition combine_to_virtual_edge_node ::
  "('s, 'lf) tree_env \<Rightarrow> 's \<Rightarrow> 'lf vcn \<Rightarrow> 'lf vcn \<Rightarrow> binary_fact_dict option
   \<Rightarrow> (combine_error, 'lf vcn \<times> binary_fact_dict option) res" where
  "combine_to_virtual_edge_node e s left right facts =
     bindR (case (VCN_is_empty (env_leaf e) left, VCN_is_empty (env_leaf e) right) of
              (True, False) \<Rightarrow> Inr (True, right)
            | (False, True) \<Rightarrow> Inr (False, left)
            | _ \<Rightarrow> Inl (Error CannotCombineToVirtualEdgeNode)) (\<lambda>(left_is_empty, child).
     bindR (map_err CombineError_Storage (decommit e s child facts)) (\<lambda>(non_empty_child, facts').
     let parent_path = (if left_is_empty
           then calc_path non_empty_child + 2 ^ calc_length non_empty_child
           else calc_path non_empty_child)
     in
       bindR (u64_add (calc_length non_empty_child) 1) (\<lambda>l.
       bindR (u64_add (calc_height non_empty_child) 1) (\<lambda>h.
       bindR (VCN_new_unchecked (bottom_calculation non_empty_child) parent_path l h) (\<lambda>n.
         Inr (n, facts'))))))"

definition combine ::
  "('s, 'lf) tree_env \<Rightarrow> 's \<Rightarrow> 'lf vcn \<Rightarrow> 'lf vcn \<Rightarrow> binary_fact_dict option
   \<Rightarrow> (combine_error, 'lf vcn \<times> binary_fact_dict option) res" where
  "combine e s left right facts =
     (if calc_height left \<noteq> calc_height right then
        Inl (Error (TreeHeightsDiffer (calc_height left) (calc_height right)))
      else
        bindR (u64_add (calc_height right) 1) (\<lambda>parent_height.
        if VCN_is_empty (env_leaf e) left \<and> VCN_is_empty (env_leaf e) right then
          bindR (VCN_empty_node parent_height) (\<lambda>n. Inr (n, facts))
        else if \<not> VCN_is_empty (env_leaf e) left \<and> \<not> VCN_is_empty (env_leaf e) right then
          bindR (combine_to_binary_node left right) (\<lambda>n. Inr (n, facts))
        else combine_to_virtual_edge_node e s left right facts))"

definition create_from_node :: "vpn \<Rightarrow> ('e, 'lf vcn) res" where
  "create_from_node node =
     VCN_new_unchecked (ConstantCalculation (bottom_node node)) (path node) (length_of node) (height node)"

definition create_from_fact :: "'lf \<Rightarrow> ('e, 'lf vcn) res" where
  "create_from_fact leaf = VCN_new_unchecked (LeafFactCalculation leaf) 0 0 0"

definition VCN_calculate ::
  "('s, 'lf) tree_env \<Rightarrow> 'lf vcn \<Rightarrow> hash list \<Rightarrow> 'lf node_fact_dict
   \<Rightarrow> ('e, vpn \<times> 'lf node_fact_dict) res" where
  "VCN_calculate e n results fact_nodes =
     bindR (calculate e (bottom_calculation n) results fact_nodes) (\<lambda>(bottom_hash, fact_nodes').
     bindR (VPN_new_unchecked bottom_hash (calc_path n) (calc_length n) (calc_height n)) (\<lambda>node.
       Inr (node, fact_nodes')))"

definition VCN_full_calculate ::
  "('s, 'lf) tree_env \<Rightarrow> 'lf vcn \<Rightarrow> 'lf node_fact_dict \<Rightarrow> ('e, vpn \<times> 'lf node_fact_dict) res" where
  "VCN_full_calculate e n fact_nodes =
     bindR (full_calculate_dependencies e (get_dependency_calculations (bottom_calculation n)) fact_nodes)
       (\<lambda>(results, fact_nodes'). VCN_calculate e n results fact_nodes')"

lemma VCN_new_unchecked_Inr [simp]:
  "p < 2 ^ l \<Longrightarrow> VCN_new_unchecked b p l h =
     Inr \<lparr> bottom_calculation = b, calc_path = p, calc_length = l, calc_height = h \<rparr>"
  by (simp add: VCN_new_unchecked_def)

lemma VCN_full_calculate_eq:
  "VCN_full_calculate e n fact_nodes =
     bindR (full_calculate e (bottom_calculation n) fact_nodes) (\<lambda>(bottom_hash, fact_nodes').
     bindR (VPN_new_unchecked bottom_hash (calc_path n) (calc_length n) (calc_height n)) (\<lambda>node.
       Inr (node, fact_nodes')))"
  by (simp add: VCN_full_calculate_def VCN_calculate_def full_calculate.simps bindR_assoc
      case_prod_unfold)

end
