(* ===== verification/Update_Tree.thy ===== *)
theory Update_Tree
  imports Calculation
begin

text \<open>
  Updating a tree: \<open>starkware_utils/commitment_tree/update_tree.rs\<close>.

  The modifications become an update tree (\<open>build_update_tree\<close>). The old tree is traversed along it,
  and the map \<open>updated_nodes\<close> holds a calculation for every node whose new value is known; two
  siblings in the map are combined into their parent (\<open>update_necessary\<close>). The calculation of the
  root is evaluated, and the new facts are written.
\<close>

section \<open>Update trees\<close>

datatype 'lf tree_update =
  Tuple "'lf tree_update option" "'lf tree_update option"
| Leaf 'lf

type_synonym 'lf update_tree = "'lf tree_update option"

type_synonym 'lf layer = "(tree_index, 'lf tree_update) hash_map"

text \<open>One pass of the loop: the parents of a layer.\<close>

definition next_layer :: "'lf layer \<Rightarrow> 'lf layer" where
  "next_layer layer =
     (let parents = remdups (map (\<lambda>key. key div 2) (hm_keys layer)) in
      fold (\<lambda>index new_layer.
          hm_insert index (Tuple (map_of layer (index * 2)) (map_of layer (index * 2 + 1))) new_layer)
        parents [])"

definition build_update_tree ::
  "height \<Rightarrow> (tree_index \<times> 'lf) list \<Rightarrow> ('e, 'lf update_tree) res" where
  "build_update_tree h modifications =
     (if modifications = [] then Inr None
      else
        let layer = (next_layer ^^ h)
              (hm_extend [] (map (\<lambda>(index, leaf). (index, Leaf leaf)) modifications))
        in
          bindR (assert_that ''layer.len() == 1'' (length layer = 1)) (\<lambda>_.
          bindR (unwrap ''layer.remove'' (map_of layer 0)) (\<lambda>root. Inr (Some root))))"

datatype decode_node_case = DecodeLeft | DecodeRight | DecodeBoth

record 'lf decoded_node =
  left_child :: "'lf tree_update option"
  right_child :: "'lf tree_update option"
  decoded_case :: decode_node_case

fun decode_node :: "'lf tree_update \<Rightarrow> (tree_error, 'lf decoded_node) res" where
  "decode_node (Tuple l r) =
     bindR (case (l = None, r = None) of
              (True, False) \<Rightarrow> Inr DecodeRight
            | (False, True) \<Rightarrow> Inr DecodeLeft
            | (False, False) \<Rightarrow> Inr DecodeBoth
            | (True, True) \<Rightarrow> Inl (Error IsEmpty)) (\<lambda>c.
       Inr \<lparr> left_child = l, right_child = r, decoded_case = c \<rparr>)"
| "decode_node (Leaf f) = Inl (Error IsLeaf)"

section \<open>Traversing the old tree\<close>

type_synonym 'lf updated_nodes = "(tree_index, 'lf vcn) hash_map"

lemma length_hm_insert: "length (hm_insert k v m) = (if k \<in> fst ` set m then length m else Suc (length m))"
  unfolding hm_insert_def by (induction m) auto

lemma length_hm_remove_le: "length (hm_remove k m) \<le> length m"
  unfolding hm_remove_def AList.delete_eq by (rule length_filter_le)

lemma length_hm_remove_less: "k \<in> fst ` set m \<Longrightarrow> length (hm_remove k m) < length m"
  unfolding hm_remove_def AList.delete_eq by (force intro: length_filter_less)

lemma merge_siblings_shorter:
  fixes k :: nat
  assumes "map_of m (k * 2) = Some l" and "map_of m (k * 2 + 1) = Some r"
  shows "length (hm_remove (k * 2 + 1) (hm_remove (k * 2) (hm_insert k c m))) < length m"
proof -
  have in_dom: "k * 2 \<in> fst ` set m" "k * 2 + 1 \<in> fst ` set m"
    using assms by (force dest: map_of_SomeD)+
  let ?m1 = "hm_insert k c m"
  have "map_of ?m1 (k * 2) \<noteq> None" "map_of (hm_remove (k * 2) ?m1) (k * 2 + 1) \<noteq> None"
    using assms by auto
  then have "k * 2 \<in> fst ` set ?m1" "k * 2 + 1 \<in> fst ` set (hm_remove (k * 2) ?m1)"
    by (simp_all only: map_of_eq_None_iff not_not)
  then have "length (hm_remove (k * 2) ?m1) < length ?m1"
    "length (hm_remove (k * 2 + 1) (hm_remove (k * 2) ?m1)) < length (hm_remove (k * 2) ?m1)"
    by (auto intro: length_hm_remove_less)
  then show ?thesis
    by (simp add: length_hm_insert split: if_splits)
qed

function update_necessary ::
  "('s, 'lf) tree_env \<Rightarrow> 's \<Rightarrow> tree_index \<Rightarrow> 'lf updated_nodes \<Rightarrow> binary_fact_dict option
   \<Rightarrow> (update_tree_error, 'lf updated_nodes \<times> binary_fact_dict option) res" where
  "update_necessary e s node_index updated_nodes facts =
     (if map_of updated_nodes (node_index XOR 1) \<noteq> None then
        let cur_node_index = node_index div 2;
            left_index = cur_node_index * 2;
            right_index = cur_node_index * 2 + 1
        in
          bindR (unwrap ''updated_nodes.get'' (map_of updated_nodes left_index)) (\<lambda>left.
          bindR (unwrap ''updated_nodes.get'' (map_of updated_nodes right_index)) (\<lambda>right.
          bindR (map_err UpdateTreeError_Combine (combine e s left right facts)) (\<lambda>(calculation_node, facts').
            update_necessary e s cur_node_index
              (hm_remove right_index (hm_remove left_index
                (hm_insert cur_node_index calculation_node updated_nodes))) facts')))
      else Inr (updated_nodes, facts))"
  by pat_completeness auto
termination
  by (relation "measure (\<lambda>(e, s, i, m, f). length m)")
    (auto dest: merge_siblings_shorter)

declare update_necessary.simps [simp del]

definition update_if_possible ::
  "('s, 'lf) tree_env \<Rightarrow> 's \<Rightarrow> tree_index \<Rightarrow> vpn \<Rightarrow> 'lf updated_nodes \<Rightarrow> binary_fact_dict option
   \<Rightarrow> (update_tree_error, 'lf updated_nodes \<times> binary_fact_dict option) res" where
  "update_if_possible e s node_index binary_fact_tree_node updated_nodes facts =
     bindR (create_from_node binary_fact_tree_node) (\<lambda>calculation_node.
       update_necessary e s node_index (hm_insert node_index calculation_node updated_nodes) facts)"

definition update_set_fact ::
  "('s, 'lf) tree_env \<Rightarrow> 's \<Rightarrow> 'lf \<Rightarrow> tree_index \<Rightarrow> 'lf updated_nodes \<Rightarrow> binary_fact_dict option
   \<Rightarrow> (update_tree_error, 'lf updated_nodes \<times> binary_fact_dict option) res" where
  "update_set_fact e s new_fact node_index updated_nodes facts =
     bindR (create_from_fact new_fact) (\<lambda>calculation_node.
       update_necessary e s node_index (hm_insert node_index calculation_node updated_nodes) facts)"

text \<open>\<open>NodeType\<close> and the state of \<open>TreeUpdateTraverser\<close>\<close>

record 'lf update_node =
  un_index :: tree_index
  un_tree :: vpn
  un_update :: "'lf update_tree"

record 'lf update_traverser =
  ut_facts :: "binary_fact_dict option"
  ut_nodes :: "'lf updated_nodes"

definition update_get_children ::
  "('s, 'lf) tree_env \<Rightarrow> 's \<Rightarrow> ('lf update_traverser, 'lf update_node) get_children" where
  "update_get_children e s t node =
     (case un_update node of
        None \<Rightarrow>
          bindR (map_err TreeError_UpdateTree
              (update_if_possible e s (un_index node) (un_tree node) (ut_nodes t) (ut_facts t)))
            (\<lambda>(nodes, facts). Inr ([], t \<lparr> ut_nodes := nodes, ut_facts := facts \<rparr>))
      | Some (Leaf leaf_fact) \<Rightarrow>
          bindR (assert_that ''is_leaf'' (VPN_is_leaf (un_tree node))) (\<lambda>_.
          bindR (map_err TreeError_UpdateTree
              (update_set_fact e s leaf_fact (un_index node) (ut_nodes t) (ut_facts t)))
            (\<lambda>(nodes, facts). Inr ([], t \<lparr> ut_nodes := nodes, ut_facts := facts \<rparr>)))
      | Some (Tuple left_update right_update) \<Rightarrow>
          bindR (VPN_get_children e s (un_tree node) (ut_facts t)) (\<lambda>((left, right), facts).
            Inr ([\<lparr> un_index = 2 * un_index node, un_tree = left, un_update = left_update \<rparr>,
                  \<lparr> un_index = 2 * un_index node + 1, un_tree = right, un_update = right_update \<rparr>],
                 t \<lparr> ut_facts := facts \<rparr>)))"

definition build_updated_calculation ::
  "('s, 'lf) tree_env \<Rightarrow> 's \<Rightarrow> vpn \<Rightarrow> (tree_index \<times> 'lf) list \<Rightarrow> binary_fact_dict option
   \<Rightarrow> (tree_error, 'lf vcn \<times> binary_fact_dict option) res" where
  "build_updated_calculation e s tree modifications facts =
     bindR (build_update_tree (height tree) modifications) (\<lambda>update_tree.
     bindR (returned (traverse_tree (update_get_children e s)
         \<lparr> ut_facts = facts, ut_nodes = [] \<rparr>
         \<lparr> un_index = 1, un_tree = tree, un_update = update_tree \<rparr>)) (\<lambda>t.
     bindR (assert_that ''updated_nodes.len()'' (length (ut_nodes t) = 1)) (\<lambda>_.
     bindR (assert_that ''updated_nodes.contains_key'' (map_of (ut_nodes t) 1 \<noteq> None)) (\<lambda>_.
     bindR (unwrap ''updated_nodes.remove'' (map_of (ut_nodes t) 1)) (\<lambda>root.
       Inr (root, ut_facts t))))))"

section \<open>Writing the new facts\<close>

definition write_fact_nodes ::
  "('s, 'lf) tree_env \<Rightarrow> 's \<Rightarrow> 'lf node_fact_dict \<Rightarrow> (storage_error, 's) res" where
  "write_fact_nodes e s fact_nodes =
     bindR (foldR (\<lambda>s (root_hash, root_node).
         db_set (env_storage e) (PatriciaNodeFact_inf (env_hash e)) root_node s root_hash)
       s (inner_nodes fact_nodes)) (\<lambda>s'.
     foldR (\<lambda>s (root_hash, root_node). db_set (env_storage e) (env_leaf e) root_node s root_hash)
       s' (leaves fact_nodes))"

definition update_tree ::
  "('s, 'lf) tree_env \<Rightarrow> 's \<Rightarrow> vpn \<Rightarrow> (tree_index \<times> 'lf) list \<Rightarrow> binary_fact_dict option
   \<Rightarrow> (tree_error, vpn \<times> 's \<times> binary_fact_dict option) res" where
  "update_tree e s tree modifications facts =
     bindR (build_updated_calculation e s tree modifications facts) (\<lambda>(updated_calc_node, facts1).
     bindR (VCN_full_calculate e updated_calc_node NodeFactDict_default) (\<lambda>(root_node, new_facts).
     bindR (map_err TreeError_Storage (write_fact_nodes e s new_facts)) (\<lambda>s'.
       Inr (root_node, s',
         map_option (\<lambda>d. hm_extend d
             (map (\<lambda>(fhash, node_fact). (biguint_of_Hash fhash, PatriciaNodeFact_to_tuple node_fact))
                (inner_nodes new_facts))) facts1))))"

section \<open>The traversal returns\<close>

fun update_size :: "'lf update_tree \<Rightarrow> nat" where
  "update_size None = 1"
| "update_size (Some (Leaf f)) = 1"
| "update_size (Some (Tuple l r)) = update_size l + update_size r + 1"

lemma update_size_pos [simp]: "0 < update_size u"
  by (cases u rule: update_size.cases) auto

lemma update_get_children_lighter:
  assumes "update_get_children e s t n = Inr (ns, t')"
  shows "sum_list (map (\<lambda>n. update_size (un_update n)) ns) < update_size (un_update n)"
proof (cases "un_update n" rule: update_size.cases)
  case 1
  with assms show ?thesis
    by (auto simp: update_get_children_def bindR_eq_Inr_iff)
next
  case (2 f)
  with assms show ?thesis
    by (auto simp: update_get_children_def bindR_eq_Inr_iff)
next
  case (3 l r)
  with assms show ?thesis
    by (auto simp: update_get_children_def bindR_eq_Inr_iff)
qed

interpretation upd: traverser "update_get_children e s" "\<lambda>n. update_size (un_update n)" for e s
  by unfold_locales (rule update_get_children_lighter)

text \<open>
  C21. The two traversals of Patricia trees return, whatever the storage holds and from whichever node and state they start: the loop of an
  update and the loop of a difference of two trees end after finitely many steps, with a result or an error.
\<close>

theorem traversals_return:
  "(\<exists>r. traverse_tree (update_get_children e s) t n = Some r) \<and>
   (\<exists>r. traverse_tree (diff_get_children e' s') t' n' = Some r)"
  by (rule conjI [OF upd.traverse_returns diff.traverse_returns])

end
