(* ===== verification/Patricia_Tree.thy ===== *)
theory Patricia_Tree
  imports Update_Tree
begin

text \<open>
  The tree interface: \<open>PatriciaTree\<close> of
  \<open>starkware_utils/commitment_tree/patricia_tree/patricia_tree.rs\<close>, which implements the trait
  \<open>BinaryFactTree\<close> of \<open>binary_fact_tree.rs\<close>.
\<close>

record patricia_tree =
  tree_root :: hash
  tree_height :: height

definition PatriciaTree_empty_tree ::
  "('s, 'lf) tree_env \<Rightarrow> 's \<Rightarrow> height \<Rightarrow> 'lf \<Rightarrow> (tree_error, patricia_tree \<times> 's) res" where
  "PatriciaTree_empty_tree e s h leaf =
     bindR (map_err TreeError_Storage (set_fact (env_storage e) (env_leaf e) leaf s))
       (\<lambda>(empty_leaf_fact_hash, s'). Inr (\<lparr> tree_root = empty_leaf_fact_hash, tree_height = h \<rparr>, s'))"

definition PatriciaTree_get_leaves ::
  "('s, 'lf) tree_env \<Rightarrow> 's \<Rightarrow> patricia_tree \<Rightarrow> tree_index list \<Rightarrow> binary_fact_dict option
   \<Rightarrow> (tree_error, (tree_index, 'lf) hash_map \<times> binary_fact_dict option) res" where
  "PatriciaTree_get_leaves e s t indices facts =
     bindR (VPN_from_hash (tree_root t) (tree_height t)) (\<lambda>virtual_root_node.
       get_leaves e s virtual_root_node indices facts)"

definition PatriciaTree_get_leaf ::
  "('s, 'lf) tree_env \<Rightarrow> 's \<Rightarrow> patricia_tree \<Rightarrow> tree_index \<Rightarrow> (tree_error, 'lf option) res" where
  "PatriciaTree_get_leaf e s t index =
     bindR (PatriciaTree_get_leaves e s t [index] None) (\<lambda>(leaves, _).
       Inr (map_of leaves index))"

definition PatriciaTree_update ::
  "('s, 'lf) tree_env \<Rightarrow> 's \<Rightarrow> patricia_tree \<Rightarrow> (tree_index \<times> 'lf) list \<Rightarrow> binary_fact_dict option
   \<Rightarrow> (tree_error, patricia_tree \<times> 's \<times> binary_fact_dict option) res" where
  "PatriciaTree_update e s t modifications facts =
     bindR (VPN_from_hash (tree_root t) (tree_height t)) (\<lambda>virtual_root_node.
     bindR (update_tree e s virtual_root_node modifications facts) (\<lambda>(updated_root, s1, facts1).
     bindR (VPN_commit e s1 updated_root facts1) (\<lambda>(root_hash, s2, facts2).
       Inr (\<lparr> tree_root = root_hash, tree_height = height updated_root \<rparr>, s2, facts2))))"

end
