(* ===== verification/Patricia_Spec.thy ===== *)
theory Patricia_Spec
  imports Patricia_Tree
begin

text \<open>
  The abstract specification of a Patricia tree and its relation to the nodes kept in a storage.

  A tree of height \<open>h\<close> is a function from the leaf indices below \<open>2 ^ h\<close> to leaves. Its canonical
  node is computed from the leaves upwards, the way \<open>compute_patricia_from_leaves_for_test\<close> of
  \<open>patricia_tree/patricia_utils.rs\<close> does it: the triple (bottom hash, path, length) of the edge above
  the largest subtree that holds all non-empty leaves. \<open>tree_facts\<close> lists the node facts of the
  tree below that edge.

  The locale \<open>patricia_env\<close> joins the contracts of the storage, of the hash function and of the leaf
  type, which the correctness proofs of reading and updating use.
\<close>

section \<open>Canonical trees\<close>

type_synonym triple = "hash \<times> node_path \<times> edge_len"

definition spec_hash :: "hash_fn \<Rightarrow> hash \<Rightarrow> hash \<Rightarrow> hash" where
  "spec_hash H x y = (case H x y of Some h \<Rightarrow> h | None \<Rightarrow> EMPTY_HASH)"

definition spec_edge_hash :: "hash_fn \<Rightarrow> hash \<Rightarrow> node_path \<Rightarrow> edge_len \<Rightarrow> hash" where
  "spec_edge_hash H b p l = (case hash_edge H b p l of Some h \<Rightarrow> h | None \<Rightarrow> EMPTY_HASH)"

fun node_hash :: "hash_fn \<Rightarrow> triple \<Rightarrow> hash" where
  "node_hash H (b, p, l) = (if l = 0 then b else spec_edge_hash H b p l)"

fun merge :: "hash_fn \<Rightarrow> triple \<Rightarrow> triple \<Rightarrow> triple" where
  "merge H (bl, pl, ll) (br, pr, lr) =
     (if bl = EMPTY_HASH \<and> br = EMPTY_HASH then (EMPTY_HASH, 0, 0)
      else if bl = EMPTY_HASH then (br, pr + 2 ^ lr, lr + 1)
      else if br = EMPTY_HASH then (bl, pl, ll + 1)
      else (spec_hash H (node_hash H (bl, pl, ll)) (node_hash H (br, pr, lr)), 0, 0))"

text \<open>The leaf hashes of the two halves of a tree of height \<open>Suc h\<close> are \<open>g\<close> and \<open>right_half h g\<close>.\<close>

definition right_half :: "nat \<Rightarrow> (nat \<Rightarrow> 'a) \<Rightarrow> nat \<Rightarrow> 'a" where
  "right_half h g = (\<lambda>i. g (2 ^ h + i))"

fun canon :: "hash_fn \<Rightarrow> nat \<Rightarrow> (nat \<Rightarrow> hash) \<Rightarrow> triple" where
  "canon H 0 g = (g 0, 0, 0)"
| "canon H (Suc h) g = merge H (canon H h g) (canon H h (right_half h g))"

fun edge_facts :: "hash_fn \<Rightarrow> triple \<Rightarrow> (hash \<times> patricia_node_fact) list" where
  "edge_facts H (b, p, l) =
     (if l = 0 then []
      else [(spec_edge_hash H b p l,
             EdgeFact \<lparr> edge_bottom_node = b, edge_path = p, edge_length = l \<rparr>)])"

definition merge_facts :: "hash_fn \<Rightarrow> triple \<Rightarrow> triple \<Rightarrow> (hash \<times> patricia_node_fact) list" where
  "merge_facts H x y =
     (if fst x \<noteq> EMPTY_HASH \<and> fst y \<noteq> EMPTY_HASH
      then edge_facts H x @ edge_facts H y @
        [(spec_hash H (node_hash H x) (node_hash H y),
          BinaryFact \<lparr> left_node = node_hash H x, right_node = node_hash H y \<rparr>)]
      else [])"

fun tree_facts :: "hash_fn \<Rightarrow> nat \<Rightarrow> (nat \<Rightarrow> hash) \<Rightarrow> (hash \<times> patricia_node_fact) list" where
  "tree_facts H 0 g = []"
| "tree_facts H (Suc h) g =
     tree_facts H h g @ tree_facts H h (right_half h g) @
     merge_facts H (canon H h g) (canon H h (right_half h g))"

definition all_facts :: "hash_fn \<Rightarrow> nat \<Rightarrow> (nat \<Rightarrow> hash) \<Rightarrow> (hash \<times> patricia_node_fact) list" where
  "all_facts H h g = tree_facts H h g @ edge_facts H (canon H h g)"

text \<open>
  What an execution relies on of its hash values: no fact of the tree hashes to the value that
  marks an empty node, and no two facts of the tree collide.
\<close>

definition nonempty_keys :: "(hash \<times> 'a) list \<Rightarrow> bool" where
  "nonempty_keys fs \<longleftrightarrow> (\<forall>x\<in>set fs. fst x \<noteq> EMPTY_HASH)"

definition collision_free :: "(hash \<times> 'a) list \<Rightarrow> bool" where
  "collision_free fs \<longleftrightarrow> (\<forall>x\<in>set fs. \<forall>y\<in>set fs. fst x = fst y \<longrightarrow> snd x = snd y)"

lemma nonempty_keys_simps [simp]:
  "nonempty_keys []"
  "nonempty_keys (x # xs) \<longleftrightarrow> fst x \<noteq> EMPTY_HASH \<and> nonempty_keys xs"
  "nonempty_keys (xs @ ys) \<longleftrightarrow> nonempty_keys xs \<and> nonempty_keys ys"
  by (auto simp: nonempty_keys_def)

lemma nonempty_keysD: "nonempty_keys fs \<Longrightarrow> (k, v) \<in> set fs \<Longrightarrow> k \<noteq> EMPTY_HASH"
  by (auto simp: nonempty_keys_def)

lemma nonempty_keys_subset: "nonempty_keys fs \<Longrightarrow> set gs \<subseteq> set fs \<Longrightarrow> nonempty_keys gs"
  by (auto simp: nonempty_keys_def)

text \<open>Only the leaves in range matter.\<close>

lemma right_half_cong:
  "(\<And>i. i < 2 ^ Suc h \<Longrightarrow> g i = g' i) \<Longrightarrow> i < 2 ^ h \<Longrightarrow> right_half h g i = right_half h g' i"
  by (simp add: right_half_def)

lemma canon_cong: "(\<And>i. i < 2 ^ h \<Longrightarrow> g i = g' i) \<Longrightarrow> canon H h g = canon H h g'"
proof (induction h arbitrary: g g')
  case (Suc h)
  have "canon H h g = canon H h g'" "canon H h (right_half h g) = canon H h (right_half h g')"
    using Suc.prems by (auto intro!: Suc.IH simp: right_half_def)
  then show ?case by simp
qed simp

lemma tree_facts_cong: "(\<And>i. i < 2 ^ h \<Longrightarrow> g i = g' i) \<Longrightarrow> tree_facts H h g = tree_facts H h g'"
proof (induction h arbitrary: g g')
  case (Suc h)
  have "tree_facts H h g = tree_facts H h g'" "tree_facts H h (right_half h g) = tree_facts H h (right_half h g')"
    "canon H h g = canon H h g'" "canon H h (right_half h g) = canon H h (right_half h g')"
    using Suc.prems by (auto intro!: Suc.IH canon_cong simp: right_half_def)
  then show ?case by simp
qed simp

text \<open>The shape of the canonical node.\<close>

lemma fst_merge_empty:
  assumes "nonempty_keys (merge_facts H x y)"
  shows "fst (merge H x y) = EMPTY_HASH \<longleftrightarrow> fst x = EMPTY_HASH \<and> fst y = EMPTY_HASH"
  using assms by (cases x; cases y) (auto simp: merge_facts_def)

lemma lt_two_power_Suc_cases:
  fixes i :: nat
  assumes "i < 2 ^ Suc h"
  obtains "i < 2 ^ h" | j where "j < 2 ^ h" and "i = 2 ^ h + j"
proof (cases "i < 2 ^ h")
  case False
  then have "i - 2 ^ h < 2 ^ h" "i = 2 ^ h + (i - 2 ^ h)"
    using assms by auto
  then show ?thesis by (rule that(2))
qed (rule that)

lemma all_halves:
  fixes P :: "nat \<Rightarrow> bool"
  shows "(\<forall>i < 2 ^ Suc h. P i) \<longleftrightarrow> (\<forall>i < 2 ^ h. P i) \<and> (\<forall>i < 2 ^ h. P (2 ^ h + i))"
proof (intro iffI conjI allI impI)
  fix i :: nat
  assume "(\<forall>i < 2 ^ h. P i) \<and> (\<forall>i < 2 ^ h. P (2 ^ h + i))" and "i < 2 ^ Suc h"
  then show "P i" by (elim lt_two_power_Suc_cases) auto
qed auto

lemma canon_empty_iff:
  "nonempty_keys (tree_facts H h g) \<Longrightarrow>
   fst (canon H h g) = EMPTY_HASH \<longleftrightarrow> (\<forall>i < 2 ^ h. g i = EMPTY_HASH)"
proof (induction h arbitrary: g)
  case 0
  then show ?case by simp
next
  case (Suc h)
  then show ?case
    by (simp only: canon.simps tree_facts.simps nonempty_keys_simps fst_merge_empty Suc.IH all_halves)
      (simp add: right_half_def)
qed

lemma canon_shape:
  "canon H h g = (b, p, l) \<Longrightarrow>
   l \<le> h \<and> p < 2 ^ l \<and> (b = EMPTY_HASH \<longrightarrow> nonempty_keys (tree_facts H h g) \<longrightarrow> p = 0 \<and> l = 0)"
proof (induction h arbitrary: g b p l)
  case 0
  then show ?case by simp
next
  case (Suc h)
  obtain bl pl ll where l: "canon H h g = (bl, pl, ll)" by (cases "canon H h g") auto
  obtain br pr lr where r: "canon H h (right_half h g) = (br, pr, lr)"
    by (cases "canon H h (right_half h g)") auto
  have "b = EMPTY_HASH \<Longrightarrow> nonempty_keys (tree_facts H (Suc h) g) \<Longrightarrow> bl = EMPTY_HASH \<and> br = EMPTY_HASH"
    using Suc.prems fst_merge_empty [of H "(bl, pl, ll)" "(br, pr, lr)"] by (simp add: l r)
  moreover have "l \<le> Suc h \<and> p < 2 ^ l \<and> (b = EMPTY_HASH \<longrightarrow> bl = EMPTY_HASH \<and> br = EMPTY_HASH \<longrightarrow> p = 0 \<and> l = 0)"
  proof -
    have "ll \<le> h" "pl < 2 ^ ll" "lr \<le> h" "pr < 2 ^ lr"
      using Suc.IH [OF l] Suc.IH [OF r] by simp_all
    moreover have "merge H (bl, pl, ll) (br, pr, lr) = (b, p, l)"
      using Suc.prems by (simp add: l r)
    ultimately show ?thesis
      by (cases "bl = EMPTY_HASH"; cases "br = EMPTY_HASH") auto
  qed
  ultimately show ?case by blast
qed

lemma canon_all_empty:
  "(\<And>i. i < 2 ^ h \<Longrightarrow> g i = EMPTY_HASH) \<Longrightarrow>
   canon H h g = (EMPTY_HASH, 0, 0) \<and> tree_facts H h g = []"
proof (induction h arbitrary: g)
  case (Suc h)
  have "canon H h g = (EMPTY_HASH, 0, 0) \<and> tree_facts H h g = []"
    "canon H h (right_half h g) = (EMPTY_HASH, 0, 0) \<and> tree_facts H h (right_half h g) = []"
    using Suc.prems by (auto intro!: Suc.IH simp: right_half_def)
  then show ?case by (simp add: merge_facts_def)
qed simp

text \<open>
  The three ways a non-empty inner node arises: an edge to the right, an edge to the left, or a
  binary node.
\<close>

lemma canon_Suc_cases:
  assumes "canon H (Suc h) g = (b, p, l)"
    and ne: "nonempty_keys (tree_facts H (Suc h) g)"
    and "b \<noteq> EMPTY_HASH"
  obtains
    (Right) q k where "canon H h g = (EMPTY_HASH, 0, 0)" "canon H h (right_half h g) = (b, q, k)"
      "p = q + 2 ^ k" "l = Suc k" "q < 2 ^ k"
  | (Left) k where "canon H h g = (b, p, k)" "canon H h (right_half h g) = (EMPTY_HASH, 0, 0)"
      "l = Suc k" "p < 2 ^ k"
  | (Binary) "fst (canon H h g) \<noteq> EMPTY_HASH" "fst (canon H h (right_half h g)) \<noteq> EMPTY_HASH"
      "b = spec_hash H (node_hash H (canon H h g)) (node_hash H (canon H h (right_half h g)))"
      "p = 0" "l = 0"
proof -
  obtain bl pl ll where cl: "canon H h g = (bl, pl, ll)" by (cases "canon H h g") auto
  obtain br pr lr where cr: "canon H h (right_half h g) = (br, pr, lr)"
    by (cases "canon H h (right_half h g)") auto
  have shape: "pl < 2 ^ ll" "bl = EMPTY_HASH \<Longrightarrow> pl = 0 \<and> ll = 0"
    "pr < 2 ^ lr" "br = EMPTY_HASH \<Longrightarrow> pr = 0 \<and> lr = 0"
    using canon_shape [OF cl] canon_shape [OF cr] ne by auto
  have m: "merge H (bl, pl, ll) (br, pr, lr) = (b, p, l)"
    using assms(1) by (simp add: cl cr)
  consider "bl = EMPTY_HASH" "br \<noteq> EMPTY_HASH" | "bl \<noteq> EMPTY_HASH" "br = EMPTY_HASH"
    | "bl \<noteq> EMPTY_HASH" "br \<noteq> EMPTY_HASH"
    using m \<open>b \<noteq> EMPTY_HASH\<close> by fastforce
  then show ?thesis
  proof cases
    case 1
    with m shape show ?thesis by (intro Right [of pr lr]) (auto simp: cl cr)
  next
    case 2
    with m shape show ?thesis by (intro Left [of ll]) (auto simp: cl cr)
  next
    case 3
    with m show ?thesis by (intro Binary) (auto simp: cl cr)
  qed
qed

text \<open>The edge of the canonical node leads to a binary node or a leaf; all other leaves are empty.\<close>

definition below :: "nat \<Rightarrow> nat \<Rightarrow> (nat \<Rightarrow> 'a) \<Rightarrow> nat \<Rightarrow> 'a" where
  "below k p g = (\<lambda>i. g (p * 2 ^ k + i))"

lemma canon_edge:
  assumes "canon H h g = (b, p, l)" and "nonempty_keys (tree_facts H h g)" and "b \<noteq> EMPTY_HASH"
  shows "canon H (h - l) (below (h - l) p g) = (b, 0, 0) \<and>
    set (tree_facts H (h - l) (below (h - l) p g)) \<subseteq> set (tree_facts H h g) \<and>
    (\<forall>i < 2 ^ h. i div 2 ^ (h - l) \<noteq> p \<longrightarrow> g i = EMPTY_HASH)"
  using assms
proof (induction h arbitrary: g p l)
  case 0
  then show ?case by (auto simp: below_def)
next
  case (Suc h)
  have ne: "nonempty_keys (tree_facts H h g)" "nonempty_keys (tree_facts H h (right_half h g))"
    using Suc.prems(2) by simp_all
  from Suc.prems show ?case
  proof (cases rule: canon_Suc_cases)
    case (Right q k)
    have "k \<le> h" using canon_shape [OF Right(2)] by simp
    then have pow: "(2::nat) ^ k * 2 ^ (h - k) = 2 ^ h" by (simp flip: power_add)
    have "below (h - k) p g = below (h - k) q (right_half h g)"
      by (simp add: below_def right_half_def Right(3) algebra_simps pow)
    moreover have "g i = EMPTY_HASH" if "i < 2 ^ Suc h" "i div 2 ^ (h - k) \<noteq> p" for i
      using that(1)
    proof (cases rule: lt_two_power_Suc_cases)
      case 1
      then show ?thesis using canon_empty_iff [OF ne(1)] Right(1) by simp
    next
      case (2 j)
      have "i div 2 ^ (h - k) = j div 2 ^ (h - k) + 2 ^ k"
        unfolding 2 pow [symmetric] by (simp add: add.commute)
      with that(2) have "j div 2 ^ (h - k) \<noteq> q" by (simp add: Right(3))
      with Suc.IH [OF Right(2) ne(2) Suc.prems(3)] 2 show ?thesis
        by (simp add: right_half_def)
    qed
    ultimately show ?thesis
      using Suc.IH [OF Right(2) ne(2) Suc.prems(3)] by (auto simp: Right(4))
  next
    case (Left k)
    have "g i = EMPTY_HASH" if "i < 2 ^ Suc h" "i div 2 ^ (h - k) \<noteq> p" for i
      using that(1)
    proof (cases rule: lt_two_power_Suc_cases)
      case 1
      with Suc.IH [OF Left(1) ne(1) Suc.prems(3)] that(2) show ?thesis by simp
    next
      case (2 j)
      then show ?thesis using canon_empty_iff [OF ne(2)] Left(2) by (simp add: right_half_def)
    qed
    then show ?thesis
      using Suc.IH [OF Left(1) ne(1) Suc.prems(3)] by (auto simp: Left(3))
  next
    case Binary
    then show ?thesis using Suc.prems(1) by (auto simp: below_def)
  qed
qed

section \<open>Nodes kept in a storage\<close>

definition node_in :: "('s, 'lf) tree_env \<Rightarrow> 's \<Rightarrow> hash \<times> patricia_node_fact \<Rightarrow> bool" where
  "node_in e s x \<longleftrightarrow> db_holds (env_storage e) (PatriciaNodeFact_inf (env_hash e)) s (fst x) (snd x)"

definition leaf_in :: "('s, 'lf) tree_env \<Rightarrow> 's \<Rightarrow> hash \<times> 'lf \<Rightarrow> bool" where
  "leaf_in e s x \<longleftrightarrow> db_holds (env_storage e) (env_leaf e) s (fst x) (snd x)"

definition triple_of :: "vpn \<Rightarrow> triple" where
  "triple_of n = (bottom_node n, path n, length_of n)"

text \<open>
  A node of height \<open>h\<close> represents the leaf hashes \<open>g\<close> if it is the canonical node or the committed
  form of it, and the storage holds the facts below.
\<close>

definition node_repr :: "('s, 'lf) tree_env \<Rightarrow> 's \<Rightarrow> vpn \<Rightarrow> nat \<Rightarrow> (nat \<Rightarrow> hash) \<Rightarrow> bool" where
  "node_repr e s n h g \<longleftrightarrow>
     height n = h \<and>
     nonempty_keys (tree_facts (env_hash e) h g) \<and>
     (\<forall>x\<in>set (tree_facts (env_hash e) h g). node_in e s x) \<and>
     (triple_of n = canon (env_hash e) h g \<or>
      triple_of n = (node_hash (env_hash e) (canon (env_hash e) h g), 0, 0) \<and>
      nonempty_keys (edge_facts (env_hash e) (canon (env_hash e) h g)) \<and>
      (\<forall>x\<in>set (edge_facts (env_hash e) (canon (env_hash e) h g)). node_in e s x))"

lemma node_in_read:
  assumes "node_in e s (k, v)"
  obtains facts' where
    "read_node_fact (env_storage e) (PatriciaNodeFact_inf (env_hash e)) s k facts = Inr (v, facts')"
  using assms by (auto simp: node_in_def read_node_fact_def db_holds_get_or_fail)

lemma and_mask_nat: "(p :: nat) AND (2 ^ k - 1) = p mod 2 ^ k"
  by (metis mask_eq_exp_minus_1 take_bit_eq_mask take_bit_eq_mod)

lemma node_repr_empty_node:
  assumes "canon (env_hash e) h g = (EMPTY_HASH, 0, 0)"
    and "nonempty_keys (tree_facts (env_hash e) h g)"
  shows "node_repr e s (VPN_empty_node h) h g"
proof -
  have "tree_facts (env_hash e) h g = []"
    using canon_empty_iff [OF assms(2)] assms(1) by (intro canon_all_empty [THEN conjunct2]) auto
  then show ?thesis
    using assms(1) by (simp add: node_repr_def VPN_empty_node_def triple_of_def EMPTY_HASH_eq)
qed

section \<open>The contracts a tree relies on\<close>

text \<open>
  A leaf type: the leaves in use are encoded and decoded without loss, hash to a field element,
  exactly one of them is empty and it hashes to the empty hash, and they are stored under a prefix
  of their own.
\<close>

locale leaf_laws =
  fixes LF :: "'lf leaf_fact"
    and valid :: "'lf \<Rightarrow> bool"
  assumes leaf_codec: "valid x \<Longrightarrow> \<exists>data. serialize LF x = Inr data \<and> deserialize LF data = Inr x"
    and leaf_hash_valid: "valid x \<Longrightarrow> \<exists>h. fact_hash LF x = Some h \<and> hash_valid h"
    and leaf_empty_hash: "valid x \<Longrightarrow> leaf_is_empty LF x \<Longrightarrow> fact_hash LF x = Some EMPTY_HASH"
    and leaf_empty_unique:
      "valid x \<Longrightarrow> valid y \<Longrightarrow> leaf_is_empty LF x \<Longrightarrow> leaf_is_empty LF y \<Longrightarrow> x = y"
    and leaf_prefix: "prefix LF \<noteq> PATRICIA_NODE_PREFIX"

locale patricia_env =
  storage_laws "env_storage e" + hash_laws "env_hash e" + leaf_laws "env_leaf e" valid
  for e :: "('s, 'lf) tree_env" and valid

definition lhash :: "('s, 'lf) tree_env \<Rightarrow> 'lf \<Rightarrow> hash" where
  "lhash e x = (case fact_hash (env_leaf e) x of Some h \<Rightarrow> h | None \<Rightarrow> EMPTY_HASH)"

definition leaf_hashes :: "('s, 'lf) tree_env \<Rightarrow> (nat \<Rightarrow> 'lf) \<Rightarrow> nat \<Rightarrow> hash" where
  "leaf_hashes e f = (\<lambda>i. lhash e (f i))"

lemma right_half_leaf_hashes [simp]:
  "right_half h (leaf_hashes e f) = leaf_hashes e (right_half h f)"
  by (simp add: right_half_def leaf_hashes_def)

text \<open>The longest edge of the trees of the system; all its heights are at most 251.\<close>

definition MAX_HEIGHT :: nat where
  "MAX_HEIGHT = 251"

context patricia_env
begin

lemma lhash_valid: "valid x \<Longrightarrow> fact_hash (env_leaf e) x = Some (lhash e x) \<and> hash_valid (lhash e x)"
  using leaf_hash_valid [of x] by (auto simp: lhash_def)

lemma spec_hash_valid:
  assumes "hash_valid x" and "hash_valid y"
  shows "env_hash e x y = Some (spec_hash (env_hash e) x y) \<and> hash_valid (spec_hash (env_hash e) x y)"
  using hash_defined [OF assms [THEN hash_valid_felt_bytes]] by (auto simp: spec_hash_def)

lemma spec_edge_valid:
  assumes "hash_valid b" and "p < 2 ^ l" and "l \<le> MAX_HEIGHT"
  shows "hash_edge (env_hash e) b p l = Some (spec_edge_hash (env_hash e) b p l) \<and>
    hash_valid (spec_edge_hash (env_hash e) b p l)"
proof -
  have "(2 :: nat) ^ l \<le> 2 ^ 251"
    using assms(3) by (intro power_increasing) (simp_all add: MAX_HEIGHT_def)
  with assms(2) have "p < STARK_PRIME" by (simp add: STARK_PRIME_def)
  then obtain h where "env_hash e b (to_bytes_be p) = Some h"
    using hash_defined [of b "to_bytes_be p"] assms(1)
    by (auto simp: hash_valid_felt_bytes felt_bytes_to_bytes_be)
  then show ?thesis by (simp add: spec_edge_hash_def hash_edge_def)
qed

lemma canon_valid:
  assumes "\<And>i. i < 2 ^ h \<Longrightarrow> hash_valid (g i)" and "h \<le> MAX_HEIGHT"
  shows "hash_valid (fst (canon (env_hash e) h g)) \<and> hash_valid (node_hash (env_hash e) (canon (env_hash e) h g))"
proof -
  have node: "hash_valid (node_hash (env_hash e) (canon (env_hash e) k g'))"
    if "hash_valid (fst (canon (env_hash e) k g'))" and "k \<le> MAX_HEIGHT" for k g'
  proof -
    obtain b p l where c: "canon (env_hash e) k g' = (b, p, l)" by (cases "canon (env_hash e) k g'") auto
    then show ?thesis
      using that canon_shape [OF c] spec_edge_valid [of b p l] by auto
  qed
  have "hash_valid (fst (canon (env_hash e) h g))"
    using assms
  proof (induction h arbitrary: g)
    case (Suc h)
    let ?l = "canon (env_hash e) h g" and ?r = "canon (env_hash e) h (right_half h g)"
    have l: "hash_valid (fst ?l)" using Suc.prems by (intro Suc.IH) auto
    have r: "hash_valid (fst ?r)" using Suc.prems by (intro Suc.IH) (auto simp: right_half_def)
    have "hash_valid (node_hash (env_hash e) ?l)" "hash_valid (node_hash (env_hash e) ?r)"
      using node [OF l] node [OF r] Suc.prems(2) by auto
    then show ?case
      using l r spec_hash_valid by (cases ?l; cases ?r) (auto simp: EMPTY_HASH_eq)
  qed simp
  with node [OF this assms(2)] show ?thesis by simp
qed

end

end
