(* ===== verification/Patricia_Read.thy ===== *)
theory Patricia_Read
  imports Patricia_Spec
begin

text \<open>
  Reading is correct: the children of a node that represents a tree represent its halves, and
  reading leaves returns exactly the requested leaves of the tree.
\<close>

section \<open>Children\<close>

declare canon.simps(2) [simp del]

lemma virtual_edge_children_repr:
  assumes "triple_of n = canon (env_hash e) (Suc h) g" and "height n = Suc h"
    and "length_of n \<noteq> 0" and "bottom_node n \<noteq> EMPTY_HASH"
    and ne: "nonempty_keys (tree_facts (env_hash e) (Suc h) g)"
    and in_s: "\<forall>x\<in>set (tree_facts (env_hash e) (Suc h) g). node_in e s x"
  shows "\<exists>l r. get_virtual_edge_node_children n = Inr (l, r) \<and>
    node_repr e s l h g \<and> node_repr e s r h (right_half h g)"
proof -
  let ?H = "env_hash e"
  have nes: "nonempty_keys (tree_facts ?H h g)" "nonempty_keys (tree_facts ?H h (right_half h g))"
    using ne by simp_all
  have ins: "\<forall>x\<in>set (tree_facts ?H h g). node_in e s x"
    "\<forall>x\<in>set (tree_facts ?H h (right_half h g)). node_in e s x"
    using in_s by simp_all
  have "canon ?H (Suc h) g = (bottom_node n, path n, length_of n)"
    using assms(1) by (simp add: triple_of_def)
  from this ne assms(4) show ?thesis
  proof (cases rule: canon_Suc_cases)
    case (Right q k)
    have p: "path n AND (2 ^ k - 1) = q" "drop_bit k (path n) = 1"
      using Right div_add_self2 [of "2 ^ k" q]
      by (simp_all add: and_mask_nat drop_bit_eq_div del: One_nat_def)
    have "get_virtual_edge_node_children n = Inr (VPN_empty_node h,
        \<lparr> bottom_node = bottom_node n, path = q, length_of = k, height = h \<rparr>)"
      using p Right assms(2)
      by (simp add: get_virtual_edge_node_children_def VPN_new_unchecked_def Let_def)
    then show ?thesis
      using node_repr_empty_node [OF Right(1) nes(1), of s] nes(2) ins(2) Right(2)
      by (simp add: node_repr_def triple_of_def)
  next
    case (Left k)
    have p: "path n AND (2 ^ k - 1) = path n" "drop_bit k (path n) = 0"
      using Left by (simp_all add: and_mask_nat drop_bit_eq_div del: One_nat_def)
    have "get_virtual_edge_node_children n = Inr
        (\<lparr> bottom_node = bottom_node n, path = path n, length_of = k, height = h \<rparr>, VPN_empty_node h)"
      using p Left assms(2)
      by (simp add: get_virtual_edge_node_children_def VPN_new_unchecked_def Let_def)
    then show ?thesis
      using node_repr_empty_node [OF Left(2) nes(2), of s] nes(1) ins(1) Left(1)
      by (simp add: node_repr_def triple_of_def)
  next
    case Binary
    with assms(3) show ?thesis by simp
  qed
qed

text \<open>The committed form of a node, as a child of a binary node has it.\<close>

lemma node_repr_committed:
  assumes "nonempty_keys (tree_facts (env_hash e) h g)"
    and "\<forall>x\<in>set (tree_facts (env_hash e) h g). node_in e s x"
    and "nonempty_keys (edge_facts (env_hash e) (canon (env_hash e) h g))"
    and "\<forall>x\<in>set (edge_facts (env_hash e) (canon (env_hash e) h g)). node_in e s x"
  shows "node_repr e s \<lparr> bottom_node = node_hash (env_hash e) (canon (env_hash e) h g), path = 0,
    length_of = 0, height = h \<rparr> h g"
  using assms by (simp add: node_repr_def triple_of_def)

lemma node_repr_empty_iff:
  assumes "node_repr e s n h g"
  shows "VPN_is_empty n \<longleftrightarrow> (\<forall>i < 2 ^ h. g i = EMPTY_HASH)"
proof -
  let ?c = "canon (env_hash e) h g"
  obtain b p l where c: "?c = (b, p, l)" by (cases ?c) auto
  have "bottom_node n = EMPTY_HASH \<longleftrightarrow> b = EMPTY_HASH"
    using assms canon_shape [OF c] by (auto simp: node_repr_def triple_of_def c split: if_splits)
  then show ?thesis
    using canon_empty_iff [of "env_hash e" h g] assms by (simp add: node_repr_def c VPN_is_empty_def)
qed

lemma get_children_repr:
  assumes "node_repr e s n (Suc h) g"
  shows "\<exists>l r facts'. VPN_get_children e s n facts = Inr ((l, r), facts') \<and>
    node_repr e s l h g \<and> node_repr e s r h (right_half h g)"
proof -
  let ?H = "env_hash e" and ?c = "canon (env_hash e) (Suc h) g"
  have h: "height n = Suc h" "\<not> VPN_is_leaf n"
    and ne: "nonempty_keys (tree_facts ?H (Suc h) g)"
    and in_s: "\<forall>x\<in>set (tree_facts ?H (Suc h) g). node_in e s x"
    using assms by (simp_all add: node_repr_def VPN_is_leaf_def)
  have nes: "nonempty_keys (tree_facts ?H h g)" "nonempty_keys (tree_facts ?H h (right_half h g))"
    using ne by simp_all
  obtain b p l where c: "?c = (b, p, l)" by (cases ?c) auto
  show ?thesis
  proof (cases "VPN_is_empty n")
    case True
    with node_repr_empty_iff [OF assms] have "\<forall>i < 2 ^ Suc h. g i = EMPTY_HASH" by simp
    then have "canon ?H h g = (EMPTY_HASH, 0, 0)" "canon ?H h (right_half h g) = (EMPTY_HASH, 0, 0)"
      by (auto intro!: canon_all_empty [THEN conjunct1] simp: right_half_def)
    then show ?thesis
      using True h nes by (simp add: VPN_get_children_def node_repr_empty_node)
  next
    case False
    have b: "b \<noteq> EMPTY_HASH"
      using False canon_shape [OF c] ne assms
      by (auto simp: node_repr_def triple_of_def VPN_is_empty_def c)
    show ?thesis
    proof (cases "triple_of n = ?c \<and> l \<noteq> 0")
      case True
      then show ?thesis
        using virtual_edge_children_repr [of n e h g s] h False ne in_s
        by (auto simp: VPN_get_children_def VPN_is_virtual_edge_def VPN_is_empty_def triple_of_def c)
    next
      case virtual: False
      then have n: "bottom_node n = node_hash ?H ?c" "length_of n = 0"
        and edge: "l \<noteq> 0 \<Longrightarrow> node_in e s (spec_edge_hash ?H b p l,
            EdgeFact \<lparr> edge_bottom_node = b, edge_path = p, edge_length = l \<rparr>)"
        using assms by (auto simp: node_repr_def triple_of_def c split: if_splits)
      show ?thesis
      proof (cases "l = 0")
        case False
        from edge [OF False] obtain facts' where
          read: "read_bottom_node_fact e s n facts =
            Inr (EdgeFact \<lparr> edge_bottom_node = b, edge_path = p, edge_length = l \<rparr>, facts')"
          using False by (elim node_in_read [of e s _ _ facts])
            (simp add: read_bottom_node_fact_def n c)
        let ?n = "\<lparr> bottom_node = b, path = p, length_of = l, height = Suc h \<rparr>"
        have "p < 2 ^ l" using canon_shape [OF c] by simp
        then show ?thesis
          using virtual_edge_children_repr [of ?n e h g s] False b ne in_s h \<open>\<not> VPN_is_empty n\<close> read n
          by (auto simp: VPN_get_children_def VPN_is_virtual_edge_def triple_of_def c VPN_new_unchecked_def)
      next
        case True
        with c ne b have bin: "fst (canon ?H h g) \<noteq> EMPTY_HASH"
          "fst (canon ?H h (right_half h g)) \<noteq> EMPTY_HASH"
          "b = spec_hash ?H (node_hash ?H (canon ?H h g)) (node_hash ?H (canon ?H h (right_half h g)))"
          by (auto elim: canon_Suc_cases)
        let ?B = "\<lparr> left_node = node_hash ?H (canon ?H h g),
                    right_node = node_hash ?H (canon ?H h (right_half h g)) \<rparr>"
        have facts: "set (edge_facts ?H (canon ?H h g)) \<subseteq> set (tree_facts ?H (Suc h) g)"
          "set (edge_facts ?H (canon ?H h (right_half h g))) \<subseteq> set (tree_facts ?H (Suc h) g)"
          "(b, BinaryFact ?B) \<in> set (tree_facts ?H (Suc h) g)"
          using bin by (auto simp: merge_facts_def)
        then have "node_in e s (b, BinaryFact ?B)" using in_s by blast
        then obtain facts' where read: "read_bottom_node_fact e s n facts = Inr (BinaryFact ?B, facts')"
          by (elim node_in_read [of e s _ _ facts]) (simp add: read_bottom_node_fact_def n c True)
        have "VPN_get_children e s n facts = Inr
            ((\<lparr> bottom_node = node_hash ?H (canon ?H h g), path = 0, length_of = 0, height = h \<rparr>,
              \<lparr> bottom_node = node_hash ?H (canon ?H h (right_half h g)), path = 0, length_of = 0, height = h \<rparr>),
             facts')"
          using h n read \<open>\<not> VPN_is_empty n\<close> by (simp add: VPN_get_children_def VPN_is_virtual_edge_def)
        moreover have "node_repr e s \<lparr> bottom_node = node_hash ?H (canon ?H h g), path = 0,
            length_of = 0, height = h \<rparr> h g"
          by (rule node_repr_committed) (use facts ne in_s nonempty_keys_subset [OF ne] in auto)
        moreover have "node_repr e s \<lparr> bottom_node = node_hash ?H (canon ?H h (right_half h g)), path = 0,
            length_of = 0, height = h \<rparr> h (right_half h g)"
          by (rule node_repr_committed) (use facts ne in_s nonempty_keys_subset [OF ne] in auto)
        ultimately show ?thesis by blast
      qed
    qed
  qed
qed

section \<open>Leaves\<close>

lemma leaf_in_read: "leaf_in e s (k, x) \<Longrightarrow> get_or_fail (env_storage e) (env_leaf e) s k = Inr x"
  by (simp add: leaf_in_def db_holds_get_or_fail)

lemma map_of_shift:
  "map_of (map (\<lambda>(i, x). (i + k, x)) m) j = (if k \<le> j then map_of m (j - k) else None)"
  for k :: nat
  by (induction m) auto

lemma map_of_hm_extend_distinct:
  assumes "hm_wf kvs"
  shows "map_of (hm_extend m kvs) = map_of m ++ map_of kvs"
proof -
  have "map_of (rev kvs) = map_of kvs"
    using assms by (subst map_of_inject_set) (simp_all add: hm_wf_def rev_map [symmetric])
  then show ?thesis by (simp add: map_of_hm_extend)
qed

lemma hm_wf_shift: "hm_wf m \<Longrightarrow> hm_wf (map (\<lambda>(i, x). (i + k, x)) m)" for k :: nat
proof -
  have *: "map fst (map (\<lambda>(i, x). (i + k, x)) m) = map (\<lambda>i. i + k) (map fst m)"
    by (induction m) auto
  show "hm_wf m \<Longrightarrow> hm_wf (map (\<lambda>(i, x). (i + k, x)) m)"
    unfolding hm_wf_def * by (subst distinct_map) simp
qed

text \<open>A map that holds exactly the leaves asked for.\<close>

definition holds_leaves :: "(tree_index, 'lf) hash_map \<Rightarrow> tree_index set \<Rightarrow> (nat \<Rightarrow> 'lf) \<Rightarrow> bool" where
  "holds_leaves m I f \<longleftrightarrow> hm_wf m \<and> (\<forall>i. map_of m i = (if i \<in> I then Some (f i) else None))"

lemma holds_leaves_union:
  assumes "holds_leaves m1 I1 f" and "holds_leaves m2 I2 (\<lambda>i. f (i + k))"
    and "I = I1 \<union> (\<lambda>i. i + k) ` I2"
  shows "holds_leaves (hm_extend m1 (map (\<lambda>(i, x). (i + k, x)) m2)) I f"
proof -
  have wf: "hm_wf m1" "hm_wf m2" using assms by (auto simp: holds_leaves_def)
  have "map_of (hm_extend m1 (map (\<lambda>(i, x). (i + k, x)) m2)) j = (if j \<in> I then Some (f j) else None)" for j
  proof (cases "k \<le> j \<and> j - k \<in> I2")
    case True
    then have "j \<in> I" "j - k + k = j" using assms(3) by force+
    with True assms(2) show ?thesis
      by (simp add: map_of_hm_extend_distinct hm_wf_shift wf map_add_def map_of_shift holds_leaves_def)
  next
    case False
    then have "j \<in> I \<longleftrightarrow> j \<in> I1" using assms(3) by auto
    with False assms(1,2) show ?thesis
      by (auto simp: map_of_hm_extend_distinct hm_wf_shift wf map_add_def map_of_shift holds_leaves_def)
  qed
  with wf show ?thesis by (simp add: holds_leaves_def)
qed

lemma get_empty_leaves_repr:
  assumes "\<And>i. i \<in> set idx \<Longrightarrow> leaf_in e s (EMPTY_HASH, f i)"
  shows "\<exists>m. get_empty_leaves e s idx = Inr m \<and> holds_leaves m (set idx) f"
proof (cases "idx = []")
  case True
  then show ?thesis by (simp add: get_empty_leaves_def holds_leaves_def)
next
  case False
  then obtain i0 where i0: "i0 \<in> set idx" by (cases idx) auto
  let ?x = "f i0"
  have eq: "f i = ?x" if "i \<in> set idx" for i
    using assms [OF that] assms [OF i0] by (auto simp: leaf_in_def dest: db_holds_unique)
  have "map_of (rev (map (\<lambda>i. (i, ?x)) idx)) i = (if i \<in> set idx then Some (f i) else None)" for i
    using eq [of i] map_of_map_restrict [of "\<lambda>i. ?x" "rev idx"]
    by (cases "i \<in> set idx") (simp_all add: rev_map restrict_map_def)
  then have "holds_leaves (hm_extend [] (map (\<lambda>i. (i, ?x)) idx)) (set idx) f"
    by (simp add: holds_leaves_def map_of_hm_extend map_add_def split: option.split)
  then show ?thesis
    using False leaf_in_read [OF assms [OF i0]] by (simp add: get_empty_leaves_def)
qed

lemma partition_shift:
  fixes k :: nat
  assumes "\<And>i. P i \<Longrightarrow> k \<le> i"
  shows "set idx = set (filter (\<lambda>i. \<not> P i) idx) \<union>
    (\<lambda>i. i + k) ` set (map (\<lambda>i. i - k) (filter P idx))"
proof -
  have "(\<lambda>i. i - k + k) ` (set (filter P idx)) = set (filter P idx)"
    using assms by (force intro: image_cong)
  then show ?thesis by (auto simp: image_image)
qed

lemma get_leaves_repr:
  assumes "node_repr e s n h g" and "\<And>i. i < 2 ^ h \<Longrightarrow> leaf_in e s (g i, f i)"
    and "\<And>i. i \<in> set idx \<Longrightarrow> i < 2 ^ h"
  shows "\<exists>m facts'. get_leaves e s n idx facts = Inr (m, facts') \<and> holds_leaves m (set idx) f"
  using assms
proof (induction h arbitrary: n g f idx facts rule: less_induct)
  case (less h)
  let ?H = "env_hash e" and ?c = "canon (env_hash e) h g"
  have h: "height n = h" and ne: "nonempty_keys (tree_facts ?H h g)"
    and in_s: "\<forall>x\<in>set (tree_facts ?H h g). node_in e s x"
    using less.prems(1) by (simp_all add: node_repr_def)
  obtain b p l where c: "?c = (b, p, l)" by (cases ?c) auto
  consider (none) "idx = []" | (empty) "idx \<noteq> []" "VPN_is_empty n"
    | (leaf) "idx \<noteq> []" "\<not> VPN_is_empty n" "h = 0"
    | (edge) "idx \<noteq> []" "\<not> VPN_is_empty n" "0 < h" "length_of n \<noteq> 0"
    | (binary) k where "idx \<noteq> []" "\<not> VPN_is_empty n" "h = Suc k" "length_of n = 0"
    by (cases h) auto
  then show ?case
  proof cases
    case none
    then show ?thesis by (simp add: get_leaves.simps holds_leaves_def)
  next
    case empty
    then have "leaf_in e s (EMPTY_HASH, f i)" if "i \<in> set idx" for i
      using node_repr_empty_iff [OF less.prems(1)] less.prems(2,3) that by fastforce
    from get_empty_leaves_repr [of idx e s f, OF this] empty show ?thesis
      by (auto simp: get_leaves.simps)
  next
    case leaf
    have "bottom_node n = g 0"
      using less.prems(1) leaf(3) by (auto simp: node_repr_def triple_of_def)
    moreover have "i = 0" if "i \<in> set idx" for i
      using less.prems(3) [OF that] leaf(3) by simp
    then have "set idx = {0}" using leaf(1) by (cases idx) auto
    ultimately show ?thesis
      using leaf h leaf_in_read [OF less.prems(2) [of 0]]
      by (simp add: get_leaves.simps get_leaf_node_def VPN_is_leaf_def holds_leaves_def)
  next
    case edge
    have trip: "triple_of n = (b, p, l)" and l: "l \<noteq> 0"
      using less.prems(1) edge(4) by (auto simp: node_repr_def triple_of_def c)
    have b: "b \<noteq> EMPTY_HASH" using edge(2) trip by (simp add: VPN_is_empty_def triple_of_def)
    have le: "l \<le> h" using canon_shape [OF c] by simp
    let ?w = "h - l"
    let ?root = "\<lparr> bottom_node = b, path = 0, length_of = 0, height = ?w \<rparr>"
    let ?in = "\<lambda>i. drop_bit ?w i = p"
    note E = canon_edge [OF c ne b]
    have sub: "p * 2 ^ ?w + i < 2 ^ h" if "i < 2 ^ ?w" for i
    proof -
      have "p * 2 ^ ?w + i < (p + 1) * 2 ^ ?w" using that by simp
      also have "\<dots> \<le> 2 ^ l * 2 ^ ?w"
        using canon_shape [OF c] by (intro mult_le_mono1) simp
      also have "\<dots> = 2 ^ h" using le by (simp flip: power_add)
      finally show ?thesis .
    qed
    have root: "node_repr e s ?root ?w (below ?w p g)"
      using E ne in_s nonempty_keys_subset [OF ne] by (auto simp: node_repr_def triple_of_def)
    have leaves: "leaf_in e s (below ?w p g i, f (i + p * 2 ^ ?w))" if "i < 2 ^ ?w" for i
      using less.prems(2) [OF sub [OF that]] by (simp add: below_def add.commute)
    have idxs: "i < 2 ^ ?w" if "i \<in> set (map (\<lambda>i. i - p * 2 ^ ?w) (filter ?in idx))" for i
      using that by (auto simp: drop_bit_eq_div minus_div_mult_eq_mod)
    have "?w < h" using l edge(3) by simp
    then have "\<exists>m facts'. get_leaves e s ?root (map (\<lambda>i. i - p * 2 ^ ?w) (filter ?in idx)) facts = Inr (m, facts')
        \<and> holds_leaves m (set (map (\<lambda>i. i - p * 2 ^ ?w) (filter ?in idx))) (\<lambda>i. f (i + p * 2 ^ ?w))"
      by (rule less.IH [OF _ root]) (fact leaves, fact idxs)
    then obtain m1 facts1 where
      m1: "get_leaves e s ?root (map (\<lambda>i. i - p * 2 ^ ?w) (filter ?in idx)) facts = Inr (m1, facts1)"
      and m1': "holds_leaves m1 (set (map (\<lambda>i. i - p * 2 ^ ?w) (filter ?in idx))) (\<lambda>i. f (i + p * 2 ^ ?w))"
      by blast
    have "leaf_in e s (EMPTY_HASH, f i)" if "i \<in> set (filter (\<lambda>i. \<not> ?in i) idx)" for i
    proof -
      have "i < 2 ^ h" "i div 2 ^ ?w \<noteq> p"
        using that less.prems(3) by (auto simp: drop_bit_eq_div)
      with E have "g i = EMPTY_HASH" by blast
      with less.prems(2) [OF \<open>i < 2 ^ h\<close>] show ?thesis by simp
    qed
    from get_empty_leaves_repr [of "filter (\<lambda>i. \<not> ?in i) idx" e s f, OF this] obtain m2 where
      m2: "get_empty_leaves e s (filter (\<lambda>i. \<not> ?in i) idx) = Inr m2"
      and m2': "holds_leaves m2 (set (filter (\<lambda>i. \<not> ?in i) idx)) f" by auto
    have "set idx = set (filter (\<lambda>i. \<not> ?in i) idx) \<union>
        (\<lambda>i. i + p * 2 ^ ?w) ` set (map (\<lambda>i. i - p * 2 ^ ?w) (filter ?in idx))"
      by (rule partition_shift) (auto simp: drop_bit_eq_div)
    from holds_leaves_union [OF m2' m1' this] show ?thesis
      using edge trip h le m1 m2
      by (simp add: get_leaves.simps [of e s n] get_edge_node_leaves.simps VPN_is_leaf_def
          VPN_is_virtual_edge_def triple_of_def unify_edge_leaves_def)
  next
    case (binary k)
    obtain nl nr facts1 where ch: "VPN_get_children e s n facts = Inr ((nl, nr), facts1)"
      and nl: "node_repr e s nl k g" and nr: "node_repr e s nr k (right_half k g)"
      using get_children_repr [OF less.prems(1) [unfolded binary(3)], of facts] by blast
    let ?L = "filter (\<lambda>i. i < 2 ^ k) idx"
    let ?R = "map (\<lambda>i. i - 2 ^ k) (filter (\<lambda>i. \<not> i < 2 ^ k) idx)"
    have "k < h" using binary(3) by simp
    have "leaf_in e s (g i, f i)" if "i < 2 ^ k" for i
      using less.prems(2) [of i] that binary(3) by simp
    then have "\<exists>m facts'. get_leaves e s nl ?L facts1 = Inr (m, facts') \<and> holds_leaves m (set ?L) f"
      by (rule less.IH [OF \<open>k < h\<close> nl]) simp_all
    then obtain m1 facts2 where m1: "get_leaves e s nl ?L facts1 = Inr (m1, facts2)"
      and m1': "holds_leaves m1 (set ?L) f"
      by blast
    have idxs: "i < 2 ^ k" if "i \<in> set ?R" for i
    proof -
      from that obtain x where "x \<in> set idx" "i = x - 2 ^ k" by auto
      with less.prems(3) [of x] binary(3) show ?thesis by auto
    qed
    have leaves: "leaf_in e s (right_half k g i, f (i + 2 ^ k))" if "i < 2 ^ k" for i
      using less.prems(2) [of "2 ^ k + i"] that binary(3) by (simp add: right_half_def add.commute)
    have "\<exists>m facts'. get_leaves e s nr ?R facts2 = Inr (m, facts') \<and>
        holds_leaves m (set ?R) (\<lambda>i. f (i + 2 ^ k))"
      by (rule less.IH [OF \<open>k < h\<close> nr]) (fact leaves, fact idxs)
    then obtain m2 facts3 where m2: "get_leaves e s nr ?R facts2 = Inr (m2, facts3)"
      and m2': "holds_leaves m2 (set ?R) (\<lambda>i. f (i + 2 ^ k))"
      by blast
    have "set idx = set ?L \<union> (\<lambda>i. i + 2 ^ k) ` set ?R"
      using partition_shift [of "\<lambda>i. \<not> i < 2 ^ k" "2 ^ k" idx] by simp
    from holds_leaves_union [OF m1' m2' this] show ?thesis
      using binary h ch m1 m2
      by (simp add: get_leaves.simps [of e s n] get_binary_node_leaves.simps VPN_is_leaf_def
          VPN_is_virtual_edge_def unify_binary_leaves_def)
  qed
qed

end
