(* ===== verification/Patricia_Calc.thy ===== *)
theory Patricia_Calc
  imports Patricia_Read
begin

text \<open>
  Calculations are correct: evaluating a calculation produces its hash and records exactly the
  facts it stands for, and combining two calculations that represent the halves of a tree gives
  one that represents the tree.
\<close>

section \<open>Evaluating a calculation\<close>

fun chash :: "('s, 'lf) tree_env \<Rightarrow> 'lf hash_calculation \<Rightarrow> hash" where
  "chash e (BinaryCalculation l r) = spec_hash (env_hash e) (chash e l) (chash e r)"
| "chash e (EdgeCalculation b p l) = spec_edge_hash (env_hash e) (chash e b) p l"
| "chash e (LeafFactCalculation x) = lhash e x"
| "chash e (ConstantCalculation h) = h"

fun cfacts :: "('s, 'lf) tree_env \<Rightarrow> 'lf hash_calculation \<Rightarrow> (hash \<times> patricia_node_fact) list" where
  "cfacts e (BinaryCalculation l r) = cfacts e l @ cfacts e r @
     [(chash e (BinaryCalculation l r), BinaryFact \<lparr> left_node = chash e l, right_node = chash e r \<rparr>)]"
| "cfacts e (EdgeCalculation b p l) = cfacts e b @
     [(chash e (EdgeCalculation b p l),
       EdgeFact \<lparr> edge_bottom_node = chash e b, edge_path = p, edge_length = l \<rparr>)]"
| "cfacts e (LeafFactCalculation x) = []"
| "cfacts e (ConstantCalculation h) = []"

fun cleaves :: "('s, 'lf) tree_env \<Rightarrow> 'lf hash_calculation \<Rightarrow> (hash \<times> 'lf) list" where
  "cleaves e (BinaryCalculation l r) = cleaves e l @ cleaves e r"
| "cleaves e (EdgeCalculation b p l) = cleaves e b"
| "cleaves e (LeafFactCalculation x) = [(lhash e x, x)]"
| "cleaves e (ConstantCalculation h) = []"

fun calc_ok :: "('lf \<Rightarrow> bool) \<Rightarrow> 'lf hash_calculation \<Rightarrow> bool" where
  "calc_ok valid (BinaryCalculation l r) \<longleftrightarrow> calc_ok valid l \<and> calc_ok valid r"
| "calc_ok valid (EdgeCalculation b p l) \<longleftrightarrow> calc_ok valid b \<and> p < 2 ^ l \<and> l \<le> MAX_HEIGHT"
| "calc_ok valid (LeafFactCalculation x) \<longleftrightarrow> valid x"
| "calc_ok valid (ConstantCalculation h) \<longleftrightarrow> hash_valid h"

lemma hm_extend_append: "hm_extend m (xs @ ys) = hm_extend (hm_extend m xs) ys"
  by (induction xs arbitrary: m) auto

context patricia_env
begin

lemma chash_valid: "calc_ok valid c \<Longrightarrow> hash_valid (chash e c)"
proof (induction c)
  case (BinaryCalculation l r)
  then show ?case using spec_hash_valid by simp
next
  case (EdgeCalculation b p l)
  then show ?case using spec_edge_valid by simp
next
  case (LeafFactCalculation x)
  then show ?case using lhash_valid by simp
qed simp

lemma cfacts_wf: "calc_ok valid c \<Longrightarrow> (k, v) \<in> set (cfacts e c) \<Longrightarrow> hash_valid k \<and> node_fact_wf v"
proof (induction c)
  case (BinaryCalculation l r)
  then show ?case
    using chash_valid spec_hash_valid by (auto simp: node_fact_wf_def hash_valid_wf)
next
  case (EdgeCalculation b p l)
  then show ?case
    using chash_valid spec_edge_valid
    by (auto simp: node_fact_wf_def edge_wf_def hash_valid_wf MAX_HEIGHT_def)
qed auto

lemma cleaves_wf: "calc_ok valid c \<Longrightarrow> (k, x) \<in> set (cleaves e c) \<Longrightarrow> hash_valid k \<and> valid x"
  by (induction c) (auto simp: lhash_valid)

text \<open>A full calculation returns the hash and inserts the facts in their order.\<close>

lemma full_calculate_ok:
  "calc_ok valid c \<Longrightarrow> full_calculate e c fn =
     Inr (chash e c, fn \<lparr> inner_nodes := hm_extend (inner_nodes fn) (cfacts e c),
                         leaves := hm_extend (leaves fn) (cleaves e c) \<rparr>)"
proof (induction c arbitrary: fn)
  case (BinaryCalculation l r)
  then show ?case
    using spec_hash_valid [of "chash e l" "chash e r"] chash_valid
    by (simp add: full_calculate.simps [of e "BinaryCalculation l r"] BinaryCalculation_calculate_def
        dependency_result_def BinaryNodeFact_hash_def hm_extend_append)
next
  case (EdgeCalculation b p l)
  then show ?case
    using spec_edge_valid [of "chash e b" p l] chash_valid
    by (simp add: full_calculate.simps [of e "EdgeCalculation b p l"] EdgeCalculation_calculate_def
        dependency_result_def EdgeNodeFact_hash_def hm_extend_append new_unchecked_eq)
next
  case (LeafFactCalculation x)
  then show ?case
    using lhash_valid [of x] by (simp add: full_calculate.simps LeafFactCalculation_calculate_def)
next
  case (ConstantCalculation h)
  then show ?case by (simp add: full_calculate.simps)
qed

end

section \<open>Calculations that represent a tree\<close>

definition calc_repr ::
  "('s, 'lf) tree_env \<Rightarrow> ('lf \<Rightarrow> bool) \<Rightarrow> 's \<Rightarrow> 'lf vcn \<Rightarrow> nat \<Rightarrow> (nat \<Rightarrow> 'lf) \<Rightarrow> bool" where
  "calc_repr e valid s c h f \<longleftrightarrow>
     (let H = env_hash e; g = leaf_hashes e f; k = canon H h g; b = bottom_calculation c in
      calc_height c = h \<and> calc_ok valid b \<and> (\<forall>b' p l. b \<noteq> EdgeCalculation b' p l) \<and>
      ((chash e b, calc_path c, calc_length c) = k \<or>
       calc_path c = 0 \<and> calc_length c = 0 \<and> b = ConstantCalculation (node_hash H k) \<and>
       nonempty_keys (edge_facts H k) \<and> (\<forall>x\<in>set (edge_facts H k). node_in e s x)) \<and>
      (\<forall>x\<in>set (tree_facts H h g). node_in e s x \<or> x \<in> set (cfacts e b)) \<and>
      set (cfacts e b) \<subseteq> set (tree_facts H h g) \<and>
      (\<forall>i < 2 ^ h. g i \<noteq> EMPTY_HASH \<longrightarrow>
         leaf_in e s (g i, f i) \<or> (g i, f i) \<in> set (cleaves e b)) \<and>
      set (cleaves e b) \<subseteq> (\<lambda>i. (g i, f i)) ` {..<2 ^ h})"

lemma calc_repr_cleaves:
  "calc_repr e valid s c h f \<Longrightarrow>
   set (cleaves e (bottom_calculation c)) \<subseteq> (\<lambda>i. (leaf_hashes e f i, f i)) ` {..<2 ^ h}"
  by (simp add: calc_repr_def Let_def)

lemma indexed_leaves_left:
  "(\<lambda>i. (leaf_hashes e f i, f i)) ` {..<2 ^ h} \<subseteq> (\<lambda>i. (leaf_hashes e f i, f i)) ` {..<2 ^ Suc h}"
  by (rule image_mono) auto

lemma indexed_leaves_right:
  "(\<lambda>i. (leaf_hashes e (right_half h f) i, right_half h f i)) ` {..<2 ^ h} \<subseteq>
   (\<lambda>i. (leaf_hashes e f i, f i)) ` {..<2 ^ Suc h}"
proof clarify
  fix i :: nat
  assume "i < 2 ^ h"
  then have "2 ^ h + i \<in> {..<2 ^ Suc h}" by simp
  moreover have "(leaf_hashes e (right_half h f) i, right_half h f i) = (leaf_hashes e f (2 ^ h + i), f (2 ^ h + i))"
    by (simp add: leaf_hashes_def right_half_def)
  ultimately show "(leaf_hashes e (right_half h f) i, right_half h f i) \<in> (\<lambda>i. (leaf_hashes e f i, f i)) ` {..<2 ^ Suc h}"
    by blast
qed

text \<open>What a tree must satisfy for its hashes to identify it.\<close>

definition leaves_ok :: "('s, 'lf) tree_env \<Rightarrow> ('lf \<Rightarrow> bool) \<Rightarrow> nat \<Rightarrow> (nat \<Rightarrow> 'lf) \<Rightarrow> bool" where
  "leaves_ok e valid h f \<longleftrightarrow>
     (\<forall>i < 2 ^ h. valid (f i) \<and> (lhash e (f i) = EMPTY_HASH \<longrightarrow> leaf_is_empty (env_leaf e) (f i)))"

context patricia_env
begin

lemma calc_repr_empty_iff:
  assumes "calc_repr e valid s c h f" and "leaves_ok e valid h f"
    and ne: "nonempty_keys (tree_facts (env_hash e) h (leaf_hashes e f))"
  shows "VCN_is_empty (env_leaf e) c \<longleftrightarrow> fst (canon (env_hash e) h (leaf_hashes e f)) = EMPTY_HASH"
proof -
  let ?H = "env_hash e" and ?g = "leaf_hashes e f"
  obtain b p l where c: "canon ?H h ?g = (b, p, l)" by (cases "canon ?H h ?g") auto
  note shape = canon_shape [OF c]
  show ?thesis
  proof (cases "bottom_calculation c")
    case (BinaryCalculation x y)
    then have "(chash e (BinaryCalculation x y), BinaryFact \<lparr> left_node = chash e x, right_node = chash e y \<rparr>)
        \<in> set (tree_facts ?H h ?g)"
      using assms(1) by (auto simp: calc_repr_def Let_def)
    then have "chash e (BinaryCalculation x y) \<noteq> EMPTY_HASH"
      using ne by (rule nonempty_keysD [rotated])
    then show ?thesis
      using assms(1) BinaryCalculation
      by (auto simp: calc_repr_def Let_def VCN_is_empty_def HashCalculation_is_empty_def c)
  next
    case (EdgeCalculation x y z)
    then show ?thesis using assms(1) by (simp add: calc_repr_def Let_def)
  next
    case (LeafFactCalculation x)
    then have "(lhash e x, x) \<in> (\<lambda>i. (?g i, f i)) ` {..<2 ^ h}" and b: "lhash e x = b" and v: "valid x"
      using assms(1) by (auto simp: calc_repr_def Let_def c)
    then have "lhash e x = EMPTY_HASH \<Longrightarrow> leaf_is_empty (env_leaf e) x"
      using assms(2) by (auto simp: leaves_ok_def)
    moreover have "leaf_is_empty (env_leaf e) x \<Longrightarrow> lhash e x = EMPTY_HASH"
      using leaf_empty_hash [OF v] by (simp add: lhash_def)
    ultimately show ?thesis
      using LeafFactCalculation b by (auto simp: VCN_is_empty_def HashCalculation_is_empty_def c)
  next
    case (ConstantCalculation v)
    then show ?thesis
      using assms(1) shape ne
      by (auto simp: calc_repr_def Let_def VCN_is_empty_def HashCalculation_is_empty_def c split: if_splits)
  qed
qed

lemma commit_repr:
  assumes "calc_repr e valid s c h f" and "h \<le> MAX_HEIGHT"
  shows "\<exists>cc. VCN_commit c = Inr cc \<and> calc_ok valid cc \<and>
    chash e cc = node_hash (env_hash e) (canon (env_hash e) h (leaf_hashes e f)) \<and>
    set (cfacts e (bottom_calculation c)) \<subseteq> set (cfacts e cc) \<and>
    set (cfacts e cc) \<subseteq> set (cfacts e (bottom_calculation c)) \<union>
      set (edge_facts (env_hash e) (canon (env_hash e) h (leaf_hashes e f))) \<and>
    (\<forall>x\<in>set (edge_facts (env_hash e) (canon (env_hash e) h (leaf_hashes e f))).
       node_in e s x \<or> x \<in> set (cfacts e cc)) \<and>
    cleaves e cc = cleaves e (bottom_calculation c)"
proof -
  let ?H = "env_hash e" and ?g = "leaf_hashes e f"
  obtain b p l where c: "canon ?H h ?g = (b, p, l)" by (cases "canon ?H h ?g") auto
  have shape: "l \<le> MAX_HEIGHT" "p < 2 ^ l" using canon_shape [OF c] assms(2) by auto
  have ok: "calc_ok valid (bottom_calculation c)"
    using assms(1) by (simp add: calc_repr_def Let_def)
  show ?thesis
  proof (cases "calc_length c = 0")
    case True
    then show ?thesis
      using assms(1) ok
      by (intro exI [of _ "bottom_calculation c"])
        (auto simp: VCN_commit_def VCN_is_virtual_edge_def calc_repr_def Let_def c)
  next
    case False
    then have "(chash e (bottom_calculation c), calc_path c, calc_length c) = (b, p, l)"
      using assms(1) by (auto simp: calc_repr_def Let_def c)
    then show ?thesis
      using False ok shape
      by (intro exI [of _ "EdgeCalculation (bottom_calculation c) p l"])
        (auto simp: VCN_commit_def VCN_is_virtual_edge_def EdgeCalculation_new_def c)
  qed
qed

lemma leaves_ok_valid:
  "leaves_ok e valid h f \<Longrightarrow> i < 2 ^ h \<Longrightarrow> hash_valid (leaf_hashes e f i)"
  by (simp add: leaves_ok_def leaf_hashes_def lhash_valid)

lemma leaves_ok_halves:
  "leaves_ok e valid (Suc h) f \<longleftrightarrow> leaves_ok e valid h f \<and> leaves_ok e valid h (right_half h f)"
  unfolding leaves_ok_def all_halves by (simp add: right_half_def)

lemma decommit_repr:
  assumes c: "calc_repr e valid s c h f" and ok: "leaves_ok e valid h f" and h: "h \<le> MAX_HEIGHT"
    and ne: "nonempty_keys (tree_facts (env_hash e) h (leaf_hashes e f))"
    and nonempty: "fst (canon (env_hash e) h (leaf_hashes e f)) \<noteq> EMPTY_HASH"
  shows "\<exists>c' facts'. decommit e s c facts = Inr (c', facts') \<and> calc_repr e valid s c' h f \<and>
    (chash e (bottom_calculation c'), calc_path c', calc_length c') = canon (env_hash e) h (leaf_hashes e f)"
proof -
  let ?H = "env_hash e" and ?g = "leaf_hashes e f"
  obtain b p l where k: "canon ?H h ?g = (b, p, l)" by (cases "canon ?H h ?g") auto
  have shape: "p < 2 ^ l" "l \<le> h" using canon_shape [OF k] by auto
  have not_empty: "\<not> VCN_is_empty (env_leaf e) c"
    using calc_repr_empty_iff [OF c ok ne] nonempty by simp
  show ?thesis
  proof (cases "calc_height c = 0 \<or> calc_length c \<noteq> 0 \<or> (\<forall>v. bottom_calculation c \<noteq> ConstantCalculation v)")
    case True
    then have "decommit e s c facts = Inr (c, facts)"
      using c by (cases "bottom_calculation c")
        (auto simp: decommit_def VCN_is_leaf_def VCN_is_virtual_edge_def calc_repr_def Let_def)
    moreover have "(chash e (bottom_calculation c), calc_path c, calc_length c) = canon ?H h ?g"
      using True c shape by (auto simp: calc_repr_def Let_def k)
    ultimately show ?thesis using c by blast
  next
    case False
    then obtain v where v: "bottom_calculation c = ConstantCalculation v" and l0: "calc_length c = 0"
      and "calc_height c \<noteq> 0" by blast
    then obtain j where j: "h = Suc j"
      using c by (cases h) (auto simp: calc_repr_def Let_def)
    have dec: "decommit e s c facts =
        bindR (read_node_fact (env_storage e) (PatriciaNodeFact_inf ?H) s v facts) (\<lambda>(bottom_fact, facts').
          case bottom_fact of
            EdgeFact edge_node_fact \<Rightarrow>
              bindR (VCN_new_unchecked (ConstantCalculation (edge_bottom_node edge_node_fact))
                       (edge_path edge_node_fact) (edge_length edge_node_fact) (calc_height c))
                (\<lambda>n'. Inr (n', facts'))
          | _ \<Rightarrow> Inr (c, facts'))"
      using not_empty v l0 \<open>calc_height c \<noteq> 0\<close>
      by (simp add: decommit_def VCN_is_leaf_def VCN_is_virtual_edge_def)
    show ?thesis
    proof (cases "l = 0")
      case True
      then have vb: "v = b" "calc_path c = p"
        using c v l0 shape by (auto simp: calc_repr_def Let_def k)
      have "b \<noteq> EMPTY_HASH" using nonempty by (simp add: k)
      from k [unfolded j] ne [unfolded j] this
      have "\<exists>B. (b, BinaryFact B) \<in> set (tree_facts ?H (Suc j) ?g)"
        by (cases rule: canon_Suc_cases) (use True in \<open>auto simp: merge_facts_def\<close>)
      then obtain B where "(b, BinaryFact B) \<in> set (tree_facts ?H h ?g)"
        unfolding j by blast
      then have "node_in e s (b, BinaryFact B)"
        using c v by (auto simp: calc_repr_def Let_def)
      then obtain facts' where
        "read_node_fact (env_storage e) (PatriciaNodeFact_inf ?H) s v facts = Inr (BinaryFact B, facts')"
        unfolding vb by (elim node_in_read)
      then show ?thesis
        using c v vb l0 True by (simp add: dec k)
    next
      case False
      then have vb: "v = spec_edge_hash ?H b p l"
        and "node_in e s (v, EdgeFact \<lparr> edge_bottom_node = b, edge_path = p, edge_length = l \<rparr>)"
        using c v l0 by (auto simp: calc_repr_def Let_def k)
      then obtain facts' where read: "read_node_fact (env_storage e) (PatriciaNodeFact_inf ?H) s v facts =
          Inr (EdgeFact \<lparr> edge_bottom_node = b, edge_path = p, edge_length = l \<rparr>, facts')"
        by (elim node_in_read)
      let ?c = "\<lparr> bottom_calculation = ConstantCalculation b, calc_path = p, calc_length = l, calc_height = h \<rparr>"
      have "hash_valid b"
        using canon_valid [of h ?g] leaves_ok_valid [OF ok] h by (simp add: k)
      then have "calc_repr e valid s ?c h f"
        using c v by (simp add: calc_repr_def Let_def k)
      then show ?thesis
        using read c shape by (simp add: dec k calc_repr_def Let_def)
    qed
  qed
qed

lemma combine_empty_repr:
  assumes "calc_repr e valid s c1 h f" and "calc_repr e valid s c2 h (right_half h f)"
    and "VCN_is_empty (env_leaf e) c1" and "VCN_is_empty (env_leaf e) c2" and "h < MAX_HEIGHT"
    and "\<And>i. i < 2 ^ Suc h \<Longrightarrow> leaf_hashes e f i = EMPTY_HASH"
  shows "\<exists>c facts'. combine e s c1 c2 facts = Inr (c, facts') \<and> calc_repr e valid s c (Suc h) f"
proof -
  let ?c = "\<lparr> bottom_calculation = ConstantCalculation Hash_empty, calc_path = 0, calc_length = 0,
    calc_height = Suc h \<rparr> :: 'b vcn"
  have heights: "calc_height c1 = h" "calc_height c2 = h"
    using assms(1,2) by (simp_all add: calc_repr_def Let_def)
  have "combine e s c1 c2 facts = Inr (?c, facts)"
    using assms(3-5) by (simp add: combine_def heights u64_add_def u64_bound_def MAX_HEIGHT_def VCN_empty_node_def)
  moreover have "calc_repr e valid s ?c (Suc h) f"
    using canon_all_empty [of "Suc h" "leaf_hashes e f" "env_hash e"] assms(6)
    by (simp add: calc_repr_def Let_def EMPTY_HASH_eq del: canon.simps tree_facts.simps)
  ultimately show ?thesis by blast
qed

lemma combine_binary_repr:
  assumes c1: "calc_repr e valid s c1 h f" and c2: "calc_repr e valid s c2 h (right_half h f)"
    and "\<not> VCN_is_empty (env_leaf e) c1" and "\<not> VCN_is_empty (env_leaf e) c2" and h: "h < MAX_HEIGHT"
    and nonempty: "fst (canon (env_hash e) h (leaf_hashes e f)) \<noteq> EMPTY_HASH"
      "fst (canon (env_hash e) h (leaf_hashes e (right_half h f))) \<noteq> EMPTY_HASH"
  shows "\<exists>c facts'. combine e s c1 c2 facts = Inr (c, facts') \<and> calc_repr e valid s c (Suc h) f"
proof -
  let ?H = "env_hash e"
  let ?kl = "canon ?H h (leaf_hashes e f)" and ?kr = "canon ?H h (leaf_hashes e (right_half h f))"
  have heights: "calc_height c1 = h" "calc_height c2 = h"
    using c1 c2 by (simp_all add: calc_repr_def Let_def)
  obtain d1 where d1: "(VCN_commit c1 :: (combine_error, _) res) = Inr d1" "calc_ok valid d1" "chash e d1 = node_hash ?H ?kl"
    "set (cfacts e (bottom_calculation c1)) \<subseteq> set (cfacts e d1)"
    "set (cfacts e d1) \<subseteq> set (cfacts e (bottom_calculation c1)) \<union> set (edge_facts ?H ?kl)"
    "\<forall>x\<in>set (edge_facts ?H ?kl). node_in e s x \<or> x \<in> set (cfacts e d1)"
    "cleaves e d1 = cleaves e (bottom_calculation c1)"
    using commit_repr [OF c1 less_imp_le [OF h]] by blast
  obtain d2 where d2: "(VCN_commit c2 :: (combine_error, _) res) = Inr d2" "calc_ok valid d2" "chash e d2 = node_hash ?H ?kr"
    "set (cfacts e (bottom_calculation c2)) \<subseteq> set (cfacts e d2)"
    "set (cfacts e d2) \<subseteq> set (cfacts e (bottom_calculation c2)) \<union> set (edge_facts ?H ?kr)"
    "\<forall>x\<in>set (edge_facts ?H ?kr). node_in e s x \<or> x \<in> set (cfacts e d2)"
    "cleaves e d2 = cleaves e (bottom_calculation c2)"
    using commit_repr [OF c2 less_imp_le [OF h]] by blast
  let ?c = "\<lparr> bottom_calculation = BinaryCalculation d1 d2, calc_path = 0, calc_length = 0, calc_height = Suc h \<rparr>"
  have "combine e s c1 c2 facts = Inr (?c, facts)"
    using assms(3,4) h d1(1) d2(1)
    by (simp add: combine_def combine_to_binary_node_def heights u64_add_def u64_bound_def MAX_HEIGHT_def)
  moreover have "calc_repr e valid s ?c (Suc h) f"
    unfolding calc_repr_def Let_def
  proof (intro conjI)
    show "(chash e (bottom_calculation ?c), calc_path ?c, calc_length ?c) = canon ?H (Suc h) (leaf_hashes e f) \<or>
      calc_path ?c = 0 \<and> calc_length ?c = 0 \<and>
      bottom_calculation ?c = ConstantCalculation (node_hash ?H (canon ?H (Suc h) (leaf_hashes e f))) \<and>
      nonempty_keys (edge_facts ?H (canon ?H (Suc h) (leaf_hashes e f))) \<and>
      (\<forall>x\<in>set (edge_facts ?H (canon ?H (Suc h) (leaf_hashes e f))). node_in e s x)"
      using nonempty d1(3) d2(3) by (cases ?kl; cases ?kr) (auto simp: canon.simps(2))
    show "\<forall>x\<in>set (tree_facts ?H (Suc h) (leaf_hashes e f)). node_in e s x \<or> x \<in> set (cfacts e (bottom_calculation ?c))"
      using c1 c2 d1(3,4,6) d2(3,4,6) by (auto simp: calc_repr_def Let_def merge_facts_def split: if_splits)
    show "set (cfacts e (bottom_calculation ?c)) \<subseteq> set (tree_facts ?H (Suc h) (leaf_hashes e f))"
      using c1 c2 d1(3,5) d2(3,5) nonempty by (auto simp: calc_repr_def Let_def merge_facts_def)
    show "\<forall>i < 2 ^ Suc h. leaf_hashes e f i \<noteq> EMPTY_HASH \<longrightarrow>
        leaf_in e s (leaf_hashes e f i, f i) \<or> (leaf_hashes e f i, f i) \<in> set (cleaves e (bottom_calculation ?c))"
      unfolding all_halves using c1 c2 d1(7) d2(7)
      by (auto simp: calc_repr_def Let_def right_half_def leaf_hashes_def)
    show "set (cleaves e (bottom_calculation ?c)) \<subseteq> (\<lambda>i. (leaf_hashes e f i, f i)) ` {..<2 ^ Suc h}"
      using calc_repr_cleaves [OF c1] calc_repr_cleaves [OF c2] d1(7) d2(7)
        indexed_leaves_left [of e f h] indexed_leaves_right [of e h f] by auto
  qed (use d1(2) d2(2) in simp_all)
  ultimately show ?thesis by blast
qed

text \<open>One half empty: the edge of the other half grows by one.\<close>

lemma edge_repr:
  assumes c: "calc_repr e valid s c k f'"
    and canonical: "(chash e (bottom_calculation c), calc_path c, calc_length c) = (b, p, l)"
    and "p' < 2 ^ Suc l" and h: "k = h" "h < MAX_HEIGHT" and ls: "l \<le> h"
    and canon': "canon (env_hash e) (Suc h) (leaf_hashes e f) = (b, p', Suc l)"
    and tree': "tree_facts (env_hash e) (Suc h) (leaf_hashes e f) = tree_facts (env_hash e) h (leaf_hashes e f')"
    and leaves': "\<forall>i < 2 ^ Suc h. leaf_hashes e f i \<noteq> EMPTY_HASH \<longrightarrow>
      (leaf_hashes e f i, f i) \<in> (\<lambda>i. (leaf_hashes e f' i, f' i)) ` {..<2 ^ h}"
    and sub: "(\<lambda>i. (leaf_hashes e f' i, f' i)) ` {..<2 ^ h} \<subseteq> (\<lambda>i. (leaf_hashes e f i, f i)) ` {..<2 ^ Suc h}"
  shows "calc_repr e valid s \<lparr> bottom_calculation = bottom_calculation c, calc_path = p',
    calc_length = Suc l, calc_height = Suc h \<rparr> (Suc h) f"
proof -
  have "leaf_in e s (leaf_hashes e f i, f i) \<or> (leaf_hashes e f i, f i) \<in> set (cleaves e (bottom_calculation c))"
    if i: "i < 2 ^ Suc h" "leaf_hashes e f i \<noteq> EMPTY_HASH" for i
  proof -
    obtain j where j: "j < 2 ^ h" "leaf_hashes e f i = leaf_hashes e f' j" "f i = f' j"
      using leaves' [rule_format, OF i] by auto
    then show ?thesis using c i(2) by (auto simp: calc_repr_def Let_def h(1))
  qed
  moreover have "set (cleaves e (bottom_calculation c)) \<subseteq> (\<lambda>i. (leaf_hashes e f i, f i)) ` {..<2 ^ Suc h}"
    using calc_repr_cleaves [OF c] sub by (simp add: h(1))
  ultimately show ?thesis
    using c canonical by (simp add: calc_repr_def Let_def canon' tree' h(1) del: tree_facts.simps)
qed

lemma canon_empty_left:
  assumes "nonempty_keys (tree_facts H h g)" and "fst (canon H h g) = EMPTY_HASH"
  shows "canon H h g = (EMPTY_HASH, 0, 0)" and "tree_facts H h g = []" and "\<forall>i < 2 ^ h. g i = EMPTY_HASH"
  using canon_empty_iff [OF assms(1)] assms(2) canon_all_empty [of h g H] by auto

lemma combine_edge_repr:
  assumes c1: "calc_repr e valid s c1 h f" and c2: "calc_repr e valid s c2 h (right_half h f)"
    and ok: "leaves_ok e valid (Suc h) f"
    and ne: "nonempty_keys (tree_facts (env_hash e) (Suc h) (leaf_hashes e f))"
    and h: "h < MAX_HEIGHT"
    and empty: "VCN_is_empty (env_leaf e) c1 \<noteq> VCN_is_empty (env_leaf e) c2"
  shows "\<exists>c facts'. combine e s c1 c2 facts = Inr (c, facts') \<and> calc_repr e valid s c (Suc h) f"
proof -
  let ?H = "env_hash e" and ?gl = "leaf_hashes e f" and ?gr = "leaf_hashes e (right_half h f)"
  have heights: "calc_height c1 = h" "calc_height c2 = h"
    using c1 c2 by (simp_all add: calc_repr_def Let_def)
  have oks: "leaves_ok e valid h f" "leaves_ok e valid h (right_half h f)"
    using ok by (simp_all add: leaves_ok_halves)
  have nes: "nonempty_keys (tree_facts ?H h ?gl)" "nonempty_keys (tree_facts ?H h ?gr)"
    using ne by simp_all
  note e1 = calc_repr_empty_iff [OF c1 oks(1) nes(1)] and e2 = calc_repr_empty_iff [OF c2 oks(2) nes(2)]
  have comb: "combine e s c1 c2 facts = combine_to_virtual_edge_node e s c1 c2 facts"
    using empty h by (simp add: combine_def heights u64_add_def u64_bound_def MAX_HEIGHT_def)
  show ?thesis
  proof (cases "VCN_is_empty (env_leaf e) c1")
    case True
    note L = canon_empty_left [OF nes(1) e1 [THEN iffD1, OF True]]
    have R: "fst (canon ?H h ?gr) \<noteq> EMPTY_HASH" using e2 empty True by simp
    obtain d facts' where d: "decommit e s c2 facts = Inr (d, facts')" "calc_repr e valid s d h (right_half h f)"
      and dk: "(chash e (bottom_calculation d), calc_path d, calc_length d) = canon ?H h ?gr"
      using decommit_repr [OF c2 oks(2) _ nes(2) R, of facts] h by auto
    obtain b p l where k: "canon ?H h ?gr = (b, p, l)" by (cases "canon ?H h ?gr") auto
    note shape = canon_shape [OF k]
    have "calc_repr e valid s \<lparr> bottom_calculation = bottom_calculation d, calc_path = p + 2 ^ l,
        calc_length = Suc l, calc_height = Suc h \<rparr> (Suc h) f"
    proof (rule edge_repr [OF d(2)])
      show "canon ?H (Suc h) ?gl = (b, p + 2 ^ l, Suc l)"
        using L(1) R k by (simp add: canon.simps(2))
      show "tree_facts ?H (Suc h) ?gl = tree_facts ?H h ?gr"
        using L by (simp add: merge_facts_def)
      show "\<forall>i < 2 ^ Suc h. ?gl i \<noteq> EMPTY_HASH \<longrightarrow>
          (?gl i, f i) \<in> (\<lambda>i. (?gr i, right_half h f i)) ` {..<2 ^ h}"
        unfolding all_halves using L(3) by (auto simp: right_half_def leaf_hashes_def)
      show "(\<lambda>i. (?gr i, right_half h f i)) ` {..<2 ^ h} \<subseteq> (\<lambda>i. (?gl i, f i)) ` {..<2 ^ Suc h}"
        by (rule indexed_leaves_right)
    qed (use shape h dk k in auto)
    moreover have "combine_to_virtual_edge_node e s c1 c2 facts = Inr
        (\<lparr> bottom_calculation = bottom_calculation d, calc_path = p + 2 ^ l,
           calc_length = Suc l, calc_height = Suc h \<rparr>, facts')"
      using True empty d(1) dk shape h d(2)
      by (simp add: combine_to_virtual_edge_node_def k Let_def u64_add_def u64_bound_def MAX_HEIGHT_def
          calc_repr_def)
    ultimately show ?thesis by (auto simp: comb)
  next
    case False
    note L = canon_empty_left [OF nes(2) e2 [THEN iffD1]]
    have emp: "VCN_is_empty (env_leaf e) c2" using False empty by simp
    have R: "fst (canon ?H h ?gl) \<noteq> EMPTY_HASH" using e1 False by simp
    obtain d facts' where d: "decommit e s c1 facts = Inr (d, facts')" "calc_repr e valid s d h f"
      and dk: "(chash e (bottom_calculation d), calc_path d, calc_length d) = canon ?H h ?gl"
      using decommit_repr [OF c1 oks(1) _ nes(1) R, of facts] h by auto
    obtain b p l where k: "canon ?H h ?gl = (b, p, l)" by (cases "canon ?H h ?gl") auto
    note shape = canon_shape [OF k]
    have "calc_repr e valid s \<lparr> bottom_calculation = bottom_calculation d, calc_path = p,
        calc_length = Suc l, calc_height = Suc h \<rparr> (Suc h) f"
    proof (rule edge_repr [OF d(2)])
      show "canon ?H (Suc h) ?gl = (b, p, Suc l)"
        using L(1) [OF emp] R k by (simp add: canon.simps(2))
      show "tree_facts ?H (Suc h) ?gl = tree_facts ?H h ?gl"
        using L [OF emp] by (simp add: merge_facts_def)
      show "\<forall>i < 2 ^ Suc h. ?gl i \<noteq> EMPTY_HASH \<longrightarrow> (?gl i, f i) \<in> (\<lambda>i. (?gl i, f i)) ` {..<2 ^ h}"
        unfolding all_halves using L(3) [OF emp] by (auto simp: right_half_def leaf_hashes_def)
      show "(\<lambda>i. (?gl i, f i)) ` {..<2 ^ h} \<subseteq> (\<lambda>i. (?gl i, f i)) ` {..<2 ^ Suc h}"
        by (rule indexed_leaves_left)
    qed (use shape h dk k in auto)
    moreover have "combine_to_virtual_edge_node e s c1 c2 facts = Inr
        (\<lparr> bottom_calculation = bottom_calculation d, calc_path = p,
           calc_length = Suc l, calc_height = Suc h \<rparr>, facts')"
      using False emp d(1) dk shape h d(2)
      by (simp add: combine_to_virtual_edge_node_def k Let_def u64_add_def u64_bound_def MAX_HEIGHT_def
          calc_repr_def)
    ultimately show ?thesis by (auto simp: comb)
  qed
qed

lemma combine_repr:
  assumes c1: "calc_repr e valid s c1 h f" and c2: "calc_repr e valid s c2 h (right_half h f)"
    and ok: "leaves_ok e valid (Suc h) f"
    and ne: "nonempty_keys (tree_facts (env_hash e) (Suc h) (leaf_hashes e f))"
    and h: "h < MAX_HEIGHT"
  shows "\<exists>c facts'. combine e s c1 c2 facts = Inr (c, facts') \<and> calc_repr e valid s c (Suc h) f"
proof -
  let ?H = "env_hash e" and ?gl = "leaf_hashes e f" and ?gr = "leaf_hashes e (right_half h f)"
  have oks: "leaves_ok e valid h f" "leaves_ok e valid h (right_half h f)"
    using ok by (simp_all add: leaves_ok_halves)
  have nes: "nonempty_keys (tree_facts ?H h ?gl)" "nonempty_keys (tree_facts ?H h ?gr)"
    using ne by simp_all
  note e1 = calc_repr_empty_iff [OF c1 oks(1) nes(1)] and e2 = calc_repr_empty_iff [OF c2 oks(2) nes(2)]
  consider (empty) "VCN_is_empty (env_leaf e) c1" "VCN_is_empty (env_leaf e) c2"
    | (binary) "\<not> VCN_is_empty (env_leaf e) c1" "\<not> VCN_is_empty (env_leaf e) c2"
    | (edge) "VCN_is_empty (env_leaf e) c1 \<noteq> VCN_is_empty (env_leaf e) c2" by blast
  then show ?thesis
  proof cases
    case empty
    have "\<forall>i < 2 ^ Suc h. ?gl i = EMPTY_HASH"
      unfolding all_halves
      using canon_empty_left(3) [OF nes(1) e1 [THEN iffD1, OF empty(1)]]
        canon_empty_left(3) [OF nes(2) e2 [THEN iffD1, OF empty(2)]]
      by (simp add: leaf_hashes_def right_half_def)
    then show ?thesis using combine_empty_repr [OF c1 c2 empty h] by blast
  next
    case binary
    then show ?thesis using combine_binary_repr [OF c1 c2 binary h] e1 e2 by blast
  next
    case edge
    then show ?thesis by (rule combine_edge_repr [OF c1 c2 ok ne h])
  qed
qed

end

end
