(* ===== verification/Tree_Cut.thy ===== *)
theory Tree_Cut
  imports Patricia_Spec
begin

text \<open>
  Cuts of the complete binary tree and the positions of its nodes.

  The indices in the queue of an update and in \<open>updated_nodes\<close> always form a cut, a set obtained
  from the root by replacing nodes by their two children. Replacing two siblings by their parent
  gives a cut again, and a cut with no two siblings is the root alone.
\<close>

section \<open>Cuts of the binary tree\<close>

inductive tree_cut :: "nat set \<Rightarrow> bool" where
  root: "tree_cut {1}"
| split: "tree_cut K \<Longrightarrow> k \<in> K \<Longrightarrow> tree_cut (K - {k} \<union> {2 * k, 2 * k + 1})"

lemma cut_pos: "tree_cut K \<Longrightarrow> k \<in> K \<Longrightarrow> 0 < k"
  by (induction arbitrary: k rule: tree_cut.induct) force+

lemma cut_antichain: "tree_cut K \<Longrightarrow> a \<in> K \<Longrightarrow> b \<in> K \<Longrightarrow> b div 2 ^ j = a \<Longrightarrow> b = a"
proof (induction arbitrary: a b j rule: tree_cut.induct)
  case root
  then show ?case by simp
next
  case (split K k)
  have k: "0 < k" using cut_pos split.hyps by blast
  show ?case
  proof (cases j)
    case 0
    with split.prems show ?thesis by simp
  next
    case (Suc i)
    have half: "b div 2 ^ j = (b div 2) div 2 ^ i"
      by (simp add: Suc div_mult2_eq [symmetric])
    have bound: "k div 2 ^ i \<le> k" by simp
    consider (old) "a \<in> K - {k}" "b \<in> K - {k}"
      | (new_b) "a \<in> K - {k}" "b div 2 = k"
      | (new_a) "a div 2 = k" "b \<in> K - {k}"
      | (both) "2 * k \<le> a" "b div 2 = k"
      using split.prems(1,2) by fastforce
    then show ?thesis
    proof cases
      case old
      then show ?thesis using split.IH split.prems(3) by blast
    next
      case new_b
      then have "k = a" using split.IH [of a k i] split.hyps split.prems(3) half by auto
      with new_b show ?thesis by simp
    next
      case new_a
      have "b div 2 ^ Suc j = k"
        using split.prems(3) new_a(1) by (metis div_mult2_eq power_Suc2)
      then have "b = k" using split.IH [of k b "Suc j"] split.hyps new_a(2) by auto
      with new_a show ?thesis by simp
    next
      case both
      then have "a \<le> k" using split.prems(3) half bound by simp
      with both k show ?thesis by simp
    qed
  qed
qed

lemma cut_children:
  assumes "tree_cut K" and "k \<in> K"
  shows "2 * k \<notin> K" and "2 * k + 1 \<notin> K"
  using cut_antichain [OF assms, of "2 * k" 1] cut_antichain [OF assms, of "2 * k + 1" 1]
    cut_pos [OF assms] by auto

lemma cut_merge: "tree_cut K \<Longrightarrow> 2 * k \<in> K \<Longrightarrow> 2 * k + 1 \<in> K \<Longrightarrow> tree_cut (K - {2 * k, 2 * k + 1} \<union> {k})"
proof (induction arbitrary: k rule: tree_cut.induct)
  case root
  then show ?case by simp
next
  case (split K k' k)
  show ?case
  proof (cases "k = k'")
    case True
    then have "K - {k'} \<union> {2 * k', 2 * k' + 1} - {2 * k, 2 * k + 1} \<union> {k} = K"
      using split.hyps cut_children [OF split.hyps] by auto
    with split.hyps show ?thesis by simp
  next
    case False
    then have ne: "2 * k \<noteq> 2 * k'" "2 * k \<noteq> 2 * k' + 1" "2 * k + 1 \<noteq> 2 * k'" "2 * k + 1 \<noteq> 2 * k' + 1"
      by presburger+
    have in_K: "2 * k \<in> K" "2 * k + 1 \<in> K"
      using split.prems ne by blast+
    then have "tree_cut (K - {2 * k, 2 * k + 1} \<union> {k})" by (rule split.IH)
    moreover have "k' \<noteq> 2 * k" "k' \<noteq> 2 * k + 1"
      using split.prems cut_pos [OF split.hyps] by auto
    ultimately have "tree_cut ((K - {2 * k, 2 * k + 1} \<union> {k}) - {k'} \<union> {2 * k', 2 * k' + 1})"
      using split.hyps(2) by (intro tree_cut.split) auto
    moreover have "(K - {2 * k, 2 * k + 1} \<union> {k}) - {k'} \<union> {2 * k', 2 * k' + 1} =
        K - {k'} \<union> {2 * k', 2 * k' + 1} - {2 * k, 2 * k + 1} \<union> {k}"
      using False ne by blast
    ultimately show ?thesis by simp
  qed
qed

lemma sibling_nat: "(k :: nat) XOR 1 = (if even k then k + 1 else k - 1)"
  by (simp add: xor_Suc_0_eq)

lemma cut_no_siblings:
  assumes "tree_cut K" and no: "\<And>k. k \<in> K \<Longrightarrow> k XOR 1 \<notin> K"
  shows "K = {1}"
  using assms(1)
proof (cases rule: tree_cut.cases)
  case (split K' k)
  have "2 * k XOR 1 = 2 * k + 1" by (subst sibling_nat) simp
  then have "2 * k \<in> K" "2 * k XOR 1 \<in> K"
    unfolding split by simp_all
  with no show ?thesis by blast
qed auto

section \<open>Positions\<close>

text \<open>
  The node of height \<open>j\<close> above the leaves \<open>p * 2 ^ j\<close> to \<open>(p + 1) * 2 ^ j - 1\<close> of a tree of height
  \<open>h\<close> has the index \<open>2 ^ (h - j) + p\<close>.
\<close>

definition at_pos :: "nat \<Rightarrow> nat \<Rightarrow> nat \<Rightarrow> nat \<Rightarrow> bool" where
  "at_pos h k j p \<longleftrightarrow> j \<le> h \<and> p < 2 ^ (h - j) \<and> k = 2 ^ (h - j) + p"

lemma at_pos_root: "at_pos h 1 h 0"
  by (simp add: at_pos_def)

lemma power_range_unique:
  fixes k :: nat
  assumes "2 ^ a \<le> k" "k < 2 ^ Suc a" "2 ^ b \<le> k" "k < 2 ^ Suc b"
  shows "a = b"
proof -
  have "a < Suc b" using assms(1,4) by (meson le_less_trans power_less_imp_less_exp one_less_numeral_iff semiring_norm(76))
  moreover have "b < Suc a" using assms(2,3) by (meson le_less_trans power_less_imp_less_exp one_less_numeral_iff semiring_norm(76))
  ultimately show ?thesis by simp
qed

lemma at_pos_unique: "at_pos h k j p \<Longrightarrow> at_pos h k j' p' \<Longrightarrow> j = j' \<and> p = p'"
proof -
  assume a: "at_pos h k j p" "at_pos h k j' p'"
  then have "h - j = h - j'"
    by (intro power_range_unique [of "h - j" k "h - j'"]) (auto simp: at_pos_def)
  with a show ?thesis by (auto simp: at_pos_def)
qed

lemma at_pos_children:
  assumes "at_pos h k (Suc j) p"
  shows "at_pos h (2 * k) j (2 * p)" and "at_pos h (2 * k + 1) j (2 * p + 1)"
proof -
  have "h - j = Suc (h - Suc j)" using assms by (simp add: at_pos_def Suc_diff_Suc)
  then show "at_pos h (2 * k) j (2 * p)" "at_pos h (2 * k + 1) j (2 * p + 1)"
    using assms by (auto simp: at_pos_def)
qed

lemma at_pos_parent:
  assumes "at_pos h k j p" and "1 < k"
  shows "at_pos h (k div 2) (Suc j) (p div 2)"
proof -
  have "j \<noteq> h" using assms by (auto simp: at_pos_def)
  then obtain d where d: "h - j = Suc d" "h - Suc j = d" "Suc j \<le> h"
    using assms(1) by (cases "h - j") (auto simp: at_pos_def)
  with assms show ?thesis by (auto simp: at_pos_def)
qed

lemma below_children:
  "below (Suc j) p f = below j (2 * p) f"
  "right_half j (below (Suc j) p f) = below j (2 * p + 1) f"
  by (simp_all add: below_def right_half_def algebra_simps fun_eq_iff)

lemma below_in_range:
  assumes "at_pos h k j p" and "i < 2 ^ j"
  shows "p * 2 ^ j + i < 2 ^ h"
proof -
  have "p * 2 ^ j + i < (p + 1) * 2 ^ j" using assms(2) by simp
  also have "\<dots> \<le> 2 ^ (h - j) * 2 ^ j"
    using assms(1) by (intro mult_le_mono1) (simp add: at_pos_def)
  also have "\<dots> = 2 ^ h" using assms(1) by (simp add: at_pos_def flip: power_add)
  finally show ?thesis .
qed

lemma tree_facts_below:
  assumes "at_pos h k j p"
  shows "set (tree_facts H j (below j p g)) \<subseteq> set (tree_facts H h g)"
  using assms
proof (induction "h - j" arbitrary: j k p)
  case 0
  then have "j = h" "p = 0" by (auto simp: at_pos_def)
  then show ?case by (simp add: below_def)
next
  case (Suc d)
  have d: "d = h - Suc j" using Suc.hyps(2) by simp
  have "(2 :: nat) ^ (h - j) \<noteq> 1" using Suc.hyps(2) [symmetric] by simp
  then have "1 < (2 :: nat) ^ (h - j)" by (metis less_one linorder_neqE_nat power_not_zero zero_neq_numeral)
  then have "1 < k" using Suc.prems by (simp add: at_pos_def)
  with Suc.prems have parent: "at_pos h (k div 2) (Suc j) (p div 2)"
    by (rule at_pos_parent)
  have "below j p g = below (Suc j) (p div 2) g \<or> below j p g = right_half j (below (Suc j) (p div 2) g)"
  proof (cases "even p")
    case True
    then show ?thesis by (simp add: below_children)
  next
    case False
    then have "2 * (p div 2) + 1 = p" by presburger
    then show ?thesis using below_children(2) [of j "p div 2" g] by simp
  qed
  then have "set (tree_facts H j (below j p g)) \<subseteq> set (tree_facts H (Suc j) (below (Suc j) (p div 2) g))"
    by auto
  also have "\<dots> \<subseteq> set (tree_facts H h g)"
    by (rule Suc.hyps(1) [OF d parent])
  finally show ?case .
qed

lemma leaf_hashes_below: "leaf_hashes e (below j p f) = below j p (leaf_hashes e f)"
  by (simp add: leaf_hashes_def below_def)

end
