(* ===== verification/Patricia_Update.thy ===== *)
theory Patricia_Update
  imports Patricia_Calc Tree_Cut
begin

text \<open>
  Updating is correct: the new root is the root of the tree in which the modified leaves are
  replaced, and the storage holds its facts.
\<close>

section \<open>Update trees\<close>

text \<open>The update tree of a node, from the modifications \<open>m\<close> of the leaves below it.\<close>

fun spec_update :: "(nat \<Rightarrow> 'lf option) \<Rightarrow> nat \<Rightarrow> nat \<Rightarrow> 'lf update_tree" where
  "spec_update m 0 p = map_option Leaf (m p)"
| "spec_update m (Suc j) p =
     (if spec_update m j (2 * p) = None \<and> spec_update m j (2 * p + 1) = None then None
      else Some (Tuple (spec_update m j (2 * p)) (spec_update m j (2 * p + 1))))"

lemma spec_update_None_iff:
  "spec_update m j p = None \<longleftrightarrow> (\<forall>i < 2 ^ j. m (p * 2 ^ j + i) = None)"
proof (induction j arbitrary: p)
  case (Suc j)
  show ?case
    by (simp only: spec_update.simps Suc.IH all_halves) (simp add: algebra_simps)
qed simp

lemma map_of_next_layer:
  "map_of (next_layer L) i =
     (if map_of L (2 * i) = None \<and> map_of L (2 * i + 1) = None then None
      else Some (Tuple (map_of L (2 * i)) (map_of L (2 * i + 1))))"
proof -
  let ?v = "\<lambda>i. Tuple (map_of L (i * 2)) (map_of L (i * 2 + 1))"
  have fold: "map_of (fold (\<lambda>index. hm_insert index (?v index)) xs M) i =
      (if i \<in> set xs then Some (?v i) else map_of M i)" for xs M
    by (induction xs arbitrary: M) auto
  have "i \<in> (\<lambda>key. key div 2) ` dom (map_of L) \<longleftrightarrow> 2 * i \<in> dom (map_of L) \<or> 2 * i + 1 \<in> dom (map_of L)"
  proof
    assume "i \<in> (\<lambda>key. key div 2) ` dom (map_of L)"
    then obtain k where "k \<in> dom (map_of L)" "i = k div 2" by blast
    moreover from this have "k = 2 * i \<or> k = 2 * i + 1" by presburger
    ultimately show "2 * i \<in> dom (map_of L) \<or> 2 * i + 1 \<in> dom (map_of L)" by metis
  next
    have "i = 2 * i div 2" "i = (2 * i + 1) div 2" by presburger+
    then show "2 * i \<in> dom (map_of L) \<or> 2 * i + 1 \<in> dom (map_of L) \<Longrightarrow>
        i \<in> (\<lambda>key. key div 2) ` dom (map_of L)" by blast
  qed
  moreover have "set (map (\<lambda>key. key div 2) (hm_keys L)) = (\<lambda>key. key div 2) ` dom (map_of L)"
    by (simp add: dom_map_of_hm_keys)
  ultimately show ?thesis
    unfolding next_layer_def Let_def fold set_remdups by (auto simp: mult.commute)
qed

lemma map_of_layers:
  "map_of ((next_layer ^^ j) L) p = spec_update (\<lambda>i. case map_of L i of Some (Leaf x) \<Rightarrow> Some x | _ \<Rightarrow> None) j p"
  if "\<And>i u. map_of L i = Some u \<Longrightarrow> \<exists>x. u = Leaf x"
proof (induction j arbitrary: p)
  case 0
  show ?case
    using that [of p] by (cases "map_of L p") auto
next
  case (Suc j)
  then show ?case by (simp add: map_of_next_layer)
qed

lemma hm_wf_next_layer: "hm_wf (next_layer L)" for L :: "'a layer"
proof -
  have "hm_wf M \<Longrightarrow> hm_wf (fold (\<lambda>index. hm_insert index (v index)) xs M)" for M and v :: "nat \<Rightarrow> 'a tree_update" and xs :: "nat list"
    by (induction xs arbitrary: M) auto
  then show ?thesis by (simp add: next_layer_def Let_def)
qed

text \<open>The modifications as a map: the last one of an index counts.\<close>

definition mods_map :: "(tree_index \<times> 'lf) list \<Rightarrow> nat \<Rightarrow> 'lf option" where
  "mods_map modifications = map_of (rev modifications)"

lemma mods_map_None_iff: "mods_map ms i = None \<longleftrightarrow> i \<notin> fst ` set ms"
  by (simp add: mods_map_def map_of_eq_None_iff)

text \<open>The new leaves.\<close>

definition apply_mods :: "(nat \<Rightarrow> 'lf option) \<Rightarrow> (nat \<Rightarrow> 'lf) \<Rightarrow> nat \<Rightarrow> 'lf" where
  "apply_mods m f i = (case m i of Some x \<Rightarrow> x | None \<Rightarrow> f i)"

lemma build_update_tree_eq:
  fixes ms :: "(tree_index \<times> 'a) list"
  assumes "\<And>i x. (i, x) \<in> set ms \<Longrightarrow> i < 2 ^ h"
  shows "build_update_tree h ms = Inr (spec_update (mods_map ms) h 0)"
proof (cases "ms = []")
  case True
  then have "spec_update (mods_map ms) h 0 = None"
    by (simp add: spec_update_None_iff mods_map_def)
  with True show ?thesis by (simp add: build_update_tree_def)
next
  case False
  let ?A = "hm_extend [] (map (\<lambda>(i, x). (i, Leaf x)) ms)"
  let ?L = "(next_layer ^^ h) ?A"
  have L0: "map_of ?A i = map_option Leaf (mods_map ms i)" for i
  proof -
    have "map_of (map (\<lambda>(i, x). (i, Leaf x)) xs) i = map_option Leaf (map_of xs i)" for xs :: "(nat \<times> 'a) list"
      by (induction xs) auto
    then show ?thesis
      by (simp add: map_of_hm_extend mods_map_def map_add_def rev_map split: option.split)
  qed
  have L: "map_of ?L p = spec_update (mods_map ms) h p" for p
  proof -
    have "(\<lambda>i. case map_of ?A i of Some (Leaf x) \<Rightarrow> Some x | _ \<Rightarrow> None) = mods_map ms"
      by (auto simp: L0 fun_eq_iff split: option.split)
    moreover have "\<exists>x. u = Leaf x" if "map_of ?A i = Some u" for i u
      using that by (auto simp: L0)
    ultimately show ?thesis using map_of_layers [of ?A h p] by simp
  qed
  have none: "map_of ?L p = None" if "p \<noteq> 0" for p
  proof -
    have "mods_map ms (p * 2 ^ h + i) = None" for i
    proof -
      have "(2::nat) ^ h \<le> p * 2 ^ h + i" using that by (cases p) auto
      then show ?thesis using assms by (fastforce simp: mods_map_None_iff)
    qed
    then show ?thesis by (simp add: L spec_update_None_iff)
  qed
  obtain i x where "(i, x) \<in> set ms" using False by (cases ms) auto
  then have "mods_map ms i \<noteq> None" and "i < 2 ^ h"
    using assms [of i x] imageI [of "(i, x)" "set ms" fst] by (simp_all only: mods_map_None_iff) simp
  then have "spec_update (mods_map ms) h 0 \<noteq> None"
    by (auto simp: spec_update_None_iff)
  then obtain u where u: "spec_update (mods_map ms) h 0 = Some u" by blast
  have "p = 0" if "p \<in> dom (map_of ?L)" for p
    using that none by fastforce
  then have "dom (map_of ?L) = {0}"
    using u by (auto simp: L)
  moreover have "hm_wf ?L"
    by (cases h) (auto intro: hm_wf_next_layer hm_wf_extend)
  ultimately have "length ?L = 1" by (simp add: hm_wf_length)
  then show ?thesis
    using False by (simp add: build_update_tree_def Let_def L u)
qed

section \<open>The map of updated nodes\<close>

definition nodes_repr ::
  "('s, 'lf) tree_env \<Rightarrow> ('lf \<Rightarrow> bool) \<Rightarrow> 's \<Rightarrow> nat \<Rightarrow> (nat \<Rightarrow> 'lf) \<Rightarrow> 'lf updated_nodes \<Rightarrow> bool" where
  "nodes_repr e valid s h f U \<longleftrightarrow>
     hm_wf U \<and>
     (\<forall>k c. map_of U k = Some c \<longrightarrow> (\<exists>j p. at_pos h k j p \<and> calc_repr e valid s c j (below j p f)))"

lemma nodes_reprE:
  assumes "nodes_repr e valid s h f U" and "map_of U k = Some c"
  obtains j p where "at_pos h k j p" and "calc_repr e valid s c j (below j p f)"
  using assms unfolding nodes_repr_def by blast

text \<open>What the update relies on of the new tree.\<close>

definition new_tree_ok :: "('s, 'lf) tree_env \<Rightarrow> ('lf \<Rightarrow> bool) \<Rightarrow> nat \<Rightarrow> (nat \<Rightarrow> 'lf) \<Rightarrow> bool" where
  "new_tree_ok e valid h f \<longleftrightarrow>
     h \<le> MAX_HEIGHT \<and> leaves_ok e valid h f \<and>
     nonempty_keys (tree_facts (env_hash e) h (leaf_hashes e f))"

text \<open>The invariant of the traversal: \<open>f\<close> are the old leaves, \<open>m\<close> the modifications.\<close>

definition queue_indices :: "'lf update_node list \<Rightarrow> nat set" where
  "queue_indices queue = set (map un_index queue)"

definition queued ::
  "('s, 'lf) tree_env \<Rightarrow> 's \<Rightarrow> nat \<Rightarrow> (nat \<Rightarrow> 'lf) \<Rightarrow> (nat \<Rightarrow> 'lf option) \<Rightarrow> 'lf update_node \<Rightarrow> bool" where
  "queued e s h f m n \<longleftrightarrow>
     (\<exists>j p. at_pos h (un_index n) j p \<and> node_repr e s (un_tree n) j (below j p (leaf_hashes e f)) \<and>
            un_update n = spec_update m j p)"

definition update_inv ::
  "('s, 'lf) tree_env \<Rightarrow> ('lf \<Rightarrow> bool) \<Rightarrow> 's \<Rightarrow> nat \<Rightarrow> (nat \<Rightarrow> 'lf) \<Rightarrow> (nat \<Rightarrow> 'lf option)
   \<Rightarrow> 'lf update_traverser \<Rightarrow> 'lf update_node list \<Rightarrow> bool" where
  "update_inv e valid s h f m t queue \<longleftrightarrow>
     (let U = ut_nodes t in
      nodes_repr e valid s h (apply_mods m f) U \<and>
      tree_cut (queue_indices queue \<union> dom (map_of U)) \<and>
      distinct (map un_index queue) \<and> queue_indices queue \<inter> dom (map_of U) = {} \<and>
      (\<forall>k \<in> dom (map_of U). k XOR 1 \<notin> dom (map_of U)) \<and>
      (\<forall>n \<in> set queue. queued e s h f m n))"

context patricia_env
begin

lemma new_tree_ok_below:
  assumes "new_tree_ok e valid h f" and "at_pos h k j p"
  shows "leaves_ok e valid j (below j p f)"
    and "nonempty_keys (tree_facts (env_hash e) j (leaf_hashes e (below j p f)))"
proof -
  show "leaves_ok e valid j (below j p f)"
    using assms(1) below_in_range [OF assms(2)]
    by (simp add: new_tree_ok_def leaves_ok_def below_def)
  show "nonempty_keys (tree_facts (env_hash e) j (leaf_hashes e (below j p f)))"
    using assms(1) nonempty_keys_subset [OF _ tree_facts_below [OF assms(2)]]
    by (simp add: new_tree_ok_def leaf_hashes_below)
qed

text \<open>
  The loop of \<open>update_necessary\<close> combines siblings while there are any. \<open>Q\<close> is the set of indices
  still in the queue.
\<close>

lemma update_necessary_repr:
  assumes new: "new_tree_ok e valid h f"
    and "tree_cut (Q \<union> dom (map_of U))" and "Q \<inter> dom (map_of U) = {}"
    and "nodes_repr e valid s h f U"
    and "k \<in> dom (map_of U)"
    and "\<And>m. m \<in> dom (map_of U) \<Longrightarrow> m XOR 1 \<in> dom (map_of U) \<Longrightarrow> m \<in> {k, k XOR 1}"
  shows "\<exists>U' facts'. update_necessary e s k U facts = Inr (U', facts') \<and>
    nodes_repr e valid s h f U' \<and> tree_cut (Q \<union> dom (map_of U')) \<and> Q \<inter> dom (map_of U') = {} \<and>
    (\<forall>m \<in> dom (map_of U'). m XOR 1 \<notin> dom (map_of U'))"
  using assms(2-)
proof (induction U arbitrary: k facts rule: measure_induct_rule [where f = length])
  case (less U)
  show ?case
  proof (cases "k XOR 1 \<in> dom (map_of U)")
    case False
    have "m XOR 1 \<notin> dom (map_of U)" if "m \<in> dom (map_of U)" for m
    proof
      assume "m XOR 1 \<in> dom (map_of U)"
      with less.prems(5) [OF that] that False have "m = k" by auto
      with \<open>m XOR 1 \<in> dom (map_of U)\<close> False show False by simp
    qed
    moreover have "update_necessary e s k U facts = Inr (U, facts)"
      using False by (simp add: update_necessary.simps domIff)
    ultimately show ?thesis using less.prems by blast
  next
    case True
    define q where "q = k div 2"
    have pos: "0 < m" if "m \<in> dom (map_of U)" for m
      using cut_pos [OF less.prems(1)] that by blast
    have "k \<noteq> 1" using pos [OF True] by auto
    with pos [OF less.prems(4)] have "1 < k" by simp
    then have q: "0 < q" by (simp add: q_def)
    have sib: "{k, k XOR 1} = {2 * q, 2 * q + 1}"
    proof (cases "even k")
      case True
      then have "k = 2 * q" by (simp add: q_def)
      with True show ?thesis by (simp only: sibling_nat) simp
    next
      case False
      then have "k = 2 * q + 1" "k - 1 = 2 * q" by (simp_all add: q_def)
      with False show ?thesis by (simp only: sibling_nat) auto
    qed
    have "{2 * q, 2 * q + 1} \<subseteq> dom (map_of U)"
      unfolding sib [symmetric] using True less.prems(4) by blast
    then have in_U: "2 * q \<in> dom (map_of U)" "2 * q + 1 \<in> dom (map_of U)"
      by blast+
    then obtain c1 c2 where c1: "map_of U (2 * q) = Some c1" and c2: "map_of U (2 * q + 1) = Some c2"
      by blast
    obtain j p where pos1: "at_pos h (2 * q) j p"
      and r1: "calc_repr e valid s c1 j (below j p f)" using nodes_reprE [OF less.prems(3) c1] .
    have parent: "at_pos h q (Suc j) (p div 2)"
      using at_pos_parent [OF pos1] q by simp
    note ch = at_pos_children [OF parent]
    have p: "p = 2 * (p div 2)" using at_pos_unique [OF pos1 ch(1)] by simp
    obtain j' p' where pos2: "at_pos h (2 * q + 1) j' p'"
      and r2: "calc_repr e valid s c2 j' (below j' p' f)" using nodes_reprE [OF less.prems(3) c2] .
    have "j' = j" "p' = 2 * (p div 2) + 1" using at_pos_unique [OF pos2 ch(2)] by auto
    with r2 have r2': "calc_repr e valid s c2 j (right_half j (below (Suc j) (p div 2) f))"
      by (simp only: below_children(2))
    have r1': "calc_repr e valid s c1 j (below (Suc j) (p div 2) f)"
      using r1 p by (simp add: below_children(1))
    have "j < MAX_HEIGHT" using parent new by (simp add: at_pos_def new_tree_ok_def)
    with combine_repr [OF r1' r2' new_tree_ok_below [OF new parent], of facts] obtain c facts' where
      comb: "combine e s c1 c2 facts = Inr (c, facts')"
      and c: "calc_repr e valid s c (Suc j) (below (Suc j) (p div 2) f)" by blast
    let ?U = "hm_remove (q * 2 + 1) (hm_remove (q * 2) (hm_insert q c U))"
    have dom: "dom (map_of ?U) = dom (map_of U) - {2 * q, 2 * q + 1} \<union> {q}"
      using q by (auto simp: mult.commute)
    have "update_necessary e s k U facts = update_necessary e s q ?U facts'"
      using True c1 c2 comb by (subst update_necessary.simps) (auto simp: Let_def q_def mult.commute)
    moreover have "\<exists>U' facts''. update_necessary e s q ?U facts' = Inr (U', facts'') \<and>
        nodes_repr e valid s h f U' \<and> tree_cut (Q \<union> dom (map_of U')) \<and> Q \<inter> dom (map_of U') = {} \<and>
        (\<forall>m \<in> dom (map_of U'). m XOR 1 \<notin> dom (map_of U'))"
    proof (rule less.IH)
      show "length ?U < length U"
        using c1 c2 by (intro merge_siblings_shorter) (simp_all add: mult.commute)
      have disj: "2 * q \<notin> Q" "2 * q + 1 \<notin> Q" using in_U less.prems(2) by blast+
      then have "Q \<union> dom (map_of ?U) = (Q \<union> dom (map_of U)) - {2 * q, 2 * q + 1} \<union> {q}"
        unfolding dom by blast
      then show "tree_cut (Q \<union> dom (map_of ?U))"
        using cut_merge [OF less.prems(1), of q] in_U by simp
      have "q \<notin> Q" using cut_children [OF less.prems(1), of q] in_U by blast
      then show "Q \<inter> dom (map_of ?U) = {}"
        unfolding dom using less.prems(2) by blast
      show "nodes_repr e valid s h f ?U"
        unfolding nodes_repr_def
      proof (intro conjI allI impI)
        show "hm_wf ?U" using less.prems(3) by (simp add: nodes_repr_def)
        fix k' c' assume "map_of ?U k' = Some c'"
        then have "k' = q \<and> c' = c \<or> map_of U k' = Some c'"
          by (auto split: if_splits)
        then show "\<exists>j p. at_pos h k' j p \<and> calc_repr e valid s c' j (below j p f)"
          using parent c less.prems(3) unfolding nodes_repr_def by blast
      qed
      show "q \<in> dom (map_of ?U)" unfolding dom by simp
      fix m
      assume m: "m \<in> dom (map_of ?U)" "m XOR 1 \<in> dom (map_of ?U)"
      show "m \<in> {q, q XOR 1}"
      proof (rule ccontr)
        assume not: "m \<notin> {q, q XOR 1}"
        have "(m XOR 1) XOR 1 = m" by (simp add: xor.assoc)
        then have "m XOR 1 \<noteq> q" using not by auto
        with m not have "m \<in> dom (map_of U) - {2 * q, 2 * q + 1}" "m XOR 1 \<in> dom (map_of U)"
          unfolding dom by blast+
        with less.prems(5) [of m] sib show False by blast
      qed
    qed
    ultimately show ?thesis by simp
  qed
qed

text \<open>A subtree without updates keeps its value.\<close>

lemma node_repr_cong:
  assumes "\<And>i. i < 2 ^ h \<Longrightarrow> g i = g' i"
  shows "node_repr e s n h g = node_repr e s n h g'"
  using canon_cong [of h g g' "env_hash e"] tree_facts_cong [of h g g' "env_hash e"] assms
  by (simp add: node_repr_def)

lemma create_from_node_repr:
  assumes n: "node_repr e s n h (leaf_hashes e f)" and ok: "leaves_ok e valid h f"
    and h: "h \<le> MAX_HEIGHT" and in_s: "\<And>i. i < 2 ^ h \<Longrightarrow> leaf_in e s (leaf_hashes e f i, f i)"
  shows "\<exists>c. create_from_node n = Inr c \<and> calc_repr e valid s c h f"
proof -
  let ?H = "env_hash e" and ?g = "leaf_hashes e f"
  obtain b p l where k: "canon ?H h ?g = (b, p, l)" by (cases "canon ?H h ?g") auto
  have "hash_valid (fst (canon ?H h ?g)) \<and> hash_valid (node_hash ?H (canon ?H h ?g))"
    using leaves_ok_valid [OF ok] h by (intro canon_valid)
  then have "hash_valid (bottom_node n)" and "path n < 2 ^ length_of n"
    using n canon_shape [OF k] unfolding node_repr_def triple_of_def k by auto
  then show ?thesis
    using n in_s by (auto simp: create_from_node_def calc_repr_def node_repr_def triple_of_def Let_def)
qed

lemma create_from_fact_repr:
  assumes "valid x" and "f 0 = x"
  shows "\<exists>c. create_from_fact x = Inr c \<and> calc_repr e valid s c 0 f"
  using assms by (simp add: create_from_fact_def calc_repr_def Let_def leaf_hashes_def)

text \<open>A finished node enters the map.\<close>

lemma update_inv_finish:
  assumes new: "new_tree_ok e valid h (apply_mods m f)"
    and inv: "update_inv e valid s h f m t (n # rest)"
    and pos: "at_pos h (un_index n) j p"
    and c: "calc_repr e valid s c j (below j p (apply_mods m f))"
  shows "\<exists>U facts'. update_necessary e s (un_index n) (hm_insert (un_index n) c (ut_nodes t)) (ut_facts t) = Inr (U, facts') \<and>
    update_inv e valid s h f m (t \<lparr> ut_nodes := U, ut_facts := facts' \<rparr>) rest"
proof -
  let ?k = "un_index n" and ?Q = "queue_indices rest"
  let ?U = "hm_insert ?k c (ut_nodes t)"
  have k: "?k \<notin> ?Q" "?k \<notin> dom (map_of (ut_nodes t))"
    using inv by (auto simp: update_inv_def Let_def queue_indices_def)
  have dom: "dom (map_of ?U) = insert ?k (dom (map_of (ut_nodes t)))" by auto
  have "\<exists>U' facts'. update_necessary e s ?k ?U (ut_facts t) = Inr (U', facts') \<and>
      nodes_repr e valid s h (apply_mods m f) U' \<and> tree_cut (?Q \<union> dom (map_of U')) \<and>
      ?Q \<inter> dom (map_of U') = {} \<and> (\<forall>x \<in> dom (map_of U'). x XOR 1 \<notin> dom (map_of U'))"
  proof (rule update_necessary_repr [OF new])
    have "?Q \<union> dom (map_of ?U) = queue_indices (n # rest) \<union> dom (map_of (ut_nodes t))"
      unfolding dom by (auto simp: queue_indices_def)
    then show "tree_cut (?Q \<union> dom (map_of ?U))"
      using inv by (simp add: update_inv_def Let_def)
    show "?Q \<inter> dom (map_of ?U) = {}"
      unfolding dom using inv k by (auto simp: update_inv_def Let_def queue_indices_def)
    show "nodes_repr e valid s h (apply_mods m f) ?U"
      using inv pos c by (auto simp: nodes_repr_def update_inv_def Let_def)
    show "?k \<in> dom (map_of ?U)" by simp
    fix x assume x: "x \<in> dom (map_of ?U)" "x XOR 1 \<in> dom (map_of ?U)"
    have "(x XOR 1) XOR 1 = x" by (simp add: xor.assoc)
    with x inv show "x \<in> {?k, ?k XOR 1}"
      unfolding dom by (auto simp: update_inv_def Let_def simp del: One_nat_def)
  qed
  then show ?thesis
    using inv by (auto simp: update_inv_def Let_def)
qed

lemma update_step:
  assumes new: "new_tree_ok e valid h (apply_mods m f)"
    and old: "\<And>i. i < 2 ^ h \<Longrightarrow> leaf_in e s (leaf_hashes e f i, f i)"
    and inv: "update_inv e valid s h f m t (n # rest)"
  shows "\<exists>ns t'. update_get_children e s t n = Inr (ns, t') \<and> update_inv e valid s h f m t' (rest @ ns)"
proof -
  obtain j p where pos: "at_pos h (un_index n) j p"
    and tree: "node_repr e s (un_tree n) j (below j p (leaf_hashes e f))"
    and upd: "un_update n = spec_update m j p"
    using inv by (auto simp: update_inv_def Let_def queued_def)
  let ?f = "apply_mods m f"
  note ok = new_tree_ok_below [OF new pos]
  have j: "j \<le> MAX_HEIGHT" using pos new by (simp add: at_pos_def new_tree_ok_def)
  show ?thesis
  proof (cases "un_update n" rule: update_size.cases)
    case 1
    then have none: "m (p * 2 ^ j + i) = None" if "i < 2 ^ j" for i
      using upd that by (simp add: spec_update_None_iff)
    then have same: "below j p ?f i = below j p f i" if "i < 2 ^ j" for i
      using that by (simp add: below_def apply_mods_def)
    have "node_repr e s (un_tree n) j (leaf_hashes e (below j p ?f))"
      using tree node_repr_cong [of j "leaf_hashes e (below j p ?f)" "below j p (leaf_hashes e f)"] same
      by (simp add: leaf_hashes_def) (simp add: below_def)
    moreover have "leaf_in e s (leaf_hashes e (below j p ?f) i, below j p ?f i)" if "i < 2 ^ j" for i
      using old [OF below_in_range [OF pos that]] same [OF that]
      by (simp add: leaf_hashes_def) (simp add: below_def)
    ultimately obtain c where c: "(create_from_node (un_tree n) :: (update_tree_error, _) res) = Inr c" "calc_repr e valid s c j (below j p ?f)"
      using create_from_node_repr [OF _ ok(1) j] by blast
    from update_inv_finish [OF new inv pos c(2)] show ?thesis
      using 1 c(1) by (auto simp: update_get_children_def update_if_possible_def)
  next
    case (2 x)
    then have j0: "j = 0" and x: "m p = Some x"
      using upd by (cases j; auto split: if_splits)+
    have "valid x"
      using ok(1) x j0 by (simp add: leaves_ok_def below_def apply_mods_def)
    moreover have "below 0 p ?f 0 = x" using x by (simp add: below_def apply_mods_def)
    ultimately obtain c where c: "(create_from_fact x :: (update_tree_error, _) res) = Inr c" "calc_repr e valid s c j (below j p ?f)"
      using create_from_fact_repr j0 by blast
    have "VPN_is_leaf (un_tree n)" using tree j0 by (simp add: node_repr_def VPN_is_leaf_def)
    with update_inv_finish [OF new inv pos c(2)] show ?thesis
      using 2 c(1) by (auto simp: update_get_children_def update_set_fact_def)
  next
    case (3 l r)
    then obtain i where i: "j = Suc i" and lr: "l = spec_update m i (2 * p)" "r = spec_update m i (2 * p + 1)"
      using upd by (cases j) (auto split: if_splits)
    obtain nl nr facts' where ch: "VPN_get_children e s (un_tree n) (ut_facts t) = Inr ((nl, nr), facts')"
      and nl: "node_repr e s nl i (below i (2 * p) (leaf_hashes e f))"
      and nr: "node_repr e s nr i (below i (2 * p + 1) (leaf_hashes e f))"
      using get_children_repr [OF tree [unfolded i], of "ut_facts t"]
      unfolding below_children(2) unfolding below_children(1) by blast
    let ?k = "un_index n"
    let ?l = "\<lparr> un_index = 2 * ?k, un_tree = nl, un_update = l \<rparr>"
    let ?r = "\<lparr> un_index = 2 * ?k + 1, un_tree = nr, un_update = r \<rparr>"
    have "update_get_children e s t n = Inr ([?l, ?r], t \<lparr> ut_facts := facts' \<rparr>)"
      using 3 ch by (simp add: update_get_children_def)
    moreover have "update_inv e valid s h f m (t \<lparr> ut_facts := facts' \<rparr>) (rest @ [?l, ?r])"
    proof -
      let ?K = "queue_indices (n # rest) \<union> dom (map_of (ut_nodes t))"
      have cut: "tree_cut ?K" and k: "?k \<in> ?K" and dist: "?k \<notin> queue_indices rest"
        using inv by (simp_all add: update_inv_def Let_def queue_indices_def)
      have new_idx: "2 * ?k \<notin> ?K" "2 * ?k + 1 \<notin> ?K"
        using cut_children [OF cut k] by auto
      have "?K - {?k} \<union> {2 * ?k, 2 * ?k + 1} = queue_indices (rest @ [?l, ?r]) \<union> dom (map_of (ut_nodes t))"
        using inv by (auto simp: update_inv_def Let_def queue_indices_def)
      then have "tree_cut (queue_indices (rest @ [?l, ?r]) \<union> dom (map_of (ut_nodes t)))"
        using tree_cut.split [OF cut k] by simp
      moreover have "queued e s h f m ?l" "queued e s h f m ?r"
        using at_pos_children [OF pos [unfolded i]] nl nr lr by (auto simp: queued_def)
      ultimately show ?thesis
        using inv new_idx by (auto simp: update_inv_def Let_def queue_indices_def)
    qed
    ultimately show ?thesis by blast
  qed
qed

end

end
