(* ===== verification/Patricia_Correct.thy ===== *)
theory Patricia_Correct
  imports Patricia_Update
begin

text \<open>
  The contract of a Patricia tree: \<open>represents\<close> relates a root in a storage to the leaves of the
  tree, and every operation of the tree interface keeps it. These are the lemmas the clients of the
  trees use.
\<close>

section \<open>The updated calculation\<close>

lemma below_root: "below h 0 g = g"
  by (simp add: below_def)

context patricia_env
begin

lemma build_updated_calculation_repr:
  assumes new: "new_tree_ok e valid h (apply_mods (mods_map ms) f)"
    and old: "\<And>i. i < 2 ^ h \<Longrightarrow> leaf_in e s (leaf_hashes e f i, f i)"
    and tree: "node_repr e s n h (leaf_hashes e f)"
    and idx: "\<And>i x. (i, x) \<in> set ms \<Longrightarrow> i < 2 ^ h"
  shows "\<exists>c facts'. build_updated_calculation e s n ms facts = Inr (c, facts') \<and>
    calc_repr e valid s c h (apply_mods (mods_map ms) f)"
proof -
  let ?m = "mods_map ms" and ?f = "apply_mods (mods_map ms) f"
  let ?t = "\<lparr> ut_facts = facts, ut_nodes = [] \<rparr>"
  let ?root = "\<lparr> un_index = 1, un_tree = n, un_update = spec_update ?m h 0 \<rparr>"
  have h: "height n = h" using tree by (simp add: node_repr_def)
  have build: "(build_update_tree (height n) ms :: (tree_error, _) res) = Inr (spec_update ?m h 0)"
    using build_update_tree_eq [OF idx] h by simp
  have "queued e s h f ?m ?root"
    using at_pos_root [of h] tree below_root [of h "leaf_hashes e f"]
    unfolding queued_def by (intro exI [of _ h] exI [of _ 0]) simp
  then have "update_inv e valid s h f ?m ?t [?root]"
    by (simp add: update_inv_def nodes_repr_def queue_indices_def tree_cut.root [simplified])
  from upd.traverse_invariant [where P = "update_inv e valid s h f ?m", OF this update_step [OF new old]]
  obtain t' where t': "traverse_tree (update_get_children e s) ?t ?root = Some (Inr t')"
    and inv: "update_inv e valid s h f ?m t' []" by blast
  have dom: "dom (map_of (ut_nodes t')) = {1}"
    using inv by (intro cut_no_siblings) (simp_all add: update_inv_def Let_def queue_indices_def)
  have nodes: "nodes_repr e valid s h ?f (ut_nodes t')"
    using inv by (simp add: update_inv_def Let_def)
  then have len: "length (ut_nodes t') = 1"
    using hm_wf_length [of "ut_nodes t'"] by (simp add: dom nodes_repr_def)
  obtain c where c: "map_of (ut_nodes t') 1 = Some c" using dom by blast
  obtain j p where "at_pos h 1 j p" "calc_repr e valid s c j (below j p ?f)"
    using nodes_reprE [OF nodes c] .
  then have "calc_repr e valid s c h ?f"
    using at_pos_unique [OF at_pos_root, of h j p] by (auto simp: below_root)
  then show ?thesis
    using build t' len c by (simp add: build_updated_calculation_def)
qed

end

section \<open>Writing facts\<close>

lemma set_hm_extend: "set (hm_extend m kvs) \<subseteq> set m \<union> set kvs"
proof (induction kvs arbitrary: m)
  case (Cons kv kvs)
  have "set (hm_insert (fst kv) (snd kv) m) \<subseteq> insert kv (set m)"
    unfolding hm_insert_def by (induction m) auto
  with Cons.IH [of "hm_insert (fst kv) (snd kv) m"] show ?case by auto
qed simp

lemma in_hm_extend:
  assumes "(k, v) \<in> set kvs" and "\<forall>v'. (k, v') \<in> set kvs \<longrightarrow> v' = v"
  shows "(k, v) \<in> set (hm_extend [] kvs)"
proof -
  have "map_of (hm_extend [] kvs) k = map_of (rev kvs) k"
    by (simp add: map_of_hm_extend map_add_def split: option.split)
  moreover have "map_of (rev kvs) k \<noteq> None"
    using imageI [OF assms(1), of fst] by (simp add: map_of_eq_None_iff)
  ultimately obtain v' where v': "map_of (hm_extend [] kvs) k = Some v'" "map_of (rev kvs) k = Some v'"
    by auto
  then have "(k, v') \<in> set kvs" by (auto dest: map_of_SomeD)
  then have "v' = v" using assms(2) by blast
  with v' show ?thesis by (auto dest: map_of_SomeD)
qed

lemma collision_free_subset: "collision_free fs \<Longrightarrow> set gs \<subseteq> set fs \<Longrightarrow> collision_free gs"
  unfolding collision_free_def by blast

context storage_laws
begin

lemma db_set_lookup:
  assumes "db_set St D obj s k = Inr s'" and "serialize D obj = Inr data"
  shows "st_lookup St s' = (st_lookup St s)(db_key D k \<mapsto> data)"
  using assms by (auto simp: db_set_def st_lookup_set)

lemma foldR_db_set_ok:
  assumes "\<forall>(k, v) \<in> set L. \<exists>data. serialize D v = Inr data \<and> deserialize D data = Inr v"
  shows "\<exists>s'. foldR (\<lambda>s (k, v). db_set St D v s k) s L = Inr s'"
  using assms
proof (induction L arbitrary: s)
  case (Cons kv L)
  obtain k v where kv: "kv = (k, v)" by (cases kv)
  obtain data where "serialize D v = Inr data" using Cons.prems kv by auto
  from db_set_ok [OF this, of s k] obtain s1 where s1: "db_set St D v s k = Inr s1" by blast
  have "\<exists>s'. foldR (\<lambda>s (k, v). db_set St D v s k) s1 L = Inr s'"
    by (rule Cons.IH) (use Cons.prems in auto)
  with s1 show ?case by (simp add: kv)
qed simp

lemma foldR_db_set_other:
  assumes "foldR (\<lambda>s (k, v). db_set St D v s k) s L = Inr s'" and "prefix Q \<noteq> prefix D"
    and "hash_wf j" and "\<forall>(k, v) \<in> set L. hash_wf k" and "db_holds St Q s j x"
  shows "db_holds St Q s' j x"
  using assms
proof (induction L arbitrary: s)
  case (Cons kv L)
  obtain k v where kv: "kv = (k, v)" by (cases kv)
  obtain s1 where s1: "db_set St D v s k = Inr s1" "foldR (\<lambda>s (k, v). db_set St D v s k) s1 L = Inr s'"
    using Cons.prems(1) by (auto simp: kv bindR_eq_Inr_iff)
  have "hash_wf k" using Cons.prems(4) kv by simp
  then have "db_key D k \<noteq> db_key Q j"
    using Cons.prems(2,3) by (simp add: db_key_eq_iff)
  then have "db_holds St Q s1 j x" by (rule db_set_keeps [OF s1(1) Cons.prems(5)])
  with Cons.IH [OF s1(2)] Cons.prems(2-4) show ?case by auto
qed simp

lemma foldR_db_set_same:
  assumes "foldR (\<lambda>s (k, v). db_set St D v s k) s L = Inr s'"
    and "\<forall>(k, v) \<in> set L. \<exists>data. serialize D v = Inr data \<and> deserialize D data = Inr v"
    and "\<forall>(k, v) \<in> set L. hash_wf k" and "hash_wf j"
    and "\<forall>v. (j, v) \<in> set L \<longrightarrow> v = x"
    and "db_holds St D s j x \<or> (j, x) \<in> set L"
  shows "db_holds St D s' j x"
  using assms
proof (induction L arbitrary: s)
  case (Cons kv L)
  obtain k v where kv: "kv = (k, v)" by (cases kv)
  obtain s1 where s1: "db_set St D v s k = Inr s1" "foldR (\<lambda>s (k, v). db_set St D v s k) s1 L = Inr s'"
    using Cons.prems(1) by (auto simp: kv bindR_eq_Inr_iff)
  obtain data where data: "serialize D v = Inr data" "deserialize D data = Inr v"
    using Cons.prems(2) kv by auto
  have "hash_wf k" using Cons.prems(3) kv by simp
  have "db_holds St D s1 j x \<or> (j, x) \<in> set L"
  proof (cases "k = j")
    case True
    then have "v = x" using Cons.prems(5) kv by simp
    with True data show ?thesis
      by (simp add: db_holds_def db_set_lookup [OF s1(1) data(1)])
  next
    case False
    then have "db_key D k \<noteq> db_key D j"
      using \<open>hash_wf k\<close> Cons.prems(4) by (simp add: db_key_eq_iff)
    with False Cons.prems(6) db_set_keeps [OF s1(1)] show ?thesis by (auto simp: kv)
  qed
  with Cons.prems(2-5) show ?case by (intro Cons.IH [OF s1(2)]) auto
qed simp

end

context patricia_env
begin

lemma edge_facts_valid:
  assumes "\<forall>i < 2 ^ h. hash_valid (g i)" and "h \<le> MAX_HEIGHT"
    and "(k, v) \<in> set (edge_facts (env_hash e) (canon (env_hash e) h g))"
  shows "hash_valid k"
proof -
  obtain b p l where c: "canon (env_hash e) h g = (b, p, l)" by (cases "canon (env_hash e) h g") auto
  have "hash_valid b" using canon_valid [of h g] assms(1,2) by (simp add: c)
  then show ?thesis
    using assms(2,3) canon_shape [OF c] spec_edge_valid [of b p l] by (auto simp: c split: if_splits)
qed

lemma tree_facts_valid:
  assumes "\<forall>i < 2 ^ h. hash_valid (g i)" and "h \<le> MAX_HEIGHT"
    and "(k, v) \<in> set (tree_facts (env_hash e) h g)"
  shows "hash_valid k"
  using assms
proof (induction h arbitrary: g)
  case (Suc h)
  let ?H = "env_hash e"
  have g: "\<forall>i < 2 ^ h. hash_valid (g i)" "\<forall>i < 2 ^ h. hash_valid (right_half h g i)"
    using Suc.prems(1) unfolding all_halves by (simp_all add: right_half_def)
  have h: "h \<le> MAX_HEIGHT" using Suc.prems(2) by simp
  have "hash_valid (node_hash ?H (canon ?H h g))" "hash_valid (node_hash ?H (canon ?H h (right_half h g)))"
    using canon_valid [of h g] canon_valid [of h "right_half h g"] g h by simp_all
  then have "hash_valid (spec_hash ?H (node_hash ?H (canon ?H h g)) (node_hash ?H (canon ?H h (right_half h g))))"
    using spec_hash_valid by blast
  then show ?case
    using Suc.IH [OF g(1) h] Suc.IH [OF g(2) h] edge_facts_valid [OF g(1) h] edge_facts_valid [OF g(2) h]
      Suc.prems(3) by (auto simp: merge_facts_def split: if_splits)
qed simp

text \<open>Evaluating a calculation and writing its facts.\<close>

lemma write_calculated:
  assumes ok: "calc_ok valid c"
  shows "\<exists>s'. write_fact_nodes e s \<lparr> inner_nodes = hm_extend [] (cfacts e c), leaves = hm_extend [] (cleaves e c) \<rparr> = Inr s' \<and>
    (\<forall>k v. hash_wf k \<longrightarrow> node_in e s (k, v) \<or> (k, v) \<in> set (cfacts e c) \<longrightarrow>
       (\<forall>v'. (k, v') \<in> set (cfacts e c) \<longrightarrow> v' = v) \<longrightarrow> node_in e s' (k, v)) \<and>
    (\<forall>k x. hash_wf k \<longrightarrow> leaf_in e s (k, x) \<or> (k, x) \<in> set (cleaves e c) \<longrightarrow>
       (\<forall>x'. (k, x') \<in> set (cleaves e c) \<longrightarrow> x' = x) \<longrightarrow> leaf_in e s' (k, x))"
proof -
  let ?N = "hm_extend [] (cfacts e c)" and ?L = "hm_extend [] (cleaves e c)"
  let ?P = "PatriciaNodeFact_inf (env_hash e)" and ?St = "env_storage e"
  have N: "set ?N \<subseteq> set (cfacts e c)" and L: "set ?L \<subseteq> set (cleaves e c)"
    using set_hm_extend [of "[]" "cfacts e c"] set_hm_extend [of "[]" "cleaves e c"] by auto
  have Ncodec: "\<forall>(k, v) \<in> set ?N. \<exists>data. serialize ?P v = Inr data \<and> deserialize ?P data = Inr v"
    using cfacts_wf [OF ok] N node_fact_serialize_ok by (fastforce simp: node_fact_encoding)
  have Lcodec: "\<forall>(k, v) \<in> set ?L. \<exists>data. serialize (env_leaf e) v = Inr data \<and> deserialize (env_leaf e) data = Inr v"
    using cleaves_wf [OF ok] L leaf_codec by fastforce
  have Nwf: "\<forall>(k, v) \<in> set ?N. hash_wf k"
    using cfacts_wf [OF ok] N hash_valid_wf by fastforce
  have Lwf: "\<forall>(k, v) \<in> set ?L. hash_wf k"
    using cleaves_wf [OF ok] L hash_valid_wf by fastforce
  obtain s1 where s1: "foldR (\<lambda>s (k, v). db_set ?St ?P v s k) s ?N = Inr s1"
    using foldR_db_set_ok [OF Ncodec] by blast
  obtain s2 where s2: "foldR (\<lambda>s (k, v). db_set ?St (env_leaf e) v s k) s1 ?L = Inr s2"
    using foldR_db_set_ok [OF Lcodec] by blast
  have pre: "prefix ?P \<noteq> prefix (env_leaf e)" "prefix (env_leaf e) \<noteq> prefix ?P"
    using leaf_prefix by auto
  have "node_in e s2 (k, v)"
    if k: "hash_wf k" and in_s: "node_in e s (k, v) \<or> (k, v) \<in> set (cfacts e c)"
      and u: "\<forall>v'. (k, v') \<in> set (cfacts e c) \<longrightarrow> v' = v" for k v
  proof -
    have "\<forall>v'. (k, v') \<in> set ?N \<longrightarrow> v' = v" using u N by blast
    moreover have "db_holds ?St ?P s k v \<or> (k, v) \<in> set ?N"
      using in_s in_hm_extend [OF _ u] unfolding node_in_def fst_conv snd_conv by blast
    ultimately have "db_holds ?St ?P s1 k v"
      by (rule foldR_db_set_same [OF s1 Ncodec Nwf k])
    then have "db_holds ?St ?P s2 k v"
      by (rule foldR_db_set_other [OF s2 pre(1) k Lwf])
    then show ?thesis by (simp add: node_in_def)
  qed
  moreover have "leaf_in e s2 (k, x)"
    if k: "hash_wf k" and in_s: "leaf_in e s (k, x) \<or> (k, x) \<in> set (cleaves e c)"
      and u: "\<forall>x'. (k, x') \<in> set (cleaves e c) \<longrightarrow> x' = x" for k x
  proof -
    have "\<forall>v'. (k, v') \<in> set ?L \<longrightarrow> v' = x" using u L by blast
    moreover have "db_holds ?St (env_leaf e) s1 k x \<or> (k, x) \<in> set ?L"
      using in_s foldR_db_set_other [OF s1 pre(2) k Nwf] in_hm_extend [OF _ u]
      unfolding leaf_in_def fst_conv snd_conv by blast
    ultimately have "db_holds ?St (env_leaf e) s2 k x"
      by (rule foldR_db_set_same [OF s2 Lcodec Lwf k])
    then show ?thesis by (simp add: leaf_in_def)
  qed
  moreover have "write_fact_nodes e s \<lparr> inner_nodes = ?N, leaves = ?L \<rparr> = Inr s2"
    using s1 s2 by (simp add: write_fact_nodes_def)
  ultimately show ?thesis by blast
qed

end

section \<open>The contract of a tree\<close>

text \<open>
  A tree whose hashes identify it: the height is at most 251, the leaves are in the domain of the
  leaf type, no fact of the tree hashes to the empty hash, and no two facts and no two leaves of the
  tree collide. The last two conditions are the collision resistance the code relies on; they are
  stated of this one tree, because no hash function is injective on all inputs.
\<close>

definition good_tree :: "('s, 'lf) tree_env \<Rightarrow> ('lf \<Rightarrow> bool) \<Rightarrow> nat \<Rightarrow> (nat \<Rightarrow> 'lf) \<Rightarrow> bool" where
  "good_tree e valid h f \<longleftrightarrow>
     h \<le> MAX_HEIGHT \<and> leaves_ok e valid h f \<and>
     (\<forall>i < 2 ^ h. \<forall>j < 2 ^ h. lhash e (f i) = lhash e (f j) \<longrightarrow> f i = f j) \<and>
     nonempty_keys (all_facts (env_hash e) h (leaf_hashes e f)) \<and>
     collision_free (all_facts (env_hash e) h (leaf_hashes e f))"

text \<open>The root hash of the leaves \<open>f\<close>.\<close>

definition spec_root :: "('s, 'lf) tree_env \<Rightarrow> nat \<Rightarrow> (nat \<Rightarrow> 'lf) \<Rightarrow> hash" where
  "spec_root e h f = node_hash (env_hash e) (canon (env_hash e) h (leaf_hashes e f))"

definition represents ::
  "('s, 'lf) tree_env \<Rightarrow> ('lf \<Rightarrow> bool) \<Rightarrow> 's \<Rightarrow> patricia_tree \<Rightarrow> (nat \<Rightarrow> 'lf) \<Rightarrow> bool" where
  "represents e valid s t f \<longleftrightarrow>
     (let h = tree_height t in
      good_tree e valid h f \<and>
      tree_root t = spec_root e h f \<and>
      (\<forall>x \<in> set (all_facts (env_hash e) h (leaf_hashes e f)). node_in e s x) \<and>
      (\<forall>i < 2 ^ h. leaf_in e s (leaf_hashes e f i, f i)) \<and>
      (\<exists>x. valid x \<and> leaf_is_empty (env_leaf e) x \<and> leaf_in e s (EMPTY_HASH, x)))"

lemma represents_node:
  assumes "represents e valid s t f"
  shows "node_repr e s \<lparr> bottom_node = tree_root t, path = 0, length_of = 0, height = tree_height t \<rparr>
    (tree_height t) (leaf_hashes e f)"
  using assms
  by (auto simp: represents_def Let_def good_tree_def all_facts_def node_repr_def triple_of_def spec_root_def)

lemma represents_get_leaves:
  assumes "represents e valid s t f" and "\<And>i. i \<in> set idx \<Longrightarrow> i < 2 ^ tree_height t"
  shows "\<exists>m facts'. PatriciaTree_get_leaves e s t idx facts = Inr (m, facts') \<and> holds_leaves m (set idx) f"
  unfolding PatriciaTree_get_leaves_def VPN_from_hash_Inr bindR_Inr
  using assms by (intro get_leaves_repr [OF represents_node]) (auto simp: represents_def Let_def)

lemma represents_get_leaf:
  assumes "represents e valid s t f" and "i < 2 ^ tree_height t"
  shows "PatriciaTree_get_leaf e s t i = Inr (Some (f i))"
proof -
  obtain m facts' where m: "PatriciaTree_get_leaves e s t [i] None = Inr (m, facts')"
    "holds_leaves m (set [i]) f"
    using represents_get_leaves [OF assms(1), of "[i]" None] assms(2) by auto
  then show ?thesis by (simp add: PatriciaTree_get_leaf_def holds_leaves_def)
qed

text \<open>
  What \<open>s'\<close> keeps of \<open>s\<close> when the facts and leaves of the tree \<open>f\<close> are written: every object whose
  key is not reused for something else.
\<close>

definition keeps :: "('s, 'lf) tree_env \<Rightarrow> nat \<Rightarrow> (nat \<Rightarrow> 'lf) \<Rightarrow> 's \<Rightarrow> 's \<Rightarrow> bool" where
  "keeps e h f s s' \<longleftrightarrow>
     (\<forall>k v. hash_wf k \<longrightarrow> node_in e s (k, v) \<longrightarrow>
        (\<forall>v'. (k, v') \<in> set (all_facts (env_hash e) h (leaf_hashes e f)) \<longrightarrow> v' = v) \<longrightarrow> node_in e s' (k, v)) \<and>
     (\<forall>k x. hash_wf k \<longrightarrow> leaf_in e s (k, x) \<longrightarrow>
        (\<forall>i < 2 ^ h. leaf_hashes e f i = k \<longrightarrow> f i = x) \<longrightarrow> leaf_in e s' (k, x))"

lemma collision_freeD: "collision_free fs \<Longrightarrow> (k, v) \<in> set fs \<Longrightarrow> (k, v') \<in> set fs \<Longrightarrow> v' = v"
  unfolding collision_free_def by fastforce

lemma good_tree_unique:
  assumes "good_tree e valid h f" and "(k, v) \<in> set (all_facts (env_hash e) h (leaf_hashes e f))"
    and "(k, v') \<in> set (all_facts (env_hash e) h (leaf_hashes e f))"
  shows "v' = v"
  using assms unfolding good_tree_def collision_free_def by fastforce

context patricia_env
begin

lemma all_empty_facts:
  assumes "\<And>i. i < 2 ^ h \<Longrightarrow> leaf_hashes e f i = EMPTY_HASH"
  shows "all_facts (env_hash e) h (leaf_hashes e f) = []" and "spec_root e h f = EMPTY_HASH"
  using canon_all_empty [of h "leaf_hashes e f" "env_hash e"] assms by (simp_all add: all_facts_def spec_root_def)

lemma empty_tree_represents:
  assumes x: "valid x" "leaf_is_empty (env_leaf e) x" and h: "h \<le> MAX_HEIGHT"
  shows "\<exists>s'. PatriciaTree_empty_tree e s h x = Inr (\<lparr> tree_root = EMPTY_HASH, tree_height = h \<rparr>, s') \<and>
    represents e valid s' \<lparr> tree_root = EMPTY_HASH, tree_height = h \<rparr> (\<lambda>_. x)"
proof -
  have lh: "lhash e x = EMPTY_HASH" and fh: "fact_hash (env_leaf e) x = Some EMPTY_HASH"
    using leaf_empty_hash [OF x] by (simp_all add: lhash_def)
  obtain data where "serialize (env_leaf e) x = Inr data" "deserialize (env_leaf e) data = Inr x"
    using leaf_codec [OF x(1)] by blast
  from set_fact_ok [OF this fh, of s] obtain s' where
    s': "set_fact (env_storage e) (env_leaf e) x s = Inr (EMPTY_HASH, s')"
    "db_holds (env_storage e) (env_leaf e) s' EMPTY_HASH x" by blast
  have g: "leaf_hashes e (\<lambda>_. x) i = EMPTY_HASH" for i by (simp add: leaf_hashes_def lh)
  have "represents e valid s' \<lparr> tree_root = EMPTY_HASH, tree_height = h \<rparr> (\<lambda>_. x)"
    using all_empty_facts [of h "\<lambda>_. x"] g s'(2) x h
    by (auto simp: represents_def good_tree_def leaves_ok_def collision_free_def leaf_in_def)
  then show ?thesis using s'(1) by (simp add: PatriciaTree_empty_tree_def)
qed

text \<open>Committing the root writes the fact of its edge.\<close>

lemma commit_edge:
  assumes "hash_valid b" and "p < 2 ^ l" and "l \<noteq> 0" and "l \<le> MAX_HEIGHT"
  shows "\<exists>s' facts'. VPN_commit e s \<lparr> bottom_node = b, path = p, length_of = l, height = h \<rparr> facts =
      Inr (spec_edge_hash (env_hash e) b p l, s', facts') \<and>
    node_in e s' (spec_edge_hash (env_hash e) b p l, EdgeFact \<lparr> edge_bottom_node = b, edge_path = p, edge_length = l \<rparr>) \<and>
    (\<forall>k v. hash_wf k \<longrightarrow> k \<noteq> spec_edge_hash (env_hash e) b p l \<longrightarrow> node_in e s (k, v) \<longrightarrow> node_in e s' (k, v)) \<and>
    (\<forall>k x. hash_wf k \<longrightarrow> leaf_in e s (k, x) \<longrightarrow> leaf_in e s' (k, x))"
proof -
  let ?E = "\<lparr> edge_bottom_node = b, edge_path = p, edge_length = l \<rparr>" and ?k = "spec_edge_hash (env_hash e) b p l"
  have wf: "edge_wf ?E"
    using assms by (simp add: edge_wf_def hash_valid_wf MAX_HEIGHT_def)
  then obtain data where data: "EdgeNodeFact_serialize ?E = Inr data"
    by (simp add: edge_serialize_eq)
  have dec: "PatriciaNodeFact_deserialize data = Inr (EdgeFact ?E)"
    using wf data by (simp add: node_fact_encoding node_fact_wf_def PatriciaNodeFact_serialize_def)
  have hash: "EdgeNodeFact_hash (env_hash e) ?E = Some ?k" and k: "hash_wf ?k"
    using spec_edge_valid [OF assms(1,2,4)] by (simp_all add: EdgeNodeFact_hash_def hash_valid_wf)
  obtain s' where s': "db_set (env_storage e) (EdgeNodeFact_inf (env_hash e)) ?E s ?k = Inr s'"
    "st_lookup (env_storage e) s' = (st_lookup (env_storage e) s)(db_key (EdgeNodeFact_inf (env_hash e)) ?k \<mapsto> data)"
    using db_set_ok [of "EdgeNodeFact_inf (env_hash e)" ?E data s ?k] data by auto
  have key: "db_key (EdgeNodeFact_inf (env_hash e)) j = db_key (PatriciaNodeFact_inf (env_hash e)) j" for j
    by (simp add: db_key_def)
  have "VPN_commit e s \<lparr> bottom_node = b, path = p, length_of = l, height = h \<rparr> facts =
      Inr (?k, s', map_option (hm_insert (nat_of_bytes_be ?k) (EdgeNodeFact_to_tuple ?E)) facts)"
    using assms(2,3) s'(1) hash
    by (simp add: VPN_commit_def VPN_is_virtual_edge_def EdgeNodeFact_new_def write_node_fact_def set_fact_def)
  moreover have "node_in e s' (?k, EdgeFact ?E)"
    by (simp add: node_in_def db_holds_def s'(2) key dec)
  moreover have "node_in e s' (j, v)" if "hash_wf j" "j \<noteq> ?k" "node_in e s (j, v)" for j v
    using that k by (simp add: node_in_def db_holds_def s'(2) key db_key_eq_iff)
  moreover have "leaf_in e s' (j, x)" if "hash_wf j" "leaf_in e s (j, x)" for j x
    using that k leaf_prefix by (simp add: leaf_in_def db_holds_def s'(2) db_key_eq_iff)
  ultimately show ?thesis by blast
qed

text \<open>The storage after the new facts are written and before the root is committed.\<close>

lemma update_written:
  assumes c: "calc_repr e valid s c h f" and good: "good_tree e valid h f"
    and x: "valid x" "leaf_is_empty (env_leaf e) x" "leaf_in e s (EMPTY_HASH, x)"
  shows "\<exists>s'. write_fact_nodes e s \<lparr> inner_nodes = hm_extend [] (cfacts e (bottom_calculation c)),
      leaves = hm_extend [] (cleaves e (bottom_calculation c)) \<rparr> = Inr s' \<and> keeps e h f s s' \<and>
    (\<forall>y \<in> set (tree_facts (env_hash e) h (leaf_hashes e f)). node_in e s' y) \<and>
    (\<forall>i < 2 ^ h. leaf_in e s' (leaf_hashes e f i, f i)) \<and> leaf_in e s' (EMPTY_HASH, x)"
proof -
  let ?b = "bottom_calculation c" and ?g = "leaf_hashes e f" and ?H = "env_hash e"
  have ok: "calc_ok valid ?b" and sub: "set (cfacts e ?b) \<subseteq> set (tree_facts ?H h ?g)"
    and covered: "\<forall>y \<in> set (tree_facts ?H h ?g). node_in e s y \<or> y \<in> set (cfacts e ?b)"
    and leaf_cov: "\<forall>i < 2 ^ h. ?g i \<noteq> EMPTY_HASH \<longrightarrow> leaf_in e s (?g i, f i) \<or> (?g i, f i) \<in> set (cleaves e ?b)"
    using c unfolding calc_repr_def Let_def by simp_all
  have lok: "leaves_ok e valid h f" and h: "h \<le> MAX_HEIGHT"
    and leaf_cf: "\<forall>i < 2 ^ h. \<forall>j < 2 ^ h. ?g i = ?g j \<longrightarrow> f i = f j"
    using good by (simp_all add: good_tree_def leaf_hashes_def)
  have valid_g: "\<forall>i < 2 ^ h. hash_valid (?g i)" using leaves_ok_valid [OF lok] by blast
  obtain s' where s': "write_fact_nodes e s \<lparr> inner_nodes = hm_extend [] (cfacts e ?b), leaves = hm_extend [] (cleaves e ?b) \<rparr> = Inr s'"
    and nodes: "\<And>k v. hash_wf k \<Longrightarrow> node_in e s (k, v) \<or> (k, v) \<in> set (cfacts e ?b) \<Longrightarrow>
       \<forall>v'. (k, v') \<in> set (cfacts e ?b) \<longrightarrow> v' = v \<Longrightarrow> node_in e s' (k, v)"
    and leaves: "\<And>k x. hash_wf k \<Longrightarrow> leaf_in e s (k, x) \<or> (k, x) \<in> set (cleaves e ?b) \<Longrightarrow>
       \<forall>x'. (k, x') \<in> set (cleaves e ?b) \<longrightarrow> x' = x \<Longrightarrow> leaf_in e s' (k, x)"
    using write_calculated [OF ok, of s] by blast
  have all: "set (cfacts e ?b) \<subseteq> set (all_facts ?H h ?g)" using sub by (auto simp: all_facts_def)
  have cl: "\<exists>i < 2 ^ h. k = ?g i \<and> x' = f i" if "(k, x') \<in> set (cleaves e ?b)" for k x'
    using calc_repr_cleaves [OF c] that by auto
  have "keeps e h f s s'"
    unfolding keeps_def using nodes leaves all cl by blast
  moreover have "node_in e s' (k, v)" if "(k, v) \<in> set (tree_facts ?H h ?g)" for k v
  proof (rule nodes)
    show "hash_wf k" using tree_facts_valid [OF valid_g h that] by (rule hash_valid_wf)
    show "node_in e s (k, v) \<or> (k, v) \<in> set (cfacts e ?b)" using covered that by blast
    have "(k, v) \<in> set (all_facts ?H h ?g)" using that by (simp add: all_facts_def)
    then show "\<forall>v'. (k, v') \<in> set (cfacts e ?b) \<longrightarrow> v' = v"
      using good_tree_unique [OF good] all by blast
  qed
  moreover have empty: "leaf_in e s (?g i, f i)" if "i < 2 ^ h" "?g i = EMPTY_HASH" for i
  proof -
    have "leaf_is_empty (env_leaf e) (f i)" "valid (f i)"
      using lok that by (simp_all add: leaves_ok_def leaf_hashes_def)
    then have "f i = x" using leaf_empty_unique x by blast
    with that x show ?thesis by simp
  qed
  have "leaf_in e s' (?g i, f i)" if "i < 2 ^ h" for i
    using that empty leaf_cov leaf_cf cl valid_g hash_valid_wf by (intro leaves) metis+
  moreover have "leaf_in e s' (EMPTY_HASH, x)"
  proof (rule leaves)
    show "\<forall>x'. (EMPTY_HASH, x') \<in> set (cleaves e ?b) \<longrightarrow> x' = x"
      using cl lok leaf_empty_unique x unfolding leaves_ok_def leaf_hashes_def by metis
  qed (use x in \<open>simp_all add: EMPTY_HASH_eq\<close>)
  ultimately show ?thesis using s' by (auto simp: Ball_def)
qed

lemma keeps_trans:
  "keeps e h f s1 s2 \<Longrightarrow> keeps e h f s2 s3 \<Longrightarrow> keeps e h f s1 s3"
  unfolding keeps_def by meson

lemma keeps_refl: "keeps e h f s s"
  by (simp add: keeps_def)

text \<open>Committing the root of the calculated tree.\<close>

lemma commit_root:
  assumes c: "calc_repr e valid s c h f" and good: "good_tree e valid h f"
    and s1: "keeps e h f s s1" "\<forall>y \<in> set (tree_facts (env_hash e) h (leaf_hashes e f)). node_in e s1 y"
    and x: "valid x" "leaf_is_empty (env_leaf e) x" "leaf_in e s1 (EMPTY_HASH, x)"
    and leaves: "\<forall>i < 2 ^ h. leaf_in e s1 (leaf_hashes e f i, f i)"
  shows "\<exists>s2 facts'. VPN_commit e s1 \<lparr> bottom_node = chash e (bottom_calculation c), path = calc_path c,
        length_of = calc_length c, height = h \<rparr> facts = Inr (spec_root e h f, s2, facts') \<and>
    keeps e h f s1 s2 \<and> represents e valid s2 \<lparr> tree_root = spec_root e h f, tree_height = h \<rparr> f"
proof -
  let ?g = "leaf_hashes e f" and ?H = "env_hash e" and ?b = "chash e (bottom_calculation c)"
  obtain b p l where k: "canon ?H h ?g = (b, p, l)" by (cases "canon ?H h ?g") auto
  have valid_g: "\<forall>i < 2 ^ h. hash_valid (?g i)" and h: "h \<le> MAX_HEIGHT"
    using good leaves_ok_valid by (auto simp: good_tree_def)
  have wf: "hash_wf j" if "(j, v) \<in> set (all_facts ?H h ?g)" for j v
    using that tree_facts_valid [OF valid_g h] edge_facts_valid [OF valid_g h] hash_valid_wf
    unfolding all_facts_def set_append by blast
  show ?thesis
  proof (cases "calc_length c = 0")
    case True
    have root: "?b = spec_root e h f" "\<forall>y \<in> set (edge_facts ?H (canon ?H h ?g)). node_in e s y"
      using c True unfolding calc_repr_def Let_def spec_root_def by (auto simp: k)
    have "node_in e s1 (j, v)" if "(j, v) \<in> set (edge_facts ?H (canon ?H h ?g))" for j v
    proof -
      have "(j, v) \<in> set (all_facts ?H h ?g)" using that by (simp add: all_facts_def)
      then show ?thesis
        using s1(1) root(2) that wf good_tree_unique [OF good] unfolding keeps_def by blast
    qed
    then have "\<forall>y \<in> set (all_facts ?H h ?g). node_in e s1 y"
      using s1(2) unfolding all_facts_def set_append by (metis UnE surj_pair)
    then have "represents e valid s1 \<lparr> tree_root = spec_root e h f, tree_height = h \<rparr> f"
      using good x leaves by (auto simp: represents_def)
    then show ?thesis
      using True root(1) keeps_refl by (simp add: VPN_commit_def VPN_is_virtual_edge_def)
  next
    case False
    then have trip: "(?b, calc_path c, calc_length c) = (b, p, l)"
      using c unfolding calc_repr_def Let_def by (auto simp: k)
    have l: "l \<noteq> 0" "l \<le> MAX_HEIGHT" "p < 2 ^ l" using False trip canon_shape [OF k] h by auto
    have "hash_valid b" using canon_valid [of h ?g] valid_g h by (simp add: k)
    let ?E = "(spec_edge_hash ?H b p l, EdgeFact \<lparr> edge_bottom_node = b, edge_path = p, edge_length = l \<rparr>)"
    have edge: "edge_facts ?H (canon ?H h ?g) = [?E]" and root: "spec_root e h f = fst ?E"
      using l by (simp_all add: k spec_root_def)
    have E: "?E \<in> set (all_facts ?H h ?g)" by (simp add: all_facts_def edge)
    obtain s2 facts' where s2: "VPN_commit e s1 \<lparr> bottom_node = b, path = p, length_of = l, height = h \<rparr> facts =
        Inr (fst ?E, s2, facts')" "node_in e s2 ?E"
      "\<And>j v. hash_wf j \<Longrightarrow> j \<noteq> fst ?E \<Longrightarrow> node_in e s1 (j, v) \<Longrightarrow> node_in e s2 (j, v)"
      "\<And>j x. hash_wf j \<Longrightarrow> leaf_in e s1 (j, x) \<Longrightarrow> leaf_in e s2 (j, x)"
      using commit_edge [OF \<open>hash_valid b\<close> l(3,1,2), of s1 h facts] unfolding fst_conv by blast
    have "node_in e s2 (j, v)" if "(j, v) \<in> set (all_facts ?H h ?g)" for j v
    proof (cases "j = fst ?E")
      case True
      then have "v = snd ?E" using good_tree_unique [OF good E [unfolded True [symmetric]]] that E
        by (metis good good_tree_unique prod.collapse)
      with True s2(2) show ?thesis by simp
    next
      case False
      then have "node_in e s1 (j, v)" using that s1(2) by (auto simp: all_facts_def edge)
      with False s2(3) wf [OF that] show ?thesis by blast
    qed
    moreover have "hash_wf (?g i)" if "i < 2 ^ h" for i using valid_g that hash_valid_wf by blast
    ultimately have "represents e valid s2 \<lparr> tree_root = spec_root e h f, tree_height = h \<rparr> f"
      using good x leaves s2(4) by (auto simp: represents_def EMPTY_HASH_eq)
    moreover have "keeps e h f s1 s2"
      unfolding keeps_def using s2(2,3,4) E by (metis prod.collapse)
    ultimately show ?thesis using s2(1) trip root by auto
  qed
qed

text \<open>The update of a tree.\<close>

lemma update_represents:
  assumes t: "represents e valid s t f"
    and idx: "\<forall>(i, x) \<in> set ms. i < 2 ^ tree_height t"
    and good: "good_tree e valid (tree_height t) (apply_mods (mods_map ms) f)"
  shows "\<exists>t' s' facts'. PatriciaTree_update e s t ms facts = Inr (t', s', facts') \<and>
    t' = \<lparr> tree_root = spec_root e (tree_height t) (apply_mods (mods_map ms) f), tree_height = tree_height t \<rparr> \<and>
    represents e valid s' t' (apply_mods (mods_map ms) f) \<and>
    keeps e (tree_height t) (apply_mods (mods_map ms) f) s s'"
proof -
  let ?h = "tree_height t" and ?f = "apply_mods (mods_map ms) f"
  let ?n = "\<lparr> bottom_node = tree_root t, path = 0, length_of = 0, height = ?h \<rparr>"
  have new: "new_tree_ok e valid ?h ?f"
    using good by (simp add: new_tree_ok_def good_tree_def all_facts_def)
  have old: "leaf_in e s (leaf_hashes e f i, f i)" if "i < 2 ^ ?h" for i
    using t that by (simp add: represents_def Let_def)
  obtain x where x: "valid x" "leaf_is_empty (env_leaf e) x" "leaf_in e s (EMPTY_HASH, x)"
    using t by (auto simp: represents_def Let_def)
  have "\<exists>c facts1. build_updated_calculation e s ?n ms facts = Inr (c, facts1) \<and> calc_repr e valid s c ?h ?f"
    using idx by (intro build_updated_calculation_repr [OF new old represents_node [OF t]]) auto
  then obtain c facts1 where build: "build_updated_calculation e s ?n ms facts = Inr (c, facts1)"
    and c: "calc_repr e valid s c ?h ?f" by blast
  let ?b = "bottom_calculation c"
  let ?F = "\<lparr> inner_nodes = hm_extend [] (cfacts e ?b), leaves = hm_extend [] (cleaves e ?b) \<rparr>"
  let ?r = "\<lparr> bottom_node = chash e ?b, path = calc_path c, length_of = calc_length c, height = ?h \<rparr>"
  obtain k p l where k: "canon (env_hash e) ?h (leaf_hashes e ?f) = (k, p, l)"
    by (cases "canon (env_hash e) ?h (leaf_hashes e ?f)") auto
  have "calc_path c < 2 ^ calc_length c" "calc_height c = ?h" "calc_ok valid ?b"
    using c canon_shape [OF k] unfolding calc_repr_def Let_def k by auto
  then have calc: "(VCN_full_calculate e c NodeFactDict_default :: (tree_error, _) res) = Inr (?r, ?F)"
    by (simp add: VCN_full_calculate_eq full_calculate_ok NodeFactDict_default_def VPN_new_unchecked_def)
  obtain s1 where s1: "write_fact_nodes e s ?F = Inr s1" "keeps e ?h ?f s s1"
    "\<forall>y \<in> set (tree_facts (env_hash e) ?h (leaf_hashes e ?f)). node_in e s1 y"
    "\<forall>i < 2 ^ ?h. leaf_in e s1 (leaf_hashes e ?f i, ?f i)" "leaf_in e s1 (EMPTY_HASH, x)"
    using update_written [OF c good x] by blast
  obtain facts2 where upd: "update_tree e s ?n ms facts = Inr (?r, s1, facts2)"
    using build calc s1(1) by (simp add: update_tree_def)
  obtain s2 facts3 where s2: "VPN_commit e s1 ?r facts2 = Inr (spec_root e ?h ?f, s2, facts3)"
    "keeps e ?h ?f s1 s2" "represents e valid s2 \<lparr> tree_root = spec_root e ?h ?f, tree_height = ?h \<rparr> ?f"
    using commit_root [OF c good s1(2,3) x(1,2) s1(5,4)] by blast
  show ?thesis
    using upd s2 keeps_trans [OF s1(2) s2(2)] by (simp add: PatriciaTree_update_def)
qed

text \<open>A tree stays in the storage when another one is written that does not collide with it.\<close>

lemma represents_kept:
  assumes u: "represents e valid s u g" and k: "keeps e h f s s'" and good: "good_tree e valid h f"
    and facts: "collision_free (all_facts (env_hash e) (tree_height u) (leaf_hashes e g) @
      all_facts (env_hash e) h (leaf_hashes e f))"
    and leaves: "\<forall>i < 2 ^ tree_height u. \<forall>j < 2 ^ h. lhash e (g i) = lhash e (f j) \<longrightarrow> g i = f j"
  shows "represents e valid s' u g"
proof -
  let ?h = "tree_height u"
  have g: "good_tree e valid ?h g" and root: "tree_root u = spec_root e ?h g"
    and nodes: "\<forall>x \<in> set (all_facts (env_hash e) ?h (leaf_hashes e g)). node_in e s x"
    and lvs: "\<forall>i < 2 ^ ?h. leaf_in e s (leaf_hashes e g i, g i)"
    using u by (simp_all add: represents_def Let_def)
  obtain x where x: "valid x" "leaf_is_empty (env_leaf e) x" "leaf_in e s (EMPTY_HASH, x)"
    using u by (auto simp: represents_def Let_def)
  have ok: "leaves_ok e valid ?h g" "leaves_ok e valid h f" and h: "?h \<le> MAX_HEIGHT"
    using g good by (simp_all add: good_tree_def)
  have valid_g: "\<forall>i < 2 ^ ?h. hash_valid (leaf_hashes e g i)" using leaves_ok_valid [OF ok(1)] by blast
  have "node_in e s' (j, v)" if "(j, v) \<in> set (all_facts (env_hash e) ?h (leaf_hashes e g))" for j v
  proof -
    have "hash_wf j"
      using that tree_facts_valid [OF valid_g h] edge_facts_valid [OF valid_g h] hash_valid_wf
      unfolding all_facts_def set_append by blast
    moreover have "v' = v" if "(j, v') \<in> set (all_facts (env_hash e) h (leaf_hashes e f))" for v'
      using collision_freeD [OF facts, of j v v'] that \<open>(j, v) \<in> _\<close> by simp
    ultimately show ?thesis using k nodes that unfolding keeps_def by blast
  qed
  moreover have "leaf_in e s' (leaf_hashes e g i, g i)" if "i < 2 ^ ?h" for i
  proof -
    have "hash_wf (leaf_hashes e g i)" using valid_g that hash_valid_wf by blast
    then show ?thesis using k lvs leaves that unfolding keeps_def leaf_hashes_def by metis
  qed
  moreover have "leaf_in e s' (EMPTY_HASH, x)"
  proof -
    have "f j = x" if "j < 2 ^ h" "leaf_hashes e f j = EMPTY_HASH" for j
      using ok(2) that x leaf_empty_unique unfolding leaves_ok_def leaf_hashes_def by blast
    moreover have "hash_wf EMPTY_HASH" by (simp add: EMPTY_HASH_eq)
    ultimately show ?thesis using k x(3) unfolding keeps_def by blast
  qed
  ultimately show ?thesis using g root x by (auto simp: represents_def Let_def)
qed

end

end
