(* ===== verification/Leaf_Facts.thy ===== *)
theory Leaf_Facts
  imports Patricia_Correct
begin

text \<open>
  The leaf types of the commitment trees: \<open>StorageLeaf\<close> (\<open>starknet/starknet_storage.rs\<close>),
  \<open>SimpleLeafFact\<close> (\<open>storage/storage_utils.rs\<close>), \<open>ContractClassLeaf\<close>
  (\<open>starknet/business_logic/fact_state/contract_class_objects.rs\<close>) and the leaf interface of
  \<open>ContractState\<close> (\<open>contract_state_objects.rs\<close> in the same directory).

  The first two have their own encoding. The other two use the blanket implementation of
  \<open>Serializable\<close> (\<open>starkware_utils/serializable.rs\<close>) by \<open>serde_json\<close>, which is a parameter: the
  record \<open>json_codec\<close>. What the code relies on is \<open>json_ok\<close>: a value that was written is read back.

  Each type keeps the laws of \<open>leaf_laws\<close>, so the correctness of the trees holds for its trees: the
  theory ends with the interpretations of \<open>patricia_env\<close>.
\<close>

section \<open>Serialization by serde_json\<close>

record 'o json_codec =
  to_json :: "'o \<Rightarrow> string + bytes"
  from_json :: "bytes \<Rightarrow> string + 'o"

definition json_serialize :: "'o json_codec \<Rightarrow> 'o \<Rightarrow> (serialize_error, bytes) res" where
  "json_serialize J x =
     (case to_json J x of Inr serialized \<Rightarrow> Inr serialized | Inl m \<Rightarrow> Inl (Error (SerializeError_Json m)))"

definition json_deserialize :: "'o json_codec \<Rightarrow> bytes \<Rightarrow> (deserialize_error, 'o) res" where
  "json_deserialize J data =
     (case from_json J data of Inr value \<Rightarrow> Inr value | Inl m \<Rightarrow> Inl (Error (DeserializeError_Json m)))"

definition json_ok :: "('o \<Rightarrow> bool) \<Rightarrow> 'o json_codec \<Rightarrow> bool" where
  "json_ok valid J \<longleftrightarrow> (\<forall>x. valid x \<longrightarrow> (\<exists>d. to_json J x = Inr d \<and> from_json J d = Inr x))"

lemma json_okD:
  "json_ok valid J \<Longrightarrow> valid x \<Longrightarrow> \<exists>d. json_serialize J x = Inr d \<and> json_deserialize J d = Inr x"
  unfolding json_ok_def json_serialize_def json_deserialize_def by fastforce

section \<open>Storage leaves\<close>

record storage_leaf =
  leaf_value :: felt

definition StorageLeaf_new :: "felt \<Rightarrow> storage_leaf" where
  "StorageLeaf_new v = \<lparr> leaf_value = v \<rparr>"

definition StorageLeaf_empty :: storage_leaf where
  "StorageLeaf_empty = StorageLeaf_new 0"

definition StorageLeaf_is_empty :: "storage_leaf \<Rightarrow> bool" where
  "StorageLeaf_is_empty x \<longleftrightarrow> leaf_value x = 0"

definition StorageLeaf_serialize :: "storage_leaf \<Rightarrow> (serialize_error, bytes) res" where
  "StorageLeaf_serialize x = Inr (felt_to_bytes_be (leaf_value x))"

definition StorageLeaf_deserialize :: "bytes \<Rightarrow> (deserialize_error, storage_leaf) res" where
  "StorageLeaf_deserialize data = Inr \<lparr> leaf_value = felt_from_bytes_be_slice data \<rparr>"

definition StorageLeaf_hash :: "storage_leaf \<Rightarrow> hash option" where
  "StorageLeaf_hash x =
     (if StorageLeaf_is_empty x then Some Hash_empty
      else case bindR (StorageLeaf_serialize x) Hash_from_bytes_be_slice of Inr h \<Rightarrow> Some h | Inl _ \<Rightarrow> None)"

definition StorageLeaf :: "storage_leaf leaf_fact" where
  "StorageLeaf =
     \<lparr> prefix = ascii ''starknet_storage_leaf'',
       serialize = StorageLeaf_serialize,
       deserialize = StorageLeaf_deserialize,
       fact_hash = StorageLeaf_hash,
       leaf_is_empty = StorageLeaf_is_empty \<rparr>"

text \<open>A \<open>Felt252\<close> is canonical.\<close>

definition StorageLeaf_wf :: "storage_leaf \<Rightarrow> bool" where
  "StorageLeaf_wf x \<longleftrightarrow> felt_wf (leaf_value x)"

lemma StorageLeaf_simps [simp]:
  "serialize StorageLeaf = StorageLeaf_serialize" "deserialize StorageLeaf = StorageLeaf_deserialize"
  "fact_hash StorageLeaf = StorageLeaf_hash" "leaf_is_empty StorageLeaf = StorageLeaf_is_empty"
  "prefix StorageLeaf = ascii ''starknet_storage_leaf''"
  by (simp_all add: StorageLeaf_def)

lemma storage_leaf_eq_iff: "x = y \<longleftrightarrow> leaf_value x = leaf_value y" for x y :: storage_leaf
  by auto

lemma StorageLeaf_new_simps [simp]:
  "leaf_value (StorageLeaf_new v) = v" "StorageLeaf_wf (StorageLeaf_new v) = felt_wf v"
  "StorageLeaf_new (leaf_value x) = x" "StorageLeaf_is_empty (StorageLeaf_new v) \<longleftrightarrow> v = 0"
  "StorageLeaf_new v = StorageLeaf_new w \<longleftrightarrow> v = w"
  by (simp_all add: StorageLeaf_new_def StorageLeaf_wf_def StorageLeaf_is_empty_def)

lemma StorageLeaf_empty_simps [simp]:
  "leaf_value StorageLeaf_empty = 0" "StorageLeaf_wf StorageLeaf_empty" "StorageLeaf_is_empty StorageLeaf_empty"
  by (simp_all add: StorageLeaf_empty_def)

lemma Hash_from_slice_felt [simp]: "Hash_from_bytes_be_slice (felt_to_bytes_be x) = Inr (Hash_of_felt x)"
  using Hash_from_slice_32 [of "felt_to_bytes_be x"]
  by (simp add: hash_wf_def Hash_of_felt_def Hash_from_bytes_be_def)

text \<open>The hash of a storage leaf is its value.\<close>

lemma StorageLeaf_hash_eq: "StorageLeaf_hash x = Some (Hash_of_felt (leaf_value x))"
  by (simp add: StorageLeaf_hash_def StorageLeaf_is_empty_def StorageLeaf_serialize_def Hash_empty_felt)

lemma StorageLeaf_laws: "leaf_laws StorageLeaf StorageLeaf_wf"
  by unfold_locales
    (auto simp: StorageLeaf_serialize_def StorageLeaf_deserialize_def StorageLeaf_wf_def StorageLeaf_hash_eq
      StorageLeaf_is_empty_def storage_leaf_eq_iff PATRICIA_NODE_PREFIX_def ascii_def
      EMPTY_HASH_eq Hash_empty_felt)

section \<open>Simple leaves\<close>

record simple_leaf_fact =
  simple_value :: felt

definition SimpleLeafFact_new :: "felt \<Rightarrow> simple_leaf_fact" where
  "SimpleLeafFact_new v = \<lparr> simple_value = v \<rparr>"

definition SimpleLeafFact_empty :: simple_leaf_fact where
  "SimpleLeafFact_empty = SimpleLeafFact_new 0"

definition SimpleLeafFact_serialize :: "simple_leaf_fact \<Rightarrow> (serialize_error, bytes) res" where
  "SimpleLeafFact_serialize x = Inr (felt_to_bytes_be (simple_value x))"

definition SimpleLeafFact_deserialize :: "bytes \<Rightarrow> (deserialize_error, simple_leaf_fact) res" where
  "SimpleLeafFact_deserialize data = Inr \<lparr> simple_value = felt_from_bytes_be_slice data \<rparr>"

definition SimpleLeafFact_hash :: "simple_leaf_fact \<Rightarrow> hash option" where
  "SimpleLeafFact_hash x =
     (case bindR (SimpleLeafFact_serialize x) Hash_from_bytes_be_slice of Inr h \<Rightarrow> Some h | Inl _ \<Rightarrow> None)"

definition SimpleLeafFact_is_empty :: "simple_leaf_fact \<Rightarrow> bool" where
  "SimpleLeafFact_is_empty x \<longleftrightarrow> simple_value x = 0"

definition SimpleLeafFact :: "simple_leaf_fact leaf_fact" where
  "SimpleLeafFact =
     \<lparr> prefix = ascii ''simple_leaf_fact'',
       serialize = SimpleLeafFact_serialize,
       deserialize = SimpleLeafFact_deserialize,
       fact_hash = SimpleLeafFact_hash,
       leaf_is_empty = SimpleLeafFact_is_empty \<rparr>"

definition SimpleLeafFact_wf :: "simple_leaf_fact \<Rightarrow> bool" where
  "SimpleLeafFact_wf x \<longleftrightarrow> felt_wf (simple_value x)"

lemma SimpleLeafFact_laws: "leaf_laws SimpleLeafFact SimpleLeafFact_wf"
  by unfold_locales
    (auto simp: SimpleLeafFact_def SimpleLeafFact_serialize_def SimpleLeafFact_deserialize_def SimpleLeafFact_wf_def
      SimpleLeafFact_hash_def SimpleLeafFact_is_empty_def PATRICIA_NODE_PREFIX_def ascii_def
      EMPTY_HASH_eq Hash_empty_felt)

section \<open>Contract class leaves\<close>

record contract_class_leaf =
  compiled_class_hash :: felt

definition ContractClassLeaf_create :: "felt \<Rightarrow> contract_class_leaf" where
  "ContractClassLeaf_create h = \<lparr> compiled_class_hash = h \<rparr>"

definition ContractClassLeaf_empty :: contract_class_leaf where
  "ContractClassLeaf_empty = \<lparr> compiled_class_hash = 0 \<rparr>"

definition ContractClassLeaf_is_empty :: "contract_class_leaf \<Rightarrow> bool" where
  "ContractClassLeaf_is_empty x \<longleftrightarrow> compiled_class_hash x = 0"

definition CONTRACT_CLASS_LEAF_VERSION :: bytes where
  "CONTRACT_CLASS_LEAF_VERSION = ascii ''CONTRACT_CLASS_LEAF_V0''"

definition ContractClassLeaf_hash :: "hash_fn \<Rightarrow> contract_class_leaf \<Rightarrow> hash option" where
  "ContractClassLeaf_hash H x =
     (if ContractClassLeaf_is_empty x then Some Hash_empty
      else H CONTRACT_CLASS_LEAF_VERSION (felt_to_bytes_be (compiled_class_hash x)))"

definition ContractClassLeaf ::
  "contract_class_leaf json_codec \<Rightarrow> hash_fn \<Rightarrow> contract_class_leaf leaf_fact" where
  "ContractClassLeaf J H =
     \<lparr> prefix = ascii ''contract_class_leaf'',
       serialize = json_serialize J,
       deserialize = json_deserialize J,
       fact_hash = ContractClassLeaf_hash H,
       leaf_is_empty = ContractClassLeaf_is_empty \<rparr>"

definition ContractClassLeaf_wf :: "contract_class_leaf \<Rightarrow> bool" where
  "ContractClassLeaf_wf x \<longleftrightarrow> felt_wf (compiled_class_hash x)"

lemma CONTRACT_CLASS_LEAF_VERSION_felt [simp]: "felt_bytes CONTRACT_CLASS_LEAF_VERSION"
  by (simp add: felt_bytes_def CONTRACT_CLASS_LEAF_VERSION_def ascii_def nat_of_bytes_be_def STARK_PRIME_def)

lemma ContractClassLeaf_laws:
  assumes H: "hash_laws H" and J: "json_ok ContractClassLeaf_wf J"
  shows "leaf_laws (ContractClassLeaf J H) ContractClassLeaf_wf"
proof
  fix x
  assume x: "ContractClassLeaf_wf x"
  show "\<exists>data. serialize (ContractClassLeaf J H) x = Inr data \<and> deserialize (ContractClassLeaf J H) data = Inr x"
    using json_okD [OF J x] by (simp add: ContractClassLeaf_def)
  show "\<exists>h. fact_hash (ContractClassLeaf J H) x = Some h \<and> hash_valid h"
    using x hash_laws.hash_defined [OF H, of CONTRACT_CLASS_LEAF_VERSION]
    by (simp add: ContractClassLeaf_def ContractClassLeaf_hash_def ContractClassLeaf_wf_def)
next
  show "prefix (ContractClassLeaf J H) \<noteq> PATRICIA_NODE_PREFIX"
    by (simp add: ContractClassLeaf_def PATRICIA_NODE_PREFIX_def ascii_def)
qed (auto simp: ContractClassLeaf_def ContractClassLeaf_hash_def ContractClassLeaf_is_empty_def EMPTY_HASH_eq)

section \<open>Contract states\<close>

record contract_state =
  contract_hash :: bytes
  storage_commitment_tree :: patricia_tree
  nonce :: felt

definition UNINITIALIZED_CLASS_HASH :: bytes where
  "UNINITIALIZED_CLASS_HASH = replicate 32 0"

definition EMPTY_NODE_HASH :: hash where
  "EMPTY_NODE_HASH = replicate 32 0"

definition ContractState_is_empty :: "contract_state \<Rightarrow> bool" where
  "ContractState_is_empty c \<longleftrightarrow>
     tree_root (storage_commitment_tree c) = EMPTY_NODE_HASH \<and>
     contract_hash c = UNINITIALIZED_CLASS_HASH \<and> nonce c = 0"

definition ContractState_hash :: "hash_fn \<Rightarrow> contract_state \<Rightarrow> hash option" where
  "ContractState_hash H c =
     (if ContractState_is_empty c then Some Hash_empty
      else Option.bind (H (contract_hash c) (tree_root (storage_commitment_tree c))) (\<lambda>hash_value.
           Option.bind (H hash_value (felt_to_bytes_be (nonce c))) (\<lambda>hash_value.
             H hash_value (felt_to_bytes_be 0))))"

definition ContractState :: "contract_state json_codec \<Rightarrow> hash_fn \<Rightarrow> contract_state leaf_fact" where
  "ContractState J H =
     \<lparr> prefix = ascii ''contract_state'',
       serialize = json_serialize J,
       deserialize = json_deserialize J,
       fact_hash = ContractState_hash H,
       leaf_is_empty = ContractState_is_empty \<rparr>"

text \<open>
  The class hash and the nonce are field elements and the storage tree has the height of the
  system. \<open>is_empty\<close> does not look at the height, so the states with one fixed height are those
  of which only one is empty.
\<close>

definition ContractState_wf :: "nat \<Rightarrow> contract_state \<Rightarrow> bool" where
  "ContractState_wf h c \<longleftrightarrow>
     hash_valid (contract_hash c) \<and> hash_valid (tree_root (storage_commitment_tree c)) \<and>
     felt_wf (nonce c) \<and> tree_height (storage_commitment_tree c) = h"

lemma EMPTY_NODE_HASH_eq: "EMPTY_NODE_HASH = Hash_empty" "UNINITIALIZED_CLASS_HASH = Hash_empty"
  by (simp_all add: EMPTY_NODE_HASH_def UNINITIALIZED_CLASS_HASH_def Hash_empty_def EMPTY_HASH_def
      Hash_from_bytes_be_def)

lemma ContractState_hash_valid:
  assumes H: "hash_laws H" and c: "ContractState_wf h c"
  shows "\<exists>k. ContractState_hash H c = Some k \<and> hash_valid k"
proof -
  note hash = hash_laws.hash_defined [OF H]
  obtain k1 where k1: "H (contract_hash c) (tree_root (storage_commitment_tree c)) = Some k1" "hash_valid k1"
    using hash c hash_valid_felt_bytes unfolding ContractState_wf_def by blast
  obtain k2 where k2: "H k1 (felt_to_bytes_be (nonce c)) = Some k2" "hash_valid k2"
    using hash [OF hash_valid_felt_bytes [OF k1(2)] felt_bytes_felt] c unfolding ContractState_wf_def by blast
  obtain k3 where k3: "H k2 (felt_to_bytes_be 0) = Some k3" "hash_valid k3"
    using hash [OF hash_valid_felt_bytes [OF k2(2)] felt_bytes_felt [of 0]] by auto
  show ?thesis by (simp add: ContractState_hash_def k1 k2 k3)
qed

lemma ContractState_laws:
  assumes H: "hash_laws H" and J: "json_ok (ContractState_wf h) J"
  shows "leaf_laws (ContractState J H) (ContractState_wf h)"
proof
  fix c
  assume c: "ContractState_wf h c"
  show "\<exists>data. serialize (ContractState J H) c = Inr data \<and> deserialize (ContractState J H) data = Inr c"
    using json_okD [OF J c] by (simp add: ContractState_def)
  show "\<exists>k. fact_hash (ContractState J H) c = Some k \<and> hash_valid k"
    using ContractState_hash_valid [OF H c] by (simp add: ContractState_def)
next
  show "prefix (ContractState J H) \<noteq> PATRICIA_NODE_PREFIX"
    by (simp add: ContractState_def PATRICIA_NODE_PREFIX_def ascii_def)
next
  fix c d
  assume "ContractState_wf h c" "ContractState_wf h d"
    "leaf_is_empty (ContractState J H) c" "leaf_is_empty (ContractState J H) d"
  then show "c = d" by (simp add: ContractState_def ContractState_is_empty_def ContractState_wf_def)
qed (auto simp: ContractState_def ContractState_hash_def EMPTY_HASH_eq)

section \<open>Trees over the leaf types\<close>

definition storage_tree :: "'s storage_ops \<Rightarrow> hash_fn \<Rightarrow> ('s, storage_leaf) tree_env" where
  "storage_tree St H = \<lparr> env_storage = St, env_hash = H, env_leaf = StorageLeaf \<rparr>"

definition simple_tree :: "'s storage_ops \<Rightarrow> hash_fn \<Rightarrow> ('s, simple_leaf_fact) tree_env" where
  "simple_tree St H = \<lparr> env_storage = St, env_hash = H, env_leaf = SimpleLeafFact \<rparr>"

definition class_tree ::
  "contract_class_leaf json_codec \<Rightarrow> 's storage_ops \<Rightarrow> hash_fn \<Rightarrow> ('s, contract_class_leaf) tree_env" where
  "class_tree J St H = \<lparr> env_storage = St, env_hash = H, env_leaf = ContractClassLeaf J H \<rparr>"

definition contract_tree ::
  "contract_state json_codec \<Rightarrow> 's storage_ops \<Rightarrow> hash_fn \<Rightarrow> ('s, contract_state) tree_env" where
  "contract_tree J St H = \<lparr> env_storage = St, env_hash = H, env_leaf = ContractState J H \<rparr>"

lemma tree_env_simps [simp]:
  "env_storage (storage_tree St H) = St" "env_hash (storage_tree St H) = H"
  "env_leaf (storage_tree St H) = StorageLeaf"
  "env_storage (simple_tree St H) = St" "env_hash (simple_tree St H) = H"
  "env_leaf (simple_tree St H) = SimpleLeafFact"
  "env_storage (class_tree J St H) = St" "env_hash (class_tree J St H) = H"
  "env_leaf (class_tree J St H) = ContractClassLeaf J H"
  "env_storage (contract_tree K St H) = St" "env_hash (contract_tree K St H) = H"
  "env_leaf (contract_tree K St H) = ContractState K H"
  by (simp_all add: storage_tree_def simple_tree_def class_tree_def contract_tree_def)

lemma patricia_envI:
  "storage_laws (env_storage e) \<Longrightarrow> hash_laws (env_hash e) \<Longrightarrow> leaf_laws (env_leaf e) valid \<Longrightarrow>
   patricia_env e valid"
  by (simp add: patricia_env_def)

lemma storage_tree_env:
  "storage_laws St \<Longrightarrow> hash_laws H \<Longrightarrow> patricia_env (storage_tree St H) StorageLeaf_wf"
  by (intro patricia_envI) (simp_all add: StorageLeaf_laws)

lemma class_tree_env:
  "storage_laws St \<Longrightarrow> hash_laws H \<Longrightarrow> json_ok ContractClassLeaf_wf J \<Longrightarrow>
   patricia_env (class_tree J St H) ContractClassLeaf_wf"
  by (intro patricia_envI) (simp_all add: ContractClassLeaf_laws)

lemma contract_tree_env:
  "storage_laws St \<Longrightarrow> hash_laws H \<Longrightarrow> json_ok (ContractState_wf h) J \<Longrightarrow>
   patricia_env (contract_tree J St H) (ContractState_wf h)"
  by (intro patricia_envI) (simp_all add: ContractState_laws)

interpretation storage_leaf: leaf_laws StorageLeaf StorageLeaf_wf
  by (rule StorageLeaf_laws)

interpretation simple_leaf: leaf_laws SimpleLeafFact SimpleLeafFact_wf
  by (rule SimpleLeafFact_laws)

interpretation st: patricia_env "storage_tree DictStorage (PedersenHash ped)" StorageLeaf_wf for ped
  by (rule storage_tree_env [OF DictStorage_laws PedersenHash_laws])

interpretation cached_st: patricia_env "storage_tree (CachedStorage DictStorage) (PedersenHash ped)" StorageLeaf_wf
  for ped
  unfolding CachedStorage_def
  by (intro storage_tree_env CompositeStorage_laws DictStorage_laws PedersenHash_laws)

interpretation simple: patricia_env "simple_tree DictStorage (PedersenHash ped)" SimpleLeafFact_wf for ped
  by (intro patricia_envI) (simp_all add: DictStorage_laws PedersenHash_laws SimpleLeafFact_laws)

end
