(* ===== verification/Storage_Trees.thy ===== *)
theory Storage_Trees
  imports Leaf_Facts
begin

text \<open>
  Correctness of the Patricia trees of contract storage: \<open>PatriciaTree\<close> over \<open>StorageLeaf\<close>, the
  dictionary storage and the Pedersen hash. The lemmas come from the interpretation \<open>st\<close> of
  \<open>patricia_env\<close>; the Pedersen hash itself is the parameter \<open>ped\<close>.

  \<open>represents e valid s t f\<close> says that the storage \<open>s\<close> holds the tree \<open>t\<close> with the leaves \<open>f\<close>: the
  root is the reference root of \<open>f\<close> and all facts and leaves below it are stored. \<open>good_tree\<close> is the
  assumption on the hash function, for the leaves at hand: no two facts of the tree have the same
  hash and none has the hash of the empty node.

  The witnesses use the height 251 of the system and a tree with one leaf, as in the test
  \<open>test_update_and_get_leaf\<close>.
\<close>

section \<open>Trees with one leaf\<close>

lemma single_leaf_canon:
  assumes "i < 2 ^ h" and "g i \<noteq> EMPTY_HASH" and "\<And>j. j < 2 ^ h \<Longrightarrow> j \<noteq> i \<Longrightarrow> g j = EMPTY_HASH"
  shows "canon H h g = (g i, i, h) \<and> tree_facts H h g = []"
  using assms
proof (induction h arbitrary: g i)
  case (Suc h)
  show ?case
  proof (cases "i < 2 ^ h")
    case True
    have "right_half h g j = EMPTY_HASH" if "j < 2 ^ h" for j
      using Suc.prems(3) [of "2 ^ h + j"] that True by (simp add: right_half_def)
    then have r: "canon H h (right_half h g) = (EMPTY_HASH, 0, 0)" "tree_facts H h (right_half h g) = []"
      using canon_all_empty [of h "right_half h g" H] by auto
    have "canon H h g = (g i, i, h) \<and> tree_facts H h g = []"
      using True Suc.prems by (intro Suc.IH) auto
    then show ?thesis
      using Suc.prems(2) by (simp add: canon.simps r merge_facts_def)
  next
    case False
    then obtain k where k: "k < 2 ^ h" "i = 2 ^ h + k"
      using Suc.prems(1) by (metis add_diff_inverse_nat lt_two_power_Suc_cases)
    have "g j = EMPTY_HASH" if "j < 2 ^ h" for j
      using Suc.prems(3) [of j] that False by simp
    then have l: "canon H h g = (EMPTY_HASH, 0, 0)" "tree_facts H h g = []"
      using canon_all_empty [of h g H] by auto
    have "canon H h (right_half h g) = (right_half h g k, k, h) \<and> tree_facts H h (right_half h g) = []"
      using k Suc.prems by (intro Suc.IH) (auto simp: right_half_def)
    then show ?thesis
      using Suc.prems(2) k by (simp add: canon.simps l merge_facts_def right_half_def)
  qed
qed simp

section \<open>Storage trees\<close>

abbreviation storage_env :: "(felt \<Rightarrow> felt \<Rightarrow> felt) \<Rightarrow> (dict_storage, storage_leaf) tree_env" where
  "storage_env ped \<equiv> storage_tree DictStorage (PedersenHash ped)"

lemma storage_lhash: "lhash (storage_tree St H) x = Hash_of_felt (leaf_value x)"
  by (simp add: lhash_def StorageLeaf_hash_eq)

text \<open>The hash of a leaf is its value, so only the facts can collide.\<close>

lemma storage_good_tree:
  "good_tree (storage_tree St H) StorageLeaf_wf h f \<longleftrightarrow>
     h \<le> MAX_HEIGHT \<and> (\<forall>i < 2 ^ h. felt_wf (leaf_value (f i))) \<and>
     nonempty_keys (all_facts H h (leaf_hashes (storage_tree St H) f)) \<and>
     collision_free (all_facts H h (leaf_hashes (storage_tree St H) f))"
  by (auto simp: good_tree_def leaves_ok_def storage_lhash StorageLeaf_wf_def StorageLeaf_is_empty_def
      EMPTY_HASH_eq storage_leaf_eq_iff dest: Hash_of_felt_inj)

lemma storage_leaves_distinct:
  assumes "good_tree (storage_tree St H) StorageLeaf_wf k g" and "good_tree (storage_tree St H) StorageLeaf_wf h f"
  shows "\<forall>i < 2 ^ k. \<forall>j < 2 ^ h. lhash (storage_tree St H) (g i) = lhash (storage_tree St H) (f j) \<longrightarrow> g i = f j"
  using assms unfolding storage_good_tree storage_lhash storage_leaf_eq_iff by (blast dest: Hash_of_felt_inj)

lemma pedersen_edge_hash:
  assumes "felt_wf v" and "felt_wf p"
  shows "spec_edge_hash (PedersenHash ped) (Hash_of_felt v) p l =
    Hash_of_felt (felt_add (felt_of_nat (ped v p)) l)"
proof -
  have "felt_bytes (felt_to_bytes_be v)" "felt_bytes (to_bytes_be p)"
    using assms by (simp_all add: felt_bytes_to_bytes_be felt_wf_def)
  then show ?thesis
    using assms by (simp add: spec_edge_hash_def hash_edge_def PedersenHash_def FieldElement_from_byte_slice_be_def
        Hash_of_felt_def Hash_from_bytes_be_def)
qed

lemma single_storage_leaf:
  fixes i v :: nat
  assumes "i < 2 ^ h" and "h \<le> MAX_HEIGHT" and "felt_wf v" and "v \<noteq> 0" and "0 < h"
    and "felt_add (felt_of_nat (ped v i)) h \<noteq> 0"
  shows "good_tree (storage_tree St (PedersenHash ped)) StorageLeaf_wf h ((\<lambda>_. StorageLeaf_empty) (i := StorageLeaf_new v))"
    and "spec_root (storage_tree St (PedersenHash ped)) h ((\<lambda>_. StorageLeaf_empty) (i := StorageLeaf_new v)) =
      Hash_of_felt (felt_add (felt_of_nat (ped v i)) h)"
proof -
  let ?e = "storage_tree St (PedersenHash ped)" and ?f = "(\<lambda>_. StorageLeaf_empty) (i := StorageLeaf_new v)"
  let ?g = "leaf_hashes ?e ?f"
  have "(2 :: nat) ^ h \<le> 2 ^ 251"
    using assms(2) by (intro power_increasing) (simp_all add: MAX_HEIGHT_def)
  with assms(1) have "felt_wf i" by (simp add: felt_wf_def STARK_PRIME_def)
  have g: "?g j = (if j = i then Hash_of_felt v else EMPTY_HASH)" for j
    by (simp add: leaf_hashes_def storage_lhash EMPTY_HASH_eq Hash_empty_felt)
  have c: "canon (PedersenHash ped) h ?g = (Hash_of_felt v, i, h) \<and> tree_facts (PedersenHash ped) h ?g = []"
    using single_leaf_canon [of i h ?g] assms by (simp add: g EMPTY_HASH_eq)
  show "spec_root ?e h ?f = Hash_of_felt (felt_add (felt_of_nat (ped v i)) h)"
    using c assms(5) pedersen_edge_hash [OF assms(3) \<open>felt_wf i\<close>] by (simp add: spec_root_def)
  show "good_tree ?e StorageLeaf_wf h ?f"
    using c assms pedersen_edge_hash [OF assms(3) \<open>felt_wf i\<close>]
    by (simp add: storage_good_tree all_facts_def EMPTY_HASH_eq collision_free_def)
qed

section \<open>The properties\<close>

text \<open>The tree of the witnesses: empty, height 251, over the storage the empty tree was written to.\<close>

definition demo_ped :: "felt \<Rightarrow> felt \<Rightarrow> felt" where
  "demo_ped x y = x + 2 * y + 1"

definition demo_storage :: dict_storage where
  "demo_storage = [(db_key StorageLeaf EMPTY_HASH, felt_to_bytes_be 0)]"

definition demo_tree :: patricia_tree where
  "demo_tree = \<lparr> tree_root = EMPTY_HASH, tree_height = 251 \<rparr>"

lemma demo_empty_tree:
  "PatriciaTree_empty_tree (storage_env ped) DictStorage_default 251 StorageLeaf_empty = Inr (demo_tree, demo_storage)"
  by (simp add: PatriciaTree_empty_tree_def set_fact_def StorageLeaf_hash_eq db_set_def DictStorage_def
      StorageLeaf_serialize_def DictStorage_default_def hm_insert_def demo_tree_def demo_storage_def
      EMPTY_HASH_eq Hash_empty_felt)

lemma demo_represents:
  "represents (storage_env ped) StorageLeaf_wf demo_storage demo_tree (\<lambda>_. StorageLeaf_empty)"
  using st.empty_tree_represents [where x = StorageLeaf_empty and h = 251 and s = DictStorage_default]
  by (simp add: demo_empty_tree MAX_HEIGHT_def demo_tree_def)

lemma demo_mods:
  "apply_mods (mods_map [(i, x)]) f = f (i := x)"
  by (simp add: apply_mods_def mods_map_def fun_eq_iff)

lemma demo_good:
  "good_tree (storage_env demo_ped) StorageLeaf_wf 251 ((\<lambda>_. StorageLeaf_empty) (1000 := StorageLeaf_new 2000))"
  "spec_root (storage_env demo_ped) 251 ((\<lambda>_. StorageLeaf_empty) (1000 := StorageLeaf_new 2000)) = Hash_of_felt 4252"
  using single_storage_leaf [of 1000 251 2000 demo_ped DictStorage]
  by (simp_all add: MAX_HEIGHT_def demo_ped_def felt_wf_def felt_add_def felt_of_nat_def STARK_PRIME_def)

lemma demo_height [simp]: "tree_height demo_tree = 251"
  by (simp add: demo_tree_def)

text \<open>
  C1. Updating a storage tree returns a tree, never an error or a panic. Its root is the reference
  root of the new leaves, which is computed from the leaves alone, and the storage that results
  holds every fact and leaf of the new tree.
\<close>

theorem update_reference_root:
  assumes "represents (storage_env ped) StorageLeaf_wf s t f"
    and "\<forall>(i, x) \<in> set ms. i < 2 ^ tree_height t"
    and "good_tree (storage_env ped) StorageLeaf_wf (tree_height t) (apply_mods (mods_map ms) f)"
  shows "\<exists>t' s' facts'. PatriciaTree_update (storage_env ped) s t ms facts = Inr (t', s', facts') \<and>
    tree_root t' = spec_root (storage_env ped) (tree_height t) (apply_mods (mods_map ms) f) \<and>
    tree_height t' = tree_height t \<and>
    represents (storage_env ped) StorageLeaf_wf s' t' (apply_mods (mods_map ms) f)"
  using st.update_represents [OF assms, of facts] by auto

theorem update_reference_root_witness:
  "\<exists>t' s' facts'. PatriciaTree_update (storage_env demo_ped) demo_storage demo_tree
      [(1000, StorageLeaf_new 2000)] None = Inr (t', s', facts') \<and> tree_root t' = Hash_of_felt 4252"
  using update_reference_root [OF demo_represents, of "[(1000, StorageLeaf_new 2000)]" demo_ped None]
  by (auto simp: demo_mods demo_good)

text \<open>
  C9. What is written is read: after an update, looking up any index of the tree returns the last
  modification of that index, or the old leaf when the update does not mention it.
\<close>

theorem update_then_get_leaf:
  assumes "represents (storage_env ped) StorageLeaf_wf s t f"
    and "\<forall>(i, x) \<in> set ms. i < 2 ^ tree_height t"
    and "good_tree (storage_env ped) StorageLeaf_wf (tree_height t) (apply_mods (mods_map ms) f)"
    and "PatriciaTree_update (storage_env ped) s t ms facts = Inr (t', s', facts')"
    and "j < 2 ^ tree_height t"
  shows "PatriciaTree_get_leaf (storage_env ped) s' t' j =
    Inr (Some (case map_of (rev ms) j of Some x \<Rightarrow> x | None \<Rightarrow> f j))"
proof -
  have "represents (storage_env ped) StorageLeaf_wf s' t' (apply_mods (mods_map ms) f)" "tree_height t' = tree_height t"
    using st.update_represents [OF assms(1-3), of facts] assms(4) by auto
  then have "PatriciaTree_get_leaf (storage_env ped) s' t' j = Inr (Some (apply_mods (mods_map ms) f j))"
    using assms(5) by (intro represents_get_leaf) simp_all
  then show ?thesis by (simp add: apply_mods_def mods_map_def)
qed

lemma demo_updates:
  "\<exists>t' s' facts'. PatriciaTree_update (storage_env demo_ped) demo_storage demo_tree
      [(1000, StorageLeaf_new 2000)] facts = Inr (t', s', facts')"
  using st.update_represents [OF demo_represents, of "[(1000, StorageLeaf_new 2000)]" demo_ped facts]
  by (auto simp: demo_mods demo_good)

theorem update_then_get_leaf_witness:
  "\<exists>t' s' facts'. PatriciaTree_update (storage_env demo_ped) demo_storage demo_tree
      [(1000, StorageLeaf_new 2000)] None = Inr (t', s', facts') \<and>
    PatriciaTree_get_leaf (storage_env demo_ped) s' t' 1000 = Inr (Some (StorageLeaf_new 2000)) \<and>
    PatriciaTree_get_leaf (storage_env demo_ped) s' t' 7 = Inr (Some StorageLeaf_empty)"
proof -
  obtain t' s' facts' where u: "PatriciaTree_update (storage_env demo_ped) demo_storage demo_tree
      [(1000, StorageLeaf_new 2000)] None = Inr (t', s', facts')"
    using demo_updates by blast
  show ?thesis
    using u update_then_get_leaf [OF demo_represents _ _ u, of 1000] update_then_get_leaf [OF demo_represents _ _ u, of 7]
    by (simp add: demo_mods demo_good)
qed

text \<open>
  C18. Updates are persistent: a tree that was in the storage before an update (the old version of the
  updated tree, or the tree of another contract) is still there after it, provided no fact of
  the new tree has the hash of a different fact of that tree.
\<close>

theorem update_keeps_trees:
  assumes "represents (storage_env ped) StorageLeaf_wf s t f"
    and "\<forall>(i, x) \<in> set ms. i < 2 ^ tree_height t"
    and "good_tree (storage_env ped) StorageLeaf_wf (tree_height t) (apply_mods (mods_map ms) f)"
    and "PatriciaTree_update (storage_env ped) s t ms facts = Inr (t', s', facts')"
    and "represents (storage_env ped) StorageLeaf_wf s u g"
    and "collision_free
      (all_facts (PedersenHash ped) (tree_height u) (leaf_hashes (storage_env ped) g) @
       all_facts (PedersenHash ped) (tree_height t) (leaf_hashes (storage_env ped) (apply_mods (mods_map ms) f)))"
  shows "represents (storage_env ped) StorageLeaf_wf s' u g"
proof (rule st.represents_kept [OF assms(5)])
  show "keeps (storage_env ped) (tree_height t) (apply_mods (mods_map ms) f) s s'"
    using st.update_represents [OF assms(1-3), of facts] assms(4) by auto
  show "good_tree (storage_env ped) StorageLeaf_wf (tree_height t) (apply_mods (mods_map ms) f)"
    by (rule assms(3))
  show "collision_free (all_facts (env_hash (storage_env ped)) (tree_height u) (leaf_hashes (storage_env ped) g) @
       all_facts (env_hash (storage_env ped)) (tree_height t)
         (leaf_hashes (storage_env ped) (apply_mods (mods_map ms) f)))"
    using assms(6) by simp
  show "\<forall>i < 2 ^ tree_height u. \<forall>j < 2 ^ tree_height t.
      lhash (storage_env ped) (g i) = lhash (storage_env ped) (apply_mods (mods_map ms) f j) \<longrightarrow>
      g i = apply_mods (mods_map ms) f j"
    using assms(3,5) by (intro storage_leaves_distinct) (simp_all add: represents_def Let_def)
qed

theorem update_keeps_trees_witness:
  "\<exists>t' s' facts'. PatriciaTree_update (storage_env demo_ped) demo_storage demo_tree
      [(1000, StorageLeaf_new 2000)] None = Inr (t', s', facts') \<and>
    represents (storage_env demo_ped) StorageLeaf_wf s' demo_tree (\<lambda>_. StorageLeaf_empty)"
proof -
  obtain t' s' facts' where u: "PatriciaTree_update (storage_env demo_ped) demo_storage demo_tree
      [(1000, StorageLeaf_new 2000)] None = Inr (t', s', facts')"
    using demo_updates by blast
  have "all_facts (PedersenHash demo_ped) 251 (leaf_hashes (storage_env demo_ped) (\<lambda>_. StorageLeaf_empty)) = []"
    using st.all_empty_facts(1) [where ped = demo_ped and h = 251 and f = "\<lambda>_. StorageLeaf_empty"]
    by (simp add: leaf_hashes_def storage_lhash EMPTY_HASH_eq Hash_empty_felt)
  then show ?thesis
    using u update_keeps_trees [OF demo_represents _ _ u demo_represents] demo_good(1)
    by (simp add: demo_mods good_tree_def)
qed

text \<open>
  C24. Updates compose: applying two lists of modifications one after the other gives the root that
  applying their concatenation at once gives. The root depends on the leaves and not on the
  history of the tree.
\<close>

theorem update_batch:
  assumes "represents (storage_env ped) StorageLeaf_wf s t f"
    and "\<forall>(i, x) \<in> set (ms @ ns). i < 2 ^ tree_height t"
    and "good_tree (storage_env ped) StorageLeaf_wf (tree_height t) (apply_mods (mods_map ms) f)"
    and "good_tree (storage_env ped) StorageLeaf_wf (tree_height t) (apply_mods (mods_map (ms @ ns)) f)"
  shows "\<exists>t1 s1 facts1 t2 s2 facts2 s3 facts3.
    PatriciaTree_update (storage_env ped) s t ms facts = Inr (t1, s1, facts1) \<and>
    PatriciaTree_update (storage_env ped) s1 t1 ns facts1 = Inr (t2, s2, facts2) \<and>
    PatriciaTree_update (storage_env ped) s t (ms @ ns) facts = Inr (t2, s3, facts3)"
proof -
  have app: "apply_mods (mods_map ns) (apply_mods (mods_map ms) f) = apply_mods (mods_map (ms @ ns)) f"
    by (auto simp: apply_mods_def mods_map_def fun_eq_iff map_add_def split: option.split)
  obtain t1 s1 facts1 where 1: "PatriciaTree_update (storage_env ped) s t ms facts = Inr (t1, s1, facts1)"
    "represents (storage_env ped) StorageLeaf_wf s1 t1 (apply_mods (mods_map ms) f)" "tree_height t1 = tree_height t"
    using st.update_represents [OF assms(1) _ assms(3), of facts] assms(2) by auto
  obtain s2 facts2 where 2: "PatriciaTree_update (storage_env ped) s1 t1 ns facts1 =
      Inr (\<lparr> tree_root = spec_root (storage_env ped) (tree_height t) (apply_mods (mods_map (ms @ ns)) f),
        tree_height = tree_height t \<rparr>, s2, facts2)"
    using st.update_represents [OF 1(2), of ns facts1] assms(2,4) 1(3) by (auto simp: app)
  obtain s3 facts3 where 3: "PatriciaTree_update (storage_env ped) s t (ms @ ns) facts =
      Inr (\<lparr> tree_root = spec_root (storage_env ped) (tree_height t) (apply_mods (mods_map (ms @ ns)) f),
        tree_height = tree_height t \<rparr>, s3, facts3)"
    using st.update_represents [OF assms(1,2,4), of facts] by auto
  show ?thesis using 1(1) 2 3 by blast
qed

theorem update_batch_witness:
  "\<exists>t1 s1 facts1 t2 s2 facts2 s3 facts3.
    PatriciaTree_update (storage_env demo_ped) demo_storage demo_tree [] None = Inr (t1, s1, facts1) \<and>
    PatriciaTree_update (storage_env demo_ped) s1 t1 [(1000, StorageLeaf_new 2000)] facts1 = Inr (t2, s2, facts2) \<and>
    PatriciaTree_update (storage_env demo_ped) demo_storage demo_tree [(1000, StorageLeaf_new 2000)] None =
      Inr (t2, s3, facts3)"
proof -
  have "good_tree (storage_env demo_ped) StorageLeaf_wf 251 (\<lambda>_. StorageLeaf_empty)"
    using demo_represents [of demo_ped] by (simp add: represents_def)
  moreover have "apply_mods (mods_map []) f = f" for f :: "nat \<Rightarrow> storage_leaf"
    by (simp add: apply_mods_def mods_map_def fun_eq_iff)
  ultimately show ?thesis
    using update_batch [OF demo_represents, of "[]" "[(1000, StorageLeaf_new 2000)]" demo_ped None]
    by (simp add: demo_mods demo_good)
qed

text \<open>
  C25. Reading a list of indices returns exactly their leaves: a map whose keys are the requested
  indices and whose values are the leaves of the tree, also for the indices below an empty
  node or beside an edge.
\<close>

theorem get_leaves_exact:
  assumes "represents (storage_env ped) StorageLeaf_wf s t f"
    and "\<forall>i \<in> set idx. i < 2 ^ tree_height t"
  shows "\<exists>m facts'. PatriciaTree_get_leaves (storage_env ped) s t idx facts = Inr (m, facts') \<and>
    distinct (map fst m) \<and> (\<forall>i. map_of m i = (if i \<in> set idx then Some (f i) else None))"
  using represents_get_leaves [OF assms(1), of idx facts] assms(2) by (auto simp: holds_leaves_def hm_wf_def)

theorem get_leaves_exact_witness:
  "\<exists>m facts'. PatriciaTree_get_leaves (storage_env demo_ped) demo_storage demo_tree [3, 2 ^ 250] None = Inr (m, facts') \<and>
    map_of m 3 = Some StorageLeaf_empty"
  using get_leaves_exact [OF demo_represents, of "[3, 2 ^ 250]" demo_ped None] by auto

text \<open>
  The empty tree: creating a tree from the empty storage leaf gives the empty root, and the storage
  then holds the tree all of whose leaves are empty.
\<close>

lemma empty_tree_correct:
  assumes "h \<le> MAX_HEIGHT"
  shows "\<exists>s'. PatriciaTree_empty_tree (storage_env ped) s h StorageLeaf_empty =
      Inr (\<lparr> tree_root = EMPTY_HASH, tree_height = h \<rparr>, s') \<and>
    represents (storage_env ped) StorageLeaf_wf s' \<lparr> tree_root = EMPTY_HASH, tree_height = h \<rparr> (\<lambda>_. StorageLeaf_empty)"
  using assms by (intro st.empty_tree_represents) simp_all

end
