(* ===== verification/Fact_Dict.thy ===== *)
theory Fact_Dict
  imports Storage_Trees
begin

text \<open>
  The facts that an operation on a tree collects for the OS are genuine: every entry of the
  dictionary maps a hash to the preimage of that hash, and an operation that is given a dictionary
  returns one. The first is what the test \<open>test_update_and_decommit\<close> checks.
\<close>

section \<open>Genuine facts\<close>

definition preimage :: "('s, 'lf) tree_env \<Rightarrow> nat \<Rightarrow> nat list \<Rightarrow> bool" where
  "preimage e k v \<longleftrightarrow>
     (\<exists>h n. k = biguint_of_Hash h \<and> v = PatriciaNodeFact_to_tuple n \<and> PatriciaNodeFact_hash (env_hash e) n = Some h)"

definition dict_genuine :: "('s, 'lf) tree_env \<Rightarrow> binary_fact_dict \<Rightarrow> bool" where
  "dict_genuine e d \<longleftrightarrow> (\<forall>(k, v) \<in> set d. preimage e k v)"

text \<open>Every node fact of the storage is stored under its hash.\<close>

definition storage_genuine :: "('s, 'lf) tree_env \<Rightarrow> 's \<Rightarrow> bool" where
  "storage_genuine e s \<longleftrightarrow> (\<forall>k n. node_in e s (k, n) \<longrightarrow> PatriciaNodeFact_hash (env_hash e) n = Some k)"

text \<open>What an operation does to the dictionary it is given.\<close>

definition grown :: "('s, 'lf) tree_env \<Rightarrow> binary_fact_dict option \<Rightarrow> binary_fact_dict option \<Rightarrow> bool" where
  "grown e facts facts' \<longleftrightarrow>
     (case (facts, facts') of
        (None, None) \<Rightarrow> True
      | (Some d, Some d') \<Rightarrow> dict_genuine e d \<longrightarrow> dict_genuine e d'
      | _ \<Rightarrow> False)"

lemma dict_genuine_Nil [simp]: "dict_genuine e []"
  by (simp add: dict_genuine_def)

lemma grown_refl [simp]: "grown e facts facts"
  by (simp add: grown_def split: option.split)

lemma grown_trans: "grown e f1 f2 \<Longrightarrow> grown e f2 f3 \<Longrightarrow> grown e f1 f3"
  by (auto simp: grown_def split: option.splits)

lemma dict_genuine_insert: "dict_genuine e d \<Longrightarrow> preimage e k v \<Longrightarrow> dict_genuine e (hm_insert k v d)"
  unfolding dict_genuine_def hm_insert_def by (induction d) auto

lemma grown_insert:
  "preimage e k v \<Longrightarrow> grown e facts (map_option (hm_insert k v) facts)"
  by (cases facts) (auto simp: grown_def intro: dict_genuine_insert)

lemma dict_genuine_extend:
  "dict_genuine e d \<Longrightarrow> \<forall>(k, v) \<in> set kvs. preimage e k v \<Longrightarrow> dict_genuine e (hm_extend d kvs)"
  by (induction kvs arbitrary: d) (auto simp: dict_genuine_insert)

section \<open>Reading\<close>

named_theorems grows

lemma read_node_fact_grown:
  assumes "storage_genuine e s"
    and "read_node_fact (env_storage e) (PatriciaNodeFact_inf (env_hash e)) s k facts = Inr (n, facts')"
  shows "grown e facts facts'"
proof -
  have "node_in e s (k, n)" and f: "facts' = map_option (hm_insert (nat_of_bytes_be k) (PatriciaNodeFact_to_tuple n)) facts"
    using assms(2) by (auto simp: read_node_fact_def bindR_eq_Inr_iff node_in_def get_or_fail_iff)
  then have "PatriciaNodeFact_hash (env_hash e) n = Some k"
    using assms(1) by (simp add: storage_genuine_def)
  then have "preimage e (nat_of_bytes_be k) (PatriciaNodeFact_to_tuple n)"
    unfolding preimage_def biguint_of_Hash_def by blast
  then show ?thesis unfolding f by (rule grown_insert)
qed

lemma get_children_grown [grows]:
  assumes "storage_genuine e s" and "VPN_get_children e s n facts = Inr (ch, facts')"
  shows "grown e facts facts'"
proof (cases "VPN_is_empty n \<or> VPN_is_virtual_edge n")
  case False
  with assms(2) obtain node facts1 where r: "read_bottom_node_fact e s n facts = Inr (node, facts1)"
    by (auto simp: VPN_get_children_def bindR_eq_Inr_iff split: if_splits)
  then have "facts' = facts1"
    using assms(2) False
    by (cases node) (auto simp: VPN_get_children_def bindR_eq_Inr_iff u64_sub_eq_Inr_iff split: if_splits)
  then show ?thesis using r read_node_fact_grown [OF assms(1)] by (simp add: read_bottom_node_fact_def)
qed (use assms(2) in \<open>auto simp: VPN_get_children_def bindR_eq_Inr_iff split: if_splits\<close>)

lemma decommit_grown [grows]:
  assumes "storage_genuine e s" and "decommit e s n facts = Inr (n', facts')"
  shows "grown e facts facts'"
proof (cases "facts' = facts")
  case False
  with assms(2) obtain k node facts1 where k: "bottom_calculation n = ConstantCalculation k"
    and r: "read_node_fact (env_storage e) (PatriciaNodeFact_inf (env_hash e)) s k facts = Inr (node, facts1)"
    by (auto simp: decommit_def bindR_eq_Inr_iff split: if_splits hash_calculation.splits)
  then have "facts' = facts1"
    using assms(2) False by (cases node) (auto simp: decommit_def bindR_eq_Inr_iff split: if_splits)
  then show ?thesis using r read_node_fact_grown [OF assms(1)] by simp
qed simp

lemma combine_grown [grows]:
  assumes "storage_genuine e s" and "combine e s l r facts = Inr (n, facts')"
  shows "grown e facts facts'"
  using assms(2) decommit_grown [OF assms(1)]
  by (auto simp: combine_def combine_to_virtual_edge_node_def bindR_eq_Inr_iff Let_def split: if_splits)

lemma update_necessary_grown [grows]:
  assumes "storage_genuine e s" and "update_necessary e s i nodes facts = Inr (nodes', facts')"
  shows "grown e facts facts'"
  using assms
proof (induction e s i nodes facts rule: update_necessary.induct)
  case (1 e s i nodes facts)
  show ?case
  proof (cases "map_of nodes (i XOR 1) = None")
    case False
    then obtain l r c facts1 where l: "map_of nodes (i div 2 * 2) = Some l"
      and r: "map_of nodes (i div 2 * 2 + 1) = Some r" and c: "combine e s l r facts = Inr (c, facts1)"
      and rec: "update_necessary e s (i div 2) (hm_remove (i div 2 * 2 + 1) (hm_remove (i div 2 * 2)
        (hm_insert (i div 2) c nodes))) facts1 = Inr (nodes', facts')"
      using 1(3) by (auto simp: update_necessary.simps [of e s i] bindR_eq_Inr_iff Let_def)
    have "grown e facts1 facts'"
      using 1(1) [OF False refl refl refl, of l r "(c, facts1)" c facts1] l r c rec 1(2) by simp
    with combine_grown [OF 1(2) c] show ?thesis by (rule grown_trans)
  qed (use 1(3) in \<open>simp add: update_necessary.simps [of e s i]\<close>)
qed

lemma update_get_children_grown [grows]:
  assumes "storage_genuine e s" and "update_get_children e s t n = Inr (ns, t')"
  shows "grown e (ut_facts t) (ut_facts t')"
  using assms(2) update_necessary_grown [OF assms(1)] get_children_grown [OF assms(1)]
  by (auto simp: update_get_children_def update_if_possible_def update_set_fact_def bindR_eq_Inr_iff
      split: option.splits tree_update.splits)

lemma build_updated_calculation_grown [grows]:
  assumes "storage_genuine e s" and "build_updated_calculation e s n ms facts = Inr (c, facts')"
  shows "grown e facts facts'"
proof -
  let ?t = "\<lparr> ut_facts = facts, ut_nodes = [] \<rparr>"
  obtain u t where t: "returned (traverse_tree (update_get_children e s) ?t
      \<lparr> un_index = 1, un_tree = n, un_update = u \<rparr>) = Inr t" and f: "facts' = ut_facts t"
    using assms(2) by (auto simp: build_updated_calculation_def bindR_eq_Inr_iff)
  then have "traverse_tree (update_get_children e s) ?t \<lparr> un_index = 1, un_tree = n, un_update = u \<rparr> = Some (Inr t)"
    by (auto simp: returned_def split: option.splits)
  from upd.traverse_preserves [where P = "\<lambda>t. grown e facts (ut_facts t)", OF this]
  show ?thesis unfolding f using update_get_children_grown [OF assms(1)] grown_trans grown_refl
    by (metis update_traverser.select_convs(1))
qed

section \<open>Calculating and writing\<close>

definition nodes_genuine :: "('s, 'lf) tree_env \<Rightarrow> (hash \<times> patricia_node_fact) list \<Rightarrow> bool" where
  "nodes_genuine e m \<longleftrightarrow> (\<forall>(k, n) \<in> set m. PatriciaNodeFact_hash (env_hash e) n = Some k)"

lemma nodes_genuine_insert:
  "nodes_genuine e m \<Longrightarrow> PatriciaNodeFact_hash (env_hash e) n = Some k \<Longrightarrow> nodes_genuine e (hm_insert k n m)"
  unfolding nodes_genuine_def hm_insert_def by (induction m) auto

lemma calculate_genuine:
  assumes "(calculate e c results fn :: ('err, _) res) = Inr (h, fn')" and "nodes_genuine e (inner_nodes fn)"
  shows "nodes_genuine e (inner_nodes fn')"
  using assms
  by (cases c) (auto simp: BinaryCalculation_calculate_def EdgeCalculation_calculate_def
      LeafFactCalculation_calculate_def bindR_eq_Inr_iff Let_def PatriciaNodeFact_hash_def
      intro!: nodes_genuine_insert)

lemma full_calculate_genuine:
  assumes "(full_calculate e c fn :: ('err, _) res) = Inr (h, fn')" and "nodes_genuine e (inner_nodes fn)"
  shows "nodes_genuine e (inner_nodes fn')"
  using assms
proof (induction c arbitrary: fn h fn')
  case (BinaryCalculation l r)
  from BinaryCalculation.prems(1) obtain h1 fn1 h2 fn2 where
    "(full_calculate e l fn :: ('err, _) res) = Inr (h1, fn1)" "(full_calculate e r fn1 :: ('err, _) res) = Inr (h2, fn2)"
    and c: "(calculate e (BinaryCalculation l r) [h1, h2] fn2 :: ('err, _) res) = Inr (h, fn')"
    by (auto simp: full_calculate.simps [of e "BinaryCalculation l r"] bindR_eq_Inr_iff)
  then show ?case
    using BinaryCalculation calculate_genuine [OF c] by blast
next
  case (EdgeCalculation b p l)
  from EdgeCalculation.prems(1) obtain h1 fn1 where
    "(full_calculate e b fn :: ('err, _) res) = Inr (h1, fn1)"
    and c: "(calculate e (EdgeCalculation b p l) [h1] fn1 :: ('err, _) res) = Inr (h, fn')"
    by (auto simp: full_calculate.simps [of e "EdgeCalculation b p l"] bindR_eq_Inr_iff)
  then show ?case
    using EdgeCalculation calculate_genuine [OF c] by blast
qed (auto simp: full_calculate.simps LeafFactCalculation_calculate_def bindR_eq_Inr_iff)

lemma update_tree_grown [grows]:
  assumes "storage_genuine e s" and "update_tree e s n ms facts = Inr (n', s', facts')"
  shows "grown e facts facts'"
proof -
  obtain c facts1 h fn where b: "build_updated_calculation e s n ms facts = Inr (c, facts1)"
    and c: "(full_calculate e (bottom_calculation c) NodeFactDict_default :: (tree_error, _) res) = Inr (h, fn)"
    and f: "facts' = map_option (\<lambda>d. hm_extend d
             (map (\<lambda>(k, n). (biguint_of_Hash k, PatriciaNodeFact_to_tuple n)) (inner_nodes fn))) facts1"
    using assms(2) by (auto simp: update_tree_def VCN_full_calculate_eq bindR_eq_Inr_iff)
  have "nodes_genuine e (inner_nodes fn)"
    using full_calculate_genuine [OF c] by (simp add: NodeFactDict_default_def nodes_genuine_def)
  then have "\<forall>(k, v) \<in> set (map (\<lambda>(k, n). (biguint_of_Hash k, PatriciaNodeFact_to_tuple n)) (inner_nodes fn)). preimage e k v"
    by (force simp: nodes_genuine_def preimage_def)
  then have "grown e facts1 facts'"
    unfolding f by (cases facts1) (auto simp: grown_def intro!: dict_genuine_extend)
  with build_updated_calculation_grown [OF assms(1) b] show ?thesis by (rule grown_trans)
qed

lemma commit_grown [grows]:
  assumes "VPN_commit e s n facts = Inr (h, s', facts')"
  shows "grown e facts facts'"
proof (cases "VPN_is_virtual_edge n")
  case True
  then obtain E where E: "EdgeNodeFact_hash (env_hash e) E = Some h"
    and f: "facts' = map_option (hm_insert (nat_of_bytes_be h) (EdgeNodeFact_to_tuple E)) facts"
    using assms by (auto simp: VPN_commit_def write_node_fact_def set_fact_def bindR_eq_Inr_iff)
  have "preimage e (nat_of_bytes_be h) (EdgeNodeFact_to_tuple E)"
    unfolding preimage_def using E
    by (intro exI [of _ h] exI [of _ "EdgeFact E"])
      (simp add: biguint_of_Hash_def PatriciaNodeFact_hash_def PatriciaNodeFact_to_tuple_def)
  then show ?thesis unfolding f by (rule grown_insert)
qed (use assms in \<open>simp add: VPN_commit_def\<close>)

lemma update_grown:
  assumes "storage_genuine e s" and "PatriciaTree_update e s t ms facts = Inr (t', s', facts')"
  shows "grown e facts facts'"
proof -
  obtain n s1 facts1 h where n: "update_tree e s \<lparr> bottom_node = tree_root t, path = 0, length_of = 0,
      height = tree_height t \<rparr> ms facts = Inr (n, s1, facts1)" and c: "VPN_commit e s1 n facts1 = Inr (h, s', facts')"
    using assms(2) by (auto simp: PatriciaTree_update_def bindR_eq_Inr_iff)
  show ?thesis using grown_trans [OF update_tree_grown [OF assms(1) n] commit_grown [OF c]] .
qed

section \<open>The storage stays genuine\<close>

lemma db_key_inj: "db_key D a = db_key D b \<longleftrightarrow> a = b"
  by (simp add: db_key_def)

text \<open>What a list of writes leaves under a key.\<close>

context storage_laws
begin

lemma foldR_db_set_lookup:
  assumes "foldR (\<lambda>s (k, v). db_set St D v s k) s L = Inr s'"
  shows "st_lookup St s' K = st_lookup St s K \<or>
    (\<exists>(k, v) \<in> set L. K = db_key D k \<and> (\<exists>data. serialize D v = Inr data \<and> st_lookup St s' K = Some data))"
  using assms
proof (induction L arbitrary: s)
  case (Cons kv L)
  obtain k v s1 where kv: "kv = (k, v)" and s1: "db_set St D v s k = Inr s1"
    and rest: "foldR (\<lambda>s (k, v). db_set St D v s k) s1 L = Inr s'"
    using Cons.prems by (cases kv) (auto simp: bindR_eq_Inr_iff)
  obtain data where data: "serialize D v = Inr data"
    using s1 by (auto simp: db_set_def bindR_eq_Inr_iff)
  show ?case using Cons.IH [OF rest] db_set_lookup [OF s1 data] data unfolding kv by (cases "K = db_key D k") auto
qed simp

end

definition leaf_keys_apart :: "('s, 'lf) tree_env \<Rightarrow> bool" where
  "leaf_keys_apart e \<longleftrightarrow> (\<forall>a b. db_key (env_leaf e) a \<noteq> db_key (PatriciaNodeFact_inf (env_hash e)) b)"

context patricia_env
begin

lemma write_nodes_genuine:
  assumes "storage_genuine e s" and "nodes_genuine e N" and "\<forall>(k, n) \<in> set N. node_fact_wf n"
    and "foldR (\<lambda>s (k, n). db_set (env_storage e) (PatriciaNodeFact_inf (env_hash e)) n s k) s N = Inr s'"
  shows "storage_genuine e s'"
  unfolding storage_genuine_def
proof (intro allI impI)
  fix k n
  assume n: "node_in e s' (k, n)"
  let ?P = "PatriciaNodeFact_inf (env_hash e)"
  from foldR_db_set_lookup [OF assms(4), of "db_key ?P k"]
  show "PatriciaNodeFact_hash (env_hash e) n = Some k"
  proof
    assume "st_lookup (env_storage e) s' (db_key ?P k) = st_lookup (env_storage e) s (db_key ?P k)"
    then have "node_in e s (k, n)" using n by (simp add: node_in_def db_holds_def)
    then show ?thesis using assms(1) by (simp add: storage_genuine_def)
  next
    assume "\<exists>(j, v) \<in> set N. db_key ?P k = db_key ?P j \<and>
      (\<exists>data. serialize ?P v = Inr data \<and> st_lookup (env_storage e) s' (db_key ?P k) = Some data)"
    then obtain v data where v: "(k, v) \<in> set N" "PatriciaNodeFact_serialize v = Inr data"
      "st_lookup (env_storage e) s' (db_key ?P k) = Some data"
      by (auto simp: db_key_inj)
    moreover have "node_fact_wf v" using assms(3) v(1) by blast
    ultimately have "PatriciaNodeFact_deserialize data = Inr v" by (simp add: node_fact_encoding)
    moreover have "PatriciaNodeFact_deserialize data = Inr n"
      using n v(3) by (simp add: node_in_def db_holds_def)
    ultimately have "n = v" by simp
    then show ?thesis using assms(2) v(1) by (auto simp: nodes_genuine_def)
  qed
qed

lemma write_leaves_genuine:
  assumes "storage_genuine e s" and "leaf_keys_apart e"
    and "foldR (\<lambda>s (k, x). db_set (env_storage e) (env_leaf e) x s k) s L = Inr s'"
  shows "storage_genuine e s'"
proof -
  have "st_lookup (env_storage e) s' (db_key (PatriciaNodeFact_inf (env_hash e)) k) =
      st_lookup (env_storage e) s (db_key (PatriciaNodeFact_inf (env_hash e)) k)" for k
    using foldR_db_set_lookup [OF assms(3), of "db_key (PatriciaNodeFact_inf (env_hash e)) k"]
      assms(2) [unfolded leaf_keys_apart_def, rule_format, THEN not_sym] by auto
  then show ?thesis using assms(1) by (simp add: storage_genuine_def node_in_def db_holds_def)
qed

text \<open>
  What a run of \<open>PatriciaTree_update\<close> writes: a list of node facts and a list of leaves of the new
  tree, and then the fact of its root edge when it has one.
\<close>

lemma update_run:
  assumes t: "represents e valid s t f"
    and idx: "\<forall>(i, x) \<in> set ms. i < 2 ^ tree_height t"
    and good: "good_tree e valid (tree_height t) (apply_mods (mods_map ms) f)"
    and upd: "PatriciaTree_update e s t ms facts = Inr (t', s', facts')"
  shows "\<exists>N L s1 s2. set N \<subseteq> set (all_facts (env_hash e) (tree_height t) (leaf_hashes e (apply_mods (mods_map ms) f))) \<and>
    set L \<subseteq> (\<lambda>i. (leaf_hashes e (apply_mods (mods_map ms) f) i, apply_mods (mods_map ms) f i)) ` {..<2 ^ tree_height t} \<and>
    foldR (\<lambda>s (k, n). db_set (env_storage e) (PatriciaNodeFact_inf (env_hash e)) n s k) s N = Inr s1 \<and>
    foldR (\<lambda>s (k, x). db_set (env_storage e) (env_leaf e) x s k) s1 L = Inr s2 \<and>
    (s' = s2 \<or> (\<exists>k n. (k, n) \<in> set (all_facts (env_hash e) (tree_height t) (leaf_hashes e (apply_mods (mods_map ms) f))) \<and>
       db_set (env_storage e) (PatriciaNodeFact_inf (env_hash e)) n s2 k = Inr s'))"
proof -
  let ?h = "tree_height t" and ?f = "apply_mods (mods_map ms) f" and ?H = "env_hash e"
  let ?n = "\<lparr> bottom_node = tree_root t, path = 0, length_of = 0, height = ?h \<rparr>"
  have new: "new_tree_ok e valid ?h ?f"
    using good by (simp add: new_tree_ok_def good_tree_def all_facts_def)
  have old: "leaf_in e s (leaf_hashes e f i, f i)" if "i < 2 ^ ?h" for i
    using t that by (simp add: represents_def Let_def)
  have "\<exists>c facts1. build_updated_calculation e s ?n ms facts = Inr (c, facts1) \<and> calc_repr e valid s c ?h ?f"
    using idx by (intro build_updated_calculation_repr [OF new old represents_node [OF t]]) auto
  then obtain c facts1 where build: "build_updated_calculation e s ?n ms facts = Inr (c, facts1)"
    and c: "calc_repr e valid s c ?h ?f" by blast
  let ?b = "bottom_calculation c"
  let ?N = "hm_extend [] (cfacts e ?b)" and ?L = "hm_extend [] (cleaves e ?b)"
  obtain k p l where k: "canon ?H ?h (leaf_hashes e ?f) = (k, p, l)"
    by (cases "canon ?H ?h (leaf_hashes e ?f)") auto
  have ok: "calc_path c < 2 ^ calc_length c" "calc_ok valid ?b"
    and sub: "set (cfacts e ?b) \<subseteq> set (tree_facts ?H ?h (leaf_hashes e ?f))"
    and trip: "calc_length c = 0 \<or> (chash e ?b, calc_path c, calc_length c) = (k, p, l)"
    using c canon_shape [OF k] unfolding calc_repr_def Let_def k by auto
  let ?r = "\<lparr> bottom_node = chash e ?b, path = calc_path c, length_of = calc_length c, height = calc_height c \<rparr>"
  have calc: "(full_calculate e ?b NodeFactDict_default :: (tree_error, _) res) =
      Inr (chash e ?b, \<lparr> inner_nodes = ?N, leaves = ?L \<rparr>)"
    using ok(2) by (simp add: full_calculate_ok NodeFactDict_default_def)
  then have "(VCN_full_calculate e c NodeFactDict_default :: (tree_error, _) res) =
      Inr (?r, \<lparr> inner_nodes = ?N, leaves = ?L \<rparr>)"
    using ok(1) by (simp add: VCN_full_calculate_eq VPN_new_unchecked_def)
  then obtain s2 facts2 where w: "write_fact_nodes e s \<lparr> inner_nodes = ?N, leaves = ?L \<rparr> = Inr s2"
    and s3: "VPN_commit e s2 ?r facts2 = Inr (tree_root t', s', facts')"
    using upd build by (auto simp: PatriciaTree_update_def update_tree_def bindR_eq_Inr_iff)
  then obtain s1 where s1: "foldR (\<lambda>s (k, n). db_set (env_storage e) (PatriciaNodeFact_inf ?H) n s k) s ?N = Inr s1"
    and s2: "foldR (\<lambda>s (k, x). db_set (env_storage e) (env_leaf e) x s k) s1 ?L = Inr s2"
    by (auto simp: write_fact_nodes_def bindR_eq_Inr_iff)
  have "set ?N \<subseteq> set (all_facts ?H ?h (leaf_hashes e ?f))"
    using set_hm_extend [of "[]" "cfacts e ?b"] sub by (auto simp: all_facts_def)
  moreover have "set ?L \<subseteq> (\<lambda>i. (leaf_hashes e ?f i, ?f i)) ` {..<2 ^ ?h}"
    using set_hm_extend [of "[]" "cleaves e ?b"] calc_repr_cleaves [OF c] by auto
  moreover have "s' = s2 \<or> (\<exists>k n. (k, n) \<in> set (all_facts ?H ?h (leaf_hashes e ?f)) \<and>
       db_set (env_storage e) (PatriciaNodeFact_inf ?H) n s2 k = Inr s')"
  proof (cases "calc_length c = 0")
    case True
    then show ?thesis using s3 by (simp add: VPN_commit_def VPN_is_virtual_edge_def)
  next
    case False
    then have trip: "chash e ?b = k" "calc_path c = p" "calc_length c = l" "l \<noteq> 0" using trip by auto
    let ?E = "\<lparr> edge_bottom_node = k, edge_path = p, edge_length = l \<rparr>"
    have "spec_edge_hash ?H k p l = tree_root t'" "db_set (env_storage e) (EdgeNodeFact_inf ?H) ?E s2 (tree_root t') = Inr s'"
      using s3 trip by (auto simp: VPN_commit_def VPN_is_virtual_edge_def EdgeNodeFact_new_def write_node_fact_def
          set_fact_def bindR_eq_Inr_iff EdgeNodeFact_hash_def spec_edge_hash_def)
    moreover have "db_set (env_storage e) (EdgeNodeFact_inf ?H) ?E s2 (tree_root t') =
        db_set (env_storage e) (PatriciaNodeFact_inf ?H) (EdgeFact ?E) s2 (tree_root t')"
      by (simp add: db_set_def db_key_def PatriciaNodeFact_serialize_def)
    ultimately have "(tree_root t', EdgeFact ?E) \<in> set (all_facts ?H ?h (leaf_hashes e ?f))"
      "db_set (env_storage e) (PatriciaNodeFact_inf ?H) (EdgeFact ?E) s2 (tree_root t') = Inr s'"
      using trip by (simp_all add: all_facts_def k)
    then show ?thesis by blast
  qed
  ultimately show ?thesis using s1 s2 by blast
qed

text \<open>The facts of a tree are well formed and keyed by their hash.\<close>

lemma edge_facts_sound:
  assumes "\<forall>i < 2 ^ h. hash_valid (g i)" and "h \<le> MAX_HEIGHT"
    and "(k, n) \<in> set (edge_facts (env_hash e) (canon (env_hash e) h g))"
  shows "PatriciaNodeFact_hash (env_hash e) n = Some k \<and> node_fact_wf n"
proof -
  obtain b p l where c: "canon (env_hash e) h g = (b, p, l)" by (cases "canon (env_hash e) h g") auto
  have b: "hash_valid b" using canon_valid [of h g] assms(1,2) by (simp add: c)
  have "l \<le> MAX_HEIGHT" "p < 2 ^ l" using canon_shape [OF c] assms(2) by auto
  then show ?thesis
    using assms(3) b spec_edge_valid [OF b]
    by (auto simp: c PatriciaNodeFact_hash_def EdgeNodeFact_hash_def node_fact_wf_def edge_wf_def hash_valid_wf
        MAX_HEIGHT_def split: if_splits)
qed

lemma tree_facts_sound:
  assumes "\<forall>i < 2 ^ h. hash_valid (g i)" and "h \<le> MAX_HEIGHT"
    and "(k, n) \<in> set (tree_facts (env_hash e) h g)"
  shows "PatriciaNodeFact_hash (env_hash e) n = Some k \<and> node_fact_wf n"
  using assms
proof (induction h arbitrary: g)
  case (Suc h)
  let ?H = "env_hash e"
  have g: "\<forall>i < 2 ^ h. hash_valid (g i)" "\<forall>i < 2 ^ h. hash_valid (right_half h g i)"
    using Suc.prems(1) unfolding all_halves by (simp_all add: right_half_def)
  have h: "h \<le> MAX_HEIGHT" using Suc.prems(2) by simp
  have v: "hash_valid (node_hash ?H (canon ?H h g))" "hash_valid (node_hash ?H (canon ?H h (right_half h g)))"
    using canon_valid [of h g] canon_valid [of h "right_half h g"] g h by simp_all
  then show ?case
    using Suc.IH [OF g(1) h] Suc.IH [OF g(2) h] edge_facts_sound [OF g(1) h] edge_facts_sound [OF g(2) h]
      Suc.prems(3) spec_hash_valid [OF v]
    by (auto simp: merge_facts_def PatriciaNodeFact_hash_def BinaryNodeFact_hash_def node_fact_wf_def hash_valid_wf
        split: if_splits)
qed simp

lemma all_facts_sound:
  assumes "leaves_ok e valid h f" and "h \<le> MAX_HEIGHT"
    and "(k, n) \<in> set (all_facts (env_hash e) h (leaf_hashes e f))"
  shows "PatriciaNodeFact_hash (env_hash e) n = Some k" and "node_fact_wf n"
proof -
  have "\<forall>i < 2 ^ h. hash_valid (leaf_hashes e f i)" using leaves_ok_valid [OF assms(1)] by blast
  then show "PatriciaNodeFact_hash (env_hash e) n = Some k" "node_fact_wf n"
    using assms(3) tree_facts_sound [OF _ assms(2)] edge_facts_sound [OF _ assms(2)]
    unfolding all_facts_def set_append by blast+
qed

lemma update_genuine:
  assumes t: "represents e valid s t f"
    and idx: "\<forall>(i, x) \<in> set ms. i < 2 ^ tree_height t"
    and good: "good_tree e valid (tree_height t) (apply_mods (mods_map ms) f)"
    and upd: "PatriciaTree_update e s t ms facts = Inr (t', s', facts')"
    and gen: "storage_genuine e s" and apart: "leaf_keys_apart e"
  shows "storage_genuine e s'"
proof -
  let ?F = "all_facts (env_hash e) (tree_height t) (leaf_hashes e (apply_mods (mods_map ms) f))"
  obtain N L s1 s2 where N: "set N \<subseteq> set ?F"
    and s1: "foldR (\<lambda>s (k, n). db_set (env_storage e) (PatriciaNodeFact_inf (env_hash e)) n s k) s N = Inr s1"
    and s2: "foldR (\<lambda>s (k, x). db_set (env_storage e) (env_leaf e) x s k) s1 L = Inr s2"
    and s3: "s' = s2 \<or> (\<exists>k n. (k, n) \<in> set ?F \<and> db_set (env_storage e) (PatriciaNodeFact_inf (env_hash e)) n s2 k = Inr s')"
    using update_run [OF t idx good upd] by blast
  have sound: "nodes_genuine e M" "\<forall>(k, n) \<in> set M. node_fact_wf n" if "set M \<subseteq> set ?F" for M
    using that all_facts_sound good unfolding nodes_genuine_def good_tree_def by blast+
  have "storage_genuine e s1" by (rule write_nodes_genuine [OF gen sound [OF N] s1])
  then have g2: "storage_genuine e s2" using write_leaves_genuine [OF _ apart s2] by blast
  from s3 show ?thesis
  proof (elim disjE exE conjE)
    fix k n
    assume kn: "(k, n) \<in> set ?F" "db_set (env_storage e) (PatriciaNodeFact_inf (env_hash e)) n s2 k = Inr s'"
    then have "foldR (\<lambda>s (k, n). db_set (env_storage e) (PatriciaNodeFact_inf (env_hash e)) n s k) s2 [(k, n)] = Inr s'"
      by simp
    from write_nodes_genuine [OF g2 sound this] kn(1) show ?thesis by simp
  qed (use g2 in simp)
qed

end

section \<open>The property\<close>

lemma storage_key_neq: "db_key StorageLeaf a \<noteq> db_key (PatriciaNodeFact_inf H) b"
proof -
  have "hd (db_key StorageLeaf a) = 115" "hd (db_key (PatriciaNodeFact_inf H) b) = 112"
    by (simp_all add: db_key_def ascii_def PATRICIA_NODE_PREFIX_def)
  moreover have "(115 :: 8 word) \<noteq> 112" by simp
  ultimately show ?thesis by metis
qed

lemma storage_keys_apart: "leaf_keys_apart (storage_tree St H)"
  unfolding leaf_keys_apart_def tree_env_simps using storage_key_neq by blast

lemma demo_genuine: "storage_genuine (storage_env ped) demo_storage"
proof -
  have "\<not> node_in (storage_env ped) demo_storage (k, n)" for k n
    using storage_key_neq [of EMPTY_HASH "PedersenHash ped" k]
    by (simp add: node_in_def db_holds_def st_lookup_def DictStorage_def demo_storage_def)
  then show ?thesis by (simp add: storage_genuine_def)
qed

text \<open>
  C11. The facts collected by an update are genuine: given a storage whose node facts are stored under
  their hashes and a dictionary of preimages, the update returns a dictionary in which every entry
  maps a hash to the preimage of that hash, and leaves a storage whose node facts are again stored
  under their hashes.
\<close>

theorem update_facts_genuine:
  assumes "represents (storage_env ped) StorageLeaf_wf s t f"
    and "\<forall>(i, x) \<in> set ms. i < 2 ^ tree_height t"
    and "good_tree (storage_env ped) StorageLeaf_wf (tree_height t) (apply_mods (mods_map ms) f)"
    and "storage_genuine (storage_env ped) s" and "dict_genuine (storage_env ped) d"
  shows "\<exists>t' s' d'. PatriciaTree_update (storage_env ped) s t ms (Some d) = Inr (t', s', Some d') \<and>
    dict_genuine (storage_env ped) d' \<and> storage_genuine (storage_env ped) s'"
proof -
  obtain t' s' facts' where u: "PatriciaTree_update (storage_env ped) s t ms (Some d) = Inr (t', s', facts')"
    using st.update_represents [OF assms(1-3), of "Some d"] by blast
  have "storage_genuine (storage_env ped) s'"
    by (rule st.update_genuine [OF assms(1-3) u assms(4) storage_keys_apart])
  moreover obtain d' where "facts' = Some d'" "dict_genuine (storage_env ped) d'"
    using update_grown [OF assms(4) u] assms(5) by (auto simp: grown_def split: option.splits)
  ultimately show ?thesis using u by blast
qed

theorem update_facts_genuine_witness:
  "\<exists>t' s' d'. PatriciaTree_update (storage_env demo_ped) demo_storage demo_tree
      [(1000, StorageLeaf_new 2000)] (Some []) = Inr (t', s', Some d') \<and> dict_genuine (storage_env demo_ped) d'"
proof -
  have "\<forall>(i, x) \<in> set [(1000 :: nat, StorageLeaf_new 2000)]. i < 2 ^ tree_height demo_tree" by simp
  moreover have "good_tree (storage_env demo_ped) StorageLeaf_wf (tree_height demo_tree)
      (apply_mods (mods_map [(1000, StorageLeaf_new 2000)]) (\<lambda>_. StorageLeaf_empty))"
    using demo_good(1) by (simp add: demo_mods)
  ultimately show ?thesis
    using update_facts_genuine [OF demo_represents _ _ demo_genuine dict_genuine_Nil] by blast
qed

end
