(* ===== verification/Starknet_Storage.thy ===== *)
theory Starknet_Storage
  imports Fact_Dict
begin

text \<open>
  The storage of one contract while the OS runs: \<open>CommitmentInfo\<close> and \<open>OsSingleStarknetStorage\<close> of
  \<open>starknet/starknet_storage.rs\<close>.

  The trait \<open>PerContractStorage\<close> is the interface between this storage and the execution helper. The
  locale \<open>per_contract_storage\<close> is its contract: a storage stands for a function from keys to
  values, reading returns the value and changes nothing, writing changes one value.
  \<open>OsSingleStarknetStorage\<close> is an interpretation of it. The commitment that is computed at the end
  is the reference root of that function.
\<close>

section \<open>Commitment infos\<close>

record commitment_info =
  previous_root :: felt
  updated_root :: felt
  ci_tree_height :: nat
  commitment_facts :: "(felt, felt list) hash_map"

datatype commitment_info_error = CommitmentInfoError_Tree tree_error | UpdatedRootMismatch nat nat

definition create_from_modifications ::
  "('s, 'lf) tree_env \<Rightarrow> 's \<Rightarrow> patricia_tree \<Rightarrow> felt option \<Rightarrow> (tree_index \<times> 'lf) list
   \<Rightarrow> (commitment_info_error, commitment_info \<times> 's) res" where
  "create_from_modifications e s previous_tree expected_updated_root modifications =
     (let previous_tree_root = felt_from_bytes_be_slice (tree_root previous_tree);
          previous_tree_height = tree_height previous_tree
      in bindR (map_err CommitmentInfoError_Tree (PatriciaTree_update e s previous_tree modifications (Some [])))
           (\<lambda>(actual_updated_tree, s', facts).
             let actual_updated_root = felt_from_bytes_be_slice (tree_root actual_updated_tree);
                 finish =
                   bindR (unwrap ''commitment_facts'' facts) (\<lambda>facts.
                     Inr (\<lparr> previous_root = previous_tree_root,
                            updated_root = actual_updated_root,
                            ci_tree_height = previous_tree_height,
                            commitment_facts = binary_fact_dict_to_felts facts \<rparr>, s'))
             in case expected_updated_root of
                  Some expected \<Rightarrow>
                    if actual_updated_root \<noteq> expected
                    then Inl (Error (UpdatedRootMismatch actual_updated_root expected)) else finish
                | None \<Rightarrow> finish))"

definition create_from_expected_updated_tree ::
  "('s, 'lf) tree_env \<Rightarrow> 's \<Rightarrow> patricia_tree \<Rightarrow> patricia_tree \<Rightarrow> tree_index list
   \<Rightarrow> (commitment_info_error, commitment_info \<times> 's) res" where
  "create_from_expected_updated_tree e s previous_tree expected_updated_tree expected_accessed_indices =
     (if tree_height previous_tree \<noteq> tree_height expected_updated_tree
      then Inl (Error (CommitmentInfoError_Tree
             (TreeHeightsMismatch (tree_height previous_tree) (tree_height expected_updated_tree))))
      else
        bindR (map_err CommitmentInfoError_Tree
                (PatriciaTree_get_leaves e s expected_updated_tree expected_accessed_indices None))
          (\<lambda>(modifications, _).
            create_from_modifications e s previous_tree
              (Some (felt_from_bytes_be_slice (tree_root expected_updated_tree))) modifications))"

section \<open>The storage of a contract\<close>

text \<open>The field \<open>ffc\<close> is the state of its storage.\<close>

record 's os_storage =
  previous_tree :: patricia_tree
  expected_updated_root :: felt
  ongoing_storage_changes :: "(tree_index, felt) hash_map"
  os_ffc :: 's

definition OsSingleStarknetStorage_new ::
  "('s, storage_leaf) tree_env \<Rightarrow> patricia_tree \<Rightarrow> patricia_tree \<Rightarrow> tree_index list \<Rightarrow> 's
   \<Rightarrow> (tree_error, 's os_storage) res" where
  "OsSingleStarknetStorage_new e prev_tree updated_tree accessed_addresses ffc =
     bindR (PatriciaTree_get_leaves e ffc prev_tree accessed_addresses None) (\<lambda>(initial_leaves, _).
       Inr \<lparr> previous_tree = prev_tree,
             expected_updated_root = felt_from_bytes_be_slice (tree_root updated_tree),
             ongoing_storage_changes = hm_extend [] (map (\<lambda>(key, leaf). (key, leaf_value leaf)) initial_leaves),
             os_ffc = ffc \<rparr>)"

text \<open>The two \<open>expect\<close>s: an error of the tree and a missing leaf are panics.\<close>

definition fetch_storage_leaf ::
  "('s, storage_leaf) tree_env \<Rightarrow> 's os_storage \<Rightarrow> tree_index \<Rightarrow> ('e, storage_leaf) res" where
  "fetch_storage_leaf e c key =
     (case PatriciaTree_get_leaf e (os_ffc c) (previous_tree c) key of
        Inr (Some leaf) \<Rightarrow> Inr leaf
      | Inr None \<Rightarrow> Inl (Panic ''Could not find leaf'')
      | Inl (Error _) \<Rightarrow> Inl (Panic ''Failed to retrieve leaf from storage'')
      | Inl (Panic m) \<Rightarrow> Inl (Panic m))"

definition OsSingleStarknetStorage_compute_commitment ::
  "('s, storage_leaf) tree_env \<Rightarrow> 's os_storage \<Rightarrow> (commitment_info_error, commitment_info \<times> 's os_storage) res" where
  "OsSingleStarknetStorage_compute_commitment e c =
     (let final_modifications = map (\<lambda>(key, value). (key, StorageLeaf_new value)) (ongoing_storage_changes c)
      in bindR (create_from_modifications e (os_ffc c) (previous_tree c) (Some (expected_updated_root c))
                  final_modifications)
           (\<lambda>(info, s'). Inr (info, c \<lparr> os_ffc := s' \<rparr>)))"

definition OsSingleStarknetStorage_read ::
  "('s, storage_leaf) tree_env \<Rightarrow> 's os_storage \<Rightarrow> tree_index \<Rightarrow> ('e, felt option \<times> 's os_storage) res" where
  "OsSingleStarknetStorage_read e c key =
     (case map_of (ongoing_storage_changes c) key of
        Some value \<Rightarrow> Inr (Some value, c)
      | None \<Rightarrow>
          bindR (fetch_storage_leaf e c key) (\<lambda>leaf.
            let value_from_storage = leaf_value leaf in
            Inr (Some value_from_storage,
                 c \<lparr> ongoing_storage_changes := hm_insert key value_from_storage (ongoing_storage_changes c) \<rparr>)))"

definition OsSingleStarknetStorage_write :: "'s os_storage \<Rightarrow> tree_index \<Rightarrow> felt \<Rightarrow> 's os_storage" where
  "OsSingleStarknetStorage_write c key value =
     c \<lparr> ongoing_storage_changes := hm_insert key value (ongoing_storage_changes c) \<rparr>"

section \<open>The contract of a storage\<close>

text \<open>
  \<open>stands_for c m\<close>: the storage \<open>c\<close> holds the values \<open>m\<close>. The keys are the ones below \<open>bound\<close>.
\<close>

datatype storage_op = ReadOp tree_index | WriteOp tree_index felt

fun op_ok :: "nat \<Rightarrow> storage_op \<Rightarrow> bool" where
  "op_ok bound (ReadOp k) \<longleftrightarrow> k < bound"
| "op_ok bound (WriteOp k v) \<longleftrightarrow> k < bound \<and> felt_wf v"

text \<open>A sequence of reads and writes, and what it does to a plain function.\<close>

fun run_ops ::
  "('c \<Rightarrow> tree_index \<Rightarrow> (unit, felt option \<times> 'c) res) \<Rightarrow> ('c \<Rightarrow> tree_index \<Rightarrow> felt \<Rightarrow> 'c)
   \<Rightarrow> 'c \<Rightarrow> storage_op list \<Rightarrow> (unit, felt option list \<times> 'c) res" where
  "run_ops rd wr c [] = Inr ([], c)"
| "run_ops rd wr c (ReadOp k # ops) =
     bindR (rd c k) (\<lambda>(v, c'). bindR (run_ops rd wr c' ops) (\<lambda>(vs, c''). Inr (v # vs, c'')))"
| "run_ops rd wr c (WriteOp k v # ops) = run_ops rd wr (wr c k v) ops"

fun spec_ops :: "(nat \<Rightarrow> felt) \<Rightarrow> storage_op list \<Rightarrow> felt list \<times> (nat \<Rightarrow> felt)" where
  "spec_ops m [] = ([], m)"
| "spec_ops m (ReadOp k # ops) = (let (vs, m') = spec_ops m ops in (m k # vs, m'))"
| "spec_ops m (WriteOp k v # ops) = spec_ops (m (k := v)) ops"

locale per_contract_storage =
  fixes rd :: "'c \<Rightarrow> nat \<Rightarrow> (unit, felt option \<times> 'c) res"
    and wr :: "'c \<Rightarrow> nat \<Rightarrow> felt \<Rightarrow> 'c"
    and bound :: nat
    and stands_for :: "'c \<Rightarrow> (nat \<Rightarrow> felt) \<Rightarrow> bool"
  assumes read_law: "stands_for c m \<Longrightarrow> k < bound \<Longrightarrow> \<exists>c'. rd c k = Inr (Some (m k), c') \<and> stands_for c' m"
    and write_law: "stands_for c m \<Longrightarrow> k < bound \<Longrightarrow> felt_wf v \<Longrightarrow> stands_for (wr c k v) (m (k := v))"
begin

text \<open>Every sequence of operations behaves as on the function.\<close>

lemma run_ops_refines:
  assumes "stands_for c m" and "\<forall>op \<in> set ops. op_ok bound op"
  shows "\<exists>c'. run_ops rd wr c ops = Inr (map Some (fst (spec_ops m ops)), c') \<and> stands_for c' (snd (spec_ops m ops))"
  using assms
proof (induction m ops arbitrary: c rule: spec_ops.induct)
  case (2 m k ops)
  obtain c1 where c1: "rd c k = Inr (Some (m k), c1)" "stands_for c1 m"
    using read_law [OF 2(2), of k] 2(3) by auto
  show ?case
    using 2(1) [OF c1(2)] 2(3) c1(1) by (auto simp: case_prod_unfold Let_def)
next
  case (3 m k v ops)
  have "stands_for (wr c k v) (m (k := v))"
    using 3(2,3) by (intro write_law) auto
  with 3(1) [of "wr c k v"] 3(3) show ?case by (simp add: fun_upd_def)
qed auto

end

section \<open>OsSingleStarknetStorage keeps the contract\<close>

text \<open>
  The values of a contract storage: the pending changes over the leaves \<open>f\<close> of the previous
  tree.
\<close>

definition overlay :: "(tree_index, felt) hash_map \<Rightarrow> (nat \<Rightarrow> storage_leaf) \<Rightarrow> nat \<Rightarrow> felt" where
  "overlay changes f k = (case map_of changes k of Some v \<Rightarrow> v | None \<Rightarrow> leaf_value (f k))"

definition os_stands_for ::
  "('s, storage_leaf) tree_env \<Rightarrow> nat \<Rightarrow> 's os_storage \<Rightarrow> (nat \<Rightarrow> felt) \<Rightarrow> bool" where
  "os_stands_for e h c m \<longleftrightarrow>
     storage_genuine e (os_ffc c) \<and>
     (\<exists>f. represents e StorageLeaf_wf (os_ffc c) (previous_tree c) f \<and> tree_height (previous_tree c) = h \<and>
       hm_wf (ongoing_storage_changes c) \<and>
       (\<forall>(k, v) \<in> set (ongoing_storage_changes c). k < 2 ^ h \<and> felt_wf v) \<and>
       (\<forall>k < 2 ^ h. m k = overlay (ongoing_storage_changes c) f k))"

lemma represents_leaf_wf: "represents e valid s t f \<Longrightarrow> i < 2 ^ tree_height t \<Longrightarrow> valid (f i)"
  by (simp add: represents_def Let_def good_tree_def leaves_ok_def)

lemma hm_insert_all:
  assumes "\<forall>(k, v) \<in> set m. P k v" and "P j w"
  shows "\<forall>(k, v) \<in> set (hm_insert j w m). P k v"
  using assms by (induction m) (auto simp: hm_insert_def)

lemma fetch_storage_leaf_ok:
  assumes "represents e StorageLeaf_wf (os_ffc c) (previous_tree c) f" and "k < 2 ^ tree_height (previous_tree c)"
  shows "fetch_storage_leaf e c k = Inr (f k)"
  using represents_get_leaf [OF assms] by (simp add: fetch_storage_leaf_def)

lemma os_read_ok:
  assumes "os_stands_for e h c m" and "k < 2 ^ h"
  shows "\<exists>c'. (OsSingleStarknetStorage_read e c k :: ('err, _) res) = Inr (Some (m k), c') \<and> os_stands_for e h c' m"
proof -
  have gen: "storage_genuine e (os_ffc c)" using assms(1) by (simp add: os_stands_for_def)
  obtain f where r: "represents e StorageLeaf_wf (os_ffc c) (previous_tree c) f"
    and h: "tree_height (previous_tree c) = h" and wf: "hm_wf (ongoing_storage_changes c)"
    and ok: "\<forall>(k, v) \<in> set (ongoing_storage_changes c). k < 2 ^ h \<and> felt_wf v"
    and m: "\<forall>k < 2 ^ h. m k = overlay (ongoing_storage_changes c) f k"
    using assms(1) by (auto simp: os_stands_for_def)
  show ?thesis
  proof (cases "map_of (ongoing_storage_changes c) k")
    case None
    let ?c = "c \<lparr> ongoing_storage_changes := hm_insert k (leaf_value (f k)) (ongoing_storage_changes c) \<rparr>"
    have rd: "(OsSingleStarknetStorage_read e c k :: ('err, _) res) = Inr (Some (m k), ?c)"
      using None m assms(2) h by (simp add: Let_def OsSingleStarknetStorage_read_def overlay_def fetch_storage_leaf_ok [OF r])
    have "felt_wf (leaf_value (f k))"
      using represents_leaf_wf [OF r] assms(2) h by (simp add: StorageLeaf_wf_def)
    then have "os_stands_for e h ?c m"
      unfolding os_stands_for_def using gen r h wf m None assms(2) hm_insert_all [OF ok, of k]
      by (intro conjI exI [of _ f]) (auto simp: overlay_def)
    with rd show ?thesis by blast
  next
    case (Some v)
    then show ?thesis
      using assms m by (simp add: OsSingleStarknetStorage_read_def overlay_def)
  qed
qed

lemma os_write_ok:
  assumes "os_stands_for e h c m" and "k < 2 ^ h" and "felt_wf v"
  shows "os_stands_for e h (OsSingleStarknetStorage_write c k v) (m (k := v))"
proof -
  have gen: "storage_genuine e (os_ffc c)" using assms(1) by (simp add: os_stands_for_def)
  obtain f where r: "represents e StorageLeaf_wf (os_ffc c) (previous_tree c) f"
    and h: "tree_height (previous_tree c) = h" and wf: "hm_wf (ongoing_storage_changes c)"
    and ok: "\<forall>(k, v) \<in> set (ongoing_storage_changes c). k < 2 ^ h \<and> felt_wf v"
    and m: "\<forall>k < 2 ^ h. m k = overlay (ongoing_storage_changes c) f k"
    using assms(1) by (auto simp: os_stands_for_def)
  show ?thesis
    unfolding os_stands_for_def OsSingleStarknetStorage_write_def
    using gen r h wf m assms(2,3) hm_insert_all [OF ok, of k v] by (intro conjI exI [of _ f]) (auto simp: overlay_def)
qed

interpretation os_storage: per_contract_storage "OsSingleStarknetStorage_read e" OsSingleStarknetStorage_write
  "2 ^ h" "os_stands_for e h" for e :: "('s, storage_leaf) tree_env" and h
  by unfold_locales (auto intro: os_read_ok os_write_ok)

text \<open>The storage of the witnesses: an empty previous tree and one pending change.\<close>

definition demo_os :: "dict_storage os_storage" where
  "demo_os = \<lparr> previous_tree = demo_tree, expected_updated_root = 4252,
     ongoing_storage_changes = [(1000, 2000)], os_ffc = demo_storage \<rparr>"

lemma demo_os_stands_for: "os_stands_for (storage_env ped) 251 demo_os ((\<lambda>_. 0) (1000 := 2000))"
  unfolding os_stands_for_def demo_os_def using demo_represents [of ped] demo_genuine [of ped]
  by (intro conjI exI [of _ "\<lambda>_. StorageLeaf_empty"])
    (auto simp: overlay_def felt_wf_def STARK_PRIME_def)

text \<open>
  C3. The storage of a contract refines a function from keys to values: every sequence of reads and
  writes succeeds, the reads return what the same sequence returns on the function (the last
  value written, or the leaf of the previous tree), and the storage stands for the resulting
  function afterwards.
\<close>

theorem contract_storage_refines:
  assumes "os_stands_for (storage_env ped) h c m" and "\<forall>op \<in> set ops. op_ok (2 ^ h) op"
  shows "\<exists>c'. run_ops (OsSingleStarknetStorage_read (storage_env ped)) OsSingleStarknetStorage_write c ops =
      Inr (map Some (fst (spec_ops m ops)), c') \<and> os_stands_for (storage_env ped) h c' (snd (spec_ops m ops))"
  by (rule os_storage.run_ops_refines [OF assms])

theorem contract_storage_refines_witness:
  "\<exists>c'. run_ops (OsSingleStarknetStorage_read (storage_env demo_ped)) OsSingleStarknetStorage_write demo_os
      [ReadOp 1000, ReadOp 5, WriteOp 5 7, ReadOp 5] = Inr ([Some 2000, Some 0, Some 7], c')"
  using contract_storage_refines [OF demo_os_stands_for, of "[ReadOp 1000, ReadOp 5, WriteOp 5 7, ReadOp 5]" demo_ped]
  by (auto simp: felt_wf_def STARK_PRIME_def)

section \<open>The commitment\<close>

lemma canon_leaves_cong:
  assumes "\<forall>i < 2 ^ h. f i = f' i"
  shows "canon H h (leaf_hashes e f) = canon H h (leaf_hashes e f')"
    and "tree_facts H h (leaf_hashes e f) = tree_facts H h (leaf_hashes e f')"
  using assms by (intro canon_cong tree_facts_cong; simp add: leaf_hashes_def)+

lemma spec_root_cong: "\<forall>i < 2 ^ h. f i = f' i \<Longrightarrow> spec_root e h f = spec_root e h f'"
  using canon_leaves_cong(1) [of h f f' "env_hash e" e] by (simp add: spec_root_def)

lemma good_tree_cong: "\<forall>i < 2 ^ h. f i = f' i \<Longrightarrow> good_tree e valid h f = good_tree e valid h f'"
  using canon_leaves_cong [of h f f' "env_hash e" e] by (simp add: good_tree_def leaves_ok_def all_facts_def)

lemma map_of_rev_distinct: "distinct (map fst xs) \<Longrightarrow> map_of (rev xs) = map_of xs"
  by (rule map_of_inject_set [THEN iffD2]) (auto simp: rev_map [symmetric])

lemma mods_map_changes:
  assumes "hm_wf changes"
  shows "apply_mods (mods_map (map (\<lambda>(k, v). (k, StorageLeaf_new v)) changes)) f = (\<lambda>k. StorageLeaf_new (overlay changes f k))"
proof -
  have "distinct (map fst (map (\<lambda>(k, v). (k, StorageLeaf_new v)) changes))"
    using assms by (simp add: hm_wf_def comp_def case_prod_unfold)
  from map_of_rev_distinct [OF this] show ?thesis
    by (auto simp: apply_mods_def mods_map_def overlay_def map_of_map fun_eq_iff split: option.split)
qed

text \<open>An update that collects facts returns the facts.\<close>

lemma create_from_modifications_eq:
  assumes "PatriciaTree_update e s t ms (Some []) = Inr (t', s', Some facts)"
  shows "create_from_modifications e s t expected ms =
    (let root = felt_from_bytes_be_slice (tree_root t') in
     if expected = None \<or> expected = Some root
     then Inr (\<lparr> previous_root = felt_from_bytes_be_slice (tree_root t), updated_root = root,
            ci_tree_height = tree_height t, commitment_facts = binary_fact_dict_to_felts facts \<rparr>, s')
     else Inl (Error (UpdatedRootMismatch root (the expected))))"
  using assms by (auto simp: create_from_modifications_def Let_def split: option.split)

lemma update_facts_Some:
  assumes "storage_genuine e s" and "PatriciaTree_update e s t ms (Some []) = Inr (t', s', facts')"
  shows "\<exists>d. facts' = Some d \<and> dict_genuine e d"
  using update_grown [OF assms] by (auto simp: grown_def split: option.splits)

text \<open>
  C7. The commitment of a contract storage: when the root that was expected is the reference root of
  the values the storage stands for, \<open>compute_commitment\<close> returns both roots, the height and genuine
  facts; when it is not, it returns the error \<open>UpdatedRootMismatch\<close> with the actual and the expected
  root.
\<close>

theorem compute_commitment_correct:
  assumes "os_stands_for (storage_env ped) h c m"
    and "good_tree (storage_env ped) StorageLeaf_wf h (\<lambda>k. StorageLeaf_new (m k))"
  shows "let root = felt_of_Hash (spec_root (storage_env ped) h (\<lambda>k. StorageLeaf_new (m k))) in
    if expected_updated_root c = root
    then \<exists>d c'. OsSingleStarknetStorage_compute_commitment (storage_env ped) c =
        Inr (\<lparr> previous_root = felt_of_Hash (tree_root (previous_tree c)), updated_root = root,
               ci_tree_height = h, commitment_facts = binary_fact_dict_to_felts d \<rparr>, c') \<and>
        dict_genuine (storage_env ped) d
    else OsSingleStarknetStorage_compute_commitment (storage_env ped) c =
        Inl (Error (UpdatedRootMismatch root (expected_updated_root c)))"
proof -
  let ?ch = "ongoing_storage_changes c" and ?new = "\<lambda>k. StorageLeaf_new (m k)"
  let ?ms = "map (\<lambda>(k, v). (k, StorageLeaf_new v)) ?ch"
  obtain f where r: "represents (storage_env ped) StorageLeaf_wf (os_ffc c) (previous_tree c) f"
    and h: "tree_height (previous_tree c) = h" and wf: "hm_wf ?ch" and gen: "storage_genuine (storage_env ped) (os_ffc c)"
    and ok: "\<forall>(k, v) \<in> set ?ch. k < 2 ^ h \<and> felt_wf v"
    and m: "\<forall>k < 2 ^ h. m k = overlay ?ch f k"
    using assms(1) by (auto simp: os_stands_for_def)
  have new: "\<forall>k < 2 ^ h. apply_mods (mods_map ?ms) f k = ?new k"
    using m by (simp add: mods_map_changes [OF wf])
  have "\<forall>(i, x) \<in> set ?ms. i < 2 ^ tree_height (previous_tree c)" using ok h by auto
  moreover have "good_tree (storage_env ped) StorageLeaf_wf (tree_height (previous_tree c)) (apply_mods (mods_map ?ms) f)"
    using assms(2) good_tree_cong [OF new, of "storage_env ped"] h by simp
  ultimately obtain t' s' facts' where u: "PatriciaTree_update (storage_env ped) (os_ffc c) (previous_tree c) ?ms (Some []) =
      Inr (t', s', facts')" and t': "tree_root t' = spec_root (storage_env ped) h (apply_mods (mods_map ?ms) f)"
    using st.update_represents [OF r, of ?ms "Some []"] h by auto
  obtain d where d: "facts' = Some d" "dict_genuine (storage_env ped) d"
    using update_facts_Some [OF gen u] by blast
  have root: "tree_root t' = spec_root (storage_env ped) h ?new"
    using t' spec_root_cong [OF new, of "storage_env ped"] by simp
  show ?thesis
    using create_from_modifications_eq [OF u [unfolded d(1)], of "Some (expected_updated_root c)"] d(2)
    by (auto simp: OsSingleStarknetStorage_compute_commitment_def Let_def felt_of_Hash_def root h)
qed

theorem compute_commitment_correct_witness:
  "\<exists>d c'. OsSingleStarknetStorage_compute_commitment (storage_env demo_ped) demo_os =
      Inr (\<lparr> previous_root = 0, updated_root = 4252, ci_tree_height = 251,
             commitment_facts = binary_fact_dict_to_felts d \<rparr>, c')"
proof -
  have f: "(\<lambda>k. StorageLeaf_new (((\<lambda>_. 0) (1000 := 2000)) k)) = (\<lambda>_. StorageLeaf_empty) (1000 := StorageLeaf_new 2000)"
    by (auto simp: fun_eq_iff StorageLeaf_empty_def)
  have "felt_of_Hash (Hash_of_felt 4252) = 4252" by (simp add: felt_wf_def STARK_PRIME_def)
  moreover have "felt_of_Hash (tree_root (previous_tree demo_os)) = 0"
    by (simp add: demo_os_def demo_tree_def EMPTY_HASH_eq Hash_empty_felt)
  moreover have "expected_updated_root demo_os = 4252" by (simp add: demo_os_def)
  ultimately show ?thesis
    using compute_commitment_correct [OF demo_os_stands_for, of demo_ped] demo_good unfolding f by (auto simp: Let_def)
qed

text \<open>
  C23. Recomputing a tree from the leaves of the expected one: when the previous and the expected
  updated tree differ only at the accessed indices, reading these leaves from the expected
  tree and applying them to the previous one gives the expected root, so the commitment info is
  created and never an error.
\<close>

theorem expected_updated_tree_commits:
  assumes t: "represents (storage_env ped) StorageLeaf_wf s t f"
    and u: "represents (storage_env ped) StorageLeaf_wf s u g" and h: "tree_height u = tree_height t"
    and idx: "\<forall>i \<in> set indices. i < 2 ^ tree_height t"
    and diff: "\<forall>i < 2 ^ tree_height t. i \<notin> set indices \<longrightarrow> f i = g i"
    and gen: "storage_genuine (storage_env ped) s"
  shows "\<exists>d s'. create_from_expected_updated_tree (storage_env ped) s t u indices =
    Inr (\<lparr> previous_root = felt_of_Hash (tree_root t), updated_root = felt_of_Hash (tree_root u),
           ci_tree_height = tree_height t, commitment_facts = binary_fact_dict_to_felts d \<rparr>, s') \<and>
    dict_genuine (storage_env ped) d"
proof -
  let ?e = "storage_env ped"
  obtain ms facts where ms: "PatriciaTree_get_leaves ?e s u indices None = Inr (ms, facts)"
    and leaves: "holds_leaves ms (set indices) g"
    using represents_get_leaves [OF u, of indices None] idx h by auto
  have new: "\<forall>k < 2 ^ tree_height t. apply_mods (mods_map ms) f k = g k"
    using leaves diff map_of_rev_distinct [of ms]
    by (auto simp: apply_mods_def mods_map_def holds_leaves_def hm_wf_def)
  have "\<forall>(i, x) \<in> set ms. i < 2 ^ tree_height t"
    using leaves idx unfolding holds_leaves_def by (metis (no_types, lifting) case_prodI2 hm_wf_map_of_iff option.distinct(1))
  moreover have g: "good_tree ?e StorageLeaf_wf (tree_height t) g" "tree_root u = spec_root ?e (tree_height t) g"
    using u h by (simp_all add: represents_def Let_def)
  ultimately obtain t' s' facts' where upd: "PatriciaTree_update ?e s t ms (Some []) = Inr (t', s', facts')"
    and t': "tree_root t' = spec_root ?e (tree_height t) (apply_mods (mods_map ms) f)"
    using st.update_represents [OF t, of ms "Some []"] good_tree_cong [OF new, of ?e] by auto
  obtain d where d: "facts' = Some d" "dict_genuine ?e d" using update_facts_Some [OF gen upd] by blast
  have "tree_root t' = tree_root u" using t' g(2) spec_root_cong [OF new, of ?e] by simp
  then show ?thesis
    using create_from_modifications_eq [OF upd [unfolded d(1)], of "Some (felt_of_Hash (tree_root u))"] d(2) ms h
    by (auto simp: create_from_expected_updated_tree_def felt_of_Hash_def Let_def)
qed

theorem expected_updated_tree_commits_witness:
  "\<exists>d s'. create_from_expected_updated_tree (storage_env demo_ped) demo_storage demo_tree demo_tree [3] =
    Inr (\<lparr> previous_root = felt_of_Hash (tree_root demo_tree), updated_root = felt_of_Hash (tree_root demo_tree),
           ci_tree_height = 251, commitment_facts = binary_fact_dict_to_felts d \<rparr>, s')"
  using expected_updated_tree_commits [OF demo_represents demo_represents refl _ _ demo_genuine,
      where ped = demo_ped and indices = "[3]"] by auto

end
