(* ===== verification/Ideal_Database.thy ===== *)
theory Ideal_Database
  imports Fact_Dict
begin

text \<open>
  Several trees in one storage. The assumption that no two objects collide is stated once, for
  everything that is ever written: there is a database \<open>W\<close>, a partial function from keys to values, into
  which all the trees of a run fit. A storage that is a part of \<open>W\<close> only grows, so every tree it holds
  stays in it, whatever other trees are written.
\<close>

definition fits ::
  "('s, 'lf) tree_env \<Rightarrow> ('lf \<Rightarrow> bool) \<Rightarrow> (bytes \<rightharpoonup> bytes) \<Rightarrow> nat \<Rightarrow> (nat \<Rightarrow> 'lf) \<Rightarrow> bool" where
  "fits e valid W h f \<longleftrightarrow>
     h \<le> MAX_HEIGHT \<and> leaves_ok e valid h f \<and>
     nonempty_keys (all_facts (env_hash e) h (leaf_hashes e f)) \<and>
     (\<forall>(k, n) \<in> set (all_facts (env_hash e) h (leaf_hashes e f)). \<exists>data.
        PatriciaNodeFact_serialize n = Inr data \<and> W (db_key (PatriciaNodeFact_inf (env_hash e)) k) = Some data) \<and>
     (\<forall>i < 2 ^ h. \<exists>data. serialize (env_leaf e) (f i) = Inr data \<and>
        W (db_key (env_leaf e) (leaf_hashes e f i)) = Some data)"

text \<open>A larger storage holds the same objects.\<close>

lemma db_holds_mono:
  "db_holds St D s k x \<Longrightarrow> st_lookup St s \<subseteq>\<^sub>m st_lookup St s' \<Longrightarrow> db_holds St D s' k x"
  by (force simp: db_holds_def map_le_def split: option.splits)

lemma represents_mono:
  assumes "represents e valid s t f" and "st_lookup (env_storage e) s \<subseteq>\<^sub>m st_lookup (env_storage e) s'"
  shows "represents e valid s' t f"
proof -
  have "node_in e s x \<Longrightarrow> node_in e s' x" "leaf_in e s y \<Longrightarrow> leaf_in e s' y" for x y
    unfolding node_in_def leaf_in_def by (erule db_holds_mono [OF _ assms(2)])+
  then show ?thesis using assms(1) unfolding represents_def Let_def by blast
qed

context storage_laws
begin

lemma db_set_grows:
  assumes "db_set St D v s k = Inr s'" and "serialize D v = Inr data" and "W (db_key D k) = Some data"
    and "st_lookup St s \<subseteq>\<^sub>m W"
  shows "st_lookup St s \<subseteq>\<^sub>m st_lookup St s' \<and> st_lookup St s' \<subseteq>\<^sub>m W"
proof
  have s': "st_lookup St s' = (st_lookup St s)(db_key D k \<mapsto> data)" by (rule db_set_lookup [OF assms(1,2)])
  show "st_lookup St s \<subseteq>\<^sub>m st_lookup St s'"
    unfolding s' map_le_def
  proof
    fix K
    assume "K \<in> dom (st_lookup St s)"
    then have "W K = st_lookup St s K" using assms(4) by (simp add: map_le_def)
    then show "st_lookup St s K = ((st_lookup St s)(db_key D k \<mapsto> data)) K" using assms(3) by auto
  qed
  show "st_lookup St s' \<subseteq>\<^sub>m W"
    unfolding s' using assms(3,4) by (simp add: map_le_def)
qed

lemma foldR_db_set_grows:
  assumes "foldR (\<lambda>s (k, v). db_set St D v s k) s L = Inr s'"
    and "\<forall>(k, v) \<in> set L. \<exists>data. serialize D v = Inr data \<and> W (db_key D k) = Some data"
    and "st_lookup St s \<subseteq>\<^sub>m W"
  shows "st_lookup St s \<subseteq>\<^sub>m st_lookup St s' \<and> st_lookup St s' \<subseteq>\<^sub>m W"
  using assms
proof (induction L arbitrary: s)
  case (Cons kv L)
  obtain k v s1 where kv: "kv = (k, v)" and s1: "db_set St D v s k = Inr s1"
    and rest: "foldR (\<lambda>s (k, v). db_set St D v s k) s1 L = Inr s'"
    using Cons.prems(1) by (cases kv) (auto simp: bindR_eq_Inr_iff)
  obtain data where data: "serialize D v = Inr data" "W (db_key D k) = Some data"
    using Cons.prems(2) kv by auto
  have g: "st_lookup St s \<subseteq>\<^sub>m st_lookup St s1" "st_lookup St s1 \<subseteq>\<^sub>m W"
    using db_set_grows [where W = W, OF s1 data Cons.prems(3)] by auto
  moreover have "st_lookup St s1 \<subseteq>\<^sub>m st_lookup St s' \<and> st_lookup St s' \<subseteq>\<^sub>m W"
    by (rule Cons.IH [OF rest _ g(2)]) (use Cons.prems(2) in simp)
  ultimately show ?case using map_le_trans by blast
qed simp

end

context patricia_env
begin

lemma fits_good:
  assumes "fits e valid W h f"
  shows "good_tree e valid h f"
proof -
  let ?F = "all_facts (env_hash e) h (leaf_hashes e f)"
  have ok: "leaves_ok e valid h f" "h \<le> MAX_HEIGHT" using assms by (simp_all add: fits_def)
  have nodes: "\<forall>(k, n) \<in> set ?F. \<exists>data. PatriciaNodeFact_serialize n = Inr data \<and>
      W (db_key (PatriciaNodeFact_inf (env_hash e)) k) = Some data"
    and lvs: "\<forall>i < 2 ^ h. \<exists>data. serialize (env_leaf e) (f i) = Inr data \<and>
      W (db_key (env_leaf e) (lhash e (f i))) = Some data"
    using assms by (simp_all add: fits_def leaf_hashes_def)
  have "n = n'" if kn: "(k, n) \<in> set ?F" "(k, n') \<in> set ?F" for k n n'
  proof -
    obtain d where "PatriciaNodeFact_serialize n = Inr d" "PatriciaNodeFact_serialize n' = Inr d"
      using bspec [OF nodes kn(1)] bspec [OF nodes kn(2)] by auto
    moreover have "node_fact_wf n" "node_fact_wf n'" using all_facts_sound(2) [OF ok kn(1)] all_facts_sound(2) [OF ok kn(2)] by auto
    ultimately have "PatriciaNodeFact_deserialize d = Inr n" "PatriciaNodeFact_deserialize d = Inr n'"
      by (simp_all add: node_fact_encoding)
    then show ?thesis by simp
  qed
  then have "collision_free ?F" unfolding collision_free_def by (metis prod.collapse)
  moreover have "f i = f j" if ij: "i < 2 ^ h" "j < 2 ^ h" "lhash e (f i) = lhash e (f j)" for i j
  proof -
    obtain d where d: "serialize (env_leaf e) (f i) = Inr d" "serialize (env_leaf e) (f j) = Inr d"
      using lvs [rule_format, OF ij(1)] lvs [rule_format, OF ij(2)] ij(3) by auto
    have "valid (f i)" "valid (f j)" using ok ij by (simp_all add: leaves_ok_def)
    then show ?thesis using leaf_codec [of "f i"] leaf_codec [of "f j"] d by auto
  qed
  ultimately show ?thesis using assms by (auto simp: fits_def good_tree_def)
qed

text \<open>Updating a tree inside \<open>W\<close>.\<close>

lemma update_in_database:
  assumes t: "represents e valid s t f"
    and idx: "\<forall>(i, x) \<in> set ms. i < 2 ^ tree_height t"
    and W: "fits e valid W (tree_height t) (apply_mods (mods_map ms) f)"
    and s: "st_lookup (env_storage e) s \<subseteq>\<^sub>m W"
  shows "\<exists>t' s' facts'. PatriciaTree_update e s t ms facts = Inr (t', s', facts') \<and>
    t' = \<lparr> tree_root = spec_root e (tree_height t) (apply_mods (mods_map ms) f), tree_height = tree_height t \<rparr> \<and>
    represents e valid s' t' (apply_mods (mods_map ms) f) \<and>
    st_lookup (env_storage e) s \<subseteq>\<^sub>m st_lookup (env_storage e) s' \<and> st_lookup (env_storage e) s' \<subseteq>\<^sub>m W"
proof -
  let ?h = "tree_height t" and ?f = "apply_mods (mods_map ms) f"
  let ?F = "all_facts (env_hash e) ?h (leaf_hashes e ?f)" and ?P = "PatriciaNodeFact_inf (env_hash e)"
  have good: "good_tree e valid ?h ?f" by (rule fits_good [OF W])
  obtain t' s' facts' where u: "PatriciaTree_update e s t ms facts = Inr (t', s', facts')"
    "t' = \<lparr> tree_root = spec_root e ?h ?f, tree_height = ?h \<rparr>" "represents e valid s' t' ?f"
    using update_represents [OF t idx good, of facts] by blast
  obtain N L s1 s2 where N: "set N \<subseteq> set ?F" and L: "set L \<subseteq> (\<lambda>i. (leaf_hashes e ?f i, ?f i)) ` {..<2 ^ ?h}"
    and s1: "foldR (\<lambda>s (k, n). db_set (env_storage e) ?P n s k) s N = Inr s1"
    and s2: "foldR (\<lambda>s (k, x). db_set (env_storage e) (env_leaf e) x s k) s1 L = Inr s2"
    and s3: "s' = s2 \<or> (\<exists>k n. (k, n) \<in> set ?F \<and> db_set (env_storage e) ?P n s2 k = Inr s')"
    using update_run [OF t idx good u(1)] by blast
  have nodes: "\<forall>(k, n) \<in> set ?F. \<exists>data. serialize ?P n = Inr data \<and> W (db_key ?P k) = Some data"
    using W by (simp add: fits_def)
  have lvs: "\<forall>(k, x) \<in> set L. \<exists>data. serialize (env_leaf e) x = Inr data \<and> W (db_key (env_leaf e) k) = Some data"
  proof (rule ballI, clarify)
    fix k x
    assume "(k, x) \<in> set L"
    then obtain i where "i < 2 ^ ?h" "k = leaf_hashes e ?f i" "x = ?f i" using L by auto
    then show "\<exists>data. serialize (env_leaf e) x = Inr data \<and> W (db_key (env_leaf e) k) = Some data"
      using W by (simp add: fits_def)
  qed
  have g1: "st_lookup (env_storage e) s \<subseteq>\<^sub>m st_lookup (env_storage e) s1 \<and> st_lookup (env_storage e) s1 \<subseteq>\<^sub>m W"
    by (rule foldR_db_set_grows [OF s1 _ s]) (use nodes N in blast)
  have g2: "st_lookup (env_storage e) s1 \<subseteq>\<^sub>m st_lookup (env_storage e) s2 \<and> st_lookup (env_storage e) s2 \<subseteq>\<^sub>m W"
    by (rule foldR_db_set_grows [OF s2 lvs]) (use g1 in blast)
  have "st_lookup (env_storage e) s2 \<subseteq>\<^sub>m st_lookup (env_storage e) s' \<and> st_lookup (env_storage e) s' \<subseteq>\<^sub>m W"
    using s3
  proof (elim disjE exE conjE)
    fix k n
    assume kn: "(k, n) \<in> set ?F" "db_set (env_storage e) ?P n s2 k = Inr s'"
    then obtain data where d: "serialize ?P n = Inr data" "W (db_key ?P k) = Some data"
      using bspec [OF nodes kn(1)] by auto
    show ?thesis by (rule db_set_grows [where W = W, OF kn(2) d]) (use g2 in blast)
  qed (use g2 in simp)
  with g1 g2 u show ?thesis using map_le_trans by blast
qed

text \<open>Creating an empty tree inside \<open>W\<close>.\<close>

lemma empty_tree_in_database:
  assumes x: "valid x" "leaf_is_empty (env_leaf e) x"
    and W: "fits e valid W h (\<lambda>_. x)" and s: "st_lookup (env_storage e) s \<subseteq>\<^sub>m W"
  shows "\<exists>s'. PatriciaTree_empty_tree e s h x = Inr (\<lparr> tree_root = EMPTY_HASH, tree_height = h \<rparr>, s') \<and>
    represents e valid s' \<lparr> tree_root = EMPTY_HASH, tree_height = h \<rparr> (\<lambda>_. x) \<and>
    st_lookup (env_storage e) s \<subseteq>\<^sub>m st_lookup (env_storage e) s' \<and> st_lookup (env_storage e) s' \<subseteq>\<^sub>m W"
proof -
  have h: "h \<le> MAX_HEIGHT" using W by (simp add: fits_def)
  have fh: "fact_hash (env_leaf e) x = Some EMPTY_HASH" by (rule leaf_empty_hash [OF x])
  obtain s' where s': "PatriciaTree_empty_tree e s h x = Inr (\<lparr> tree_root = EMPTY_HASH, tree_height = h \<rparr>, s')"
    "represents e valid s' \<lparr> tree_root = EMPTY_HASH, tree_height = h \<rparr> (\<lambda>_. x)"
    using empty_tree_represents [OF x h] by blast
  have set: "db_set (env_storage e) (env_leaf e) x s EMPTY_HASH = Inr s'"
    using s'(1) by (auto simp: PatriciaTree_empty_tree_def set_fact_def fh unwrap_def bindR_eq_Inr_iff map_err_eq_Inr_iff)
  obtain data where "serialize (env_leaf e) x = Inr data" "W (db_key (env_leaf e) EMPTY_HASH) = Some data"
    using W fh unfolding fits_def leaf_hashes_def lhash_def
    by (metis (no_types, lifting) option.simps(5) zero_less_numeral zero_less_power)
  from db_set_grows [where W = W, OF set this s] show ?thesis using s' by blast
qed

text \<open>The trees without a leaf and with one leaf.\<close>

lemma fits_empty:
  assumes x: "valid x" "leaf_is_empty (env_leaf e) x" and h: "h \<le> MAX_HEIGHT"
    and W: "serialize (env_leaf e) x = Inr data" "W (db_key (env_leaf e) EMPTY_HASH) = Some data"
  shows "fits e valid W h (\<lambda>_. x)"
proof -
  have lh: "lhash e x = EMPTY_HASH" using leaf_empty_hash [OF x] by (simp add: lhash_def)
  then show ?thesis
    using all_empty_facts(1) [of h "\<lambda>_. x"] x h W by (simp add: fits_def leaves_ok_def leaf_hashes_def)
qed

lemma fits_single:
  fixes i h :: nat and y :: 'lf
  defines "E \<equiv> \<lparr> edge_bottom_node = lhash e y, edge_path = i, edge_length = h \<rparr>"
  assumes x: "valid x" "leaf_is_empty (env_leaf e) x" and y: "valid y" "lhash e y \<noteq> EMPTY_HASH"
    and h: "0 < h" "h \<le> MAX_HEIGHT" "i < 2 ^ h"
    and k: "spec_edge_hash (env_hash e) (lhash e y) i h \<noteq> EMPTY_HASH"
    and W: "serialize (env_leaf e) x = Inr dx" "W (db_key (env_leaf e) EMPTY_HASH) = Some dx"
      "serialize (env_leaf e) y = Inr dy" "W (db_key (env_leaf e) (lhash e y)) = Some dy"
      "PatriciaNodeFact_serialize (EdgeFact E) = Inr de"
      "W (db_key (PatriciaNodeFact_inf (env_hash e)) (spec_edge_hash (env_hash e) (lhash e y) i h)) = Some de"
  shows "fits e valid W h ((\<lambda>_. x) (i := y))"
    and "spec_root e h ((\<lambda>_. x) (i := y)) = spec_edge_hash (env_hash e) (lhash e y) i h"
proof -
  let ?f = "(\<lambda>_. x) (i := y)"
  have lh: "lhash e x = EMPTY_HASH" using leaf_empty_hash [OF x] by (simp add: lhash_def)
  have g: "leaf_hashes e ?f j = (if j = i then lhash e y else EMPTY_HASH)" for j
    by (simp add: leaf_hashes_def lh)
  have c: "canon (env_hash e) h (leaf_hashes e ?f) = (lhash e y, i, h) \<and> tree_facts (env_hash e) h (leaf_hashes e ?f) = []"
    using single_leaf_canon [of i h "leaf_hashes e ?f"] h y by (simp add: g)
  then have F: "all_facts (env_hash e) h (leaf_hashes e ?f) = [(spec_edge_hash (env_hash e) (lhash e y) i h, EdgeFact E)]"
    using h by (simp add: all_facts_def E_def)
  show "fits e valid W h ?f"
    unfolding fits_def F using x y h k W by (simp add: leaves_ok_def g lh)
  show "spec_root e h ?f = spec_edge_hash (env_hash e) (lhash e y) i h"
    using c h by (simp add: spec_root_def)
qed

end

end
