(* ===== verification/Shared_State.thy ===== *)
theory Shared_State
  imports Starknet_Storage Ideal_Database
begin

text \<open>
  The global state: \<open>ContractState\<close> of
  \<open>starknet/business_logic/fact_state/contract_state_objects.rs\<close> and \<open>SharedState\<close> of \<open>state.rs\<close> in the
  same directory.

  All \<open>FactFetchingContext\<close>s of a state, also the one with the Poseidon hash, share one storage; its
  state is an argument and a result of the functions. The type parameters and the encodings by
  \<open>serde_json\<close> are the record \<open>state_env\<close>. Newtypes of field elements (\<open>ContractAddress\<close>, \<open>ClassHash\<close>,
  \<open>Nonce\<close>, \<open>StorageKey\<close>, \<open>CompiledClassHash\<close>) are field elements, and \<open>to_biguint\<close> is the identity on
  their representatives.

  An abstract state gives each contract a class hash, a nonce and a storage function, and each
  class hash a compiled class hash. The lemmas show that the readers return the values of the
  abstract state and that applying a state diff is the update of these functions.
\<close>

section \<open>Contract states\<close>

record 's state_env =
  se_storage :: "'s storage_ops"
  se_hash :: hash_fn
  se_poseidon :: hash_fn
  se_state_json :: "contract_state json_codec"
  se_class_json :: "contract_class_leaf json_codec"

definition storage_te :: "'s state_env \<Rightarrow> ('s, storage_leaf) tree_env" where
  "storage_te E = storage_tree (se_storage E) (se_hash E)"

definition contract_te :: "'s state_env \<Rightarrow> ('s, contract_state) tree_env" where
  "contract_te E = contract_tree (se_state_json E) (se_storage E) (se_hash E)"

definition class_te :: "'s state_env \<Rightarrow> hash_fn \<Rightarrow> ('s, contract_class_leaf) tree_env" where
  "class_te E H = class_tree (se_class_json E) (se_storage E) H"

definition ContractState_create :: "bytes \<Rightarrow> patricia_tree \<Rightarrow> felt \<Rightarrow> contract_state" where
  "ContractState_create h t n = \<lparr> contract_hash = h, storage_commitment_tree = t, nonce = n \<rparr>"

definition ContractState_empty ::
  "'s state_env \<Rightarrow> 's \<Rightarrow> height \<Rightarrow> (tree_error, contract_state \<times> 's) res" where
  "ContractState_empty E s storage_commitment_tree_height =
     bindR (PatriciaTree_empty_tree (storage_te E) s storage_commitment_tree_height StorageLeaf_empty)
       (\<lambda>(empty_tree, s').
         Inr (\<lparr> contract_hash = UNINITIALIZED_CLASS_HASH, storage_commitment_tree = empty_tree, nonce = 0 \<rparr>, s'))"

definition ContractState_update ::
  "'s state_env \<Rightarrow> contract_state \<Rightarrow> 's \<Rightarrow> (felt, felt) hash_map \<Rightarrow> felt option \<Rightarrow> felt option
   \<Rightarrow> (tree_error, contract_state \<times> 's) res" where
  "ContractState_update E c s updates new_nonce class_hash =
     (let class_hash_bytes = (case class_hash of Some h \<Rightarrow> felt_to_bytes_be h | None \<Rightarrow> contract_hash c);
          nonce' = (case new_nonce of Some n \<Rightarrow> n | None \<Rightarrow> nonce c);
          modifications = map (\<lambda>(key, value). (key, StorageLeaf_new value)) updates
      in bindR (PatriciaTree_update (storage_te E) s (storage_commitment_tree c) modifications None)
           (\<lambda>(updated_tree, s', _).
             Inr (\<lparr> contract_hash = class_hash_bytes, storage_commitment_tree = updated_tree, nonce = nonce' \<rparr>, s')))"

section \<open>The shared state\<close>

record shared_state =
  contract_states :: patricia_tree
  contract_classes :: "patricia_tree option"
  contract_addresses :: "tree_index list"

definition GLOBAL_STATE_VERSION :: bytes where
  "GLOBAL_STATE_VERSION = ascii ''STARKNET_STATE_V0''"

definition CONTRACT_STATES_COMMITMENT_TREE_HEIGHT :: nat where
  "CONTRACT_STATES_COMMITMENT_TREE_HEIGHT = 251"

definition CONTRACT_ADDRESS_BITS :: nat where
  "CONTRACT_ADDRESS_BITS = 251"

definition COMPILED_CLASS_HASH_COMMITMENT_TREE_HEIGHT :: nat where
  "COMPILED_CLASS_HASH_COMMITMENT_TREE_HEIGHT = 251"

definition state_version :: felt where
  "state_version = felt_from_bytes_be_slice GLOBAL_STATE_VERSION"

definition create_empty_contract_states :: "'s state_env \<Rightarrow> 's \<Rightarrow> (tree_error, patricia_tree \<times> 's) res" where
  "create_empty_contract_states E s =
     bindR (ContractState_empty E s CONTRACT_STATES_COMMITMENT_TREE_HEIGHT) (\<lambda>(empty_contract_state, s').
       PatriciaTree_empty_tree (contract_te E) s' CONTRACT_ADDRESS_BITS empty_contract_state)"

definition create_empty_contract_class_tree :: "'s state_env \<Rightarrow> 's \<Rightarrow> (tree_error, patricia_tree \<times> 's) res" where
  "create_empty_contract_class_tree E s =
     PatriciaTree_empty_tree (class_te E (se_hash E)) s COMPILED_CLASS_HASH_COMMITMENT_TREE_HEIGHT
       ContractClassLeaf_empty"

definition SharedState_empty :: "'s state_env \<Rightarrow> 's \<Rightarrow> (tree_error, shared_state \<times> 's) res" where
  "SharedState_empty E s =
     bindR (create_empty_contract_states E s) (\<lambda>(empty_contract_states, s1).
     bindR (create_empty_contract_class_tree E s1) (\<lambda>(empty_contract_classes, s2).
       Inr (\<lparr> contract_states = empty_contract_states, contract_classes = Some empty_contract_classes,
              contract_addresses = [] \<rparr>, s2)))"

definition get_contract_class_tree ::
  "'s state_env \<Rightarrow> 's \<Rightarrow> shared_state \<Rightarrow> (tree_error, patricia_tree \<times> 's) res" where
  "get_contract_class_tree E s \<sigma> =
     (case contract_classes \<sigma> of
        Some tree \<Rightarrow> Inr (tree, s)
      | None \<Rightarrow> create_empty_contract_class_tree E s)"

definition get_global_state_root :: "(felt list \<Rightarrow> felt) \<Rightarrow> shared_state \<Rightarrow> (math_error, felt) res" where
  "get_global_state_root poseidon_hash_many \<sigma> =
     (let contract_states_root = tree_root (contract_states \<sigma>);
          empty_tree_root = Hash_empty;
          contract_classes_root = (case contract_classes \<sigma> of Some tree \<Rightarrow> tree_root tree | None \<Rightarrow> empty_tree_root)
      in if contract_states_root = empty_tree_root \<and> contract_classes_root = empty_tree_root then Inr 0
         else if contract_classes_root = empty_tree_root
         then Inr (felt_from_bytes_be_slice contract_states_root)
         else
           bindR (poseidon_hash_many_bytes poseidon_hash_many
                   [felt_to_bytes_be state_version, contract_states_root, contract_classes_root])
             (\<lambda>x. Inr (felt_from_bytes_be_slice x)))"

text \<open>
  The loop over the accessed addresses: the leaf is taken out of the map of current states,
  updated and put into the map of updated states.
\<close>

definition update_contract_states ::
  "'s state_env \<Rightarrow> (felt, felt) hash_map \<Rightarrow> (felt, felt) hash_map \<Rightarrow> (felt, (felt, felt) hash_map) hash_map
   \<Rightarrow> (tree_index, contract_state) hash_map \<times> (tree_index, contract_state) hash_map \<times> 's \<Rightarrow> felt
   \<Rightarrow> (tree_error, (tree_index, contract_state) hash_map \<times> (tree_index, contract_state) hash_map \<times> 's) res" where
  "update_contract_states E address_to_class_hash address_to_nonce storage_updates =
     (\<lambda>(current, updated, s) address.
        let updates = (case map_of storage_updates address of Some u \<Rightarrow> u | None \<Rightarrow> []);
            new_nonce = map_of address_to_nonce address;
            class_hash = map_of address_to_class_hash address
        in bindR (unwrap ''current_contract_states.remove'' (map_of current address)) (\<lambda>c.
           bindR (ContractState_update E c s updates new_nonce class_hash) (\<lambda>(c', s').
             Inr (hm_remove address current, hm_insert address c' updated, s'))))"

definition apply_state_updates ::
  "'s state_env \<Rightarrow> 's \<Rightarrow> shared_state \<Rightarrow> (felt, felt) hash_map \<Rightarrow> (felt, felt) hash_map
   \<Rightarrow> (felt, felt) hash_map \<Rightarrow> (felt, (felt, felt) hash_map) hash_map
   \<Rightarrow> (tree_error, shared_state \<times> 's) res" where
  "apply_state_updates E s \<sigma> address_to_class_hash address_to_nonce class_hash_to_compiled_class_hash
       storage_updates =
     (let accessed_addresses =
            remdups (hm_keys address_to_class_hash @ hm_keys address_to_nonce @ hm_keys storage_updates)
      in bindR (PatriciaTree_get_leaves (contract_te E) s (contract_states \<sigma>) accessed_addresses None)
           (\<lambda>(current_contract_states, facts).
         bindR (foldR (update_contract_states E address_to_class_hash address_to_nonce storage_updates)
                  (current_contract_states, [], s) accessed_addresses) (\<lambda>(_, updated_contract_states, s1).
         bindR (PatriciaTree_update (contract_te E) s1 (contract_states \<sigma>) updated_contract_states facts)
           (\<lambda>(updated_global_contract_root, s2, facts).
         bindR (case contract_classes \<sigma> of
                  Some tree \<Rightarrow>
                    (let modifications =
                           map (\<lambda>(key, value). (key, ContractClassLeaf_create value)) class_hash_to_compiled_class_hash
                     in bindR (PatriciaTree_update (class_te E (se_poseidon E)) s2 tree modifications facts)
                          (\<lambda>(tree', s3, _). Inr (Some tree', s3)))
                | None \<Rightarrow>
                    bindR (assert_that ''contract_classes must be concrete before update.''
                             (length class_hash_to_compiled_class_hash = 0)) (\<lambda>_. Inr (None, s2)))
           (\<lambda>(updated_contract_classes, s3).
             Inr (\<lparr> contract_states = updated_global_contract_root,
                    contract_classes = updated_contract_classes,
                    contract_addresses = remdups (contract_addresses \<sigma> @ accessed_addresses) \<rparr>, s3))))))"

text \<open>The wrapper that takes the newtypes of the Starknet API off, and the blockifier's state diff.\<close>

record commitment_state_diff =
  diff_address_to_class_hash :: "(felt, felt) hash_map"
  diff_address_to_nonce :: "(felt, felt) hash_map"
  diff_storage_updates :: "(felt, (felt, felt) hash_map) hash_map"
  diff_class_hash_to_compiled_class_hash :: "(felt, felt) hash_map"

definition apply_state_updates_starknet_api ::
  "'s state_env \<Rightarrow> 's \<Rightarrow> shared_state \<Rightarrow> (felt, felt) hash_map \<Rightarrow> (felt, felt) hash_map
   \<Rightarrow> (felt, felt) hash_map \<Rightarrow> (felt, (felt, felt) hash_map) hash_map
   \<Rightarrow> (tree_error, shared_state \<times> 's) res" where
  "apply_state_updates_starknet_api E s \<sigma> address_to_class_hash address_to_nonce
       class_hash_to_compiled_class_hash storage_updates =
     apply_state_updates E s \<sigma>
       (hm_extend [] address_to_class_hash) (hm_extend [] address_to_nonce)
       (hm_extend [] class_hash_to_compiled_class_hash)
       (hm_extend [] (map (\<lambda>(address, updates). (address, hm_extend [] updates)) storage_updates))"

definition apply_commitment_state_diff ::
  "'s state_env \<Rightarrow> 's \<Rightarrow> shared_state \<Rightarrow> commitment_state_diff \<Rightarrow> (tree_error, shared_state \<times> 's) res" where
  "apply_commitment_state_diff E s \<sigma> state_diff =
     apply_state_updates_starknet_api E s \<sigma>
       (hm_extend [] (diff_address_to_class_hash state_diff))
       (hm_extend [] (diff_address_to_nonce state_diff))
       (hm_extend [] (diff_class_hash_to_compiled_class_hash state_diff))
       (hm_extend [] (map (\<lambda>(address, updates). (address, hm_extend [] updates)) (diff_storage_updates state_diff)))"

text \<open>
  \<open>from_blockifier_state\<close>: the flat view of the storage, keyed by address and key, is grouped by
  address.
\<close>

record dict_state_reader =
  storage_view :: "((felt \<times> felt), felt) hash_map"
  reader_address_to_nonce :: "(felt, felt) hash_map"
  reader_address_to_class_hash :: "(felt, felt) hash_map"
  reader_class_hash_to_compiled_class_hash :: "(felt, felt) hash_map"

definition group_storage_view ::
  "((felt \<times> felt), felt) hash_map \<Rightarrow> (felt, (felt, felt) hash_map) hash_map" where
  "group_storage_view view =
     fold (\<lambda>((address, key), value) m.
       hm_insert address (hm_insert key value (case map_of m address of Some u \<Rightarrow> u | None \<Rightarrow> [])) m) view []"

definition from_blockifier_state ::
  "'s state_env \<Rightarrow> 's \<Rightarrow> dict_state_reader \<Rightarrow> (tree_error, shared_state \<times> 's) res" where
  "from_blockifier_state E s blockifier_state =
     bindR (SharedState_empty E s) (\<lambda>(empty_state, s1).
       apply_state_updates_starknet_api E s1 empty_state
         (reader_address_to_class_hash blockifier_state) (reader_address_to_nonce blockifier_state)
         (reader_class_hash_to_compiled_class_hash blockifier_state)
         (group_storage_view (storage_view blockifier_state)))"

section \<open>Reading the state\<close>

text \<open>The payload of \<open>StateReadError\<close> is the error whose message the code prints.\<close>

datatype state_error =
  StateReadError_Tree tree_error
| StateReadError_Storage storage_error
| StateReadError_Missing nat
| StateReadError_Runtime
| StateReadError_Class string
| UndeclaredClassHash felt

text \<open>\<open>execute_coroutine\<close> fails when no runtime is present, which the flag \<open>rt\<close> tells.\<close>

datatype runtime_error = NoRuntime

definition execute_coroutine :: "bool \<Rightarrow> 'a \<Rightarrow> (runtime_error, 'a) res" where
  "execute_coroutine rt result = (if rt then Inr result else Inl (Error NoRuntime))"

definition get_contract_state_async ::
  "'s state_env \<Rightarrow> 's \<Rightarrow> shared_state \<Rightarrow> felt \<Rightarrow> (state_error, contract_state) res" where
  "get_contract_state_async E s \<sigma> contract_address =
     bindR (map_err StateReadError_Tree
             (PatriciaTree_get_leaves (contract_te E) s (contract_states \<sigma>) [contract_address] None))
       (\<lambda>(states, _). ok_or (StateReadError_Missing contract_address) (map_of states contract_address))"

definition get_contract_state ::
  "'s state_env \<Rightarrow> bool \<Rightarrow> 's \<Rightarrow> shared_state \<Rightarrow> felt \<Rightarrow> (state_error, contract_state) res" where
  "get_contract_state E rt s \<sigma> contract_address =
     bindR (map_err (\<lambda>_. StateReadError_Runtime)
             (execute_coroutine rt (get_contract_state_async E s \<sigma> contract_address))) (\<lambda>r. r)"

definition get_compiled_class_hash_async ::
  "'s state_env \<Rightarrow> 's \<Rightarrow> shared_state \<Rightarrow> felt \<Rightarrow> (state_error, felt) res" where
  "get_compiled_class_hash_async E s \<sigma> class_hash =
     (case contract_classes \<sigma> of
        Some contract_class_tree \<Rightarrow>
          bindR (map_err StateReadError_Tree
                  (PatriciaTree_get_leaf (class_te E (se_poseidon E)) s contract_class_tree class_hash)) (\<lambda>leaf.
          bindR (ok_or (UndeclaredClassHash class_hash) leaf) (\<lambda>contract_class_leaf.
            if ContractClassLeaf_is_empty contract_class_leaf
            then Inl (Error (UndeclaredClassHash class_hash))
            else Inr (compiled_class_hash contract_class_leaf)))
      | None \<Rightarrow> Inr 0)"

definition get_storage_at_async ::
  "'s state_env \<Rightarrow> 's \<Rightarrow> shared_state \<Rightarrow> felt \<Rightarrow> felt \<Rightarrow> (state_error, felt) res" where
  "get_storage_at_async E s \<sigma> contract_address key =
     bindR (get_contract_state_async E s \<sigma> contract_address) (\<lambda>c.
     bindR (map_err StateReadError_Tree
             (PatriciaTree_get_leaves (storage_te E) s (storage_commitment_tree c) [key] None)) (\<lambda>(storage_items, _).
     bindR (ok_or (StateReadError_Missing key) (map_of storage_items key)) (\<lambda>leaf. Inr (leaf_value leaf))))"

text \<open>The functions of the trait \<open>StateReader\<close>; a missing runtime is a panic in those that unwrap it.\<close>

definition unwrap_runtime :: "(runtime_error, ('e, 'a) res) res \<Rightarrow> ('e, 'a) res" where
  "unwrap_runtime r =
     (case r of
        Inr v \<Rightarrow> v
      | Inl (Error _) \<Rightarrow> Inl (Panic ''Tokio runtime not found'')
      | Inl (Panic m) \<Rightarrow> Inl (Panic m))"

definition get_storage_at ::
  "'s state_env \<Rightarrow> bool \<Rightarrow> 's \<Rightarrow> shared_state \<Rightarrow> felt \<Rightarrow> felt \<Rightarrow> (state_error, felt) res" where
  "get_storage_at E rt s \<sigma> contract_address key =
     unwrap_runtime (execute_coroutine rt (get_storage_at_async E s \<sigma> contract_address key))"

definition get_nonce_at :: "'s state_env \<Rightarrow> bool \<Rightarrow> 's \<Rightarrow> shared_state \<Rightarrow> felt \<Rightarrow> (state_error, felt) res" where
  "get_nonce_at E rt s \<sigma> contract_address =
     bindR (get_contract_state E rt s \<sigma> contract_address) (\<lambda>c. Inr (nonce c))"

definition get_class_hash_at :: "'s state_env \<Rightarrow> bool \<Rightarrow> 's \<Rightarrow> shared_state \<Rightarrow> felt \<Rightarrow> (state_error, felt) res" where
  "get_class_hash_at E rt s \<sigma> contract_address =
     bindR (get_contract_state E rt s \<sigma> contract_address) (\<lambda>c. Inr (felt_from_bytes_be_slice (contract_hash c)))"

definition get_compiled_class_hash ::
  "'s state_env \<Rightarrow> bool \<Rightarrow> 's \<Rightarrow> shared_state \<Rightarrow> felt \<Rightarrow> (state_error, felt) res" where
  "get_compiled_class_hash E rt s \<sigma> class_hash =
     unwrap_runtime (execute_coroutine rt (get_compiled_class_hash_async E s \<sigma> class_hash))"

section \<open>The abstract state\<close>

record abs_state =
  ac_class :: "nat \<Rightarrow> felt"
  ac_nonce :: "nat \<Rightarrow> felt"
  ac_storage :: "nat \<Rightarrow> nat \<Rightarrow> felt"
  ac_compiled :: "nat \<Rightarrow> felt"

definition storage_leaves :: "abs_state \<Rightarrow> nat \<Rightarrow> nat \<Rightarrow> storage_leaf" where
  "storage_leaves A i = (\<lambda>k. StorageLeaf_new (ac_storage A i k))"

definition class_leaves :: "abs_state \<Rightarrow> nat \<Rightarrow> contract_class_leaf" where
  "class_leaves A c = ContractClassLeaf_create (ac_compiled A c)"

definition storage_root :: "'s state_env \<Rightarrow> abs_state \<Rightarrow> nat \<Rightarrow> patricia_tree" where
  "storage_root E A i = \<lparr> tree_root = spec_root (storage_te E) 251 (storage_leaves A i), tree_height = 251 \<rparr>"

definition contract_leaf :: "'s state_env \<Rightarrow> abs_state \<Rightarrow> nat \<Rightarrow> contract_state" where
  "contract_leaf E A i =
     \<lparr> contract_hash = felt_to_bytes_be (ac_class A i), storage_commitment_tree = storage_root E A i,
       nonce = ac_nonce A i \<rparr>"

text \<open>
  A state with its storage stands for an abstract state: all its trees, the storage trees of all
  contracts included, hold the values of the abstract state.
\<close>

definition state_repr ::
  "'s state_env \<Rightarrow> (bytes \<rightharpoonup> bytes) \<Rightarrow> 's \<Rightarrow> shared_state \<Rightarrow> abs_state \<Rightarrow> bool" where
  "state_repr E W s \<sigma> A \<longleftrightarrow>
     st_lookup (se_storage E) s \<subseteq>\<^sub>m W \<and>
     tree_height (contract_states \<sigma>) = 251 \<and>
     represents (contract_te E) (ContractState_wf 251) s (contract_states \<sigma>) (contract_leaf E A) \<and>
     (\<forall>i < 2 ^ 251. represents (storage_te E) StorageLeaf_wf s (storage_root E A i) (storage_leaves A i)) \<and>
     (case contract_classes \<sigma> of
        None \<Rightarrow> True
      | Some t \<Rightarrow> tree_height t = 251 \<and>
          represents (class_te E (se_poseidon E)) ContractClassLeaf_wf s t (class_leaves A))"

text \<open>The trees of an abstract state fit into the database.\<close>

definition state_fits :: "'s state_env \<Rightarrow> (bytes \<rightharpoonup> bytes) \<Rightarrow> abs_state \<Rightarrow> bool" where
  "state_fits E W A \<longleftrightarrow>
     fits (contract_te E) (ContractState_wf 251) W 251 (contract_leaf E A) \<and>
     (\<forall>i < 2 ^ 251. fits (storage_te E) StorageLeaf_wf W 251 (storage_leaves A i)) \<and>
     fits (class_te E (se_poseidon E)) ContractClassLeaf_wf W 251 (class_leaves A)"

definition state_env_ok :: "'s state_env \<Rightarrow> bool" where
  "state_env_ok E \<longleftrightarrow>
     storage_laws (se_storage E) \<and> hash_laws (se_hash E) \<and> hash_laws (se_poseidon E) \<and>
     json_ok (ContractState_wf 251) (se_state_json E) \<and> json_ok ContractClassLeaf_wf (se_class_json E)"

text \<open>The effect of a state diff on the abstract state.\<close>

definition overwrite :: "('k, 'v) hash_map \<Rightarrow> ('k \<Rightarrow> 'v) \<Rightarrow> 'k \<Rightarrow> 'v" where
  "overwrite m f i = (case map_of m i of Some v \<Rightarrow> v | None \<Rightarrow> f i)"

definition spec_apply ::
  "(felt, felt) hash_map \<Rightarrow> (felt, felt) hash_map \<Rightarrow> (felt, felt) hash_map
   \<Rightarrow> (felt, (felt, felt) hash_map) hash_map \<Rightarrow> abs_state \<Rightarrow> abs_state" where
  "spec_apply classes nonces compiled stores A =
     \<lparr> ac_class = overwrite classes (ac_class A),
       ac_nonce = overwrite nonces (ac_nonce A),
       ac_storage = (\<lambda>i. overwrite (case map_of stores i of Some u \<Rightarrow> u | None \<Rightarrow> []) (ac_storage A i)),
       ac_compiled = overwrite compiled (ac_compiled A) \<rparr>"

text \<open>The maps of a diff have no duplicate keys, and the keys are leaves of the trees.\<close>

definition keys_below :: "nat \<Rightarrow> (nat, 'v) hash_map \<Rightarrow> bool" where
  "keys_below h m \<longleftrightarrow> hm_wf m \<and> (\<forall>(k, v) \<in> set m. k < 2 ^ h)"

definition diff_ok ::
  "(felt, felt) hash_map \<Rightarrow> (felt, felt) hash_map \<Rightarrow> (felt, felt) hash_map
   \<Rightarrow> (felt, (felt, felt) hash_map) hash_map \<Rightarrow> bool" where
  "diff_ok classes nonces compiled stores \<longleftrightarrow>
     keys_below 251 classes \<and> keys_below 251 nonces \<and> keys_below 251 compiled \<and> keys_below 251 stores \<and>
     (\<forall>(a, u) \<in> set stores. keys_below 251 u)"

section \<open>Applying a state diff\<close>

lemma te_simps [simp]:
  "env_storage (storage_te E) = se_storage E" "env_storage (contract_te E) = se_storage E"
  "env_storage (class_te E H) = se_storage E"
  by (simp_all add: storage_te_def contract_te_def class_te_def)

lemma state_env_trees:
  assumes "state_env_ok E"
  shows "patricia_env (storage_te E) StorageLeaf_wf" "patricia_env (contract_te E) (ContractState_wf 251)"
    "patricia_env (class_te E (se_poseidon E)) ContractClassLeaf_wf"
  using assms
  by (simp_all add: state_env_ok_def storage_te_def contract_te_def class_te_def storage_tree_env
      contract_tree_env class_tree_env)

lemma overwrite_mods:
  assumes "hm_wf m"
  shows "apply_mods (mods_map (map (\<lambda>(k, v). (k, g v)) m)) (\<lambda>i. g (f i)) = (\<lambda>i. g (overwrite m f i))"
proof -
  have "distinct (map fst (map (\<lambda>(k, v). (k, g v)) m))"
    using assms by (simp add: hm_wf_def comp_def case_prod_beta)
  then have "mods_map (map (\<lambda>(k, v). (k, g v)) m) i = map_option g (map_of m i)" for i
    by (simp add: mods_map_def map_of_rev_distinct map_of_map)
  then show ?thesis by (auto simp: fun_eq_iff apply_mods_def overwrite_def split: option.splits)
qed

lemma spec_apply_other:
  assumes "i \<notin> set (hm_keys classes @ hm_keys nonces @ hm_keys stores)"
  shows "contract_leaf E (spec_apply classes nonces compiled stores A) i = contract_leaf E A i"
    "storage_leaves (spec_apply classes nonces compiled stores A) i = storage_leaves A i"
    "storage_root E (spec_apply classes nonces compiled stores A) i = storage_root E A i"
proof -
  have "map_of classes i = None" "map_of nonces i = None" "map_of stores i = None"
    using assms by (simp_all add: map_of_eq_None_iff hm_keys_def)
  then show "contract_leaf E (spec_apply classes nonces compiled stores A) i = contract_leaf E A i"
    "storage_leaves (spec_apply classes nonces compiled stores A) i = storage_leaves A i"
    "storage_root E (spec_apply classes nonces compiled stores A) i = storage_root E A i"
    by (simp_all add: contract_leaf_def storage_root_def storage_leaves_def spec_apply_def overwrite_def)
qed

lemma contract_state_update_ok:
  assumes E: "state_env_ok E"
    and t: "represents (storage_te E) StorageLeaf_wf s (storage_root E A i) (storage_leaves A i)"
    and u: "keys_below 251 (case map_of stores i of Some u \<Rightarrow> u | None \<Rightarrow> [])"
    and W: "fits (storage_te E) StorageLeaf_wf W 251 (storage_leaves (spec_apply classes nonces compiled stores A) i)"
    and s: "st_lookup (se_storage E) s \<subseteq>\<^sub>m W"
  shows "\<exists>s'. ContractState_update E (contract_leaf E A i) s (case map_of stores i of Some u \<Rightarrow> u | None \<Rightarrow> [])
      (map_of nonces i) (map_of classes i) =
      Inr (contract_leaf E (spec_apply classes nonces compiled stores A) i, s') \<and>
    represents (storage_te E) StorageLeaf_wf s' (storage_root E (spec_apply classes nonces compiled stores A) i)
      (storage_leaves (spec_apply classes nonces compiled stores A) i) \<and>
    st_lookup (se_storage E) s \<subseteq>\<^sub>m st_lookup (se_storage E) s' \<and> st_lookup (se_storage E) s' \<subseteq>\<^sub>m W"
proof -
  let ?A = "spec_apply classes nonces compiled stores A"
  let ?u = "case map_of stores i of Some u \<Rightarrow> u | None \<Rightarrow> []"
  let ?ms = "map (\<lambda>(k, v). (k, StorageLeaf_new v)) ?u"
  have new: "apply_mods (mods_map ?ms) (storage_leaves A i) = storage_leaves ?A i"
    unfolding storage_leaves_def using u
    by (subst overwrite_mods) (simp_all add: keys_below_def spec_apply_def)
  have idx: "\<forall>(k, x) \<in> set ?ms. k < 2 ^ tree_height (storage_root E A i)"
    using u by (auto simp: keys_below_def storage_root_def)
  have h: "tree_height (storage_root E A i) = 251" by (simp add: storage_root_def)
  obtain t' s' facts' where "PatriciaTree_update (storage_te E) s (storage_root E A i) ?ms None = Inr (t', s', facts')"
    "t' = storage_root E ?A i" "represents (storage_te E) StorageLeaf_wf s' t' (storage_leaves ?A i)"
    "st_lookup (se_storage E) s \<subseteq>\<^sub>m st_lookup (se_storage E) s'" "st_lookup (se_storage E) s' \<subseteq>\<^sub>m W"
    using patricia_env.update_in_database [OF state_env_trees(1) [OF E] t idx, of W None] W s
    unfolding new h te_simps by (auto simp: storage_root_def)
  then show ?thesis
    by (intro exI [of _ s']) (auto simp: ContractState_update_def contract_leaf_def spec_apply_def overwrite_def
        split: option.splits)
qed

text \<open>
  The loop over the accessed addresses, from a map that holds the current leaves: every address gets
  its new leaf, and the storage holds the new storage trees besides the old ones.
\<close>

lemma update_contract_states_ok:
  fixes classes nonces compiled stores A
  defines "A' \<equiv> spec_apply classes nonces compiled stores A"
  assumes E: "state_env_ok E"
    and W: "\<forall>i < 2 ^ 251. fits (storage_te E) StorageLeaf_wf W 251 (storage_leaves A' i)"
    and d: "diff_ok classes nonces compiled stores"
    and as: "distinct as" "\<forall>a \<in> set as. a < 2 ^ 251 \<and> map_of cur a = Some (contract_leaf E A a)"
    and t: "\<forall>i < 2 ^ 251. represents (storage_te E) StorageLeaf_wf s (storage_root E A i) (storage_leaves A i)"
    and s: "st_lookup (se_storage E) s \<subseteq>\<^sub>m W" and upd: "hm_wf upd"
  shows "\<exists>cur' upd' s'. foldR (update_contract_states E classes nonces stores) (cur, upd, s) as = Inr (cur', upd', s') \<and>
    hm_wf upd' \<and> (\<forall>i. map_of upd' i = (if i \<in> set as then Some (contract_leaf E A' i) else map_of upd i)) \<and>
    (\<forall>i \<in> set as. represents (storage_te E) StorageLeaf_wf s' (storage_root E A' i) (storage_leaves A' i)) \<and>
    st_lookup (se_storage E) s \<subseteq>\<^sub>m st_lookup (se_storage E) s' \<and> st_lookup (se_storage E) s' \<subseteq>\<^sub>m W"
  using as t s upd
proof (induction as arbitrary: cur upd s)
  case Nil
  then show ?case by simp
next
  case (Cons a as)
  let ?St = "st_lookup (se_storage E)"
  have a: "a < 2 ^ 251" "map_of cur a = Some (contract_leaf E A a)" using Cons.prems(2) by auto
  have u: "keys_below 251 (case map_of stores a of Some u \<Rightarrow> u | None \<Rightarrow> [])"
    using d by (auto simp: diff_ok_def keys_below_def hm_wf_def split: option.splits dest: map_of_SomeD)
  obtain s1 where s1: "ContractState_update E (contract_leaf E A a) s
      (case map_of stores a of Some u \<Rightarrow> u | None \<Rightarrow> []) (map_of nonces a) (map_of classes a) =
      Inr (contract_leaf E A' a, s1)"
    and t1: "represents (storage_te E) StorageLeaf_wf s1 (storage_root E A' a) (storage_leaves A' a)"
    and g1: "?St s \<subseteq>\<^sub>m ?St s1" "?St s1 \<subseteq>\<^sub>m W"
    using contract_state_update_ok [OF E Cons.prems(3) [rule_format, OF a(1)] u, of W classes nonces compiled]
      W a(1) Cons.prems(4) unfolding A'_def by blast
  have step: "update_contract_states E classes nonces stores (cur, upd, s) a =
      Inr (hm_remove a cur, hm_insert a (contract_leaf E A' a) upd, s1)"
    by (simp add: update_contract_states_def a s1 Let_def)
  have keep: "represents (storage_te E) StorageLeaf_wf s' t f"
    if "represents (storage_te E) StorageLeaf_wf s t f" "?St s \<subseteq>\<^sub>m ?St s'" for s s' t f
    using represents_mono [OF that(1)] that(2) by simp
  have rest: "\<forall>b \<in> set as. b < 2 ^ 251 \<and> map_of (hm_remove a cur) b = Some (contract_leaf E A b)"
    using Cons.prems(1,2) by auto
  obtain cur' upd' s' where IH: "foldR (update_contract_states E classes nonces stores)
      (hm_remove a cur, hm_insert a (contract_leaf E A' a) upd, s1) as = Inr (cur', upd', s')" "hm_wf upd'"
    "\<forall>i. map_of upd' i = (if i \<in> set as then Some (contract_leaf E A' i)
       else map_of (hm_insert a (contract_leaf E A' a) upd) i)"
    "\<forall>i \<in> set as. represents (storage_te E) StorageLeaf_wf s' (storage_root E A' i) (storage_leaves A' i)"
    "?St s1 \<subseteq>\<^sub>m ?St s'" "?St s' \<subseteq>\<^sub>m W"
    using Cons.IH [OF _ rest _ g1(2), of "hm_insert a (contract_leaf E A' a) upd"] Cons.prems(1,3,5) keep g1(1)
    by (metis distinct.simps(2) hm_wf_insert)
  have "?St s \<subseteq>\<^sub>m ?St s'" using map_le_trans g1(1) IH(5) by blast
  then show ?case
    using IH step keep [OF t1 IH(5)] Cons.prems(1)
    by (intro exI [of _ cur'] exI [of _ upd'] exI [of _ s']) auto
qed

text \<open>The update of the class tree, when there is one.\<close>

lemma update_class_tree_ok:
  assumes E: "state_env_ok E" and s: "st_lookup (se_storage E) s \<subseteq>\<^sub>m W"
    and t: "tree_height t = 251" "represents (class_te E (se_poseidon E)) ContractClassLeaf_wf s t (class_leaves A)"
    and d: "diff_ok classes nonces compiled stores"
    and W: "state_fits E W (spec_apply classes nonces compiled stores A)"
  shows "\<exists>t' s' facts'. PatriciaTree_update (class_te E (se_poseidon E)) s t
      (map (\<lambda>(key, value). (key, ContractClassLeaf_create value)) compiled) facts = Inr (t', s', facts') \<and>
    tree_height t' = 251 \<and>
    represents (class_te E (se_poseidon E)) ContractClassLeaf_wf s' t'
      (class_leaves (spec_apply classes nonces compiled stores A)) \<and>
    st_lookup (se_storage E) s \<subseteq>\<^sub>m st_lookup (se_storage E) s' \<and> st_lookup (se_storage E) s' \<subseteq>\<^sub>m W"
proof -
  let ?ms = "map (\<lambda>(key, value). (key, ContractClassLeaf_create value)) compiled"
  let ?A = "spec_apply classes nonces compiled stores A"
  have new: "apply_mods (mods_map ?ms) (class_leaves A) = class_leaves ?A"
    using overwrite_mods [of compiled ContractClassLeaf_create "ac_compiled A"] d
    by (simp add: diff_ok_def keys_below_def class_leaves_def [abs_def] spec_apply_def)
  have idx: "\<forall>(k, x) \<in> set ?ms. k < 2 ^ tree_height t"
    using d t(1) by (auto simp: keys_below_def diff_ok_def)
  show ?thesis
    using patricia_env.update_in_database [OF state_env_trees(3) [OF E] t(2) idx, of W facts] W s
    unfolding new t(1) te_simps by (auto simp: state_fits_def)
qed

text \<open>The update of the tree of contracts with the new leaves of all accessed addresses.\<close>

lemma update_contract_tree_ok:
  fixes classes nonces compiled stores A
  defines "A' \<equiv> spec_apply classes nonces compiled stores A"
    and "as \<equiv> remdups (hm_keys classes @ hm_keys nonces @ hm_keys stores)"
  assumes E: "state_env_ok E" and s: "st_lookup (se_storage E) s \<subseteq>\<^sub>m W"
    and t: "tree_height t = 251" "represents (contract_te E) (ContractState_wf 251) s t (contract_leaf E A)"
    and as: "\<forall>a \<in> set as. a < 2 ^ 251"
    and upd: "hm_wf upd" "\<forall>i. map_of upd i = (if i \<in> set as then Some (contract_leaf E A' i) else None)"
    and W: "state_fits E W A'"
  shows "\<exists>t' s' facts'. PatriciaTree_update (contract_te E) s t upd facts = Inr (t', s', facts') \<and>
    tree_height t' = 251 \<and>
    represents (contract_te E) (ContractState_wf 251) s' t' (contract_leaf E A') \<and>
    st_lookup (se_storage E) s \<subseteq>\<^sub>m st_lookup (se_storage E) s' \<and> st_lookup (se_storage E) s' \<subseteq>\<^sub>m W"
proof -
  have "contract_leaf E A' i = contract_leaf E A i" if "i \<notin> set as" for i
    using that spec_apply_other [of i classes nonces stores] by (simp add: as_def A'_def)
  moreover have "mods_map upd = map_of upd" using upd(1) by (simp add: mods_map_def map_of_rev_distinct hm_wf_def)
  ultimately have new: "apply_mods (mods_map upd) (contract_leaf E A) = contract_leaf E A'"
    by (auto simp: apply_mods_def fun_eq_iff upd(2))
  have idx: "\<forall>(k, x) \<in> set upd. k < 2 ^ tree_height t"
  proof (rule ballI, clarify)
    fix k x
    assume "(k, x) \<in> set upd"
    then have "map_of upd k = Some x" using upd(1) by (simp add: hm_wf_map_of_iff)
    then show "k < 2 ^ tree_height t" using upd(2) as t(1) by (simp split: if_splits)
  qed
  show ?thesis
    using patricia_env.update_in_database [OF state_env_trees(2) [OF E] t(2) idx, of W facts] W s
    unfolding new t(1) te_simps by (auto simp: state_fits_def)
qed

lemma apply_state_updates_ok:
  fixes classes nonces compiled stores A
  defines "A' \<equiv> spec_apply classes nonces compiled stores A"
  assumes E: "state_env_ok E" and r: "state_repr E W s \<sigma> A" and d: "diff_ok classes nonces compiled stores"
    and old: "contract_classes \<sigma> = None \<longrightarrow> compiled = []" and W: "state_fits E W A'"
  shows "\<exists>\<sigma>' s'. apply_state_updates E s \<sigma> classes nonces compiled stores = Inr (\<sigma>', s') \<and>
    state_repr E W s' \<sigma>' A' \<and> st_lookup (se_storage E) s \<subseteq>\<^sub>m st_lookup (se_storage E) s' \<and>
    (contract_classes \<sigma>' = None \<longleftrightarrow> contract_classes \<sigma> = None) \<and>
    set (contract_addresses \<sigma>') = set (contract_addresses \<sigma>) \<union> fst ` (set classes \<union> set nonces) \<union> fst ` set stores"
proof -
  let ?St = "st_lookup (se_storage E)" and ?as = "remdups (hm_keys classes @ hm_keys nonces @ hm_keys stores)"
  have s: "?St s \<subseteq>\<^sub>m W" and h: "tree_height (contract_states \<sigma>) = 251"
    and t: "represents (contract_te E) (ContractState_wf 251) s (contract_states \<sigma>) (contract_leaf E A)"
    and st: "\<forall>i < 2 ^ 251. represents (storage_te E) StorageLeaf_wf s (storage_root E A i) (storage_leaves A i)"
    and cl: "case contract_classes \<sigma> of None \<Rightarrow> True | Some t \<Rightarrow> tree_height t = 251 \<and>
          represents (class_te E (se_poseidon E)) ContractClassLeaf_wf s t (class_leaves A)"
    using r unfolding state_repr_def by blast+
  have as: "\<forall>a \<in> set ?as. a < 2 ^ 251"
    using d by (auto simp: diff_ok_def keys_below_def hm_keys_def)
  obtain cur facts1 where g: "PatriciaTree_get_leaves (contract_te E) s (contract_states \<sigma>) ?as None = Inr (cur, facts1)"
    and cur: "holds_leaves cur (set ?as) (contract_leaf E A)"
    using represents_get_leaves [OF t, of ?as None] as h by auto
  have fr: "\<forall>i < 2 ^ 251. fits (storage_te E) StorageLeaf_wf W 251 (storage_leaves A' i)"
    using W by (simp add: state_fits_def)
  have cur': "\<forall>a \<in> set ?as. a < 2 ^ 251 \<and> map_of cur a = Some (contract_leaf E A a)"
    using as cur unfolding holds_leaves_def by metis
  obtain cur' upd s1 where f: "foldR (update_contract_states E classes nonces stores) (cur, [], s) ?as = Inr (cur', upd, s1)"
    and upd: "hm_wf upd" "\<forall>i. map_of upd i = (if i \<in> set ?as then Some (contract_leaf E A' i) else map_of [] i)"
    and st1: "\<forall>i \<in> set ?as. represents (storage_te E) StorageLeaf_wf s1 (storage_root E A' i) (storage_leaves A' i)"
    and g1: "?St s \<subseteq>\<^sub>m ?St s1" "?St s1 \<subseteq>\<^sub>m W"
    using update_contract_states_ok [OF E fr [unfolded A'_def] d distinct_remdups cur' st s hm_wf_simps(1)]
    unfolding A'_def by blast
  have t1: "represents (contract_te E) (ContractState_wf 251) s1 (contract_states \<sigma>) (contract_leaf E A)"
    using represents_mono [OF t] g1 by simp
  obtain ct s2 facts2 where c: "PatriciaTree_update (contract_te E) s1 (contract_states \<sigma>) upd facts1 = Inr (ct, s2, facts2)"
    "tree_height ct = 251" "represents (contract_te E) (ContractState_wf 251) s2 ct (contract_leaf E A')"
    and g2: "?St s1 \<subseteq>\<^sub>m ?St s2" "?St s2 \<subseteq>\<^sub>m W"
    using update_contract_tree_ok [OF E g1(2) h t1 as upd(1) _ W [unfolded A'_def], of facts1] upd(2)
    unfolding A'_def by (simp only: map_of.simps) blast
  have st2: "represents (storage_te E) StorageLeaf_wf s' (storage_root E A' i) (storage_leaves A' i)"
    if i: "i < 2 ^ 251" and s': "?St s2 \<subseteq>\<^sub>m ?St s'" for i s'
  proof (cases "i \<in> set ?as")
    case True
    then show ?thesis using represents_mono [OF bspec [OF st1 True]] map_le_trans [OF g2(1) s'] by simp
  next
    case False
    have "?St s \<subseteq>\<^sub>m ?St s'" using map_le_trans [OF g1(1) map_le_trans [OF g2(1) s']] .
    moreover have "storage_leaves A' i = storage_leaves A i" "storage_root E A' i = storage_root E A i"
      using False spec_apply_other(2,3) [of i classes nonces stores] by (simp_all add: A'_def)
    ultimately show ?thesis using represents_mono [OF st [rule_format, OF i]] by simp
  qed
  have keep: "represents (contract_te E) (ContractState_wf 251) s' ct (contract_leaf E A')"
    if "?St s2 \<subseteq>\<^sub>m ?St s'" for s' using represents_mono [OF c(3)] that by simp
  have addrs: "set (remdups (contract_addresses \<sigma> @ ?as)) =
      set (contract_addresses \<sigma>) \<union> fst ` (set classes \<union> set nonces) \<union> fst ` set stores"
    by (auto simp: hm_keys_def)
  show ?thesis
  proof (cases "contract_classes \<sigma>")
    case None
    then show ?thesis
      using st2 [of _ s2] keep [of s2] g1 g2 c old addrs map_le_trans [OF g1(1) g2(1)]
      by (simp add: apply_state_updates_def g f assert_that_def state_repr_def Let_def)
  next
    case (Some ctree)
    then have "tree_height ctree = 251"
      "represents (class_te E (se_poseidon E)) ContractClassLeaf_wf s2 ctree (class_leaves A)"
      using cl represents_mono [of "class_te E (se_poseidon E)" ContractClassLeaf_wf s ctree "class_leaves A" s2]
        map_le_trans [OF g1(1) g2(1)] by auto
    from update_class_tree_ok [OF E g2(2) this d W [unfolded A'_def], of facts2]
    obtain ct' s3 facts3 where k: "PatriciaTree_update (class_te E (se_poseidon E)) s2 ctree
        (map (\<lambda>(key, value). (key, ContractClassLeaf_create value)) compiled) facts2 = Inr (ct', s3, facts3)"
      "tree_height ct' = 251" "represents (class_te E (se_poseidon E)) ContractClassLeaf_wf s3 ct' (class_leaves A')"
      and g3: "?St s2 \<subseteq>\<^sub>m ?St s3" "?St s3 \<subseteq>\<^sub>m W"
      unfolding A'_def by blast
    show ?thesis
      using st2 [OF _ g3(1)] keep [OF g3(1)] g3(2) c(1,2) k addrs Some map_le_trans [OF g1(1) map_le_trans [OF g2(1) g3(1)]]
      by (simp add: apply_state_updates_def g f state_repr_def Let_def)
  qed
qed

end
