(* ===== verification/State_Properties.thy ===== *)
theory State_Properties
  imports Shared_State
begin

text \<open>
  The properties of the global state: the readers return the values of the abstract state, a state diff
  acts as the update of its functions, the state built from a blockifier state reads like it, and
  the global root is the hash of the roots of the abstract state.

  The diff in the witnesses sets a nonce and declares a class.
\<close>

section \<open>Readers\<close>

lemma state_reprD:
  assumes "state_repr E W s \<sigma> A"
  shows "st_lookup (se_storage E) s \<subseteq>\<^sub>m W" "tree_height (contract_states \<sigma>) = 251"
    "represents (contract_te E) (ContractState_wf 251) s (contract_states \<sigma>) (contract_leaf E A)"
    "i < 2 ^ 251 \<Longrightarrow> represents (storage_te E) StorageLeaf_wf s (storage_root E A i) (storage_leaves A i)"
    "contract_classes \<sigma> = Some t \<Longrightarrow> tree_height t = 251"
    "contract_classes \<sigma> = Some t \<Longrightarrow>
      represents (class_te E (se_poseidon E)) ContractClassLeaf_wf s t (class_leaves A)"
  using assms unfolding state_repr_def by auto

lemma state_repr_mono:
  assumes r: "state_repr E W s \<sigma> A" and s': "st_lookup (se_storage E) s \<subseteq>\<^sub>m st_lookup (se_storage E) s'"
    and W: "st_lookup (se_storage E) s' \<subseteq>\<^sub>m W"
  shows "state_repr E W s' \<sigma> A"
proof -
  have keep: "represents e valid s t f \<Longrightarrow> env_storage e = se_storage E \<Longrightarrow> represents e valid s' t f"
    for e :: "('a, 'lf) tree_env" and valid t f
    using represents_mono [of e valid s t f s'] s' by simp
  show ?thesis
    using state_reprD [OF r] W by (auto simp: state_repr_def intro!: keep split: option.splits)
qed

lemma read_contract_state:
  assumes r: "state_repr E W s \<sigma> A" and a: "a < 2 ^ 251"
  shows "get_contract_state_async E s \<sigma> a = Inr (contract_leaf E A a)"
proof -
  obtain m facts where "PatriciaTree_get_leaves (contract_te E) s (contract_states \<sigma>) [a] None = Inr (m, facts)"
    "holds_leaves m {a} (contract_leaf E A)"
    using represents_get_leaves [OF state_reprD(3) [OF r], of "[a]" None] a state_reprD(2) [OF r] by auto
  then show ?thesis by (simp add: get_contract_state_async_def holds_leaves_def ok_or_def)
qed

lemma read_storage:
  assumes r: "state_repr E W s \<sigma> A" and a: "a < 2 ^ 251" and k: "k < 2 ^ 251"
  shows "get_storage_at_async E s \<sigma> a k = Inr (ac_storage A a k)"
proof -
  have "tree_height (storage_root E A a) = 251" by (simp add: storage_root_def)
  then obtain m facts where "PatriciaTree_get_leaves (storage_te E) s (storage_root E A a) [k] None = Inr (m, facts)"
    "holds_leaves m {k} (storage_leaves A a)"
    using represents_get_leaves [OF state_reprD(4) [OF r a], of "[k]" None] k by auto
  then show ?thesis
    by (simp add: get_storage_at_async_def read_contract_state [OF r a] contract_leaf_def holds_leaves_def ok_or_def
        storage_leaves_def StorageLeaf_new_def)
qed

lemma read_compiled_class_hash:
  assumes r: "state_repr E W s \<sigma> A" and c: "c < 2 ^ 251" and t: "contract_classes \<sigma> \<noteq> None"
  shows "get_compiled_class_hash_async E s \<sigma> c =
    (if ac_compiled A c = 0 then Inl (Error (UndeclaredClassHash c)) else Inr (ac_compiled A c))"
proof -
  obtain t where t: "contract_classes \<sigma> = Some t" using t by auto
  have "PatriciaTree_get_leaf (class_te E (se_poseidon E)) s t c = Inr (Some (class_leaves A c))"
    using represents_get_leaf [OF state_reprD(6) [OF r t]] c state_reprD(5) [OF r t] by simp
  then show ?thesis
    by (simp add: get_compiled_class_hash_async_def t ok_or_def class_leaves_def ContractClassLeaf_create_def
        ContractClassLeaf_is_empty_def)
qed

text \<open>What a caller of the \<open>StateReader\<close> sees of a state, with a runtime.\<close>

definition reads_as :: "'s state_env \<Rightarrow> 's \<Rightarrow> shared_state \<Rightarrow> abs_state \<Rightarrow> bool" where
  "reads_as E s \<sigma> A \<longleftrightarrow>
     (\<forall>a < 2 ^ 251. \<forall>k < 2 ^ 251. get_storage_at E True s \<sigma> a k = Inr (ac_storage A a k)) \<and>
     (\<forall>a < 2 ^ 251. get_nonce_at E True s \<sigma> a = Inr (ac_nonce A a)) \<and>
     (\<forall>a < 2 ^ 251. felt_wf (ac_class A a) \<longrightarrow> get_class_hash_at E True s \<sigma> a = Inr (ac_class A a)) \<and>
     (\<forall>c < 2 ^ 251. get_compiled_class_hash E True s \<sigma> c =
        (if contract_classes \<sigma> = None then Inr 0
         else if ac_compiled A c = 0 then Inl (Error (UndeclaredClassHash c)) else Inr (ac_compiled A c)))"

lemma state_repr_reads:
  assumes r: "state_repr E W s \<sigma> A"
  shows "reads_as E s \<sigma> A"
  unfolding reads_as_def
proof (intro conjI allI impI)
  fix a k :: nat
  assume a: "a < 2 ^ 251"
  show "get_storage_at E True s \<sigma> a k = Inr (ac_storage A a k)" if "k < 2 ^ 251"
    by (simp add: get_storage_at_def execute_coroutine_def unwrap_runtime_def read_storage [OF r a that])
  show "get_nonce_at E True s \<sigma> a = Inr (ac_nonce A a)"
    by (simp add: get_nonce_at_def get_contract_state_def execute_coroutine_def read_contract_state [OF r a] contract_leaf_def)
  show "get_class_hash_at E True s \<sigma> a = Inr (ac_class A a)" if "felt_wf (ac_class A a)"
    using that by (simp add: get_class_hash_at_def get_contract_state_def execute_coroutine_def
        read_contract_state [OF r a] contract_leaf_def)
  show "get_compiled_class_hash E True s \<sigma> a =
      (if contract_classes \<sigma> = None then Inr 0
       else if ac_compiled A a = 0 then Inl (Error (UndeclaredClassHash a)) else Inr (ac_compiled A a))"
    using read_compiled_class_hash [OF r a]
    by (simp add: get_compiled_class_hash_def execute_coroutine_def unwrap_runtime_def get_compiled_class_hash_async_def)
qed

section \<open>The empty state\<close>

definition abs_zero :: abs_state where
  "abs_zero = \<lparr> ac_class = (\<lambda>_. 0), ac_nonce = (\<lambda>_. 0), ac_storage = (\<lambda>_ _. 0), ac_compiled = (\<lambda>_. 0) \<rparr>"

lemma abs_zero_simps [simp]:
  "ac_class abs_zero i = 0" "ac_nonce abs_zero i = 0" "ac_storage abs_zero i k = 0" "ac_compiled abs_zero i = 0"
  by (simp_all add: abs_zero_def)

lemma zero_leaves:
  "storage_leaves abs_zero i = (\<lambda>_. StorageLeaf_empty)" "class_leaves abs_zero = (\<lambda>_. ContractClassLeaf_empty)"
  by (simp_all add: storage_leaves_def class_leaves_def [abs_def] abs_zero_def StorageLeaf_new_def StorageLeaf_empty_def
      ContractClassLeaf_create_def ContractClassLeaf_empty_def)

lemma zero_storage_root:
  assumes "state_env_ok E"
  shows "storage_root E abs_zero i = \<lparr> tree_root = EMPTY_HASH, tree_height = 251 \<rparr>"
proof -
  have "leaf_hashes (storage_te E) (\<lambda>_. StorageLeaf_empty) j = EMPTY_HASH" for j
    by (simp add: leaf_hashes_def storage_te_def storage_lhash EMPTY_HASH_eq Hash_empty_felt)
  then show ?thesis
    using patricia_env.all_empty_facts(2) [OF state_env_trees(1) [OF assms], of 251 "\<lambda>_. StorageLeaf_empty"]
    by (simp add: storage_root_def zero_leaves)
qed

definition empty_contract :: contract_state where
  "empty_contract = \<lparr> contract_hash = UNINITIALIZED_CLASS_HASH,
     storage_commitment_tree = \<lparr> tree_root = EMPTY_HASH, tree_height = 251 \<rparr>, nonce = 0 \<rparr>"

lemma empty_contract_wf [simp]:
  "ContractState_wf 251 empty_contract" "ContractState_is_empty empty_contract"
  by (simp_all add: empty_contract_def ContractState_wf_def ContractState_is_empty_def EMPTY_NODE_HASH_eq EMPTY_HASH_eq)

lemma zero_contract_leaf:
  "state_env_ok E \<Longrightarrow> contract_leaf E abs_zero = (\<lambda>_. empty_contract)"
  by (simp add: fun_eq_iff contract_leaf_def zero_storage_root empty_contract_def EMPTY_NODE_HASH_eq
      Hash_empty_felt Hash_of_felt_def Hash_from_bytes_be_def)

lemma empty_class_tree_hash:
  "PatriciaTree_empty_tree (class_te E H) s h ContractClassLeaf_empty =
   PatriciaTree_empty_tree (class_te E H') s h ContractClassLeaf_empty"
  by (simp add: PatriciaTree_empty_tree_def set_fact_def db_set_def db_key_def class_te_def ContractClassLeaf_def
      ContractClassLeaf_hash_def ContractClassLeaf_is_empty_def ContractClassLeaf_empty_def)

lemma empty_state_ok:
  assumes E: "state_env_ok E" and W: "state_fits E W abs_zero" and s: "st_lookup (se_storage E) s \<subseteq>\<^sub>m W"
  shows "\<exists>\<sigma> s'. SharedState_empty E s = Inr (\<sigma>, s') \<and> state_repr E W s' \<sigma> abs_zero \<and>
    contract_classes \<sigma> \<noteq> None \<and> contract_addresses \<sigma> = [] \<and>
    st_lookup (se_storage E) s \<subseteq>\<^sub>m st_lookup (se_storage E) s'"
proof -
  let ?t = "\<lparr> tree_root = EMPTY_HASH, tree_height = 251 \<rparr>" and ?St = "st_lookup (se_storage E)"
  note env = state_env_trees [OF E]
  have W1: "fits (storage_te E) StorageLeaf_wf W 251 (\<lambda>_. StorageLeaf_empty)"
    "fits (contract_te E) (ContractState_wf 251) W 251 (\<lambda>_. empty_contract)"
    "fits (class_te E (se_poseidon E)) ContractClassLeaf_wf W 251 (\<lambda>_. ContractClassLeaf_empty)"
    using W unfolding state_fits_def zero_leaves zero_contract_leaf [OF E]
    by (meson zero_less_numeral zero_less_power)+
  obtain s1 where s1: "PatriciaTree_empty_tree (storage_te E) s 251 StorageLeaf_empty = Inr (?t, s1)"
    "represents (storage_te E) StorageLeaf_wf s1 ?t (\<lambda>_. StorageLeaf_empty)" "?St s \<subseteq>\<^sub>m ?St s1" "?St s1 \<subseteq>\<^sub>m W"
    using patricia_env.empty_tree_in_database [OF env(1) _ _ W1(1), of s] s by (auto simp: storage_te_def)
  obtain s2 where s2: "PatriciaTree_empty_tree (contract_te E) s1 251 empty_contract = Inr (?t, s2)"
    "represents (contract_te E) (ContractState_wf 251) s2 ?t (\<lambda>_. empty_contract)" "?St s1 \<subseteq>\<^sub>m ?St s2" "?St s2 \<subseteq>\<^sub>m W"
    using patricia_env.empty_tree_in_database [OF env(2) _ _ W1(2), of s1] s1(4)
    by (auto simp: contract_te_def ContractState_def)
  obtain s3 where s3: "PatriciaTree_empty_tree (class_te E (se_hash E)) s2 251 ContractClassLeaf_empty = Inr (?t, s3)"
    "represents (class_te E (se_poseidon E)) ContractClassLeaf_wf s3 ?t (\<lambda>_. ContractClassLeaf_empty)"
    "?St s2 \<subseteq>\<^sub>m ?St s3" "?St s3 \<subseteq>\<^sub>m W"
    using patricia_env.empty_tree_in_database [OF env(3) _ _ W1(3), of s2] s2(4)
      empty_class_tree_hash [of E "se_hash E" s2 251 "se_poseidon E"]
    by (auto simp: class_te_def ContractClassLeaf_def ContractClassLeaf_wf_def ContractClassLeaf_is_empty_def
        ContractClassLeaf_empty_def)
  have run: "SharedState_empty E s = Inr (\<lparr> contract_states = ?t, contract_classes = Some ?t, contract_addresses = [] \<rparr>, s3)"
    using s1(1) s2(1) s3(1)
    by (simp add: SharedState_empty_def create_empty_contract_states_def ContractState_empty_def
        create_empty_contract_class_tree_def CONTRACT_STATES_COMMITMENT_TREE_HEIGHT_def CONTRACT_ADDRESS_BITS_def
        COMPILED_CLASS_HASH_COMMITMENT_TREE_HEIGHT_def empty_contract_def)
  have "represents (contract_te E) (ContractState_wf 251) s3 ?t (\<lambda>_. empty_contract)"
    using represents_mono [OF s2(2)] s3(3) by simp
  moreover have "represents (storage_te E) StorageLeaf_wf s3 ?t (\<lambda>_. StorageLeaf_empty)"
    using represents_mono [OF s1(2)] map_le_trans [OF s2(3) s3(3)] by simp
  ultimately have "state_repr E W s3 \<lparr> contract_states = ?t, contract_classes = Some ?t, contract_addresses = [] \<rparr> abs_zero"
    using s3(2,4) by (simp add: state_repr_def zero_leaves zero_storage_root [OF E] zero_contract_leaf [OF E])
  then show ?thesis
    using run map_le_trans [OF s1(3) map_le_trans [OF s2(3) s3(3)]] by auto
qed

section \<open>State diffs\<close>

lemma hm_extend_distinct:
  "distinct (map fst (m @ n)) \<Longrightarrow> hm_extend m n = m @ n"
proof (induction n arbitrary: m)
  case (Cons kv n)
  have "AList.update (fst kv) (snd kv) m = m @ [kv]"
    using Cons.prems by (induction m) auto
  then show ?case using Cons.IH [of "m @ [kv]"] Cons.prems by (simp add: hm_insert_def)
qed simp

lemma hm_collect [simp]: "hm_wf m \<Longrightarrow> hm_extend [] m = m"
  using hm_extend_distinct [of "[]" m] by (simp add: hm_wf_def)

lemma collect_storage_updates:
  assumes "hm_wf m" and "\<forall>(a, u) \<in> set m. hm_wf u"
  shows "hm_extend [] (map (\<lambda>(address, updates). (address, hm_extend [] updates)) m) = m"
proof -
  have "map (\<lambda>(address, updates). (address, hm_extend [] updates)) m = m"
    using assms(2) by (auto intro!: map_idI)
  then show ?thesis using assms(1) by simp
qed

lemma starknet_api_eq:
  assumes "diff_ok classes nonces compiled stores"
  shows "apply_state_updates_starknet_api E s \<sigma> classes nonces compiled stores =
    apply_state_updates E s \<sigma> classes nonces compiled stores"
proof -
  have "\<forall>(a, u) \<in> set stores. hm_wf u" using assms by (auto simp: diff_ok_def keys_below_def)
  then show ?thesis
    using assms by (simp add: apply_state_updates_starknet_api_def diff_ok_def keys_below_def collect_storage_updates)
qed

lemma commitment_state_diff_eq:
  assumes "diff_ok (diff_address_to_class_hash D) (diff_address_to_nonce D)
    (diff_class_hash_to_compiled_class_hash D) (diff_storage_updates D)"
  shows "apply_commitment_state_diff E s \<sigma> D =
    apply_state_updates E s \<sigma> (diff_address_to_class_hash D) (diff_address_to_nonce D)
      (diff_class_hash_to_compiled_class_hash D) (diff_storage_updates D)"
proof -
  have "\<forall>(a, u) \<in> set (diff_storage_updates D). hm_wf u" using assms by (auto simp: diff_ok_def keys_below_def)
  then show ?thesis
    using assms starknet_api_eq [OF assms, of E s \<sigma>]
    by (simp add: apply_commitment_state_diff_def diff_ok_def keys_below_def collect_storage_updates)
qed

text \<open>The storage of a blockifier state, grouped by address.\<close>

lemma group_storage_view_inv:
  "hm_wf (group_storage_view view) \<and>
   (\<forall>a. case map_of (group_storage_view view) a of
      Some u \<Rightarrow> hm_wf u \<and> (\<forall>k. map_of u k = map_of (rev view) (a, k)) \<and> (\<exists>k. (a, k) \<in> fst ` set view)
    | None \<Rightarrow> (\<forall>k. map_of (rev view) (a, k) = None))"
proof (induction view rule: rev_induct)
  case (snoc e view)
  obtain a k v where e: "e = ((a, k), v)" by (metis surj_pair)
  let ?g = "group_storage_view view" and ?u = "case map_of (group_storage_view view) a of Some u \<Rightarrow> u | None \<Rightarrow> []"
  have new: "group_storage_view (view @ [e]) = hm_insert a (hm_insert k v ?u) ?g"
    by (simp add: group_storage_view_def e)
  have u: "hm_wf ?u \<and> (\<forall>k. map_of ?u k = map_of (rev view) (a, k))"
    using snoc.IH [THEN conjunct2, rule_format, of a] by (auto split: option.splits)
  have IH: "case map_of ?g b of
      Some u \<Rightarrow> hm_wf u \<and> (\<forall>k. map_of u k = map_of (rev view) (b, k)) \<and> (\<exists>k. (b, k) \<in> fst ` set view)
    | None \<Rightarrow> (\<forall>k. map_of (rev view) (b, k) = None)" for b
    using snoc.IH by blast
  have "case map_of (hm_insert a (hm_insert k v ?u) ?g) b of
      Some w \<Rightarrow> hm_wf w \<and> (\<forall>l. map_of w l = map_of (rev (view @ [e])) (b, l)) \<and> (\<exists>l. (b, l) \<in> fst ` set (view @ [e]))
    | None \<Rightarrow> (\<forall>l. map_of (rev (view @ [e])) (b, l) = None)" for b
    using u IH [of b] by (cases "b = a") (auto simp: e split: option.splits)
  then show ?case unfolding new using snoc.IH by simp
qed (simp add: group_storage_view_def)

lemma group_storage_view:
  assumes "hm_wf view"
  shows "(a, u) \<in> set (group_storage_view view) \<Longrightarrow> map_of u k = map_of view (a, k)"
    and "(a, u) \<in> set (group_storage_view view) \<Longrightarrow> hm_wf u \<and> (\<exists>k. (a, k) \<in> fst ` set view)"
    and "overwrite (case map_of (group_storage_view view) a of Some u \<Rightarrow> u | None \<Rightarrow> []) f k =
      (case map_of view (a, k) of Some v \<Rightarrow> v | None \<Rightarrow> f k)"
proof -
  have rev: "map_of (rev view) = map_of view" using assms by (simp add: hm_wf_def map_of_rev_distinct)
  note inv = group_storage_view_inv [of view, unfolded rev]
  have "map_of (group_storage_view view) a = Some u" if "(a, u) \<in> set (group_storage_view view)" for u
    using that inv by (simp add: hm_wf_map_of_iff)
  then show "(a, u) \<in> set (group_storage_view view) \<Longrightarrow> map_of u k = map_of view (a, k)"
    and "(a, u) \<in> set (group_storage_view view) \<Longrightarrow> hm_wf u \<and> (\<exists>k. (a, k) \<in> fst ` set view)"
    using inv by (force split: option.splits)+
  show "overwrite (case map_of (group_storage_view view) a of Some u \<Rightarrow> u | None \<Rightarrow> []) f k =
      (case map_of view (a, k) of Some v \<Rightarrow> v | None \<Rightarrow> f k)"
    using inv [THEN conjunct2, rule_format, of a] by (auto simp: overwrite_def split: option.splits)
qed

section \<open>A concrete state\<close>

text \<open>
  The environment of the witnesses: the dictionary storage and an encoding of contract states and class
  leaves as the concatenation of their fields.
\<close>

definition demo_state_json :: "contract_state json_codec" where
  "demo_state_json =
     \<lparr> to_json = (\<lambda>c. Inr (contract_hash c @ tree_root (storage_commitment_tree c) @ felt_to_bytes_be (nonce c))),
       from_json = (\<lambda>d. Inr \<lparr> contract_hash = take 32 d,
         storage_commitment_tree = \<lparr> tree_root = take 32 (drop 32 d), tree_height = 251 \<rparr>,
         nonce = felt_from_bytes_be_slice (drop 64 d) \<rparr>) \<rparr>"

definition demo_class_json :: "contract_class_leaf json_codec" where
  "demo_class_json =
     \<lparr> to_json = (\<lambda>x. Inr (felt_to_bytes_be (compiled_class_hash x))),
       from_json = (\<lambda>d. Inr \<lparr> compiled_class_hash = felt_from_bytes_be_slice d \<rparr>) \<rparr>"

definition demo_env :: "dict_storage state_env" where
  "demo_env = \<lparr> se_storage = DictStorage, se_hash = PedersenHash demo_ped, se_poseidon = PoseidonHash demo_ped,
     se_state_json = demo_state_json, se_class_json = demo_class_json \<rparr>"

lemma demo_env_ok: "state_env_ok demo_env"
proof -
  have "json_ok (ContractState_wf 251) demo_state_json"
    by (auto simp: json_ok_def demo_state_json_def ContractState_wf_def hash_valid_def hash_wf_def)
  moreover have "json_ok ContractClassLeaf_wf demo_class_json"
    by (auto simp: json_ok_def demo_class_json_def ContractClassLeaf_wf_def)
  ultimately show ?thesis
    using pedersen.hash_laws_axioms [of demo_ped] poseidon.hash_laws_axioms [of demo_ped] dict.storage_laws_axioms
    by (simp add: state_env_ok_def demo_env_def)
qed

text \<open>The contract with nonce 1, the declared class, and their edges in the trees of height 251.\<close>

definition demo_contract :: contract_state where
  "demo_contract = empty_contract \<lparr> nonce := 1 \<rparr>"

definition demo_class :: contract_class_leaf where
  "demo_class = ContractClassLeaf_create 2000"

definition demo_class_hash :: felt where
  "demo_class_hash = nat_of_bytes_be CONTRACT_CLASS_LEAF_VERSION + 4001"

definition demo_edge :: "hash \<Rightarrow> nat \<Rightarrow> bytes" where
  "demo_edge b i = (case PatriciaNodeFact_serialize (EdgeFact \<lparr> edge_bottom_node = b, edge_path = i, edge_length = 251 \<rparr>) of
     Inr d \<Rightarrow> d | Inl _ \<Rightarrow> [])"

definition node_key :: "hash \<Rightarrow> bytes" where
  "node_key k = db_key (PatriciaNodeFact_inf (PedersenHash demo_ped)) k"

definition demo_db :: "bytes \<rightharpoonup> bytes" where
  "demo_db =
     [db_key StorageLeaf EMPTY_HASH \<mapsto> felt_to_bytes_be 0,
      db_key (ContractState demo_state_json (PedersenHash demo_ped)) EMPTY_HASH \<mapsto>
        UNINITIALIZED_CLASS_HASH @ EMPTY_HASH @ felt_to_bytes_be 0,
      db_key (ContractState demo_state_json (PedersenHash demo_ped)) (Hash_of_felt 5) \<mapsto>
        UNINITIALIZED_CLASS_HASH @ EMPTY_HASH @ felt_to_bytes_be 1,
      db_key (ContractClassLeaf demo_class_json (PoseidonHash demo_ped)) EMPTY_HASH \<mapsto> felt_to_bytes_be 0,
      db_key (ContractClassLeaf demo_class_json (PoseidonHash demo_ped)) (Hash_of_felt demo_class_hash) \<mapsto>
        felt_to_bytes_be 2000,
      node_key (Hash_of_felt 267) \<mapsto> demo_edge (Hash_of_felt 5) 5,
      node_key (Hash_of_felt (demo_class_hash + 2252)) \<mapsto> demo_edge (Hash_of_felt demo_class_hash) 1000]"

lemma felt_bytes_Hash: "felt_to_bytes_be x = Hash_of_felt x"
  by (simp add: Hash_of_felt_def Hash_from_bytes_be_def)

lemma pedersen_felts:
  assumes "felt_wf x" and "felt_wf y"
  shows "PedersenHash ped (Hash_of_felt x) (Hash_of_felt y) = Some (Hash_of_felt (felt_of_nat (ped x y)))"
  using assms
  by (simp add: PedersenHash_def FieldElement_from_byte_slice_be_def Hash_of_felt_def Hash_from_bytes_be_def)

lemma poseidon_pedersen: "PoseidonHash p = PedersenHash p"
  by (simp add: fun_eq_iff PoseidonHash_def PedersenHash_def)

lemma demo_felts [simp]:
  "felt_wf 5" "felt_wf 267" "felt_wf 1000" "felt_wf 2000" "felt_wf (Suc 0)" "felt_wf 4"
  "felt_wf demo_class_hash" "felt_wf (demo_class_hash + 2252)" "0 < demo_class_hash"
  by (simp_all add: felt_wf_def STARK_PRIME_def demo_class_hash_def CONTRACT_CLASS_LEAF_VERSION_def ascii_def
      nat_of_bytes_be_def)

lemma demo_contract_hash:
  "lhash (contract_te demo_env) demo_contract = Hash_of_felt 5"
proof -
  have "PedersenHash demo_ped Hash_empty EMPTY_HASH = Some (Hash_of_felt 1)"
    "PedersenHash demo_ped (Hash_of_felt 1) (Hash_of_felt 1) = Some (Hash_of_felt 4)"
    "PedersenHash demo_ped (Hash_of_felt 4) (Hash_of_felt 0) = Some (Hash_of_felt 5)"
    using pedersen_felts [of 0 0 demo_ped] pedersen_felts [of 1 1 demo_ped] pedersen_felts [of 4 0 demo_ped]
    by (simp_all add: demo_ped_def felt_of_nat_def STARK_PRIME_def EMPTY_HASH_eq flip: Hash_empty_felt)
  then show ?thesis
    by (simp add: lhash_def contract_te_def demo_env_def ContractState_def ContractState_hash_def demo_contract_def
        empty_contract_def ContractState_is_empty_def EMPTY_NODE_HASH_eq felt_bytes_Hash)
qed

lemma demo_class_leaf_hash:
  "lhash (class_te demo_env (PoseidonHash demo_ped)) demo_class = Hash_of_felt demo_class_hash"
proof -
  have "nat_of_bytes_be CONTRACT_CLASS_LEAF_VERSION + 4001 < STARK_PRIME"
    using demo_felts(7) by (simp add: felt_wf_def demo_class_hash_def)
  then have "PoseidonHash demo_ped CONTRACT_CLASS_LEAF_VERSION (felt_to_bytes_be 2000) = Some (Hash_of_felt demo_class_hash)"
    by (simp add: PoseidonHash_def FieldElement_from_byte_slice_be_def demo_ped_def felt_of_nat_def Hash_of_felt_def
        demo_class_hash_def add.commute)
  then show ?thesis
    by (simp add: lhash_def class_te_def demo_env_def ContractClassLeaf_def ContractClassLeaf_hash_def demo_class_def
        ContractClassLeaf_create_def ContractClassLeaf_is_empty_def)
qed

lemma demo_edges:
  "spec_edge_hash (PedersenHash demo_ped) (Hash_of_felt 5) 5 251 = Hash_of_felt 267"
  "spec_edge_hash (PoseidonHash demo_ped) (Hash_of_felt demo_class_hash) 1000 251 = Hash_of_felt (demo_class_hash + 2252)"
proof -
  have "demo_class_hash + 2252 < STARK_PRIME" using demo_felts(8) by (simp add: felt_wf_def)
  then show "spec_edge_hash (PedersenHash demo_ped) (Hash_of_felt 5) 5 251 = Hash_of_felt 267"
    "spec_edge_hash (PoseidonHash demo_ped) (Hash_of_felt demo_class_hash) 1000 251 = Hash_of_felt (demo_class_hash + 2252)"
    unfolding poseidon_pedersen
    by (simp_all add: pedersen_edge_hash demo_ped_def felt_add_def felt_of_nat_def STARK_PRIME_def algebra_simps)
qed

lemma demo_edge:
  assumes "hash_wf b" and "i < 2 ^ 251"
  shows "PatriciaNodeFact_serialize (EdgeFact \<lparr> edge_bottom_node = b, edge_path = i, edge_length = 251 \<rparr>) =
    Inr (demo_edge b i)"
proof -
  have "edge_wf \<lparr> edge_bottom_node = b, edge_path = i, edge_length = 251 \<rparr>"
    using assms by (simp add: edge_wf_def)
  then show ?thesis by (simp add: demo_edge_def PatriciaNodeFact_serialize_def edge_serialize_eq)
qed

definition demo_diff :: commitment_state_diff where
  "demo_diff = \<lparr> diff_address_to_class_hash = [], diff_address_to_nonce = [(5, 1)], diff_storage_updates = [],
     diff_class_hash_to_compiled_class_hash = [(1000, 2000)] \<rparr>"

abbreviation spec_diff :: "commitment_state_diff \<Rightarrow> abs_state \<Rightarrow> abs_state" where
  "spec_diff D \<equiv> spec_apply (diff_address_to_class_hash D) (diff_address_to_nonce D)
     (diff_class_hash_to_compiled_class_hash D) (diff_storage_updates D)"

abbreviation well_formed_diff :: "commitment_state_diff \<Rightarrow> bool" where
  "well_formed_diff D \<equiv> diff_ok (diff_address_to_class_hash D) (diff_address_to_nonce D)
     (diff_class_hash_to_compiled_class_hash D) (diff_storage_updates D)"

lemma demo_prefixes:
  "ascii ''starknet_storage_leaf'' \<noteq> prefix (ContractState J H)" "ascii ''starknet_storage_leaf'' \<noteq> prefix (ContractClassLeaf K H)"
  "ascii ''starknet_storage_leaf'' \<noteq> PATRICIA_NODE_PREFIX" "prefix (ContractState J H) \<noteq> prefix (ContractClassLeaf K H')"
  "prefix (ContractState J H) \<noteq> PATRICIA_NODE_PREFIX" "prefix (ContractClassLeaf K H) \<noteq> PATRICIA_NODE_PREFIX"
  by (simp_all add: ContractState_def ContractClassLeaf_def PATRICIA_NODE_PREFIX_def ascii_def)

lemma demo_db_lookups:
  "demo_db (db_key StorageLeaf EMPTY_HASH) = Some (felt_to_bytes_be 0)"
  "demo_db (db_key (ContractState demo_state_json (PedersenHash demo_ped)) EMPTY_HASH) =
     Some (UNINITIALIZED_CLASS_HASH @ EMPTY_HASH @ felt_to_bytes_be 0)"
  "demo_db (db_key (ContractState demo_state_json (PedersenHash demo_ped)) (Hash_of_felt 5)) =
     Some (UNINITIALIZED_CLASS_HASH @ EMPTY_HASH @ felt_to_bytes_be 1)"
  "demo_db (db_key (ContractClassLeaf demo_class_json (PoseidonHash demo_ped)) EMPTY_HASH) = Some (felt_to_bytes_be 0)"
  "demo_db (db_key (ContractClassLeaf demo_class_json (PoseidonHash demo_ped)) (Hash_of_felt demo_class_hash)) =
     Some (felt_to_bytes_be 2000)"
  "demo_db (node_key (Hash_of_felt 267)) = Some (demo_edge (Hash_of_felt 5) 5)"
  "demo_db (node_key (Hash_of_felt (demo_class_hash + 2252))) = Some (demo_edge (Hash_of_felt demo_class_hash) 1000)"
proof -
  have n: "Hash_of_felt 5 \<noteq> Hash_empty" "Hash_of_felt demo_class_hash \<noteq> Hash_empty"
    "Hash_of_felt (demo_class_hash + 2252) \<noteq> Hash_of_felt 267"
    using Hash_of_felt_inj [of "demo_class_hash + 2252" 267] demo_felts(9) by auto
  note simps = demo_db_def node_key_def db_key_eq_iff EMPTY_HASH_eq demo_prefixes demo_prefixes [symmetric] n n [symmetric]
  show "demo_db (db_key StorageLeaf EMPTY_HASH) = Some (felt_to_bytes_be 0)"
    "demo_db (db_key (ContractState demo_state_json (PedersenHash demo_ped)) EMPTY_HASH) =
       Some (UNINITIALIZED_CLASS_HASH @ EMPTY_HASH @ felt_to_bytes_be 0)"
    "demo_db (db_key (ContractState demo_state_json (PedersenHash demo_ped)) (Hash_of_felt 5)) =
       Some (UNINITIALIZED_CLASS_HASH @ EMPTY_HASH @ felt_to_bytes_be 1)"
    "demo_db (db_key (ContractClassLeaf demo_class_json (PoseidonHash demo_ped)) EMPTY_HASH) = Some (felt_to_bytes_be 0)"
    "demo_db (db_key (ContractClassLeaf demo_class_json (PoseidonHash demo_ped)) (Hash_of_felt demo_class_hash)) =
       Some (felt_to_bytes_be 2000)"
    "demo_db (node_key (Hash_of_felt 267)) = Some (demo_edge (Hash_of_felt 5) 5)"
    "demo_db (node_key (Hash_of_felt (demo_class_hash + 2252))) = Some (demo_edge (Hash_of_felt demo_class_hash) 1000)"
    by (simp_all add: simps)
qed

text \<open>The four leaves are well formed and have these encodings.\<close>

lemma demo_te:
  "env_hash (contract_te demo_env) = PedersenHash demo_ped"
  "env_leaf (contract_te demo_env) = ContractState demo_state_json (PedersenHash demo_ped)"
  "se_poseidon demo_env = PoseidonHash demo_ped"
  "env_hash (class_te demo_env H) = H" "env_leaf (class_te demo_env H) = ContractClassLeaf demo_class_json H"
  by (simp_all add: contract_te_def class_te_def demo_env_def)

lemma demo_contract_leaves:
  "serialize (ContractState demo_state_json H) empty_contract =
     Inr (UNINITIALIZED_CLASS_HASH @ EMPTY_HASH @ felt_to_bytes_be 0)"
  "serialize (ContractState demo_state_json H) demo_contract =
     Inr (UNINITIALIZED_CLASS_HASH @ EMPTY_HASH @ felt_to_bytes_be 1)"
  "leaf_is_empty (ContractState demo_state_json H) empty_contract" "ContractState_wf 251 demo_contract"
  by (simp_all add: ContractState_def json_serialize_def demo_state_json_def demo_contract_def empty_contract_def
      ContractState_wf_def ContractState_is_empty_def EMPTY_NODE_HASH_eq EMPTY_HASH_eq)

lemma demo_class_leaves:
  "serialize (ContractClassLeaf demo_class_json H) ContractClassLeaf_empty = Inr (felt_to_bytes_be 0)"
  "serialize (ContractClassLeaf demo_class_json H) demo_class = Inr (felt_to_bytes_be 2000)"
  "leaf_is_empty (ContractClassLeaf demo_class_json H) ContractClassLeaf_empty"
  "ContractClassLeaf_wf ContractClassLeaf_empty" "ContractClassLeaf_wf demo_class"
  by (simp_all add: ContractClassLeaf_def json_serialize_def demo_class_json_def ContractClassLeaf_empty_def
      demo_class_def ContractClassLeaf_create_def ContractClassLeaf_wf_def ContractClassLeaf_is_empty_def)

lemma demo_fits_zero: "state_fits demo_env demo_db abs_zero"
proof -
  note env = state_env_trees [OF demo_env_ok]
  have "fits (storage_te demo_env) StorageLeaf_wf demo_db 251 (\<lambda>_. StorageLeaf_empty)"
    by (rule patricia_env.fits_empty [OF env(1), where data = "felt_to_bytes_be 0"])
      (use demo_db_lookups(1) in \<open>simp_all add: storage_te_def MAX_HEIGHT_def StorageLeaf_serialize_def\<close>)
  moreover have "fits (contract_te demo_env) (ContractState_wf 251) demo_db 251 (\<lambda>_. empty_contract)"
    using patricia_env.fits_empty [OF env(2) empty_contract_wf(1), where h = 251 and W = demo_db]
      demo_contract_leaves(1,3) demo_db_lookups(2) by (simp add: demo_te MAX_HEIGHT_def)
  moreover have "fits (class_te demo_env (se_poseidon demo_env)) ContractClassLeaf_wf demo_db 251 (\<lambda>_. ContractClassLeaf_empty)"
    using patricia_env.fits_empty [OF env(3) demo_class_leaves(4), where h = 251 and W = demo_db]
      demo_class_leaves(1,3) demo_db_lookups(4) by (simp add: demo_te MAX_HEIGHT_def)
  ultimately show ?thesis by (simp add: state_fits_def zero_leaves zero_contract_leaf [OF demo_env_ok])
qed

lemma demo_new_leaves:
  "storage_leaves (spec_diff demo_diff abs_zero) i = (\<lambda>_. StorageLeaf_empty)"
  "class_leaves (spec_diff demo_diff abs_zero) = (\<lambda>_. ContractClassLeaf_empty) (1000 := demo_class)"
  "contract_leaf demo_env (spec_diff demo_diff abs_zero) = (\<lambda>_. empty_contract) (5 := demo_contract)"
proof -
  let ?A = "spec_diff demo_diff abs_zero"
  show st: "storage_leaves ?A i = (\<lambda>_. StorageLeaf_empty)" for i
    by (simp add: storage_leaves_def demo_diff_def spec_apply_def overwrite_def StorageLeaf_new_def StorageLeaf_empty_def)
  show "class_leaves ?A = (\<lambda>_. ContractClassLeaf_empty) (1000 := demo_class)"
    by (simp add: fun_eq_iff class_leaves_def demo_diff_def spec_apply_def overwrite_def ContractClassLeaf_create_def
        ContractClassLeaf_empty_def demo_class_def)
  have "storage_root demo_env ?A i = \<lparr> tree_root = EMPTY_HASH, tree_height = 251 \<rparr>" for i
    using zero_storage_root [OF demo_env_ok, of i] by (simp add: storage_root_def st zero_leaves)
  moreover have "ac_class ?A i = 0" "ac_nonce ?A i = (if i = 5 then 1 else 0)" for i
    by (simp_all add: demo_diff_def spec_apply_def overwrite_def)
  ultimately show "contract_leaf demo_env ?A = (\<lambda>_. empty_contract) (5 := demo_contract)"
    by (simp add: fun_eq_iff contract_leaf_def empty_contract_def demo_contract_def EMPTY_NODE_HASH_eq felt_bytes_Hash
        flip: Hash_empty_felt)
qed

lemma demo_trees:
  "fits (contract_te demo_env) (ContractState_wf 251) demo_db 251 ((\<lambda>_. empty_contract) (5 := demo_contract)) \<and>
   spec_root (contract_te demo_env) 251 ((\<lambda>_. empty_contract) (5 := demo_contract)) = Hash_of_felt 267"
  "fits (class_te demo_env (se_poseidon demo_env)) ContractClassLeaf_wf demo_db 251
     ((\<lambda>_. ContractClassLeaf_empty) (1000 := demo_class)) \<and>
   spec_root (class_te demo_env (se_poseidon demo_env)) 251 ((\<lambda>_. ContractClassLeaf_empty) (1000 := demo_class)) =
     Hash_of_felt (demo_class_hash + 2252)"
proof -
  note env = state_env_trees [OF demo_env_ok]
  have nz: "Hash_of_felt 5 \<noteq> EMPTY_HASH" "Hash_of_felt 267 \<noteq> EMPTY_HASH" "Hash_of_felt demo_class_hash \<noteq> EMPTY_HASH"
    "Hash_of_felt (demo_class_hash + 2252) \<noteq> EMPTY_HASH"
    using demo_felts(9) by (simp_all add: EMPTY_HASH_eq)
  have node: "db_key (PatriciaNodeFact_inf H) k = node_key k" for H k
    by (simp add: node_key_def db_key_def)
  show "fits (contract_te demo_env) (ContractState_wf 251) demo_db 251 ((\<lambda>_. empty_contract) (5 := demo_contract)) \<and>
      spec_root (contract_te demo_env) 251 ((\<lambda>_. empty_contract) (5 := demo_contract)) = Hash_of_felt 267"
    using patricia_env.fits_single [OF env(2) empty_contract_wf(1) _ demo_contract_leaves(4), of 251 5 _ demo_db]
      demo_contract_leaves(1-3) demo_db_lookups(2,3,6) nz demo_edge [of "Hash_of_felt 5" 5]
    by (simp only: demo_te node demo_contract_hash demo_edges) (simp add: MAX_HEIGHT_def)
  show "fits (class_te demo_env (se_poseidon demo_env)) ContractClassLeaf_wf demo_db 251
        ((\<lambda>_. ContractClassLeaf_empty) (1000 := demo_class)) \<and>
      spec_root (class_te demo_env (se_poseidon demo_env)) 251 ((\<lambda>_. ContractClassLeaf_empty) (1000 := demo_class)) =
        Hash_of_felt (demo_class_hash + 2252)"
    using patricia_env.fits_single [OF env(3) demo_class_leaves(4) _ demo_class_leaves(5), of 251 1000 _ demo_db]
      demo_class_leaves(1-3) demo_db_lookups(4,5,7) nz demo_edge [of "Hash_of_felt demo_class_hash" 1000]
    by (simp only: demo_te node demo_class_leaf_hash demo_edges) (simp add: MAX_HEIGHT_def)
qed

lemma demo_fits: "state_fits demo_env demo_db (spec_diff demo_diff abs_zero)"
  using demo_fits_zero demo_trees by (simp add: state_fits_def demo_new_leaves zero_leaves)

lemma demo_start: "st_lookup (se_storage demo_env) DictStorage_default \<subseteq>\<^sub>m demo_db"
  by (simp add: demo_env_def st_lookup_def DictStorage_def DictStorage_default_def map_le_def dom_def)

lemma demo_well_formed: "well_formed_diff demo_diff"
  by (simp add: demo_diff_def diff_ok_def keys_below_def)

section \<open>The properties\<close>

text \<open>
  C2. Applying the state diff of a block, class hashes, nonces, storage entries of any number of
  contracts, and declared classes, succeeds. In the new state every reader returns the
  value that the diff sets, or the old one where the diff is silent; the reader of the old state, over the
  new storage, still returns the old values; and the set of known addresses grows by those of the diff.
\<close>

theorem apply_state_diff_correct:
  assumes "state_env_ok E" and "state_repr E W s \<sigma> A" and "well_formed_diff D"
    and "contract_classes \<sigma> = None \<longrightarrow> diff_class_hash_to_compiled_class_hash D = []"
    and "state_fits E W (spec_diff D A)"
  shows "\<exists>\<sigma>' s'. apply_commitment_state_diff E s \<sigma> D = Inr (\<sigma>', s') \<and>
    state_repr E W s' \<sigma>' (spec_diff D A) \<and> reads_as E s' \<sigma>' (spec_diff D A) \<and> reads_as E s' \<sigma> A \<and>
    (contract_classes \<sigma>' = None \<longleftrightarrow> contract_classes \<sigma> = None) \<and>
    set (contract_addresses \<sigma>') = set (contract_addresses \<sigma>) \<union>
      fst ` (set (diff_address_to_class_hash D) \<union> set (diff_address_to_nonce D)) \<union> fst ` set (diff_storage_updates D)"
proof -
  obtain \<sigma>' s' where u: "apply_commitment_state_diff E s \<sigma> D = Inr (\<sigma>', s')" "state_repr E W s' \<sigma>' (spec_diff D A)"
    "st_lookup (se_storage E) s \<subseteq>\<^sub>m st_lookup (se_storage E) s'" "contract_classes \<sigma>' = None \<longleftrightarrow> contract_classes \<sigma> = None"
    "set (contract_addresses \<sigma>') = set (contract_addresses \<sigma>) \<union>
      fst ` (set (diff_address_to_class_hash D) \<union> set (diff_address_to_nonce D)) \<union> fst ` set (diff_storage_updates D)"
    using apply_state_updates_ok [OF assms, folded commitment_state_diff_eq [OF assms(3)]]
    by (elim exE conjE) (rule that)
  have old: "state_repr E W s' \<sigma> A" by (rule state_repr_mono [OF assms(2) u(3) state_reprD(1) [OF u(2)]])
  show ?thesis
    by (intro exI conjI) (rule u(1) u(2) u(4) u(5) state_repr_reads [OF u(2)] state_repr_reads [OF old])+
qed

theorem apply_state_diff_correct_witness:
  "\<exists>\<sigma> s \<sigma>' s'. SharedState_empty demo_env DictStorage_default = Inr (\<sigma>, s) \<and>
    apply_commitment_state_diff demo_env s \<sigma> demo_diff = Inr (\<sigma>', s') \<and>
    get_nonce_at demo_env True s' \<sigma>' 5 = Inr 1 \<and> get_nonce_at demo_env True s' \<sigma> 5 = Inr 0 \<and>
    get_compiled_class_hash demo_env True s' \<sigma>' 1000 = Inr 2000"
proof -
  obtain \<sigma> s where s: "SharedState_empty demo_env DictStorage_default = Inr (\<sigma>, s)"
    "state_repr demo_env demo_db s \<sigma> abs_zero" "contract_classes \<sigma> \<noteq> None"
    using empty_state_ok [OF demo_env_ok demo_fits_zero demo_start] by blast
  obtain \<sigma>' s' where u: "apply_commitment_state_diff demo_env s \<sigma> demo_diff = Inr (\<sigma>', s')"
    "reads_as demo_env s' \<sigma>' (spec_diff demo_diff abs_zero)" "reads_as demo_env s' \<sigma> abs_zero"
    "contract_classes \<sigma>' \<noteq> None"
    using apply_state_diff_correct [OF demo_env_ok s(2) demo_well_formed _ demo_fits] s(3) by blast
  have "get_nonce_at demo_env True s' \<sigma>' 5 = Inr 1"
    using u(2) by (simp add: reads_as_def demo_diff_def spec_apply_def overwrite_def)
  moreover have "get_nonce_at demo_env True s' \<sigma> 5 = Inr 0"
    using u(3) by (simp add: reads_as_def)
  moreover have "get_compiled_class_hash demo_env True s' \<sigma>' 1000 = Inr 2000"
    using u(2,4) by (simp add: reads_as_def demo_diff_def spec_apply_def overwrite_def)
  ultimately show ?thesis using s(1) u(1) by blast
qed

text \<open>The abstract state of a blockifier state.\<close>

definition abs_of_blockifier :: "dict_state_reader \<Rightarrow> abs_state" where
  "abs_of_blockifier B =
     \<lparr> ac_class = overwrite (reader_address_to_class_hash B) (\<lambda>_. 0),
       ac_nonce = overwrite (reader_address_to_nonce B) (\<lambda>_. 0),
       ac_storage = (\<lambda>a k. overwrite (storage_view B) (\<lambda>_. 0) (a, k)),
       ac_compiled = overwrite (reader_class_hash_to_compiled_class_hash B) (\<lambda>_. 0) \<rparr>"

definition blockifier_ok :: "dict_state_reader \<Rightarrow> bool" where
  "blockifier_ok B \<longleftrightarrow>
     keys_below 251 (reader_address_to_class_hash B) \<and> keys_below 251 (reader_address_to_nonce B) \<and>
     keys_below 251 (reader_class_hash_to_compiled_class_hash B) \<and> hm_wf (storage_view B) \<and>
     (\<forall>((a, k), v) \<in> set (storage_view B). a < 2 ^ 251 \<and> k < 2 ^ 251)"

lemma blockifier_diff:
  assumes "blockifier_ok B"
  shows "diff_ok (reader_address_to_class_hash B) (reader_address_to_nonce B)
      (reader_class_hash_to_compiled_class_hash B) (group_storage_view (storage_view B))"
    and "spec_apply (reader_address_to_class_hash B) (reader_address_to_nonce B)
      (reader_class_hash_to_compiled_class_hash B) (group_storage_view (storage_view B)) abs_zero = abs_of_blockifier B"
proof -
  let ?g = "group_storage_view (storage_view B)"
  have wf: "hm_wf (storage_view B)" and b: "\<forall>((a, k), v) \<in> set (storage_view B). a < 2 ^ 251 \<and> k < 2 ^ 251"
    using assms by (simp_all add: blockifier_ok_def)
  have g: "a < 2 ^ 251 \<and> keys_below 251 u" if au: "(a, u) \<in> set ?g" for a u
  proof -
    have a: "a < 2 ^ 251" "hm_wf u" using group_storage_view(2) [OF wf au] b by auto
    have "k < 2 ^ 251" if "(k, v) \<in> set u" for k v
    proof -
      have "map_of (storage_view B) (a, k) = Some v"
        using group_storage_view(1) [OF wf au, of k] hm_wf_map_of_iff [OF a(2), of k v] that by simp
      then show ?thesis using b map_of_SomeD [of "storage_view B"] by fastforce
    qed
    with a show ?thesis by (auto simp: keys_below_def)
  qed
  have "keys_below 251 ?g" unfolding keys_below_def using g group_storage_view_inv [of "storage_view B"] by blast
  moreover have "\<forall>(a, u) \<in> set ?g. keys_below 251 u" using g by blast
  ultimately show "diff_ok (reader_address_to_class_hash B) (reader_address_to_nonce B)
      (reader_class_hash_to_compiled_class_hash B) ?g"
    using assms unfolding diff_ok_def blockifier_ok_def by blast
  have st: "(\<lambda>i. overwrite (case map_of ?g i of Some u \<Rightarrow> u | None \<Rightarrow> []) (\<lambda>_. 0)) =
      (\<lambda>a k. overwrite (storage_view B) (\<lambda>_. 0) (a, k))"
    by (intro ext, subst group_storage_view(3) [OF wf]) (simp add: overwrite_def)
  show "spec_apply (reader_address_to_class_hash B) (reader_address_to_nonce B)
      (reader_class_hash_to_compiled_class_hash B) ?g abs_zero = abs_of_blockifier B"
    unfolding spec_apply_def abs_of_blockifier_def abs_zero_def abs_state.select_convs st
    by (rule refl)
qed

text \<open>
  C27. The state built from a blockifier state reads like it: storage entries, nonces, class hashes
  and compiled class hashes are those of its maps, and everything else is zero, respectively an
  undeclared class.
\<close>

theorem from_blockifier_state_correct:
  assumes "state_env_ok E" and "blockifier_ok B" and "state_fits E W abs_zero"
    and "state_fits E W (abs_of_blockifier B)" and "st_lookup (se_storage E) s \<subseteq>\<^sub>m W"
  shows "\<exists>\<sigma> s'. from_blockifier_state E s B = Inr (\<sigma>, s') \<and> contract_classes \<sigma> \<noteq> None \<and>
    reads_as E s' \<sigma> (abs_of_blockifier B)"
proof -
  obtain \<sigma>0 s0 where e: "SharedState_empty E s = Inr (\<sigma>0, s0)" "state_repr E W s0 \<sigma>0 abs_zero" "contract_classes \<sigma>0 \<noteq> None"
    using empty_state_ok [OF assms(1,3,5)] by blast
  note d = blockifier_diff [OF assms(2)]
  obtain \<sigma> s' where "apply_state_updates E s0 \<sigma>0 (reader_address_to_class_hash B) (reader_address_to_nonce B)
      (reader_class_hash_to_compiled_class_hash B) (group_storage_view (storage_view B)) = Inr (\<sigma>, s')"
    "state_repr E W s' \<sigma> (abs_of_blockifier B)" "contract_classes \<sigma> \<noteq> None"
    using apply_state_updates_ok [OF assms(1) e(2) d(1)] e(3) assms(4) unfolding d(2) by blast
  then show ?thesis
    using e(1) state_repr_reads by (auto simp: from_blockifier_state_def starknet_api_eq [OF d(1)])
qed

theorem from_blockifier_state_correct_witness:
  "\<exists>\<sigma> s'. from_blockifier_state demo_env DictStorage_default
      \<lparr> storage_view = [], reader_address_to_nonce = [(5, 1)], reader_address_to_class_hash = [],
        reader_class_hash_to_compiled_class_hash = [(1000, 2000)] \<rparr> = Inr (\<sigma>, s') \<and>
    get_nonce_at demo_env True s' \<sigma> 5 = Inr 1 \<and> get_nonce_at demo_env True s' \<sigma> 6 = Inr 0 \<and>
    get_compiled_class_hash demo_env True s' \<sigma> 1000 = Inr 2000 \<and>
    get_compiled_class_hash demo_env True s' \<sigma> 1001 = Inl (Error (UndeclaredClassHash 1001))"
proof -
  let ?B = "\<lparr> storage_view = [], reader_address_to_nonce = [(5, 1)], reader_address_to_class_hash = [],
        reader_class_hash_to_compiled_class_hash = [(1000, 2000)] \<rparr>"
  have "spec_diff demo_diff abs_zero = abs_of_blockifier ?B"
    by (simp add: demo_diff_def spec_apply_def abs_of_blockifier_def overwrite_def fun_eq_iff)
  moreover have "blockifier_ok ?B" by (simp add: blockifier_ok_def keys_below_def)
  ultimately obtain \<sigma> s' where u: "from_blockifier_state demo_env DictStorage_default ?B = Inr (\<sigma>, s')"
    "contract_classes \<sigma> \<noteq> None" "reads_as demo_env s' \<sigma> (abs_of_blockifier ?B)"
    using from_blockifier_state_correct [OF demo_env_ok _ demo_fits_zero _ demo_start, of ?B] demo_fits by auto
  from u(2,3) have "get_nonce_at demo_env True s' \<sigma> 5 = Inr 1" "get_nonce_at demo_env True s' \<sigma> 6 = Inr 0"
    "get_compiled_class_hash demo_env True s' \<sigma> 1000 = Inr 2000"
    "get_compiled_class_hash demo_env True s' \<sigma> 1001 = Inl (Error (UndeclaredClassHash 1001))"
    by (simp_all add: reads_as_def abs_of_blockifier_def overwrite_def)
  with u(1) show ?thesis by blast
qed

text \<open>The roots of the two trees of a state.\<close>

context patricia_env
begin

lemma represents_root_valid:
  assumes "represents e valid s t f"
  shows "hash_valid (tree_root t)" and "tree_root t = spec_root e (tree_height t) f"
proof -
  have g: "good_tree e valid (tree_height t) f" "tree_root t = spec_root e (tree_height t) f"
    using assms by (simp_all add: represents_def Let_def)
  have "hash_valid (leaf_hashes e f i)" if "i < 2 ^ tree_height t" for i
    using g(1) that leaf_hash_valid [of "f i"] by (auto simp: good_tree_def leaves_ok_def leaf_hashes_def lhash_def)
  then show "hash_valid (tree_root t)"
    using canon_valid [of "tree_height t" "leaf_hashes e f"] g by (simp add: spec_root_def good_tree_def)
  show "tree_root t = spec_root e (tree_height t) f" by (rule g(2))
qed

end

lemma hash_valid_felt: "hash_valid h \<Longrightarrow> FieldElement_from_byte_slice_be h = Some (biguint_of_Hash h)"
  using hash_valid_felt_bytes [of h] by (simp add: FieldElement_from_byte_slice_be_def biguint_of_Hash_def)

lemma state_version_felt: "felt_wf state_version"
  by (simp add: state_version_def)

text \<open>
  C10. The global root is a function of the abstract state: with the roots of the trees of its contracts and
  of its classes, it is zero if both are empty, the root of the contracts if only the classes are empty, and else the Poseidon
  hash of the version, the root of the contracts and the root of the classes, in this order, which is the one of the documentation of
  \<open>get_global_state_root\<close>; the comment in its body has the version last. A state that has no tree of classes counts as one with an empty tree.
  In particular computing the global root never fails.
\<close>

theorem global_state_root_correct:
  fixes pos :: "felt list \<Rightarrow> felt"
  assumes "state_env_ok E" and "state_repr E W s \<sigma> A"
  shows "get_global_state_root pos \<sigma> =
    (let contracts = spec_root (contract_te E) 251 (contract_leaf E A);
         classes = (case contract_classes \<sigma> of None \<Rightarrow> Hash_empty
           | Some _ \<Rightarrow> spec_root (class_te E (se_poseidon E)) 251 (class_leaves A))
     in if contracts = Hash_empty \<and> classes = Hash_empty then Inr 0
        else if classes = Hash_empty then Inr (biguint_of_Hash contracts)
        else Inr (felt_of_nat (pos [state_version, biguint_of_Hash contracts, biguint_of_Hash classes])))"
proof -
  note env = state_env_trees [OF assms(1)] and r = state_reprD [OF assms(2)]
  have c: "hash_valid (tree_root (contract_states \<sigma>))"
    "tree_root (contract_states \<sigma>) = spec_root (contract_te E) 251 (contract_leaf E A)"
    using patricia_env.represents_root_valid [OF env(2) r(3)] r(2) by simp_all
  have root: "felt_from_bytes_be_slice (tree_root (contract_states \<sigma>)) = biguint_of_Hash (tree_root (contract_states \<sigma>))"
    using c(1) by (simp add: hash_valid_def felt_from_bytes_be_slice_def biguint_of_Hash_def felt_of_nat_def)
  show ?thesis
  proof (cases "contract_classes \<sigma>")
    case None
    then show ?thesis using root by (simp add: get_global_state_root_def Let_def flip: c(2))
  next
    case (Some t)
    have k: "hash_valid (tree_root t)" "tree_root t = spec_root (class_te E (se_poseidon E)) 251 (class_leaves A)"
      using patricia_env.represents_root_valid [OF env(3) r(6) [OF Some]] r(5) [OF Some] by simp_all
    have "FieldElement_from_byte_slice_be (felt_to_bytes_be state_version) = Some state_version"
      using state_version_felt by (simp add: FieldElement_from_byte_slice_be_def)
    then show ?thesis
      using hash_valid_felt [OF c(1)] hash_valid_felt [OF k(1)] root
      by (simp add: get_global_state_root_def Some Let_def poseidon_hash_many_bytes_def ok_or_def Hash_from_bytes_be_def
          flip: c(2) k(2))
  qed
qed

theorem global_state_root_correct_witness:
  "\<exists>\<sigma> s \<sigma>' s'. SharedState_empty demo_env DictStorage_default = Inr (\<sigma>, s) \<and>
    apply_commitment_state_diff demo_env s \<sigma> demo_diff = Inr (\<sigma>', s') \<and>
    get_global_state_root sum_list \<sigma>' = Inr (felt_of_nat (state_version + 267 + (demo_class_hash + 2252))) \<and>
    get_global_state_root sum_list (\<sigma>' \<lparr> contract_classes := None \<rparr>) = Inr 267"
proof -
  obtain \<sigma> s where s: "SharedState_empty demo_env DictStorage_default = Inr (\<sigma>, s)"
    "state_repr demo_env demo_db s \<sigma> abs_zero" "contract_classes \<sigma> \<noteq> None"
    using empty_state_ok [OF demo_env_ok demo_fits_zero demo_start] by blast
  obtain \<sigma>' s' where u: "apply_commitment_state_diff demo_env s \<sigma> demo_diff = Inr (\<sigma>', s')"
    "state_repr demo_env demo_db s' \<sigma>' (spec_diff demo_diff abs_zero)" "contract_classes \<sigma>' \<noteq> None"
    using apply_state_updates_ok [OF demo_env_ok s(2) demo_well_formed _ demo_fits] s(3)
      commitment_state_diff_eq [OF demo_well_formed, of demo_env s \<sigma>] by auto
  obtain t where t: "contract_classes \<sigma>' = Some t" using u(3) by blast
  have none: "state_repr demo_env demo_db s' (\<sigma>' \<lparr> contract_classes := None \<rparr>) (spec_diff demo_diff abs_zero)"
    using u(2) by (simp add: state_repr_def)
  have nat: "biguint_of_Hash (Hash_of_felt x) = x" if "felt_wf x" for x
    using that by (simp add: biguint_of_Hash_def Hash_of_felt_def Hash_from_bytes_be_def)
  note roots = demo_new_leaves Let_def demo_trees(1) [THEN conjunct2] demo_trees(2) [THEN conjunct2]
    nat [OF demo_felts(2)] nat [OF demo_felts(8)]
  have ne: "Hash_of_felt (demo_class_hash + 2252) \<noteq> Hash_empty" "Hash_of_felt 267 \<noteq> Hash_empty"
    using demo_felts(2,8) by simp_all
  have "get_global_state_root sum_list \<sigma>' = Inr (felt_of_nat (state_version + 267 + (demo_class_hash + 2252)))"
    using global_state_root_correct [OF demo_env_ok u(2), of sum_list] ne
    unfolding t option.case roots
    by (simp only: if_False simp_thms sum_list.Cons sum_list.Nil add.assoc add_0_right)
  moreover have "get_global_state_root sum_list (\<sigma>' \<lparr> contract_classes := None \<rparr>) = Inr 267"
    using global_state_root_correct [OF demo_env_ok none, of sum_list] ne(2)
    unfolding shared_state.select_convs shared_state.simps option.case roots
    by simp
  ultimately show ?thesis using s(1) u(1) by blast
qed

end
