(* ===== verification/Class_Cells.thy ===== *)
theory Class_Cells
  imports Starknet_Storage
begin

text \<open>
  The contract classes of \<open>crates/starknet-os-types\<close>: \<open>GenericCasmContractClass\<close>,
  \<open>GenericSierraContractClass\<close> and \<open>GenericDeprecatedCompiledClass\<close>. Each is a record of cells of type
  \<open>OnceCell\<close>, filled on the first use: a method takes \<open>&self\<close> and still writes cells, also when
  it fails later, so the model of a method returns its result together with the new record.

  The class types of \<open>cairo-lang\<close>, \<open>starknet-core\<close>, \<open>starknet-api\<close> and \<open>blockifier\<close>, their JSON encodings and
  the conversions between them are the records of parameters \<open>casm_api\<close>, \<open>sierra_api\<close> and \<open>deprecated_api\<close>.

  The lemmas show when a method gives the same result whatever was called before.
\<close>

section \<open>Lazily initialised cells\<close>

type_synonym ('self, 'e, 'a) lazy = "'self \<Rightarrow> ('e, 'a) res \<times> 'self"

definition returnL :: "('e, 'a) res \<Rightarrow> ('self, 'e, 'a) lazy" where
  "returnL r s = (r, s)"

definition bindL :: "('self, 'e, 'a) lazy \<Rightarrow> ('a \<Rightarrow> ('self, 'e, 'b) lazy) \<Rightarrow> ('self, 'e, 'b) lazy" where
  "bindL m f s = (case m s of (Inr a, s') \<Rightarrow> f a s' | (Inl e, s') \<Rightarrow> (Inl e, s'))"

definition map_errL :: "('e \<Rightarrow> 'f) \<Rightarrow> ('self, 'e, 'a) lazy \<Rightarrow> ('self, 'f, 'a) lazy" where
  "map_errL g m s = (case m s of (r, s') \<Rightarrow> (map_err g r, s'))"

text \<open>\<open>OnceCell::get_or_try_init\<close>: the cell is written when the initialiser succeeds; one that is found full then panics.\<close>

definition get_or_try_init ::
  "('self \<Rightarrow> 'a option) \<Rightarrow> ('a \<Rightarrow> 'self \<Rightarrow> 'self) \<Rightarrow> ('self, 'e, 'a) lazy \<Rightarrow> ('self, 'e, 'a) lazy" where
  "get_or_try_init cell put init s =
     (case cell s of
        Some v \<Rightarrow> (Inr v, s)
      | None \<Rightarrow>
          (case init s of
             (Inl e, s') \<Rightarrow> (Inl e, s')
           | (Inr v, s') \<Rightarrow> (if cell s' = None then (Inr v, put v s') else (Inl (Panic ''reentrant init''), s'))))"

definition from_outcome :: "(string \<Rightarrow> 'e) \<Rightarrow> string + 'a \<Rightarrow> ('e, 'a) res" where
  "from_outcome g r = (case r of Inl m \<Rightarrow> Inl (Error (g m)) | Inr a \<Rightarrow> Inr a)"

text \<open>A cell is empty or holds the result \<open>r\<close>.\<close>

fun cell_ok :: "'a option \<Rightarrow> ('e, 'a) res \<Rightarrow> bool" where
  "cell_ok None r = True"
| "cell_ok (Some x) r = (r = Inr x)"

text \<open>Calling methods one after the other.\<close>

fun run_calls :: "('self \<Rightarrow> 'o \<times> 'self) list \<Rightarrow> 'self \<Rightarrow> 'o list \<times> 'self" where
  "run_calls [] s = ([], s)"
| "run_calls (f # fs) s =
     (case f s of (out, s') \<Rightarrow> case run_calls fs s' of (outs, s'') \<Rightarrow> (out # outs, s''))"

lemma returnL_simp [simp]: "returnL r s = (r, s)"
  by (simp add: returnL_def)

lemma bindL_Inr [simp]: "m s = (Inr a, s') \<Longrightarrow> bindL m f s = f a s'"
  by (simp add: bindL_def)

lemma bindL_Inl [simp]: "m s = (Inl e, s') \<Longrightarrow> bindL m f s = (Inl e, s')"
  by (simp add: bindL_def)

lemma map_errL_simp [simp]: "m s = (r, s') \<Longrightarrow> map_errL g m s = (map_err g r, s')"
  by (simp add: map_errL_def)

lemma from_outcome_simps [simp]:
  "from_outcome g (Inl m) = Inl (Error (g m))" "from_outcome g (Inr a) = Inr a"
  by (simp_all add: from_outcome_def)

text \<open>The contract of a cell: what was put is found.\<close>

locale once_cell =
  fixes cell :: "'self \<Rightarrow> 'a option"
    and put :: "'a \<Rightarrow> 'self \<Rightarrow> 'self"
  assumes cell_put: "cell (put v s) = Some v"
begin

lemma init_full: "cell s = Some v \<Longrightarrow> get_or_try_init cell put f s = (Inr v, s)"
  by (simp add: get_or_try_init_def)

text \<open>
  A method that reads a cell returns \<open>r\<close> and keeps the invariant \<open>P\<close> if its initialiser does, leaves the
  cell empty, and \<open>P\<close> allows the cell to be filled with the value of \<open>r\<close>.
\<close>

lemma init_spec:
  assumes "P s" and "cell_ok (cell s) r"
    and "cell s = None \<Longrightarrow> \<exists>s'. init s = (r, s') \<and> P s' \<and> cell s' = None"
    and "\<And>s v. P s \<Longrightarrow> r = Inr v \<Longrightarrow> P (put v s)"
  shows "\<exists>s'. get_or_try_init cell put init s = (r, s') \<and> P s'"
proof (cases "cell s")
  case None
  then obtain s' where "init s = (r, s')" "P s'" "cell s' = None" using assms(3) by blast
  then show ?thesis using None assms(4) [of s'] by (cases r) (simp_all add: get_or_try_init_def)
next
  case (Some v)
  then show ?thesis using assms(1,2) by (simp add: get_or_try_init_def)
qed

text \<open>A value that was returned once is returned ever after, and the record does not change.\<close>

lemma init_fills: "get_or_try_init cell put f s = (Inr v, s') \<Longrightarrow> cell s' = Some v"
  by (auto simp: get_or_try_init_def cell_put split: option.splits prod.splits sum.splits if_splits)

lemma init_stable:
  "get_or_try_init cell put f s = (Inr v, s') \<Longrightarrow> get_or_try_init cell put g s' = (Inr v, s')"
  by (auto simp: get_or_try_init_def cell_put split: option.splits prod.splits sum.splits if_splits)

end

text \<open>
  A specification of the methods of a class with cells: the records that stand for a value, and what
  each method returns for it. The results of any sequence of calls are those of the specification.
\<close>

locale lazy_class =
  fixes denotes :: "'self \<Rightarrow> 'v \<Rightarrow> bool"
    and call :: "'k \<Rightarrow> 'self \<Rightarrow> 'o \<times> 'self"
    and spec :: "'v \<Rightarrow> 'k \<Rightarrow> 'o"
  assumes call_spec: "denotes s v \<Longrightarrow> \<exists>s'. call k s = (spec v k, s') \<and> denotes s' v"
begin

lemma run_calls_spec:
  "denotes s v \<Longrightarrow> \<exists>s'. run_calls (map call ks) s = (map (spec v) ks, s') \<and> denotes s' v"
proof (induction ks arbitrary: s)
  case (Cons k ks)
  obtain s1 where s1: "call k s = (spec v k, s1)" "denotes s1 v" using call_spec [OF Cons.prems] by blast
  then show ?case using Cons.IH [OF s1(2)] by auto
qed simp

end

section \<open>Errors\<close>

datatype conversion_error =
  BlockifierError string | StarknetClassMissing | BlockifierClassMissing | CairoLangClassMissing

text \<open>An error of \<open>serde_json\<close>: its own, or one made from the message of an error of the class.\<close>

datatype contract_class_error =
  ConversionError conversion_error | SerdeError serde_error | HashError string | CompilationError string
and serde_error = JsonError string | CustomError contract_class_error | CustomMessage string

abbreviation json_error :: "string \<Rightarrow> contract_class_error" where
  "json_error m \<equiv> SerdeError (JsonError m)"

section \<open>Compiled classes\<close>

record ('cl, 'bl) casm_api =
  casm_of_json :: "bytes \<Rightarrow> string + 'cl"
  casm_to_json :: "'cl \<Rightarrow> string + bytes"
  casm_to_blockifier :: "'cl \<Rightarrow> string + 'bl"
  casm_class_hash :: "'cl \<Rightarrow> felt"

record ('cl, 'bl) casm_class =
  casm_blockifier :: "'bl option"
  casm_cairo_lang :: "'cl option"
  casm_serialized :: "bytes option"
  casm_hash :: "hash option"

definition blockifier_contract_class_from_cairo_lang_class ::
  "('cl, 'bl) casm_api \<Rightarrow> 'cl \<Rightarrow> (contract_class_error, 'bl) res" where
  "blockifier_contract_class_from_cairo_lang_class api c =
     from_outcome (\<lambda>e. ConversionError (BlockifierError e)) (casm_to_blockifier api c)"

definition cairo_lang_contract_class_from_bytes ::
  "('cl, 'bl) casm_api \<Rightarrow> bytes \<Rightarrow> (contract_class_error, 'cl) res" where
  "cairo_lang_contract_class_from_bytes api bs = from_outcome json_error (casm_of_json api bs)"

definition GenericCasm_from_bytes :: "bytes \<Rightarrow> ('cl, 'bl) casm_class" where
  "GenericCasm_from_bytes bs =
     \<lparr> casm_blockifier = None, casm_cairo_lang = None, casm_serialized = Some bs, casm_hash = None \<rparr>"

definition GenericCasm_from_cairo_lang :: "'cl \<Rightarrow> ('cl, 'bl) casm_class" where
  "GenericCasm_from_cairo_lang c =
     \<lparr> casm_blockifier = None, casm_cairo_lang = Some c, casm_serialized = None, casm_hash = None \<rparr>"

definition GenericCasm_from_blockifier :: "'bl \<Rightarrow> ('cl, 'bl) casm_class" where
  "GenericCasm_from_blockifier b =
     \<lparr> casm_blockifier = Some b, casm_cairo_lang = None, casm_serialized = None, casm_hash = None \<rparr>"

definition casm_build_cairo_lang_class ::
  "('cl, 'bl) casm_api \<Rightarrow> (('cl, 'bl) casm_class, contract_class_error, 'cl) lazy" where
  "casm_build_cairo_lang_class api s =
     (case casm_serialized s of
        Some bs \<Rightarrow> (from_outcome json_error (casm_of_json api bs), s)
      | None \<Rightarrow> (Inl (Error (ConversionError CairoLangClassMissing)), s))"

definition casm_build_blockifier_class ::
  "('cl, 'bl) casm_api \<Rightarrow> (('cl, 'bl) casm_class, contract_class_error, 'bl) lazy" where
  "casm_build_blockifier_class api s =
     (case casm_cairo_lang s of
        Some c \<Rightarrow> (blockifier_contract_class_from_cairo_lang_class api c, s)
      | None \<Rightarrow>
          (case casm_serialized s of
             Some bs \<Rightarrow>
               bindL (returnL (cairo_lang_contract_class_from_bytes api bs)) (\<lambda>c s'.
                 if casm_cairo_lang s' = None
                 then (blockifier_contract_class_from_cairo_lang_class api c, s' \<lparr> casm_cairo_lang := Some c \<rparr>)
                 else (Inl (Panic ''cairo-lang class is already set''), s')) s
           | None \<Rightarrow> (Inl (Error (ConversionError BlockifierClassMissing)), s)))"

definition casm_get_cairo_lang_contract_class ::
  "('cl, 'bl) casm_api \<Rightarrow> (('cl, 'bl) casm_class, contract_class_error, 'cl) lazy" where
  "casm_get_cairo_lang_contract_class api =
     get_or_try_init casm_cairo_lang (\<lambda>c s. s \<lparr> casm_cairo_lang := Some c \<rparr>) (casm_build_cairo_lang_class api)"

definition casm_get_blockifier_contract_class ::
  "('cl, 'bl) casm_api \<Rightarrow> (('cl, 'bl) casm_class, contract_class_error, 'bl) lazy" where
  "casm_get_blockifier_contract_class api =
     get_or_try_init casm_blockifier (\<lambda>b s. s \<lparr> casm_blockifier := Some b \<rparr>) (casm_build_blockifier_class api)"

definition casm_to_cairo_lang_contract_class ::
  "('cl, 'bl) casm_api \<Rightarrow> ('cl, 'bl) casm_class \<Rightarrow> (contract_class_error, 'cl) res" where
  "casm_to_cairo_lang_contract_class api s = fst (casm_get_cairo_lang_contract_class api s)"

definition casm_to_blockifier_contract_class ::
  "('cl, 'bl) casm_api \<Rightarrow> ('cl, 'bl) casm_class \<Rightarrow> (contract_class_error, 'bl) res" where
  "casm_to_blockifier_contract_class api s = fst (casm_get_blockifier_contract_class api s)"

definition casm_compute_class_hash ::
  "('cl, 'bl) casm_api \<Rightarrow> (('cl, 'bl) casm_class, contract_class_error, hash) lazy" where
  "casm_compute_class_hash api =
     bindL (casm_get_cairo_lang_contract_class api) (\<lambda>c.
       returnL (Inr (Hash_from_bytes_be (felt_to_bytes_be (casm_class_hash api c)))))"

definition GenericCasm_class_hash ::
  "('cl, 'bl) casm_api \<Rightarrow> (('cl, 'bl) casm_class, contract_class_error, hash) lazy" where
  "GenericCasm_class_hash api =
     get_or_try_init casm_hash (\<lambda>h s. s \<lparr> casm_hash := Some h \<rparr>) (casm_compute_class_hash api)"

definition GenericCasm_serialize ::
  "('cl, 'bl) casm_api \<Rightarrow> (('cl, 'bl) casm_class, serde_error, bytes) lazy" where
  "GenericCasm_serialize api =
     bindL (map_errL CustomError (casm_get_cairo_lang_contract_class api)) (\<lambda>c.
       returnL (from_outcome JsonError (casm_to_json api c)))"

definition GenericCasm_deserialize ::
  "('cl, 'bl) casm_api \<Rightarrow> bytes \<Rightarrow> string + ('cl, 'bl) casm_class" where
  "GenericCasm_deserialize api bs =
     (case casm_of_json api bs of Inl m \<Rightarrow> Inl m | Inr c \<Rightarrow> Inr (GenericCasm_from_cairo_lang c))"

interpretation casm_lang_cell: once_cell casm_cairo_lang "\<lambda>c s. s \<lparr> casm_cairo_lang := Some c \<rparr>"
  by unfold_locales simp

interpretation casm_blockifier_cell: once_cell casm_blockifier "\<lambda>b s. s \<lparr> casm_blockifier := Some b \<rparr>"
  by unfold_locales simp

interpretation casm_hash_cell: once_cell casm_hash "\<lambda>h s. s \<lparr> casm_hash := Some h \<rparr>"
  by unfold_locales simp

text \<open>
  What a compiled class is: the outcome of parsing a \<open>cairo-lang\<close> class, or a \<open>blockifier\<close> class of
  which nothing else is known.
\<close>

datatype ('cl, 'bl) casm_value = CasmParsed "string + 'cl" | CasmBlockifier 'bl

datatype casm_method = CasmGetLang | CasmGetBlockifier | CasmHash | CasmSerialize

datatype ('cl, 'bl) casm_out =
  OutLang "(contract_class_error, 'cl) res" | OutBlockifier "(contract_class_error, 'bl) res"
| OutHash "(contract_class_error, hash) res" | OutBytes "(serde_error, bytes) res"

fun casm_call :: "('cl, 'bl) casm_api \<Rightarrow> casm_method \<Rightarrow> ('cl, 'bl) casm_class \<Rightarrow> ('cl, 'bl) casm_out \<times> ('cl, 'bl) casm_class" where
  "casm_call api CasmGetLang s = apfst OutLang (casm_get_cairo_lang_contract_class api s)"
| "casm_call api CasmGetBlockifier s = apfst OutBlockifier (casm_get_blockifier_contract_class api s)"
| "casm_call api CasmHash s = apfst OutHash (GenericCasm_class_hash api s)"
| "casm_call api CasmSerialize s = apfst OutBytes (GenericCasm_serialize api s)"

fun casm_lang_of :: "('cl, 'bl) casm_value \<Rightarrow> (contract_class_error, 'cl) res" where
  "casm_lang_of (CasmParsed r) = from_outcome json_error r"
| "casm_lang_of (CasmBlockifier b) = Inl (Error (ConversionError CairoLangClassMissing))"

fun casm_blockifier_of :: "('cl, 'bl) casm_api \<Rightarrow> ('cl, 'bl) casm_value \<Rightarrow> (contract_class_error, 'bl) res" where
  "casm_blockifier_of api (CasmParsed r) =
     bindR (from_outcome json_error r) (blockifier_contract_class_from_cairo_lang_class api)"
| "casm_blockifier_of api (CasmBlockifier b) = Inr b"

definition casm_hash_of :: "('cl, 'bl) casm_api \<Rightarrow> ('cl, 'bl) casm_value \<Rightarrow> (contract_class_error, hash) res" where
  "casm_hash_of api v = bindR (casm_lang_of v) (\<lambda>c. Inr (Hash_of_felt (casm_class_hash api c)))"

definition casm_bytes_of :: "('cl, 'bl) casm_api \<Rightarrow> ('cl, 'bl) casm_value \<Rightarrow> (serde_error, bytes) res" where
  "casm_bytes_of api v = bindR (map_err CustomError (casm_lang_of v)) (\<lambda>c. from_outcome JsonError (casm_to_json api c))"

fun casm_spec :: "('cl, 'bl) casm_api \<Rightarrow> ('cl, 'bl) casm_value \<Rightarrow> casm_method \<Rightarrow> ('cl, 'bl) casm_out" where
  "casm_spec api v CasmGetLang = OutLang (casm_lang_of v)"
| "casm_spec api v CasmGetBlockifier = OutBlockifier (casm_blockifier_of api v)"
| "casm_spec api v CasmHash = OutHash (casm_hash_of api v)"
| "casm_spec api v CasmSerialize = OutBytes (casm_bytes_of api v)"

text \<open>A record stands for a class if its full cells hold what the methods return.\<close>

definition casm_denotes :: "('cl, 'bl) casm_api \<Rightarrow> ('cl, 'bl) casm_class \<Rightarrow> ('cl, 'bl) casm_value \<Rightarrow> bool" where
  "casm_denotes api s v \<longleftrightarrow>
     cell_ok (casm_cairo_lang s) (casm_lang_of v) \<and>
     cell_ok (casm_blockifier s) (casm_blockifier_of api v) \<and>
     cell_ok (casm_hash s) (casm_hash_of api v) \<and>
     (case v of
        CasmParsed r \<Rightarrow> (case casm_serialized s of Some bs \<Rightarrow> casm_of_json api bs = r | None \<Rightarrow> casm_cairo_lang s \<noteq> None)
      | CasmBlockifier b \<Rightarrow> casm_serialized s = None \<and> casm_blockifier s = Some b)"

lemma casm_denotes_fill:
  assumes "casm_denotes api s v"
  shows "casm_lang_of v = Inr c \<Longrightarrow> casm_denotes api (s \<lparr> casm_cairo_lang := Some c \<rparr>) v"
    and "casm_blockifier_of api v = Inr b \<Longrightarrow> casm_denotes api (s \<lparr> casm_blockifier := Some b \<rparr>) v"
    and "casm_hash_of api v = Inr h \<Longrightarrow> casm_denotes api (s \<lparr> casm_hash := Some h \<rparr>) v"
  using assms by (cases v; cases "casm_serialized s"; simp add: casm_denotes_def)+

lemma casm_lang_ok:
  assumes "casm_denotes api s v"
  shows "\<exists>s'. casm_get_cairo_lang_contract_class api s = (casm_lang_of v, s') \<and>
    casm_denotes api s' v \<and> casm_hash s' = casm_hash s"
  unfolding casm_get_cairo_lang_contract_class_def
proof (rule casm_lang_cell.init_spec)
  assume "casm_cairo_lang s = None"
  then show "\<exists>s'. casm_build_cairo_lang_class api s = (casm_lang_of v, s') \<and>
      (casm_denotes api s' v \<and> casm_hash s' = casm_hash s) \<and> casm_cairo_lang s' = None"
    using assms by (cases v; cases "casm_serialized s") (simp_all add: casm_build_cairo_lang_class_def casm_denotes_def)
qed (use assms in \<open>auto simp: casm_denotes_fill(1) casm_denotes_def [of api s]\<close>)

lemma casm_blockifier_ok:
  assumes "casm_denotes api s v"
  shows "\<exists>s'. casm_get_blockifier_contract_class api s = (casm_blockifier_of api v, s') \<and> casm_denotes api s' v"
  unfolding casm_get_blockifier_contract_class_def
proof (rule casm_blockifier_cell.init_spec)
  assume None: "casm_blockifier s = None"
  then obtain r where "v = CasmParsed r" using assms by (cases v) (auto simp: casm_denotes_def)
  then show "\<exists>s'. casm_build_blockifier_class api s = (casm_blockifier_of api v, s') \<and>
      casm_denotes api s' v \<and> casm_blockifier s' = None"
    using assms None
    by (cases r; cases "casm_cairo_lang s"; cases "casm_serialized s")
      (auto simp: casm_build_blockifier_class_def casm_denotes_def cairo_lang_contract_class_from_bytes_def bindL_def)
qed (use assms in \<open>auto simp: casm_denotes_fill(2) casm_denotes_def [of api s]\<close>)

lemma casm_hash_ok:
  assumes "casm_denotes api s v"
  shows "\<exists>s'. GenericCasm_class_hash api s = (casm_hash_of api v, s') \<and> casm_denotes api s' v"
  unfolding GenericCasm_class_hash_def
proof (rule casm_hash_cell.init_spec)
  assume None: "casm_hash s = None"
  obtain s' where s': "casm_get_cairo_lang_contract_class api s = (casm_lang_of v, s')" "casm_denotes api s' v"
    "casm_hash s' = None"
    using casm_lang_ok [OF assms] None by auto
  then show "\<exists>s'. casm_compute_class_hash api s = (casm_hash_of api v, s') \<and> casm_denotes api s' v \<and> casm_hash s' = None"
    by (cases "casm_lang_of v") (simp_all add: casm_compute_class_hash_def casm_hash_of_def bindL_def Hash_of_felt_def)
qed (use assms in \<open>auto simp: casm_denotes_fill(3) casm_denotes_def [of api s]\<close>)

lemma casm_bytes_ok:
  assumes "casm_denotes api s v"
  shows "\<exists>s'. GenericCasm_serialize api s = (casm_bytes_of api v, s') \<and> casm_denotes api s' v"
proof -
  obtain s' where s': "casm_get_cairo_lang_contract_class api s = (casm_lang_of v, s')" "casm_denotes api s' v"
    using casm_lang_ok [OF assms] by blast
  then have "map_errL CustomError (casm_get_cairo_lang_contract_class api) s = (map_err CustomError (casm_lang_of v), s')"
    by simp
  with s'(2) show ?thesis
    by (cases "map_err CustomError (casm_lang_of v)") (simp_all add: GenericCasm_serialize_def casm_bytes_of_def)
qed

interpretation casm_class: lazy_class "casm_denotes api" "casm_call api" "casm_spec api" for api
proof unfold_locales
  fix s v k
  assume d: "casm_denotes api s v"
  show "\<exists>s'. casm_call api k s = (casm_spec api v k, s') \<and> casm_denotes api s' v"
    using casm_lang_ok [OF d] casm_blockifier_ok [OF d] casm_hash_ok [OF d] casm_bytes_ok [OF d]
    by (cases k) auto
qed

lemma casm_denotes_init:
  "casm_denotes api (GenericCasm_from_bytes bs) (CasmParsed (casm_of_json api bs))"
  "casm_denotes api (GenericCasm_from_cairo_lang c) (CasmParsed (Inr c))"
  "casm_denotes api (GenericCasm_from_blockifier b) (CasmBlockifier b)"
  by (simp_all add: casm_denotes_def GenericCasm_from_bytes_def GenericCasm_from_cairo_lang_def
      GenericCasm_from_blockifier_def)

section \<open>Sierra classes\<close>

record sierra_entry_point =
  ep_selector :: felt
  ep_function_idx :: nat

record entry_points_by_type =
  ep_constructor :: "sierra_entry_point list"
  ep_external :: "sierra_entry_point list"
  ep_l1_handler :: "sierra_entry_point list"

record flattened_sierra_class =
  fs_sierra_program :: "felt list"
  fs_contract_class_version :: string
  fs_entry_points_by_type :: entry_points_by_type
  fs_abi :: string

record 'abi flattened_sierra_class_with_abi =
  fa_sierra_program :: "felt list"
  fa_contract_class_version :: string
  fa_entry_points_by_type :: entry_points_by_type
  fa_abi :: "'abi option"

record ('cl, 'sc, 'abi, 'casm) sierra_api =
  sierra_of_json :: "bytes \<Rightarrow> string + 'cl"
  sierra_to_json :: "'cl \<Rightarrow> string + bytes"
  core_of_json :: "bytes \<Rightarrow> string + 'sc"
  core_flatten :: "'sc \<Rightarrow> string + flattened_sierra_class"
  flattened_class_hash :: "flattened_sierra_class \<Rightarrow> felt"
  abi_of_json :: "string \<Rightarrow> string + 'abi option"
  with_abi_to_json :: "'abi flattened_sierra_class_with_abi \<Rightarrow> string + bytes"
  from_contract_class :: "'cl \<Rightarrow> bool \<Rightarrow> nat \<Rightarrow> string + 'casm"

record 'cl sierra_class =
  sierra_cairo_lang :: "'cl option"
  sierra_core :: "flattened_sierra_class option"
  sierra_serialized :: "bytes option"
  sierra_hash :: "hash option"

definition GenericSierra_from_bytes :: "bytes \<Rightarrow> 'cl sierra_class" where
  "GenericSierra_from_bytes bs =
     \<lparr> sierra_cairo_lang = None, sierra_core = None, sierra_serialized = Some bs, sierra_hash = None \<rparr>"

definition GenericSierra_from_cairo_lang :: "'cl \<Rightarrow> 'cl sierra_class" where
  "GenericSierra_from_cairo_lang c =
     \<lparr> sierra_cairo_lang = Some c, sierra_core = None, sierra_serialized = None, sierra_hash = None \<rparr>"

definition GenericSierra_from_core :: "flattened_sierra_class \<Rightarrow> 'cl sierra_class" where
  "GenericSierra_from_core f =
     \<lparr> sierra_cairo_lang = None, sierra_core = Some f, sierra_serialized = None, sierra_hash = None \<rparr>"

definition FlattenedSierraClassWithAbi_try_from ::
  "('cl, 'sc, 'abi, 'casm) sierra_api \<Rightarrow> flattened_sierra_class
   \<Rightarrow> (serde_error, 'abi flattened_sierra_class_with_abi) res" where
  "FlattenedSierraClassWithAbi_try_from api f =
     Inr \<lparr> fa_sierra_program = fs_sierra_program f, fa_contract_class_version = fs_contract_class_version f,
           fa_entry_points_by_type = fs_entry_points_by_type f,
           fa_abi = (case abi_of_json api (fs_abi f) of Inr a \<Rightarrow> a | Inl _ \<Rightarrow> None) \<rparr>"

definition GenericSierra_serialize ::
  "('cl, 'sc, 'abi, 'casm) sierra_api \<Rightarrow> ('cl sierra_class, serde_error, bytes) lazy" where
  "GenericSierra_serialize api s =
     (case sierra_cairo_lang s of
        Some c \<Rightarrow> (from_outcome JsonError (sierra_to_json api c), s)
      | None \<Rightarrow>
          (case sierra_core s of
             Some f \<Rightarrow>
               (bindR (FlattenedSierraClassWithAbi_try_from api f) (\<lambda>w.
                  from_outcome JsonError (with_abi_to_json api w)), s)
           | None \<Rightarrow> (Inl (Error (CustomMessage ''No possible serialization'')), s)))"

definition GenericSierra_deserialize ::
  "('cl, 'sc, 'abi, 'casm) sierra_api \<Rightarrow> bytes \<Rightarrow> string + 'cl sierra_class" where
  "GenericSierra_deserialize api bs =
     (case sierra_of_json api bs of Inl m \<Rightarrow> Inl m | Inr c \<Rightarrow> Inr (GenericSierra_from_cairo_lang c))"

definition sierra_get_serialized_contract_class ::
  "('cl, 'sc, 'abi, 'casm) sierra_api \<Rightarrow> ('cl sierra_class, contract_class_error, bytes) lazy" where
  "sierra_get_serialized_contract_class api =
     map_errL SerdeError
       (get_or_try_init sierra_serialized (\<lambda>d s. s \<lparr> sierra_serialized := Some d \<rparr>) (GenericSierra_serialize api))"

definition sierra_build_cairo_lang_class ::
  "('cl, 'sc, 'abi, 'casm) sierra_api \<Rightarrow> ('cl sierra_class, contract_class_error, 'cl) lazy" where
  "sierra_build_cairo_lang_class api =
     bindL (sierra_get_serialized_contract_class api) (\<lambda>bs. returnL (from_outcome json_error (sierra_of_json api bs)))"

definition sierra_build_starknet_core_class ::
  "('cl, 'sc, 'abi, 'casm) sierra_api \<Rightarrow> ('cl sierra_class, contract_class_error, flattened_sierra_class) lazy" where
  "sierra_build_starknet_core_class api =
     bindL (sierra_get_serialized_contract_class api) (\<lambda>bs.
     bindL (returnL (from_outcome json_error (core_of_json api bs))) (\<lambda>sierra_class.
       returnL (from_outcome (\<lambda>e. SerdeError (CustomMessage e)) (core_flatten api sierra_class))))"

definition sierra_get_cairo_lang_contract_class ::
  "('cl, 'sc, 'abi, 'casm) sierra_api \<Rightarrow> ('cl sierra_class, contract_class_error, 'cl) lazy" where
  "sierra_get_cairo_lang_contract_class api =
     get_or_try_init sierra_cairo_lang (\<lambda>c s. s \<lparr> sierra_cairo_lang := Some c \<rparr>) (sierra_build_cairo_lang_class api)"

definition sierra_get_starknet_core_contract_class ::
  "('cl, 'sc, 'abi, 'casm) sierra_api \<Rightarrow> ('cl sierra_class, contract_class_error, flattened_sierra_class) lazy" where
  "sierra_get_starknet_core_contract_class api =
     get_or_try_init sierra_core (\<lambda>f s. s \<lparr> sierra_core := Some f \<rparr>) (sierra_build_starknet_core_class api)"

definition sierra_to_cairo_lang_contract_class ::
  "('cl, 'sc, 'abi, 'casm) sierra_api \<Rightarrow> 'cl sierra_class \<Rightarrow> (contract_class_error, 'cl) res" where
  "sierra_to_cairo_lang_contract_class api s = fst (sierra_get_cairo_lang_contract_class api s)"

definition sierra_to_starknet_core_contract_class ::
  "('cl, 'sc, 'abi, 'casm) sierra_api \<Rightarrow> 'cl sierra_class \<Rightarrow> (contract_class_error, flattened_sierra_class) res" where
  "sierra_to_starknet_core_contract_class api s = fst (sierra_get_starknet_core_contract_class api s)"

definition sierra_compute_class_hash ::
  "('cl, 'sc, 'abi, 'casm) sierra_api \<Rightarrow> ('cl sierra_class, contract_class_error, hash) lazy" where
  "sierra_compute_class_hash api =
     bindL (sierra_get_starknet_core_contract_class api) (\<lambda>f.
       returnL (Inr (Hash_of_felt (flattened_class_hash api f))))"

definition GenericSierra_class_hash ::
  "('cl, 'sc, 'abi, 'casm) sierra_api \<Rightarrow> ('cl sierra_class, contract_class_error, hash) lazy" where
  "GenericSierra_class_hash api =
     get_or_try_init sierra_hash (\<lambda>h s. s \<lparr> sierra_hash := Some h \<rparr>) (sierra_compute_class_hash api)"

definition GenericSierra_compile ::
  "('cl, 'sc, 'abi, 'casm) sierra_api
   \<Rightarrow> ('cl sierra_class, contract_class_error, ('casm, 'bl) casm_class) lazy" where
  "GenericSierra_compile api =
     bindL (sierra_get_cairo_lang_contract_class api) (\<lambda>c.
     bindL (returnL (from_outcome CompilationError (from_contract_class api c False 180000))) (\<lambda>casm.
       returnL (Inr (GenericCasm_from_cairo_lang casm))))"

interpretation sierra_lang_cell: once_cell sierra_cairo_lang "\<lambda>c s. s \<lparr> sierra_cairo_lang := Some c \<rparr>"
  by unfold_locales simp

interpretation sierra_core_cell: once_cell sierra_core "\<lambda>f s. s \<lparr> sierra_core := Some f \<rparr>"
  by unfold_locales simp

interpretation sierra_serialized_cell: once_cell sierra_serialized "\<lambda>d s. s \<lparr> sierra_serialized := Some d \<rparr>"
  by unfold_locales simp

interpretation sierra_hash_cell: once_cell sierra_hash "\<lambda>h s. s \<lparr> sierra_hash := Some h \<rparr>"
  by unfold_locales simp

text \<open>What a Sierra class was made from, and what its methods return for it.\<close>

datatype 'cl sierra_value = SierraBytes bytes | SierraLang 'cl | SierraCore flattened_sierra_class

fun sierra_bytes_of ::
  "('cl, 'sc, 'abi, 'casm) sierra_api \<Rightarrow> 'cl sierra_value \<Rightarrow> (contract_class_error, bytes) res" where
  "sierra_bytes_of api (SierraBytes bs) = Inr bs"
| "sierra_bytes_of api (SierraLang c) = from_outcome json_error (sierra_to_json api c)"
| "sierra_bytes_of api (SierraCore f) =
     bindR (map_err SerdeError (FlattenedSierraClassWithAbi_try_from api f)) (\<lambda>w.
       from_outcome json_error (with_abi_to_json api w))"

fun sierra_lang_of ::
  "('cl, 'sc, 'abi, 'casm) sierra_api \<Rightarrow> 'cl sierra_value \<Rightarrow> (contract_class_error, 'cl) res" where
  "sierra_lang_of api (SierraLang c) = Inr c"
| "sierra_lang_of api v =
     bindR (sierra_bytes_of api v) (\<lambda>bs. from_outcome json_error (sierra_of_json api bs))"

fun sierra_core_of ::
  "('cl, 'sc, 'abi, 'casm) sierra_api \<Rightarrow> 'cl sierra_value \<Rightarrow> (contract_class_error, flattened_sierra_class) res" where
  "sierra_core_of api (SierraCore f) = Inr f"
| "sierra_core_of api v =
     bindR (sierra_bytes_of api v) (\<lambda>bs.
     bindR (from_outcome json_error (core_of_json api bs)) (\<lambda>sierra_class.
       from_outcome (\<lambda>e. SerdeError (CustomMessage e)) (core_flatten api sierra_class)))"

definition sierra_hash_of ::
  "('cl, 'sc, 'abi, 'casm) sierra_api \<Rightarrow> 'cl sierra_value \<Rightarrow> (contract_class_error, hash) res" where
  "sierra_hash_of api v = bindR (sierra_core_of api v) (\<lambda>f. Inr (Hash_of_felt (flattened_class_hash api f)))"

definition sierra_compiled_of ::
  "('cl, 'sc, 'abi, 'casm) sierra_api \<Rightarrow> 'cl sierra_value \<Rightarrow> (contract_class_error, ('casm, 'bl) casm_class) res" where
  "sierra_compiled_of api v =
     bindR (sierra_lang_of api v) (\<lambda>c.
     bindR (from_outcome CompilationError (from_contract_class api c False 180000)) (\<lambda>casm.
       Inr (GenericCasm_from_cairo_lang casm)))"

datatype sierra_method = SierraGetSerialized | SierraGetLang | SierraGetCore | SierraHash | SierraCompile

datatype ('cl, 'casm, 'bl) sierra_out =
  SierraOutBytes "(contract_class_error, bytes) res" | SierraOutLang "(contract_class_error, 'cl) res"
| SierraOutCore "(contract_class_error, flattened_sierra_class) res" | SierraOutHash "(contract_class_error, hash) res"
| SierraOutCompiled "(contract_class_error, ('casm, 'bl) casm_class) res"

fun sierra_call ::
  "('cl, 'sc, 'abi, 'casm) sierra_api \<Rightarrow> sierra_method \<Rightarrow> 'cl sierra_class
   \<Rightarrow> ('cl, 'casm, 'bl) sierra_out \<times> 'cl sierra_class" where
  "sierra_call api SierraGetSerialized s = apfst SierraOutBytes (sierra_get_serialized_contract_class api s)"
| "sierra_call api SierraGetLang s = apfst SierraOutLang (sierra_get_cairo_lang_contract_class api s)"
| "sierra_call api SierraGetCore s = apfst SierraOutCore (sierra_get_starknet_core_contract_class api s)"
| "sierra_call api SierraHash s = apfst SierraOutHash (GenericSierra_class_hash api s)"
| "sierra_call api SierraCompile s = apfst SierraOutCompiled (GenericSierra_compile api s)"

fun sierra_spec ::
  "('cl, 'sc, 'abi, 'casm) sierra_api \<Rightarrow> 'cl sierra_value \<Rightarrow> sierra_method \<Rightarrow> ('cl, 'casm, 'bl) sierra_out" where
  "sierra_spec api v SierraGetSerialized = SierraOutBytes (sierra_bytes_of api v)"
| "sierra_spec api v SierraGetLang = SierraOutLang (sierra_lang_of api v)"
| "sierra_spec api v SierraGetCore = SierraOutCore (sierra_core_of api v)"
| "sierra_spec api v SierraHash = SierraOutHash (sierra_hash_of api v)"
| "sierra_spec api v SierraCompile = SierraOutCompiled (sierra_compiled_of api v)"

definition sierra_denotes ::
  "('cl, 'sc, 'abi, 'casm) sierra_api \<Rightarrow> 'cl sierra_class \<Rightarrow> 'cl sierra_value \<Rightarrow> bool" where
  "sierra_denotes api s v \<longleftrightarrow>
     cell_ok (sierra_serialized s) (sierra_bytes_of api v) \<and>
     cell_ok (sierra_cairo_lang s) (sierra_lang_of api v) \<and>
     cell_ok (sierra_core s) (sierra_core_of api v) \<and>
     cell_ok (sierra_hash s) (sierra_hash_of api v) \<and>
     (case v of
        SierraBytes bs \<Rightarrow> sierra_serialized s = Some bs
      | SierraLang c \<Rightarrow> sierra_cairo_lang s = Some c
      | SierraCore f \<Rightarrow> sierra_core s = Some f \<and> (sierra_cairo_lang s = None \<or> sierra_serialized s \<noteq> None))"

lemma sierra_denotes_fill:
  assumes "sierra_denotes api s v"
  shows "sierra_bytes_of api v = Inr d \<Longrightarrow> sierra_denotes api (s \<lparr> sierra_serialized := Some d \<rparr>) v"
    and "sierra_lang_of api v = Inr c \<Longrightarrow> sierra_serialized s \<noteq> None \<Longrightarrow>
      sierra_denotes api (s \<lparr> sierra_cairo_lang := Some c \<rparr>) v"
    and "sierra_core_of api v = Inr f \<Longrightarrow> sierra_denotes api (s \<lparr> sierra_core := Some f \<rparr>) v"
    and "sierra_hash_of api v = Inr h \<Longrightarrow> sierra_denotes api (s \<lparr> sierra_hash := Some h \<rparr>) v"
  using assms by (cases v; simp add: sierra_denotes_def)+

lemma sierra_bytes_ok:
  assumes "sierra_denotes api s v"
  shows "\<exists>s'. sierra_get_serialized_contract_class api s = (sierra_bytes_of api v, s') \<and> sierra_denotes api s' v \<and>
    sierra_cairo_lang s' = sierra_cairo_lang s \<and> sierra_core s' = sierra_core s \<and> sierra_hash s' = sierra_hash s \<and>
    (\<forall>d. sierra_bytes_of api v = Inr d \<longrightarrow> sierra_serialized s' = Some d)"
proof (cases "sierra_serialized s")
  case (Some d)
  then have "sierra_bytes_of api v = Inr d" using assms by (simp add: sierra_denotes_def)
  then show ?thesis
    using assms Some by (simp add: sierra_get_serialized_contract_class_def map_errL_def sierra_serialized_cell.init_full [OF Some])
next
  case None
  then have "map_err SerdeError (fst (GenericSierra_serialize api s)) = sierra_bytes_of api v \<and> snd (GenericSierra_serialize api s) = s"
    using assms
    by (cases v) (auto simp: sierra_denotes_def GenericSierra_serialize_def FlattenedSierraClassWithAbi_try_from_def
        from_outcome_def split: sum.splits)
  then obtain r where r: "GenericSierra_serialize api s = (r, s)" "map_err SerdeError r = sierra_bytes_of api v"
    by (cases "GenericSierra_serialize api s") auto
  show ?thesis
  proof (cases r)
    case (Inl e)
    then show ?thesis
      using assms r None by (cases e) (auto simp: sierra_get_serialized_contract_class_def map_errL_def get_or_try_init_def)
  next
    case (Inr d)
    then show ?thesis
      using r None sierra_denotes_fill(1) [OF assms, of d]
      by (auto simp: sierra_get_serialized_contract_class_def map_errL_def get_or_try_init_def)
  qed
qed

lemma sierra_lang_ok:
  assumes "sierra_denotes api s v"
  shows "\<exists>s'. sierra_get_cairo_lang_contract_class api s = (sierra_lang_of api v, s') \<and> sierra_denotes api s' v"
proof (cases "sierra_cairo_lang s")
  case (Some c)
  then have "sierra_lang_of api v = Inr c" using assms by (simp add: sierra_denotes_def)
  then show ?thesis
    using assms Some by (simp add: sierra_get_cairo_lang_contract_class_def sierra_lang_cell.init_full [OF Some])
next
  case None
  then have v: "sierra_lang_of api v = bindR (sierra_bytes_of api v) (\<lambda>bs. from_outcome json_error (sierra_of_json api bs))"
    using assms by (cases v) (simp_all add: sierra_denotes_def)
  obtain s' where s': "sierra_get_serialized_contract_class api s = (sierra_bytes_of api v, s')" "sierra_denotes api s' v"
    "sierra_cairo_lang s' = None" "\<forall>d. sierra_bytes_of api v = Inr d \<longrightarrow> sierra_serialized s' = Some d"
    using sierra_bytes_ok [OF assms] None by auto
  then have "sierra_build_cairo_lang_class api s = (sierra_lang_of api v, s')"
    by (cases "sierra_bytes_of api v") (simp_all add: sierra_build_cairo_lang_class_def v)
  moreover have "sierra_denotes api (s' \<lparr> sierra_cairo_lang := Some c \<rparr>) v" if c: "sierra_lang_of api v = Inr c" for c
  proof -
    obtain d where "sierra_bytes_of api v = Inr d" using c unfolding v by blast
    then show ?thesis using sierra_denotes_fill(2) [OF s'(2) c] s'(4) by simp
  qed
  ultimately show ?thesis
    using None s'(2,3) by (cases "sierra_lang_of api v") (simp_all add: sierra_get_cairo_lang_contract_class_def get_or_try_init_def)
qed

lemma sierra_core_ok:
  assumes "sierra_denotes api s v"
  shows "\<exists>s'. sierra_get_starknet_core_contract_class api s = (sierra_core_of api v, s') \<and>
    sierra_denotes api s' v \<and> sierra_hash s' = sierra_hash s"
  unfolding sierra_get_starknet_core_contract_class_def
proof (rule sierra_core_cell.init_spec)
  assume None: "sierra_core s = None"
  then have v: "sierra_core_of api v = bindR (sierra_bytes_of api v) (\<lambda>bs.
     bindR (from_outcome json_error (core_of_json api bs)) (\<lambda>sierra_class.
       from_outcome (\<lambda>e. SerdeError (CustomMessage e)) (core_flatten api sierra_class)))"
    using assms by (cases v) (simp_all add: sierra_denotes_def)
  obtain s' where s': "sierra_get_serialized_contract_class api s = (sierra_bytes_of api v, s')" "sierra_denotes api s' v"
    "sierra_core s' = None" "sierra_hash s' = sierra_hash s"
    using sierra_bytes_ok [OF assms] None by auto
  then have "sierra_build_starknet_core_class api s = (sierra_core_of api v, s')"
    unfolding sierra_build_starknet_core_class_def v
    by (cases "sierra_bytes_of api v") (auto simp: bindL_def from_outcome_def split: sum.splits)
  with s' show "\<exists>s'. sierra_build_starknet_core_class api s = (sierra_core_of api v, s') \<and>
      (sierra_denotes api s' v \<and> sierra_hash s' = sierra_hash s) \<and> sierra_core s' = None" by blast
qed (use assms in \<open>auto simp: sierra_denotes_fill(3) sierra_denotes_def [of api s]\<close>)

lemma sierra_hash_ok:
  assumes "sierra_denotes api s v"
  shows "\<exists>s'. GenericSierra_class_hash api s = (sierra_hash_of api v, s') \<and> sierra_denotes api s' v"
  unfolding GenericSierra_class_hash_def
proof (rule sierra_hash_cell.init_spec)
  assume None: "sierra_hash s = None"
  obtain s' where s': "sierra_get_starknet_core_contract_class api s = (sierra_core_of api v, s')" "sierra_denotes api s' v"
    "sierra_hash s' = None"
    using sierra_core_ok [OF assms] None by auto
  then show "\<exists>s'. sierra_compute_class_hash api s = (sierra_hash_of api v, s') \<and> sierra_denotes api s' v \<and> sierra_hash s' = None"
    by (cases "sierra_core_of api v") (simp_all add: sierra_compute_class_hash_def sierra_hash_of_def)
qed (use assms in \<open>auto simp: sierra_denotes_fill(4) sierra_denotes_def [of api s]\<close>)

lemma sierra_compile_ok:
  fixes api :: "('cl, 'sc, 'abi, 'casm) sierra_api"
  assumes "sierra_denotes api s v"
  shows "\<exists>s'. GenericSierra_compile api s = (sierra_compiled_of api v :: (contract_class_error, ('casm, 'bl) casm_class) res, s') \<and>
    sierra_denotes api s' v"
proof -
  obtain s' where s': "sierra_get_cairo_lang_contract_class api s = (sierra_lang_of api v, s')" "sierra_denotes api s' v"
    using sierra_lang_ok [OF assms] by blast
  then have "GenericSierra_compile api s = (sierra_compiled_of api v :: (contract_class_error, ('casm, 'bl) casm_class) res, s')"
    by (auto simp: GenericSierra_compile_def sierra_compiled_of_def bindL_def bindR_def returnL_def split: sum.splits)
  with s'(2) show ?thesis by blast
qed

interpretation sierra_class: lazy_class "sierra_denotes api"
  "sierra_call api :: sierra_method \<Rightarrow> 'cl sierra_class \<Rightarrow> ('cl, 'casm, 'bl) sierra_out \<times> 'cl sierra_class"
  "sierra_spec api" for api :: "('cl, 'sc, 'abi, 'casm) sierra_api"
proof unfold_locales
  fix s v k
  assume d: "sierra_denotes api s v"
  show "\<exists>s'. sierra_call api k s = (sierra_spec api v k :: ('cl, 'casm, 'bl) sierra_out, s') \<and> sierra_denotes api s' v"
    using sierra_bytes_ok [OF d] sierra_lang_ok [OF d] sierra_core_ok [OF d] sierra_hash_ok [OF d]
      sierra_compile_ok [OF d, where 'bl = 'bl]
    by (cases k) auto
qed

text \<open>
  The two parsed forms of a class made from bytes after some calls: each is there if a call that needs it was made and
  parsing succeeds.
\<close>

definition parsed_lang :: "('cl, 'sc, 'abi, 'casm) sierra_api \<Rightarrow> bytes \<Rightarrow> sierra_method set \<Rightarrow> 'cl option" where
  "parsed_lang api bs K =
     (if SierraGetLang \<in> K \<or> SierraCompile \<in> K
      then case sierra_of_json api bs of Inr c \<Rightarrow> Some c | Inl _ \<Rightarrow> None else None)"

definition parsed_core :: "('cl, 'sc, 'abi, 'casm) sierra_api \<Rightarrow> bytes \<Rightarrow> sierra_method set \<Rightarrow> flattened_sierra_class option" where
  "parsed_core api bs K =
     (if SierraGetCore \<in> K \<or> SierraHash \<in> K
      then case core_of_json api bs of
             Inr c \<Rightarrow> (case core_flatten api c of Inr f \<Rightarrow> Some f | Inl _ \<Rightarrow> None)
           | Inl _ \<Rightarrow> None
      else None)"

definition sierra_after :: "('cl, 'sc, 'abi, 'casm) sierra_api \<Rightarrow> bytes \<Rightarrow> sierra_method set \<Rightarrow> 'cl sierra_class \<Rightarrow> bool" where
  "sierra_after api bs K s \<longleftrightarrow>
     sierra_serialized s = Some bs \<and> sierra_cairo_lang s = parsed_lang api bs K \<and> sierra_core s = parsed_core api bs K \<and>
     (sierra_hash s \<noteq> None \<longrightarrow> sierra_core s \<noteq> None)"

lemma sierra_after_call:
  assumes "sierra_after api bs K s"
  shows "sierra_after api bs (insert k K) (snd (sierra_call api k s))"
  using assms
  by (cases k; cases "sierra_of_json api bs"; cases "core_of_json api bs"; cases "core_flatten api (projr (core_of_json api bs))")
    (auto simp: sierra_after_def parsed_lang_def parsed_core_def sierra_get_serialized_contract_class_def
      sierra_get_cairo_lang_contract_class_def sierra_build_cairo_lang_class_def GenericSierra_compile_def
      sierra_get_starknet_core_contract_class_def sierra_build_starknet_core_class_def GenericSierra_class_hash_def
      sierra_compute_class_hash_def get_or_try_init_def map_errL_def bindL_def returnL_def from_outcome_def
      split: option.splits sum.splits if_splits)

lemma sierra_after_calls:
  fixes api :: "('cl, 'sc, 'abi, 'casm) sierra_api"
    and call :: "sierra_method \<Rightarrow> 'cl sierra_class \<Rightarrow> ('cl, 'casm, 'bl) sierra_out \<times> 'cl sierra_class"
  assumes "call = sierra_call api" and "sierra_after api bs K s"
  shows "sierra_after api bs (K \<union> set ks) (snd (run_calls (map call ks) s))"
  using assms(2)
proof (induction ks arbitrary: K s)
  case (Cons k ks)
  have "sierra_after api bs (insert k K) (snd (call k s))"
    unfolding assms(1) by (rule sierra_after_call [OF Cons.prems])
  from Cons.IH [OF this] show ?case by (simp add: case_prod_unfold)
qed simp

lemma sierra_denotes_init:
  "sierra_denotes api (GenericSierra_from_bytes bs) (SierraBytes bs)"
  "sierra_denotes api (GenericSierra_from_cairo_lang c) (SierraLang c)"
  "sierra_denotes api (GenericSierra_from_core f) (SierraCore f)"
  by (simp_all add: sierra_denotes_def GenericSierra_from_bytes_def GenericSierra_from_cairo_lang_def
      GenericSierra_from_core_def)

end
