(* ===== verification/Deprecated_Classes.thy ===== *)
theory Deprecated_Classes
  imports Class_Cells
begin

text \<open>
  \<open>GenericDeprecatedCompiledClass\<close> of \<open>crates/starknet-os-types/src/deprecated_compiled_class.rs\<close>, the decompression of
  legacy classes in \<open>starknet_core_addons.rs\<close>, and the enumeration \<open>GenericCompiledClass\<close>. The theory ends with
  the properties of the three generic classes.
\<close>

section \<open>Decompression\<close>

text \<open>
  The data types of \<open>starknet-core\<close> that the conversion takes apart; the contents it only passes on
  (inputs, outputs, event parameters) are type parameters.
\<close>

datatype legacy_function_abi_type = AbiFunction | AbiConstructor | AbiL1Handler

record ('i, 'o, 'm) legacy_function_abi_entry =
  fn_type :: legacy_function_abi_type
  fn_name :: string
  fn_inputs :: 'i
  fn_outputs :: 'o
  fn_state_mutability :: 'm

record legacy_struct_member =
  sm_name :: string
  sm_offset :: nat
  sm_type :: string

record raw_legacy_member =
  rm_name :: string
  rm_offset :: nat
  rm_type :: string

datatype ('i, 'o, 'm, 'k) legacy_contract_abi_entry =
  LegacyFunction "('i, 'o, 'm) legacy_function_abi_entry"
| LegacyStruct (ls_members: "legacy_struct_member list") (ls_name: string) (ls_size: nat)
| LegacyEvent (le_data: 'k) (le_keys: 'k) (le_name: string)

datatype ('i, 'o, 'm, 'k) raw_legacy_abi_entry =
  RawFunction 'i string 'o 'm
| RawConstructor 'i string 'o
| RawL1Handler 'i string 'o
| RawStruct "raw_legacy_member list" string nat
| RawEvent 'k 'k string

datatype legacy_entrypoint_offset = U64AsInt nat | U64AsHex nat

record legacy_contract_entry_point =
  lep_offset :: nat
  lep_selector :: felt

record raw_legacy_entry_point =
  rep_offset :: legacy_entrypoint_offset
  rep_selector :: felt

record 'p by_type =
  bt_constructor :: "'p list"
  bt_external :: "'p list"
  bt_l1_handler :: "'p list"

definition raw_abi_entry_from_legacy_function_abi_entry ::
  "('i, 'o, 'm) legacy_function_abi_entry \<Rightarrow> ('i, 'o, 'm, 'k) raw_legacy_abi_entry" where
  "raw_abi_entry_from_legacy_function_abi_entry entry =
     (case fn_type entry of
        AbiFunction \<Rightarrow> RawFunction (fn_inputs entry) (fn_name entry) (fn_outputs entry) (fn_state_mutability entry)
      | AbiConstructor \<Rightarrow> RawConstructor (fn_inputs entry) (fn_name entry) (fn_outputs entry)
      | AbiL1Handler \<Rightarrow> RawL1Handler (fn_inputs entry) (fn_name entry) (fn_outputs entry))"

definition raw_legacy_member_from_legacy_struct_member :: "legacy_struct_member \<Rightarrow> raw_legacy_member" where
  "raw_legacy_member_from_legacy_struct_member m =
     \<lparr> rm_name = sm_name m, rm_offset = sm_offset m, rm_type = sm_type m \<rparr>"

fun raw_legacy_abi_entry_from_legacy_contract_abi_entry ::
  "('i, 'o, 'm, 'k) legacy_contract_abi_entry \<Rightarrow> ('i, 'o, 'm, 'k) raw_legacy_abi_entry" where
  "raw_legacy_abi_entry_from_legacy_contract_abi_entry (LegacyFunction entry) =
     raw_abi_entry_from_legacy_function_abi_entry entry"
| "raw_legacy_abi_entry_from_legacy_contract_abi_entry (LegacyStruct members name sz) =
     RawStruct (map raw_legacy_member_from_legacy_struct_member members) name sz"
| "raw_legacy_abi_entry_from_legacy_contract_abi_entry (LegacyEvent data keys name) = RawEvent data keys name"

definition raw_legacy_entrypoint_from_legacy_entrypoint :: "legacy_contract_entry_point \<Rightarrow> raw_legacy_entry_point" where
  "raw_legacy_entrypoint_from_legacy_entrypoint p =
     \<lparr> rep_offset = U64AsInt (lep_offset p), rep_selector = lep_selector p \<rparr>"

definition raw_legacy_entrypoints_from_legacy_entrypoints ::
  "legacy_contract_entry_point by_type \<Rightarrow> raw_legacy_entry_point by_type" where
  "raw_legacy_entrypoints_from_legacy_entrypoints b =
     \<lparr> bt_constructor = map raw_legacy_entrypoint_from_legacy_entrypoint (bt_constructor b),
       bt_external = map raw_legacy_entrypoint_from_legacy_entrypoint (bt_external b),
       bt_l1_handler = map raw_legacy_entrypoint_from_legacy_entrypoint (bt_l1_handler b) \<rparr>"

datatype decompression_error = DecompressionSerde string | DecompressionIo string

record ('i, 'o, 'm, 'k) compressed_legacy_class =
  cc_program :: bytes
  cc_entry_points_by_type :: "legacy_contract_entry_point by_type"
  cc_abi :: "('i, 'o, 'm, 'k) legacy_contract_abi_entry list option"

record ('i, 'o, 'm, 'k, 'prog) legacy_contract_class =
  lc_abi :: "('i, 'o, 'm, 'k) raw_legacy_abi_entry list"
  lc_entry_points_by_type :: "raw_legacy_entry_point by_type"
  lc_program :: 'prog

definition decompress_starknet_core_contract_class ::
  "(bytes \<Rightarrow> string + string) \<Rightarrow> (string \<Rightarrow> string + 'prog) \<Rightarrow> ('i, 'o, 'm, 'k) compressed_legacy_class
   \<Rightarrow> (decompression_error, ('i, 'o, 'm, 'k, 'prog) legacy_contract_class) res" where
  "decompress_starknet_core_contract_class gunzip program_of_json compressed =
     bindR (from_outcome DecompressionIo (gunzip (cc_program compressed))) (\<lambda>program_str.
     bindR (from_outcome DecompressionSerde (program_of_json program_str)) (\<lambda>program.
       let abi = map raw_legacy_abi_entry_from_legacy_contract_abi_entry
                   (case cc_abi compressed of Some entries \<Rightarrow> entries | None \<Rightarrow> [])
       in Inr \<lparr> lc_abi = abi,
                lc_entry_points_by_type = raw_legacy_entrypoints_from_legacy_entrypoints (cc_entry_points_by_type compressed),
                lc_program = program \<rparr>))"

section \<open>Deprecated classes\<close>

record ('sa, 'sc, 'bl) deprecated_api =
  dep_api_of_json :: "bytes \<Rightarrow> string + 'sa"
  dep_api_to_json :: "'sa \<Rightarrow> string + bytes"
  dep_core_to_json :: "'sc \<Rightarrow> string + bytes"
  dep_blockifier_of_json :: "bytes \<Rightarrow> string + 'bl"
  dep_compute_hash :: "bytes \<Rightarrow> string + felt"

record ('sa, 'sc, 'bl) deprecated_class =
  dep_blockifier :: "'bl option"
  dep_starknet_api :: "'sa option"
  dep_starknet_core :: "'sc option"
  dep_serialized :: "bytes option"
  dep_hash :: "hash option"

definition GenericDeprecated_default :: "('sa, 'sc, 'bl) deprecated_class" where
  "GenericDeprecated_default =
     \<lparr> dep_blockifier = None, dep_starknet_api = None, dep_starknet_core = None, dep_serialized = None,
       dep_hash = None \<rparr>"

definition GenericDeprecated_from_bytes :: "bytes \<Rightarrow> ('sa, 'sc, 'bl) deprecated_class" where
  "GenericDeprecated_from_bytes bs = GenericDeprecated_default \<lparr> dep_serialized := Some bs \<rparr>"

definition GenericDeprecated_from_starknet_api :: "'sa \<Rightarrow> ('sa, 'sc, 'bl) deprecated_class" where
  "GenericDeprecated_from_starknet_api c = GenericDeprecated_default \<lparr> dep_starknet_api := Some c \<rparr>"

definition GenericDeprecated_from_blockifier :: "'bl \<Rightarrow> ('sa, 'sc, 'bl) deprecated_class" where
  "GenericDeprecated_from_blockifier b = GenericDeprecated_default \<lparr> dep_blockifier := Some b \<rparr>"

definition GenericDeprecated_from_starknet_core :: "'sc \<Rightarrow> ('sa, 'sc, 'bl) deprecated_class" where
  "GenericDeprecated_from_starknet_core c = GenericDeprecated_default \<lparr> dep_starknet_core := Some c \<rparr>"

definition GenericDeprecated_try_from_compressed ::
  "(bytes \<Rightarrow> string + string) \<Rightarrow> (string \<Rightarrow> string + 'prog) \<Rightarrow> ('i, 'o, 'm, 'k) compressed_legacy_class
   \<Rightarrow> (decompression_error, ('sa, ('i, 'o, 'm, 'k, 'prog) legacy_contract_class, 'bl) deprecated_class) res" where
  "GenericDeprecated_try_from_compressed gunzip program_of_json compressed =
     bindR (decompress_starknet_core_contract_class gunzip program_of_json compressed) (\<lambda>legacy_class.
       Inr (GenericDeprecated_from_starknet_core legacy_class))"

definition dep_build_starknet_api_class ::
  "('sa, 'sc, 'bl) deprecated_api \<Rightarrow> (('sa, 'sc, 'bl) deprecated_class, contract_class_error, 'sa) lazy" where
  "dep_build_starknet_api_class api s =
     (case dep_serialized s of
        Some bs \<Rightarrow> (from_outcome json_error (dep_api_of_json api bs), s)
      | None \<Rightarrow> (Inl (Error (ConversionError StarknetClassMissing)), s))"

definition dep_get_starknet_api_contract_class ::
  "('sa, 'sc, 'bl) deprecated_api \<Rightarrow> (('sa, 'sc, 'bl) deprecated_class, contract_class_error, 'sa) lazy" where
  "dep_get_starknet_api_contract_class api =
     get_or_try_init dep_starknet_api (\<lambda>c s. s \<lparr> dep_starknet_api := Some c \<rparr>) (dep_build_starknet_api_class api)"

definition GenericDeprecated_serialize ::
  "('sa, 'sc, 'bl) deprecated_api \<Rightarrow> (('sa, 'sc, 'bl) deprecated_class, serde_error, bytes) lazy" where
  "GenericDeprecated_serialize api s =
     (case dep_starknet_api s of
        Some c \<Rightarrow> (from_outcome JsonError (dep_api_to_json api c), s)
      | None \<Rightarrow>
          (case dep_starknet_core s of
             Some c \<Rightarrow> (from_outcome JsonError (dep_core_to_json api c), s)
           | None \<Rightarrow>
               if dep_serialized s \<noteq> None
               then bindL (map_errL CustomError (dep_get_starknet_api_contract_class api)) (\<lambda>c.
                      returnL (from_outcome JsonError (dep_api_to_json api c))) s
               else (Inl (Error (CustomMessage ''No conversion found'')), s)))"

definition GenericDeprecated_deserialize ::
  "('sa, 'sc, 'bl) deprecated_api \<Rightarrow> bytes \<Rightarrow> string + ('sa, 'sc, 'bl) deprecated_class" where
  "GenericDeprecated_deserialize api bs =
     (case dep_api_of_json api bs of Inl m \<Rightarrow> Inl m | Inr c \<Rightarrow> Inr (GenericDeprecated_from_starknet_api c))"

definition dep_get_serialized_contract_class ::
  "('sa, 'sc, 'bl) deprecated_api \<Rightarrow> (('sa, 'sc, 'bl) deprecated_class, contract_class_error, bytes) lazy" where
  "dep_get_serialized_contract_class api =
     map_errL SerdeError
       (get_or_try_init dep_serialized (\<lambda>d s. s \<lparr> dep_serialized := Some d \<rparr>) (GenericDeprecated_serialize api))"

definition dep_build_blockifier_class ::
  "('sa, 'sc, 'bl) deprecated_api \<Rightarrow> (('sa, 'sc, 'bl) deprecated_class, contract_class_error, 'bl) lazy" where
  "dep_build_blockifier_class api =
     bindL (map_errL SerdeError
              (get_or_try_init dep_serialized (\<lambda>d s. s \<lparr> dep_serialized := Some d \<rparr>) (GenericDeprecated_serialize api)))
       (\<lambda>bs. returnL (from_outcome json_error (dep_blockifier_of_json api bs)))"

definition dep_get_blockifier_contract_class ::
  "('sa, 'sc, 'bl) deprecated_api \<Rightarrow> (('sa, 'sc, 'bl) deprecated_class, contract_class_error, 'bl) lazy" where
  "dep_get_blockifier_contract_class api =
     get_or_try_init dep_blockifier (\<lambda>b s. s \<lparr> dep_blockifier := Some b \<rparr>) (dep_build_blockifier_class api)"

definition dep_to_starknet_api_contract_class ::
  "('sa, 'sc, 'bl) deprecated_api \<Rightarrow> ('sa, 'sc, 'bl) deprecated_class \<Rightarrow> (contract_class_error, 'sa) res" where
  "dep_to_starknet_api_contract_class api s = fst (dep_get_starknet_api_contract_class api s)"

definition dep_to_blockifier_contract_class ::
  "('sa, 'sc, 'bl) deprecated_api \<Rightarrow> ('sa, 'sc, 'bl) deprecated_class \<Rightarrow> (contract_class_error, 'bl) res" where
  "dep_to_blockifier_contract_class api s = fst (dep_get_blockifier_contract_class api s)"

definition dep_compute_class_hash ::
  "('sa, 'sc, 'bl) deprecated_api \<Rightarrow> (('sa, 'sc, 'bl) deprecated_class, contract_class_error, hash) lazy" where
  "dep_compute_class_hash api =
     bindL (dep_get_serialized_contract_class api) (\<lambda>bs.
     bindL (returnL (from_outcome HashError (dep_compute_hash api bs))) (\<lambda>h.
       returnL (Inr (Hash_of_felt h))))"

definition GenericDeprecated_class_hash ::
  "('sa, 'sc, 'bl) deprecated_api \<Rightarrow> (('sa, 'sc, 'bl) deprecated_class, contract_class_error, hash) lazy" where
  "GenericDeprecated_class_hash api =
     get_or_try_init dep_hash (\<lambda>h s. s \<lparr> dep_hash := Some h \<rparr>) (dep_compute_class_hash api)"

datatype ('sa, 'sc, 'bl0, 'cl, 'bl) generic_compiled_class =
  Cairo0 "('sa, 'sc, 'bl0) deprecated_class" | Cairo1 "('cl, 'bl) casm_class"

fun GenericCompiledClass_class_hash ::
  "('sa, 'sc, 'bl0) deprecated_api \<Rightarrow> ('cl, 'bl) casm_api
   \<Rightarrow> (('sa, 'sc, 'bl0, 'cl, 'bl) generic_compiled_class, contract_class_error, hash) lazy" where
  "GenericCompiledClass_class_hash dapi capi (Cairo0 d) = apsnd Cairo0 (GenericDeprecated_class_hash dapi d)"
| "GenericCompiledClass_class_hash dapi capi (Cairo1 c) = apsnd Cairo1 (GenericCasm_class_hash capi c)"

interpretation dep_api_cell: once_cell dep_starknet_api "\<lambda>c s. s \<lparr> dep_starknet_api := Some c \<rparr>"
  by unfold_locales simp

interpretation dep_blockifier_cell: once_cell dep_blockifier "\<lambda>b s. s \<lparr> dep_blockifier := Some b \<rparr>"
  by unfold_locales simp

interpretation dep_serialized_cell: once_cell dep_serialized "\<lambda>d s. s \<lparr> dep_serialized := Some d \<rparr>"
  by unfold_locales simp

interpretation dep_hash_cell: once_cell dep_hash "\<lambda>h s. s \<lparr> dep_hash := Some h \<rparr>"
  by unfold_locales simp

text \<open>
  What a deprecated class was made from, for the three origins whose methods do not depend on what was
  called before, and what its methods return.
\<close>

datatype ('sa, 'bl) deprecated_value = DepBytes bytes | DepApi 'sa | DepBlockifier 'bl

fun dep_bytes_of ::
  "('sa, 'sc, 'bl) deprecated_api \<Rightarrow> ('sa, 'bl) deprecated_value \<Rightarrow> (contract_class_error, bytes) res" where
  "dep_bytes_of api (DepBytes bs) = Inr bs"
| "dep_bytes_of api (DepApi c) = from_outcome json_error (dep_api_to_json api c)"
| "dep_bytes_of api (DepBlockifier b) = Inl (Error (SerdeError (CustomMessage ''No conversion found'')))"

fun dep_api_of :: "('sa, 'sc, 'bl) deprecated_api \<Rightarrow> ('sa, 'bl) deprecated_value \<Rightarrow> (contract_class_error, 'sa) res" where
  "dep_api_of api (DepBytes bs) = from_outcome json_error (dep_api_of_json api bs)"
| "dep_api_of api (DepApi c) = Inr c"
| "dep_api_of api (DepBlockifier b) = Inl (Error (ConversionError StarknetClassMissing))"

fun dep_blockifier_of ::
  "('sa, 'sc, 'bl) deprecated_api \<Rightarrow> ('sa, 'bl) deprecated_value \<Rightarrow> (contract_class_error, 'bl) res" where
  "dep_blockifier_of api (DepBlockifier b) = Inr b"
| "dep_blockifier_of api v =
     bindR (dep_bytes_of api v) (\<lambda>bs. from_outcome json_error (dep_blockifier_of_json api bs))"

definition dep_hash_of ::
  "('sa, 'sc, 'bl) deprecated_api \<Rightarrow> ('sa, 'bl) deprecated_value \<Rightarrow> (contract_class_error, hash) res" where
  "dep_hash_of api v =
     bindR (dep_bytes_of api v) (\<lambda>bs.
     bindR (from_outcome HashError (dep_compute_hash api bs)) (\<lambda>h. Inr (Hash_of_felt h)))"

fun dep_json_of ::
  "('sa, 'sc, 'bl) deprecated_api \<Rightarrow> ('sa, 'bl) deprecated_value \<Rightarrow> (serde_error, bytes) res" where
  "dep_json_of api (DepBlockifier b) = Inl (Error (CustomMessage ''No conversion found''))"
| "dep_json_of api v =
     bindR (map_err CustomError (dep_api_of api v)) (\<lambda>c. from_outcome JsonError (dep_api_to_json api c))"

datatype deprecated_method = DepGetSerialized | DepGetApi | DepGetBlockifier | DepHash | DepSerialize

datatype ('sa, 'bl) deprecated_out =
  DepOutBytes "(contract_class_error, bytes) res" | DepOutApi "(contract_class_error, 'sa) res"
| DepOutBlockifier "(contract_class_error, 'bl) res" | DepOutHash "(contract_class_error, hash) res"
| DepOutJson "(serde_error, bytes) res"

fun deprecated_call ::
  "('sa, 'sc, 'bl) deprecated_api \<Rightarrow> deprecated_method \<Rightarrow> ('sa, 'sc, 'bl) deprecated_class
   \<Rightarrow> ('sa, 'bl) deprecated_out \<times> ('sa, 'sc, 'bl) deprecated_class" where
  "deprecated_call api DepGetSerialized s = apfst DepOutBytes (dep_get_serialized_contract_class api s)"
| "deprecated_call api DepGetApi s = apfst DepOutApi (dep_get_starknet_api_contract_class api s)"
| "deprecated_call api DepGetBlockifier s = apfst DepOutBlockifier (dep_get_blockifier_contract_class api s)"
| "deprecated_call api DepHash s = apfst DepOutHash (GenericDeprecated_class_hash api s)"
| "deprecated_call api DepSerialize s = apfst DepOutJson (GenericDeprecated_serialize api s)"

fun deprecated_spec ::
  "('sa, 'sc, 'bl) deprecated_api \<Rightarrow> ('sa, 'bl) deprecated_value \<Rightarrow> deprecated_method \<Rightarrow> ('sa, 'bl) deprecated_out" where
  "deprecated_spec api v DepGetSerialized = DepOutBytes (dep_bytes_of api v)"
| "deprecated_spec api v DepGetApi = DepOutApi (dep_api_of api v)"
| "deprecated_spec api v DepGetBlockifier = DepOutBlockifier (dep_blockifier_of api v)"
| "deprecated_spec api v DepHash = DepOutHash (dep_hash_of api v)"
| "deprecated_spec api v DepSerialize = DepOutJson (dep_json_of api v)"

definition deprecated_denotes ::
  "('sa, 'sc, 'bl) deprecated_api \<Rightarrow> ('sa, 'sc, 'bl) deprecated_class \<Rightarrow> ('sa, 'bl) deprecated_value \<Rightarrow> bool" where
  "deprecated_denotes api s v \<longleftrightarrow>
     dep_starknet_core s = None \<and>
     cell_ok (dep_serialized s) (dep_bytes_of api v) \<and>
     cell_ok (dep_starknet_api s) (dep_api_of api v) \<and>
     cell_ok (dep_blockifier s) (dep_blockifier_of api v) \<and>
     cell_ok (dep_hash s) (dep_hash_of api v) \<and>
     (case v of
        DepBytes bs \<Rightarrow> dep_serialized s = Some bs
      | DepApi c \<Rightarrow> dep_starknet_api s = Some c
      | DepBlockifier b \<Rightarrow> dep_blockifier s = Some b)"

lemma deprecated_denotes_fill:
  assumes "deprecated_denotes api s v"
  shows "dep_bytes_of api v = Inr d \<Longrightarrow> deprecated_denotes api (s \<lparr> dep_serialized := Some d \<rparr>) v"
    and "dep_api_of api v = Inr c \<Longrightarrow> deprecated_denotes api (s \<lparr> dep_starknet_api := Some c \<rparr>) v"
    and "dep_blockifier_of api v = Inr b \<Longrightarrow> deprecated_denotes api (s \<lparr> dep_blockifier := Some b \<rparr>) v"
    and "dep_hash_of api v = Inr h \<Longrightarrow> deprecated_denotes api (s \<lparr> dep_hash := Some h \<rparr>) v"
  using assms by (cases v; simp add: deprecated_denotes_def)+

lemma dep_not_serialized:
  assumes "deprecated_denotes api s v" and "v = DepBlockifier b"
  shows "dep_serialized s = None \<and> dep_starknet_api s = None"
  using assms by (cases "dep_serialized s"; cases "dep_starknet_api s"; simp add: deprecated_denotes_def)

lemma map_err_outcome: "map_err g (from_outcome f r) = from_outcome (\<lambda>m. g (f m)) r"
  by (cases r) simp_all

lemma dep_api_ok:
  assumes "deprecated_denotes api s v"
  shows "\<exists>s'. dep_get_starknet_api_contract_class api s = (dep_api_of api v, s') \<and> deprecated_denotes api s' v"
  unfolding dep_get_starknet_api_contract_class_def
proof (rule dep_api_cell.init_spec)
  assume "dep_starknet_api s = None"
  moreover from this have "dep_build_starknet_api_class api s = (dep_api_of api v, s)"
    using assms dep_not_serialized [OF assms] by (induct v) (simp_all add: dep_build_starknet_api_class_def deprecated_denotes_def)
  ultimately show "\<exists>s'. dep_build_starknet_api_class api s = (dep_api_of api v, s') \<and> deprecated_denotes api s' v \<and>
      dep_starknet_api s' = None"
    using assms by blast
qed (use assms in \<open>auto simp: deprecated_denotes_fill(2) deprecated_denotes_def [of api s]\<close>)

text \<open>Inside the initialiser of the serialized class, the class is never serialized from its bytes.\<close>

lemma dep_bytes_ok:
  assumes "deprecated_denotes api s v"
  shows "\<exists>s'. dep_get_serialized_contract_class api s = (dep_bytes_of api v, s') \<and> deprecated_denotes api s' v \<and>
    dep_blockifier s' = dep_blockifier s \<and> dep_hash s' = dep_hash s"
proof (cases "dep_serialized s")
  case (Some d)
  then have "dep_bytes_of api v = Inr d" using assms by (simp add: deprecated_denotes_def)
  then show ?thesis
    using assms by (simp add: dep_get_serialized_contract_class_def map_errL_def dep_serialized_cell.init_full [OF Some])
next
  case None
  have "map_err SerdeError (fst (GenericDeprecated_serialize api s)) = dep_bytes_of api v \<and>
      snd (GenericDeprecated_serialize api s) = s"
    using assms None dep_not_serialized [OF assms] map_err_outcome [of SerdeError JsonError]
    by (induct v) (simp_all add: deprecated_denotes_def GenericDeprecated_serialize_def)
  then obtain r where r: "GenericDeprecated_serialize api s = (r, s)" "map_err SerdeError r = dep_bytes_of api v"
    by (cases "GenericDeprecated_serialize api s") auto
  show ?thesis
    using assms r None deprecated_denotes_fill(1) [OF assms]
    by (cases r) (auto simp: dep_get_serialized_contract_class_def map_errL_def get_or_try_init_def)
qed

lemma dep_blockifier_ok:
  assumes "deprecated_denotes api s v"
  shows "\<exists>s'. dep_get_blockifier_contract_class api s = (dep_blockifier_of api v, s') \<and> deprecated_denotes api s' v"
  unfolding dep_get_blockifier_contract_class_def
proof (rule dep_blockifier_cell.init_spec)
  assume None: "dep_blockifier s = None"
  then have v: "dep_blockifier_of api v =
      bindR (dep_bytes_of api v) (\<lambda>bs. from_outcome json_error (dep_blockifier_of_json api bs))"
    using assms by (cases v) (simp_all add: deprecated_denotes_def)
  obtain s' where s': "dep_get_serialized_contract_class api s = (dep_bytes_of api v, s')" "deprecated_denotes api s' v"
    "dep_blockifier s' = None"
    using dep_bytes_ok [OF assms] None by auto
  have "dep_build_blockifier_class api s = (dep_blockifier_of api v, s')"
    unfolding dep_build_blockifier_class_def dep_get_serialized_contract_class_def [symmetric] v
    using s'(1) by (cases "dep_bytes_of api v") simp_all
  with s' show "\<exists>s'. dep_build_blockifier_class api s = (dep_blockifier_of api v, s') \<and>
      deprecated_denotes api s' v \<and> dep_blockifier s' = None" by blast
qed (use assms in \<open>auto simp: deprecated_denotes_fill(3) deprecated_denotes_def [of api s]\<close>)

lemma dep_hash_ok:
  assumes "deprecated_denotes api s v"
  shows "\<exists>s'. GenericDeprecated_class_hash api s = (dep_hash_of api v, s') \<and> deprecated_denotes api s' v"
  unfolding GenericDeprecated_class_hash_def
proof (rule dep_hash_cell.init_spec)
  assume None: "dep_hash s = None"
  obtain s' where s': "dep_get_serialized_contract_class api s = (dep_bytes_of api v, s')" "deprecated_denotes api s' v"
    "dep_hash s' = None"
    using dep_bytes_ok [OF assms] None by auto
  then have "dep_compute_class_hash api s = (dep_hash_of api v, s')"
    unfolding dep_compute_class_hash_def dep_hash_of_def
    by (cases "dep_bytes_of api v") (auto simp: bindL_def from_outcome_def split: sum.splits)
  with s' show "\<exists>s'. dep_compute_class_hash api s = (dep_hash_of api v, s') \<and> deprecated_denotes api s' v \<and>
      dep_hash s' = None" by blast
qed (use assms in \<open>auto simp: deprecated_denotes_fill(4) deprecated_denotes_def [of api s]\<close>)

lemma dep_json_ok:
  assumes d: "deprecated_denotes api s v"
  shows "\<exists>s'. GenericDeprecated_serialize api s = (dep_json_of api v, s') \<and> deprecated_denotes api s' v"
proof (cases "dep_starknet_api s")
  case (Some c)
  then have "dep_api_of api v = Inr c" using d by (simp add: deprecated_denotes_def)
  then have "GenericDeprecated_serialize api s = (dep_json_of api v, s)"
    using Some by (cases v) (simp_all add: GenericDeprecated_serialize_def)
  with d show ?thesis by blast
next
  case None
  have core: "dep_starknet_core s = None" using d by (simp add: deprecated_denotes_def)
  obtain s' where s': "dep_get_starknet_api_contract_class api s = (dep_api_of api v, s')" "deprecated_denotes api s' v"
    using dep_api_ok [OF d] by blast
  show ?thesis
  proof (cases v)
    case (DepBytes bs)
    then have "dep_serialized s = Some bs" using d by (simp add: deprecated_denotes_def)
    then have "GenericDeprecated_serialize api s = (dep_json_of api v, s')"
      using None core s'(1) DepBytes
      by (auto simp: GenericDeprecated_serialize_def bindL_def map_errL_def from_outcome_def split: sum.splits)
    with s'(2) show ?thesis by blast
  next
    case (DepApi c)
    then show ?thesis using None d by (simp add: deprecated_denotes_def)
  next
    case (DepBlockifier b)
    then have "dep_serialized s = None" using dep_not_serialized [OF d] by simp
    then have "GenericDeprecated_serialize api s = (dep_json_of api v, s)"
      using None core DepBlockifier by (simp add: GenericDeprecated_serialize_def)
    with d show ?thesis by blast
  qed
qed

interpretation deprecated_class: lazy_class "deprecated_denotes api" "deprecated_call api" "deprecated_spec api" for api
proof unfold_locales
  fix s v k
  assume d: "deprecated_denotes api s v"
  show "\<exists>s'. deprecated_call api k s = (deprecated_spec api v k, s') \<and> deprecated_denotes api s' v"
    using dep_bytes_ok [OF d] dep_api_ok [OF d] dep_blockifier_ok [OF d] dep_hash_ok [OF d] dep_json_ok [OF d]
    by (cases k) auto
qed

lemma deprecated_denotes_init:
  "deprecated_denotes api (GenericDeprecated_from_bytes bs) (DepBytes bs)"
  "deprecated_denotes api (GenericDeprecated_from_starknet_api c) (DepApi c)"
  "deprecated_denotes api (GenericDeprecated_from_blockifier b) (DepBlockifier b)"
  by (simp_all add: deprecated_denotes_def GenericDeprecated_from_bytes_def GenericDeprecated_from_starknet_api_def
      GenericDeprecated_from_blockifier_def GenericDeprecated_default_def)

end
