(* ===== verification/Class_Facts.thy ===== *)
theory Class_Facts
  imports State_Properties Deprecated_Classes
begin

text \<open>
  The facts of contract classes in the storage: \<open>ContractClassFact\<close>, \<open>CompiledClassFact\<close> and
  \<open>DeprecatedCompiledClassFact\<close> of \<open>contract_class_objects.rs\<close>, the functions of \<open>business_logic/utils.rs\<close> that write
  them, and the functions of \<open>SharedState\<close> that look up a compiled class.

  A fact is a structure with one field. Its JSON encoding puts the name of the field around the encoding of the
  class; the decoder of the structure is a parameter, and what the code relies on is that it undoes
  the encoding (\<open>field_codec\<close>). The hash of a fact is computed before it is serialized, and fills cells of the class.
\<close>

section \<open>Messages of errors\<close>

fun conversion_error_msg :: "conversion_error \<Rightarrow> string" where
  "conversion_error_msg (BlockifierError e) = ''Could not build Blockifier contract class: '' @ e"
| "conversion_error_msg StarknetClassMissing = ''Missing Starknet serialized class''"
| "conversion_error_msg BlockifierClassMissing = ''Missing Blockifier serialized class''"
| "conversion_error_msg CairoLangClassMissing = ''Missing CairoLang serialized class''"

fun class_error_msg :: "contract_class_error \<Rightarrow> string" and serde_msg :: "serde_error \<Rightarrow> string" where
  "class_error_msg (ConversionError e) = conversion_error_msg e"
| "class_error_msg (SerdeError e) = serde_msg e"
| "class_error_msg (HashError m) = ''Failed to hash class: '' @ m"
| "class_error_msg (CompilationError m) = m"
| "serde_msg (JsonError m) = m"
| "serde_msg (CustomError e) = class_error_msg e"
| "serde_msg (CustomMessage m) = m"

section \<open>Facts\<close>

definition json_field :: "string \<Rightarrow> bytes \<Rightarrow> bytes" where
  "json_field name inner = ascii (CHR ''{'' # CHR 0x22 # name @ [CHR 0x22, CHR '':'']) @ inner @ ascii ''}''"

definition class_db_object ::
  "bytes \<Rightarrow> string \<Rightarrow> ('c, serde_error, bytes) lazy \<Rightarrow> (bytes \<Rightarrow> string + 'c) \<Rightarrow> 'c db_object" where
  "class_db_object pre field ser of_json =
     \<lparr> prefix = pre,
       serialize = (\<lambda>c. map_err (\<lambda>e. SerializeError_Json (serde_msg e))
                      (bindR (fst (ser c)) (\<lambda>inner. Inr (json_field field inner)))),
       deserialize = (\<lambda>data. from_outcome DeserializeError_Json (of_json data)) \<rparr>"

definition ContractClassFact ::
  "('cl, 'sc, 'abi, 'casm) sierra_api \<Rightarrow> (bytes \<Rightarrow> string + 'cl sierra_class) \<Rightarrow> 'cl sierra_class db_object" where
  "ContractClassFact api of_json =
     class_db_object (ascii ''contract_class_fact'') ''contract_class'' (GenericSierra_serialize api) of_json"

definition CompiledClassFact ::
  "('cl, 'bl) casm_api \<Rightarrow> (bytes \<Rightarrow> string + ('cl, 'bl) casm_class) \<Rightarrow> ('cl, 'bl) casm_class db_object" where
  "CompiledClassFact api of_json =
     class_db_object (ascii ''compiled_class_fact'') ''compiled_class'' (GenericCasm_serialize api) of_json"

definition DEPRECATED_COMPILED_CLASS_PREFIX :: bytes where
  "DEPRECATED_COMPILED_CLASS_PREFIX = ascii ''contract_definition_fact''"

definition DeprecatedCompiledClassFact ::
  "('sa, 'sc, 'bl) deprecated_api \<Rightarrow> (bytes \<Rightarrow> string + ('sa, 'sc, 'bl) deprecated_class)
   \<Rightarrow> ('sa, 'sc, 'bl) deprecated_class db_object" where
  "DeprecatedCompiledClassFact api of_json =
     class_db_object DEPRECATED_COMPILED_CLASS_PREFIX ''contract_definition'' (GenericDeprecated_serialize api) of_json"

definition expectL :: "string \<Rightarrow> ('self, 'e, 'a) lazy \<Rightarrow> ('self, 'f, 'a) lazy" where
  "expectL msg m s =
     (case m s of
        (Inr a, s') \<Rightarrow> (Inr a, s')
      | (Inl (Error _), s') \<Rightarrow> (Inl (Panic msg), s')
      | (Inl (Panic p), s') \<Rightarrow> (Inl (Panic p), s'))"

definition ContractClassFact_hash ::
  "('cl, 'sc, 'abi, 'casm) sierra_api \<Rightarrow> ('cl sierra_class, 'e, hash) lazy" where
  "ContractClassFact_hash api = expectL ''hash() is infallible'' (GenericSierra_class_hash api)"

definition CompiledClassFact_hash :: "('cl, 'bl) casm_api \<Rightarrow> (('cl, 'bl) casm_class, 'e, hash) lazy" where
  "CompiledClassFact_hash api = expectL ''failed to compute CASM class hash'' (GenericCasm_class_hash api)"

definition DeprecatedCompiledClassFact_hash ::
  "('sa, 'sc, 'bl) deprecated_api \<Rightarrow> (('sa, 'sc, 'bl) deprecated_class, 'e, hash) lazy" where
  "DeprecatedCompiledClassFact_hash api =
     bindL (expectL ''JSON serialization failed unexpectedly.'' (GenericDeprecated_serialize api)) (\<lambda>contract_dump.
     bindL (expectL ''Failed to compute class hash'' (returnL (from_outcome HashError (dep_compute_hash api contract_dump))))
       (\<lambda>h. returnL (Inr (Hash_of_felt h))))"

text \<open>\<open>set_fact\<close> for a fact whose hash fills cells.\<close>

definition set_class_fact ::
  "'s storage_ops \<Rightarrow> 'c db_object \<Rightarrow> ('c, storage_error, hash) lazy \<Rightarrow> 'c \<Rightarrow> 's \<Rightarrow> (storage_error, hash \<times> 's) res" where
  "set_class_fact St D hash_of obj s =
     (case hash_of obj of (r, obj') \<Rightarrow>
        bindR r (\<lambda>hash_val.
        bindR (db_set St D obj' s hash_val) (\<lambda>s'.
          Inr (hash_val, s'))))"

definition write_class_facts ::
  "'s storage_ops \<Rightarrow> ('cl, 'sc, 'abi, 'casm) sierra_api \<Rightarrow> (bytes \<Rightarrow> string + 'cl sierra_class)
   \<Rightarrow> ('c, 'bl) casm_api \<Rightarrow> (bytes \<Rightarrow> string + ('c, 'bl) casm_class)
   \<Rightarrow> 'cl sierra_class \<Rightarrow> ('c, 'bl) casm_class \<Rightarrow> 's \<Rightarrow> (storage_error, hash \<times> hash \<times> 's) res" where
  "write_class_facts St sapi sj capi cj contract_class compiled_class s =
     bindR (set_class_fact St (ContractClassFact sapi sj) (ContractClassFact_hash sapi) contract_class s)
       (\<lambda>(contract_class_hash, s1).
     bindR (set_class_fact St (CompiledClassFact capi cj) (CompiledClassFact_hash capi) compiled_class s1)
       (\<lambda>(cch, s2).
         Inr (contract_class_hash, cch, s2)))"

definition write_deprecated_compiled_class_fact ::
  "'s storage_ops \<Rightarrow> ('sa, 'sc, 'bl) deprecated_api \<Rightarrow> (bytes \<Rightarrow> string + ('sa, 'sc, 'bl) deprecated_class)
   \<Rightarrow> ('sa, 'sc, 'bl) deprecated_class \<Rightarrow> 's \<Rightarrow> (storage_error, hash \<times> 's) res" where
  "write_deprecated_compiled_class_fact St dapi dj deprecated_compiled_class s =
     set_class_fact St (DeprecatedCompiledClassFact dapi dj) (DeprecatedCompiledClassFact_hash dapi)
       deprecated_compiled_class s"

section \<open>Looking up classes\<close>

datatype ('bl0, 'bl) blockifier_contract_class = ContractClassV0 'bl0 | ContractClassV1 'bl

definition get_deprecated_compiled_class ::
  "'s storage_ops \<Rightarrow> ('sa, 'sc, 'bl0) deprecated_api \<Rightarrow> (bytes \<Rightarrow> string + ('sa, 'sc, 'bl0) deprecated_class)
   \<Rightarrow> 's \<Rightarrow> felt \<Rightarrow> (storage_error, ('sa, 'sc, 'bl0) deprecated_class option) res" where
  "get_deprecated_compiled_class St dapi dj s cch =
     db_get St (DeprecatedCompiledClassFact dapi dj) s (felt_to_bytes_be cch)"

definition get_compiled_class ::
  "'s storage_ops \<Rightarrow> ('c, 'bl) casm_api \<Rightarrow> (bytes \<Rightarrow> string + ('c, 'bl) casm_class)
   \<Rightarrow> 's \<Rightarrow> felt \<Rightarrow> (storage_error, ('c, 'bl) casm_class option) res" where
  "get_compiled_class St capi cj s cch =
     db_get St (CompiledClassFact capi cj) s (felt_to_bytes_be cch)"

definition get_compiled_contract_class_async ::
  "'s storage_ops \<Rightarrow> ('sa, 'sc, 'bl0) deprecated_api \<Rightarrow> (bytes \<Rightarrow> string + ('sa, 'sc, 'bl0) deprecated_class)
   \<Rightarrow> ('c, 'bl) casm_api \<Rightarrow> (bytes \<Rightarrow> string + ('c, 'bl) casm_class)
   \<Rightarrow> 's \<Rightarrow> felt \<Rightarrow> (state_error, ('bl0, 'bl) blockifier_contract_class) res" where
  "get_compiled_contract_class_async St dapi dj capi cj s cch =
     bindR (map_err StateReadError_Storage (get_deprecated_compiled_class St dapi dj s cch)) (\<lambda>dep.
     case dep of
       Some deprecated_compiled_class \<Rightarrow>
         (case dep_to_blockifier_contract_class dapi deprecated_compiled_class of
            Inr blockifier_class \<Rightarrow> Inr (ContractClassV0 blockifier_class)
          | Inl (Error _) \<Rightarrow> Inl (Panic ''to_blockifier_contract_class'')
          | Inl (Panic m) \<Rightarrow> Inl (Panic m))
     | None \<Rightarrow>
         bindR (map_err StateReadError_Storage (get_compiled_class St capi cj s cch)) (\<lambda>compiled_class.
         case compiled_class of
           Some c \<Rightarrow>
             bindR (map_err (\<lambda>e. StateReadError_Class (''failed to convert to Blockifier CASM class: '' @ class_error_msg e))
                     (casm_to_blockifier_contract_class capi c)) (\<lambda>b.
               Inr (ContractClassV1 b))
         | None \<Rightarrow> Inl (Error (UndeclaredClassHash cch))))"

definition get_compiled_contract_class ::
  "'s state_env \<Rightarrow> ('sa, 'sc, 'bl0) deprecated_api \<Rightarrow> (bytes \<Rightarrow> string + ('sa, 'sc, 'bl0) deprecated_class)
   \<Rightarrow> ('c, 'bl) casm_api \<Rightarrow> (bytes \<Rightarrow> string + ('c, 'bl) casm_class)
   \<Rightarrow> bool \<Rightarrow> 's \<Rightarrow> shared_state \<Rightarrow> felt \<Rightarrow> (state_error, ('bl0, 'bl) blockifier_contract_class) res" where
  "get_compiled_contract_class E dapi dj capi cj rt s \<sigma> class_hash =
     unwrap_runtime (execute_coroutine rt
       (bindR (get_compiled_class_hash_async E s \<sigma> class_hash) (\<lambda>cch.
          get_compiled_contract_class_async (se_storage E) dapi dj capi cj s cch)))"

section \<open>The properties\<close>

text \<open>
  C29. The methods of a compiled class do not depend on what was called before: whatever the sequence of calls,
  each returns the outcome of parsing the class the object was made from, the conversion and the hash of
  that class, or the same error each time. In particular no cell is ever initialised twice, which would
  be a panic.
\<close>

theorem casm_class_history:
  fixes api :: "('cl, 'bl) casm_api"
  shows "fst (run_calls (map (casm_call api) ks) (GenericCasm_from_bytes bs)) =
      map (casm_spec api (CasmParsed (casm_of_json api bs))) ks \<and>
    fst (run_calls (map (casm_call api) ks) (GenericCasm_from_cairo_lang c)) = map (casm_spec api (CasmParsed (Inr c))) ks \<and>
    fst (run_calls (map (casm_call api) ks) (GenericCasm_from_blockifier b)) = map (casm_spec api (CasmBlockifier b)) ks"
  using casm_denotes_init [of api] casm_class.run_calls_spec by (metis fst_conv)

text \<open>
  C30. The same holds for a Sierra class and the methods that return its encoding, its two parsed forms, its hash and the compiled
  class, for each of the three ways to make it. Serialization is not among them: it changes no cell, but its result does depend on the
  calls before.
\<close>

theorem sierra_class_history:
  fixes api :: "('cl, 'sc, 'abi, 'casm) sierra_api"
  shows "fst (run_calls (map (sierra_call api) ks) (GenericSierra_from_bytes bs)) = map (sierra_spec api (SierraBytes bs)) ks \<and>
    fst (run_calls (map (sierra_call api) ks) (GenericSierra_from_cairo_lang c)) = map (sierra_spec api (SierraLang c)) ks \<and>
    fst (run_calls (map (sierra_call api) ks) (GenericSierra_from_core f)) = map (sierra_spec api (SierraCore f)) ks"
  using sierra_denotes_init [of api] sierra_class.run_calls_spec by (metis fst_conv)

text \<open>
  C31. And for a deprecated class made from bytes, from a \<open>starknet-api\<close> class or from a \<open>blockifier\<close> class, with all its
  methods, serialization included.
\<close>

theorem deprecated_class_history:
  fixes api :: "('sa, 'sc, 'bl) deprecated_api"
  shows "fst (run_calls (map (deprecated_call api) ks) (GenericDeprecated_from_bytes bs)) =
      map (deprecated_spec api (DepBytes bs)) ks \<and>
    fst (run_calls (map (deprecated_call api) ks) (GenericDeprecated_from_starknet_api c)) = map (deprecated_spec api (DepApi c)) ks \<and>
    fst (run_calls (map (deprecated_call api) ks) (GenericDeprecated_from_blockifier b)) =
      map (deprecated_spec api (DepBlockifier b)) ks"
  using deprecated_denotes_init [of api] deprecated_class.run_calls_spec by (metis fst_conv)

text \<open>
  C32. A deprecated class made from a \<open>starknet-core\<close> class is different: asking for its \<open>starknet-api\<close> form fails,
  and succeeds after the encoding was asked for.
\<close>

theorem deprecated_core_depends_on_history:
  fixes api :: "('sa, 'sc, 'bl) deprecated_api"
  assumes "dep_core_to_json api c = Inr bs" and "dep_api_of_json api bs = Inr a"
  shows "fst (run_calls (map (deprecated_call api) [DepGetApi, DepGetSerialized, DepGetApi])
      (GenericDeprecated_from_starknet_core c)) =
    [DepOutApi (Inl (Error (ConversionError StarknetClassMissing))), DepOutBytes (Inr bs), DepOutApi (Inr a)]"
  using assms
  by (simp add: GenericDeprecated_from_starknet_core_def GenericDeprecated_default_def dep_get_starknet_api_contract_class_def
      get_or_try_init_def dep_build_starknet_api_class_def dep_get_serialized_contract_class_def map_errL_def
      GenericDeprecated_serialize_def)

definition demo_dep_api :: "(nat, nat, nat) deprecated_api" where
  "demo_dep_api = \<lparr> dep_api_of_json = (\<lambda>bs. Inr (length bs)), dep_api_to_json = (\<lambda>n. Inr (replicate n 0)),
     dep_core_to_json = (\<lambda>n. Inr (replicate n 0)), dep_blockifier_of_json = (\<lambda>bs. Inr (length bs)),
     dep_compute_hash = (\<lambda>bs. Inr (length bs)) \<rparr>"

theorem deprecated_core_depends_on_history_witness:
  "fst (run_calls (map (deprecated_call demo_dep_api) [DepGetApi, DepGetSerialized, DepGetApi])
      (GenericDeprecated_from_starknet_core 2)) =
    [DepOutApi (Inl (Error (ConversionError StarknetClassMissing))), DepOutBytes (Inr [0, 0]), DepOutApi (Inr 2)]"
  using deprecated_core_depends_on_history [of demo_dep_api 2 "[0, 0]" 2] by (simp add: demo_dep_api_def numeral_2_eq_2)

lemma sierra_serializable:
  assumes "\<forall>w. \<exists>d. with_abi_to_json api w = Inr d" and "sierra_core S = Some f" and "sierra_cairo_lang S = None"
  shows "\<exists>d. fst (GenericSierra_serialize api S) = Inr d"
proof -
  obtain w where w: "FlattenedSierraClassWithAbi_try_from api f = Inr w"
    by (simp add: FlattenedSierraClassWithAbi_try_from_def)
  obtain d where "with_abi_to_json api w = Inr d" using assms(1) by blast
  then show ?thesis using assms(2,3) w by (simp add: GenericSierra_serialize_def)
qed

lemma sierra_after_init: "sierra_after api bs {} (GenericSierra_from_bytes bs)"
  by (simp add: sierra_after_def GenericSierra_from_bytes_def parsed_lang_def parsed_core_def)

text \<open>
  C33. What serialization returns for a Sierra class made from bytes, after any calls of the methods above. It fails as long as no
  form of the class was parsed, so in particular on the class as it was made, although its encoding is there. The calls that get
  the \<open>cairo-lang\<close> form or compile make it return the encoding of that form; failing that, the calls that get the \<open>starknet-core\<close> form or
  the hash make it return the encoding of that form. Writing the fact of a class computes the hash first.
\<close>

theorem sierra_from_bytes_serialize:
  fixes api :: "('cl, 'sc, 'abi, 'casm) sierra_api"
  shows "fst (GenericSierra_serialize api (snd (run_calls (map (sierra_call api) ks) (GenericSierra_from_bytes bs)))) =
    (case (parsed_lang api bs (set ks), parsed_core api bs (set ks)) of
       (Some c, _) \<Rightarrow> from_outcome JsonError (sierra_to_json api c)
     | (None, Some f) \<Rightarrow>
         bindR (FlattenedSierraClassWithAbi_try_from api f) (\<lambda>w. from_outcome JsonError (with_abi_to_json api w))
     | (None, None) \<Rightarrow> Inl (Error (CustomMessage ''No possible serialization'')))"
  (is "fst (GenericSierra_serialize api (snd (run_calls (map ?call ks) _))) = _")
proof -
  have "sierra_after api bs ({} \<union> set ks) (snd (run_calls (map ?call ks) (GenericSierra_from_bytes bs)))"
    by (rule sierra_after_calls [OF refl sierra_after_init])
  then show ?thesis
    by (auto simp: sierra_after_def GenericSierra_serialize_def split: option.split)
qed

definition demo_flat :: flattened_sierra_class where
  "demo_flat = \<lparr> fs_sierra_program = [1, 2], fs_contract_class_version = ''0.1.0'',
     fs_entry_points_by_type = \<lparr> ep_constructor = [], ep_external = [\<lparr> ep_selector = 7, ep_function_idx = 0 \<rparr>], ep_l1_handler = [] \<rparr>,
     fs_abi = [] \<rparr>"

definition demo_sierra_api :: "(nat, nat, unit, nat) sierra_api" where
  "demo_sierra_api = \<lparr> sierra_of_json = (\<lambda>bs. Inr (length bs)), sierra_to_json = (\<lambda>n. Inr (replicate n 0)),
     core_of_json = (\<lambda>bs. Inr (length bs)), core_flatten = (\<lambda>n. Inr demo_flat), flattened_class_hash = (\<lambda>f. 5),
     abi_of_json = (\<lambda>a. Inl []), with_abi_to_json = (\<lambda>w. Inr [0]), from_contract_class = (\<lambda>c h n. Inr c) \<rparr>"

text \<open>Reading a fact that was written.\<close>

definition field_codec :: "string \<Rightarrow> (bytes \<Rightarrow> string + 'c) \<Rightarrow> (bytes \<Rightarrow> string + 'c) \<Rightarrow> bool" where
  "field_codec field of_json class_of_json \<longleftrightarrow>
     (\<forall>d c. class_of_json d = Inr c \<longrightarrow> of_json (json_field field d) = Inr c)"

context storage_laws
begin

lemma db_get_set:
  assumes "serialize D obj = Inr data" and "db_set St D obj s k = Inr s'" and "deserialize D data = Inr obj'"
  shows "db_get St D s' k = Inr (Some obj')"
  using assms by (auto simp: db_set_def db_get_def get_set)

lemma db_get_set_other:
  assumes "db_set St D obj s k = Inr s'" and "db_key Q j \<noteq> db_key D k"
  shows "db_get St Q s' j = db_get St Q s j"
  using assms by (auto simp: db_set_def db_get_def get_set bindR_eq_Inr_iff)

lemma class_fact_written:
  assumes "hash_of obj = (Inr h, obj')" and "serialize D obj' = Inr data" and "deserialize D data = Inr obj''"
  shows "\<exists>s'. set_class_fact St D hash_of obj s = Inr (h, s') \<and> db_set St D obj' s h = Inr s' \<and>
    db_get St D s' h = Inr (Some obj'')"
proof -
  obtain s' where s': "db_set St D obj' s h = Inr s'"
    using assms(2) set_value_ok by (force simp: db_set_def)
  then show ?thesis
    using assms(1) db_get_set [OF assms(2) s' assms(3)] by (auto simp: set_class_fact_def)
qed

end

lemma class_object_simps [simp]:
  "prefix (ContractClassFact sapi sj) = ascii ''contract_class_fact''"
  "prefix (CompiledClassFact capi cj) = ascii ''compiled_class_fact''"
  "prefix (DeprecatedCompiledClassFact dapi dj) = DEPRECATED_COMPILED_CLASS_PREFIX"
  by (simp_all add: ContractClassFact_def CompiledClassFact_def DeprecatedCompiledClassFact_def class_db_object_def)

lemma class_prefixes:
  "ascii ''contract_class_fact'' \<noteq> DEPRECATED_COMPILED_CLASS_PREFIX"
  "ascii ''compiled_class_fact'' \<noteq> DEPRECATED_COMPILED_CLASS_PREFIX"
  by (simp_all add: DEPRECATED_COMPILED_CLASS_PREFIX_def ascii_def)

text \<open>The fact of a compiled class, and of a Sierra class, that can be serialized.\<close>

lemma casm_fact_written:
  assumes St: "storage_laws St" and c: "casm_denotes capi C (CasmParsed (Inr x))"
    and d: "casm_to_json capi x = Inr d" "casm_of_json capi d = Inr x"
    and cj: "field_codec ''compiled_class'' cj (GenericCasm_deserialize capi)"
  shows "\<exists>C' s'. set_class_fact St (CompiledClassFact capi cj) (CompiledClassFact_hash capi) C s =
      Inr (Hash_of_felt (casm_class_hash capi x), s') \<and>
    db_set St (CompiledClassFact capi cj) C' s (Hash_of_felt (casm_class_hash capi x)) = Inr s' \<and>
    db_get St (CompiledClassFact capi cj) s' (Hash_of_felt (casm_class_hash capi x)) =
      Inr (Some (GenericCasm_from_cairo_lang x))"
proof -
  obtain C' where C': "GenericCasm_class_hash capi C = (Inr (Hash_of_felt (casm_class_hash capi x)), C')"
    "casm_denotes capi C' (CasmParsed (Inr x))"
    using casm_hash_ok [OF c] by (auto simp: casm_hash_of_def)
  obtain C'' where "GenericCasm_serialize capi C' = (Inr d, C'')"
    using casm_bytes_ok [OF C'(2)] d(1) by (auto simp: casm_bytes_of_def)
  then have ser: "serialize (CompiledClassFact capi cj) C' = Inr (json_field ''compiled_class'' d)"
    by (simp add: CompiledClassFact_def class_db_object_def)
  have hash: "CompiledClassFact_hash capi C = (Inr (Hash_of_felt (casm_class_hash capi x)), C')"
    using C'(1) by (simp add: CompiledClassFact_hash_def expectL_def)
  have des: "deserialize (CompiledClassFact capi cj) (json_field ''compiled_class'' d) = Inr (GenericCasm_from_cairo_lang x)"
    using cj d(2) by (simp add: CompiledClassFact_def class_db_object_def field_codec_def GenericCasm_deserialize_def)
  show ?thesis using storage_laws.class_fact_written [where hash_of = "CompiledClassFact_hash capi", OF St hash ser des] by blast
qed

lemma sierra_fact_written:
  assumes St: "storage_laws St" and S: "sierra_denotes sapi S v" "sierra_hash S = None" "sierra_hash_of sapi v = Inr h"
    and ser: "\<forall>y. \<exists>d. sierra_to_json sapi y = Inr d" "\<forall>w. \<exists>d. with_abi_to_json sapi w = Inr d"
  shows "\<exists>s'. set_class_fact St (ContractClassFact sapi sj) (ContractClassFact_hash sapi) S s = Inr (h, s')"
proof -
  obtain f where f: "sierra_core_of sapi v = Inr f" "h = Hash_of_felt (flattened_class_hash sapi f)"
    using S(3) by (auto simp: sierra_hash_of_def bindR_eq_Inr_iff)
  obtain S' where S': "sierra_get_starknet_core_contract_class sapi S = (Inr f, S')" "sierra_hash S' = None"
    using sierra_core_ok [OF S(1)] S(2) f(1) by auto
  have core: "sierra_core S' = Some f"
    using S'(1) sierra_core_cell.init_fills unfolding sierra_get_starknet_core_contract_class_def by blast
  have "sierra_compute_class_hash sapi S = (Inr h, S')"
    using S'(1) f(2) by (simp add: sierra_compute_class_hash_def)
  then have "GenericSierra_class_hash sapi S = (Inr h, S' \<lparr> sierra_hash := Some h \<rparr>)"
    using S(2) S'(2) by (simp add: GenericSierra_class_hash_def get_or_try_init_def)
  moreover obtain d where "fst (GenericSierra_serialize sapi (S' \<lparr> sierra_hash := Some h \<rparr>)) = Inr d"
  proof (cases "sierra_cairo_lang S'")
    case None
    then show ?thesis using sierra_serializable [OF ser(2), of "S' \<lparr> sierra_hash := Some h \<rparr>"] core that by auto
  next
    case (Some y)
    obtain d where "sierra_to_json sapi y = Inr d" using ser(1) by blast
    with Some that show ?thesis by (simp add: GenericSierra_serialize_def)
  qed
  moreover obtain s' where "set_value St s (db_key (ContractClassFact sapi sj) h) (json_field ''contract_class'' d) = Inr s'"
    using storage_laws.set_value_ok [OF St] by blast
  ultimately show ?thesis
    by (simp add: set_class_fact_def ContractClassFact_hash_def expectL_def db_set_def ContractClassFact_def class_db_object_def)
qed

lemma set_class_fact_other:
  assumes St: "storage_laws St" and w: "set_class_fact St D hash_of obj s = Inr (h, s')"
    and k: "hash_wf h" "hash_wf j" "prefix Q \<noteq> prefix D"
  shows "db_get St Q s' j = db_get St Q s j"
proof -
  obtain obj' where "db_set St D obj' s h = Inr s'"
    using w by (auto simp: set_class_fact_def bindR_eq_Inr_iff split: prod.splits)
  then show ?thesis by (rule storage_laws.db_get_set_other [OF St]) (use k in \<open>simp add: db_key_eq_iff\<close>)
qed

text \<open>
  C28. A class that was written can be executed: after the facts of a Sierra class and of its compiled class were written,
  the state finds the compiled class under its hash and returns its blockifier form, unless a deprecated
  class is stored under the same hash, which is looked up first.
\<close>

theorem written_class_found:
  fixes dapi :: "('sa, 'sc, 'bl0) deprecated_api" and capi :: "('c, 'bl) casm_api"
    and sapi :: "('cl, 'sc', 'abi, 'casm) sierra_api"
  assumes St: "storage_laws St" and C: "casm_denotes capi C (CasmParsed (Inr x))"
    and d: "casm_to_json capi x = Inr d" "casm_of_json capi d = Inr x"
    and cj: "field_codec ''compiled_class'' cj (GenericCasm_deserialize capi)"
    and S: "sierra_denotes sapi S v" "sierra_hash S = None" "sierra_hash_of sapi v = Inr h"
    and ser: "\<forall>y. \<exists>d. sierra_to_json sapi y = Inr d" "\<forall>w. \<exists>d. with_abi_to_json sapi w = Inr d"
    and b: "casm_to_blockifier capi x = Inr b"
    and none: "get_deprecated_compiled_class St dapi dj s (casm_class_hash capi x) = Inr None"
  shows "\<exists>s2. write_class_facts St sapi sj capi cj S C s = Inr (h, Hash_of_felt (casm_class_hash capi x), s2) \<and>
    get_compiled_class St capi cj s2 (casm_class_hash capi x) = Inr (Some (GenericCasm_from_cairo_lang x)) \<and>
    get_compiled_contract_class_async St dapi dj capi cj s2 (casm_class_hash capi x) = Inr (ContractClassV1 b)"
proof -
  let ?k = "Hash_of_felt (casm_class_hash capi x)"
  obtain s1 where s1: "set_class_fact St (ContractClassFact sapi sj) (ContractClassFact_hash sapi) S s = Inr (h, s1)"
    using sierra_fact_written [OF St S ser] by blast
  obtain s2 where s2: "set_class_fact St (CompiledClassFact capi cj) (CompiledClassFact_hash capi) C s1 = Inr (?k, s2)"
    "db_get St (CompiledClassFact capi cj) s2 ?k = Inr (Some (GenericCasm_from_cairo_lang x))"
    using casm_fact_written [OF St C d cj] by blast
  have run: "write_class_facts St sapi sj capi cj S C s = Inr (h, ?k, s2)"
    using s1 s2(1) by (simp add: write_class_facts_def)
  have "hash_wf h" using S(3) by (auto simp: sierra_hash_of_def bindR_eq_Inr_iff)
  then have "db_get St (DeprecatedCompiledClassFact dapi dj) s2 ?k = db_get St (DeprecatedCompiledClassFact dapi dj) s ?k"
    using set_class_fact_other [OF St s1, of ?k "DeprecatedCompiledClassFact dapi dj"]
      set_class_fact_other [OF St s2(1), of ?k "DeprecatedCompiledClassFact dapi dj"] class_prefixes by simp
  then have dep: "get_deprecated_compiled_class St dapi dj s2 (casm_class_hash capi x) = Inr None"
    using none by (simp add: get_deprecated_compiled_class_def felt_bytes_Hash)
  have comp: "get_compiled_class St capi cj s2 (casm_class_hash capi x) = Inr (Some (GenericCasm_from_cairo_lang x))"
    using s2(2) by (simp add: get_compiled_class_def felt_bytes_Hash)
  have "casm_to_blockifier_contract_class capi (GenericCasm_from_cairo_lang x) = Inr b"
    using casm_blockifier_ok [OF casm_denotes_init(2) [of capi x]] b
    by (auto simp: casm_to_blockifier_contract_class_def blockifier_contract_class_from_cairo_lang_class_def)
  then show ?thesis
    using run dep comp by (simp add: get_compiled_contract_class_async_def)
qed

definition demo_casm_api :: "(nat, nat) casm_api" where
  "demo_casm_api = \<lparr> casm_of_json = (\<lambda>bs. Inr (length bs)), casm_to_json = (\<lambda>n. Inr (replicate n 0)),
     casm_to_blockifier = (\<lambda>n. Inr (n + 1)), casm_class_hash = (\<lambda>n. 10 + n) \<rparr>"

definition demo_field :: "string \<Rightarrow> (bytes \<Rightarrow> string + 'c) \<Rightarrow> bytes \<Rightarrow> string + 'c" where
  "demo_field field class_of_json bs =
     class_of_json (take (length bs - (length field + 5)) (drop 2 (drop (length field) (drop 2 bs))))"

lemma demo_field_codec: "field_codec field (demo_field field of_json) of_json"
  by (simp add: field_codec_def demo_field_def json_field_def ascii_def del: drop_drop)

theorem written_class_found_witness:
  "\<exists>s2. write_class_facts DictStorage demo_sierra_api (demo_field ''contract_class'' (GenericSierra_deserialize demo_sierra_api))
      demo_casm_api (demo_field ''compiled_class'' (GenericCasm_deserialize demo_casm_api))
      (GenericSierra_from_bytes [1]) (GenericCasm_from_bytes [1, 2, 3]) DictStorage_default = Inr (Hash_of_felt 5, Hash_of_felt 13, s2) \<and>
    get_compiled_contract_class_async DictStorage demo_dep_api
      (demo_field ''contract_definition'' (GenericDeprecated_deserialize demo_dep_api)) demo_casm_api
      (demo_field ''compiled_class'' (GenericCasm_deserialize demo_casm_api)) s2 13 = Inr (ContractClassV1 4)"
proof -
  let ?dj = "demo_field ''contract_definition'' (GenericDeprecated_deserialize demo_dep_api)"
    and ?cj = "demo_field ''compiled_class'' (GenericCasm_deserialize demo_casm_api)"
    and ?sj = "demo_field ''contract_class'' (GenericSierra_deserialize demo_sierra_api)"
  have C: "casm_denotes demo_casm_api (GenericCasm_from_bytes [1, 2, 3]) (CasmParsed (Inr 3))"
    using casm_denotes_init(1) [of demo_casm_api "[1, 2, 3]"] by (simp add: demo_casm_api_def numeral_3_eq_3)
  have api: "casm_to_json demo_casm_api 3 = Inr [0, 0, 0]" "casm_of_json demo_casm_api [0, 0, 0] = Inr 3"
    "casm_to_blockifier demo_casm_api 3 = Inr 4" "casm_class_hash demo_casm_api 3 = 13"
    by (simp_all add: demo_casm_api_def numeral_3_eq_3)
  have S: "sierra_hash (GenericSierra_from_bytes [1]) = None"
    "sierra_hash_of demo_sierra_api (SierraBytes [1]) = Inr (Hash_of_felt 5)"
    "\<forall>y. \<exists>d. sierra_to_json demo_sierra_api y = Inr d" "\<forall>w. \<exists>d. with_abi_to_json demo_sierra_api w = Inr d"
    by (simp_all add: GenericSierra_from_bytes_def sierra_hash_of_def demo_sierra_api_def)
  have none: "get_deprecated_compiled_class DictStorage demo_dep_api ?dj DictStorage_default (casm_class_hash demo_casm_api 3) = Inr None"
    by (simp add: get_deprecated_compiled_class_def db_get_def DictStorage_def DictStorage_default_def)
  show ?thesis
    using written_class_found [OF dict.storage_laws_axioms C api(1,2) demo_field_codec sierra_denotes_init(1) S(1-4) api(3) none,
        where sj = ?sj] unfolding api(4) by blast
qed

end
