(* ===== verification/Guess_Descents.thy ===== *)
theory Guess_Descents
  imports Storage_Trees
begin

text \<open>
  \<open>patricia_guess_descents.rs\<close>: the descents of three trees, the update tree and the trees before and after the update, of
  which the latter two are read lazily from a map of preimages. A descent is a path from a node along which no
  tree has a leaf beside the path. The correctness of the search is in the theory \<open>Descents_Correct\<close>.
\<close>

section \<open>Definitions\<close>

type_synonym preimage_map = "(felt, felt list) hash_map"
type_synonym triplet = "felt \<times> felt \<times> felt"

definition empty_triplet :: triplet where
  "empty_triplet = (0, 0, 0)"

datatype descent_error = PreimageNotFound felt | IsNotBranch | TreeHeightMismatch | DescentMath felt

text \<open>The map from a start, a height and a path, to a descent, a length and a path.\<close>

type_synonym descent_map = "(height \<times> node_path, edge_len \<times> node_path) hash_map"

definition canonic :: "preimage_map \<Rightarrow> felt \<Rightarrow> triplet" where
  "canonic pre h =
     (case map_of pre h of
        Some back \<Rightarrow> if length back = 3 then (back ! 0, back ! 1, back ! 2) else (0, 0, h)
      | None \<Rightarrow> (0, 0, h))"

definition preimage_get_children :: "preimage_map \<Rightarrow> triplet \<Rightarrow> (descent_error, triplet \<times> triplet) res" where
  "preimage_get_children pre node =
     (case node of (len, word, h) \<Rightarrow>
        if len = 0
        then
          bindR (if h = 0 then Inr (0, 0)
                 else case map_of pre h of
                   None \<Rightarrow> Inl (Error (PreimageNotFound h))
                 | Some node_preimage \<Rightarrow>
                     bindR (vec_index node_preimage 0) (\<lambda>l.
                     bindR (vec_index node_preimage 1) (\<lambda>r. Inr (l, r))))
            (\<lambda>(left, right). Inr (canonic pre left, canonic pre right))
        else
          bindR (ok_or (DescentMath len) (felt_to_u64 len)) (\<lambda>length_u64.
            if word div 2 ^ (length_u64 - 1) = 0
            then Inr ((felt_sub len 1, word, h), empty_triplet)
            else Inr (empty_triplet, (felt_sub len 1, felt_sub word (felt_of_nat (2 ^ (length_u64 - 1))), h))))"

text \<open>The lazy tree of preimages.\<close>

record preimage_iter =
  it_height :: height
  it_node :: triplet
  is_done :: bool

datatype preimage_node = PLeaf | PBranch "preimage_iter option" "preimage_iter option"

definition preimage_tree :: "height \<Rightarrow> triplet \<Rightarrow> preimage_iter" where
  "preimage_tree h node = \<lparr> it_height = h, it_node = node, is_done = False \<rparr>"

definition iter_next ::
  "preimage_map \<Rightarrow> preimage_iter \<Rightarrow> (descent_error, preimage_node) res option \<times> preimage_iter" where
  "iter_next pre it =
     (if is_done it then (None, it)
      else
        (Some
          (if it_height it = 0 then Inr PLeaf
           else
             bindR (preimage_get_children pre (it_node it)) (\<lambda>(left, right).
             bindR (u64_sub (it_height it) 1) (\<lambda>h.
               Inr (PBranch
                 (if left = empty_triplet then None else Some (preimage_tree h left))
                 (if right = empty_triplet then None else Some (preimage_tree h right)))))),
         it \<lparr> is_done := True \<rparr>))"

definition open_tree ::
  "preimage_map \<Rightarrow> preimage_iter option \<Rightarrow> (descent_error, preimage_iter option \<times> preimage_iter option) res" where
  "open_tree pre tree =
     (case tree of
        None \<Rightarrow> Inr (None, None)
      | Some it \<Rightarrow>
          (case fst (iter_next pre it) of
             None \<Rightarrow> Inl (Error TreeHeightMismatch)
           | Some r \<Rightarrow>
               bindR r (\<lambda>n. case n of
                  PLeaf \<Rightarrow> Inl (Error IsNotBranch)
                | PBranch left right \<Rightarrow> Inr (left, right))))"

fun open_update :: "'lf update_tree \<Rightarrow> (descent_error, 'lf update_tree \<times> 'lf update_tree) res" where
  "open_update None = Inl (Error TreeHeightMismatch)"
| "open_update (Some (Leaf x)) = Inl (Error IsNotBranch)"
| "open_update (Some (Tuple l r)) = Inr (l, r)"

type_synonym 'lf three_trees = "'lf update_tree \<times> preimage_iter option \<times> preimage_iter option"

definition open_trees ::
  "preimage_map \<Rightarrow> 'lf three_trees \<Rightarrow> (descent_error, 'lf three_trees \<times> 'lf three_trees) res" where
  "open_trees pre trees =
     (case trees of (update, previous_tree, new_tree) \<Rightarrow>
        bindR (open_update update) (\<lambda>(update_left, update_right).
        bindR (open_tree pre previous_tree) (\<lambda>(previous_left, previous_right).
        bindR (open_tree pre new_tree) (\<lambda>(new_left, new_right).
          Inr ((update_left, previous_left, new_left), (update_right, previous_right, new_right))))))"

text \<open>The loop: its result are the trees of the two children, the height and the path at the end.\<close>

function descent_loop ::
  "preimage_map \<Rightarrow> height \<Rightarrow> node_path \<Rightarrow> 'lf three_trees
   \<Rightarrow> (descent_error, height \<times> node_path \<times> 'lf three_trees \<times> 'lf three_trees) res" where
  "descent_loop pre h p trees =
     bindR (open_trees pre trees) (\<lambda>(lefts, rights).
       if lefts = (None, None, None)
       then
         bindR (u64_sub h 1) (\<lambda>h'.
           if h' = 0 then Inr (h', p * 2 + 1, lefts, rights) else descent_loop pre h' (p * 2 + 1) rights)
       else if rights = (None, None, None)
       then
         bindR (u64_sub h 1) (\<lambda>h'.
           if h' = 0 then Inr (h', p * 2, lefts, rights) else descent_loop pre h' (p * 2) lefts)
       else Inr (h, p, lefts, rights))"
  by pat_completeness auto
termination
  by (relation "measure (\<lambda>(pre, h, p, trees). h)") (auto simp: u64_sub_eq_Inr_iff)

declare descent_loop.simps [simp del]

lemma descent_loop_height: "descent_loop pre h p trees = Inr (h', r) \<Longrightarrow> h' \<le> h"
proof (induction h arbitrary: p trees rule: less_induct)
  case (less h)
  from less.prems obtain lefts rights where o: "open_trees pre trees = Inr (lefts, rights)"
    by (subst (asm) descent_loop.simps) (auto simp: bindR_eq_Inr_iff)
  from less.prems consider "h' = h" | "h' = h - 1"
    | q t where "1 \<le> h" "descent_loop pre (h - 1) q t = Inr (h', r)"
    by (subst (asm) descent_loop.simps) (auto simp: o bindR_eq_Inr_iff u64_sub_eq_Inr_iff split: if_splits)
  then show ?case using less.IH [of "h - 1"] by cases force+
qed

function get_descents ::
  "preimage_map \<Rightarrow> height \<Rightarrow> node_path \<Rightarrow> 'lf three_trees \<Rightarrow> (descent_error, descent_map) res" where
  "get_descents pre orig_height orig_path trees =
     (if fst trees = None \<or> orig_height = 0 then Inr []
      else
        bindR (descent_loop pre orig_height orig_path trees) (\<lambda>(h, p, lefts, rights).
        bindR (u64_sub orig_height h) (\<lambda>len.
          let descent_map =
                (if len > 1 then hm_insert (orig_height, orig_path) (len, p mod 2 ^ len) [] else [])
          in if h > 0
             then
               bindR (get_descents pre (h - 1) (p * 2) lefts) (\<lambda>left_map.
               bindR (get_descents pre (h - 1) (p * 2 + 1) rights) (\<lambda>right_map.
                 Inr (hm_extend (hm_extend descent_map left_map) right_map)))
             else Inr descent_map)))"
  by pat_completeness auto
termination
  by (relation "measure (\<lambda>(pre, h, p, trees). h)") (auto dest: descent_loop_height)

declare get_descents.simps [simp del]

definition patricia_guess_descents ::
  "height \<Rightarrow> 'lf update_tree \<Rightarrow> preimage_map \<Rightarrow> nat \<Rightarrow> nat \<Rightarrow> (descent_error, descent_map) res" where
  "patricia_guess_descents h node pre prev_root new_root =
     (let node_prev = preimage_tree h (canonic pre (felt_of_nat prev_root));
          node_new = preimage_tree h (canonic pre (felt_of_nat new_root))
      in get_descents pre h 0 (node, Some node_prev, Some node_new))"

end
