(* ===== verification/Descents_Correct.thy ===== *)
theory Descents_Correct
  imports Guess_Descents
begin

text \<open>
  The search for descents (\<open>Guess_Descents\<close>) is exact. The first section defines descents by the sets of
  updated and of occupied leaves only and shows how the descents below a node are
  composed. The second relates the tree that is read from a map of preimages to the canonical tree of
  its leaves; only the nodes above an updated leaf need a preimage. The last section joins the two by
  an induction along the recursion of the search.
\<close>

section \<open>Descents of sets of leaves\<close>

text \<open>A node of height \<open>k\<close> and path \<open>q\<close> has a leaf of \<open>S\<close> below it.\<close>

definition occ :: "(nat \<Rightarrow> bool) \<Rightarrow> nat \<Rightarrow> nat \<Rightarrow> bool" where
  "occ S k q \<longleftrightarrow> (\<exists>i. S i \<and> i div 2 ^ k = q)"

definition sibling :: "nat \<Rightarrow> nat" where
  "sibling q = (if even q then q + 1 else q - 1)"

text \<open>The node at which the descent from a node ends.\<close>

fun spec_end :: "(nat \<Rightarrow> bool) \<Rightarrow> nat \<Rightarrow> nat \<Rightarrow> nat \<times> nat" where
  "spec_end S 0 p = (0, p)"
| "spec_end S (Suc h) p =
     (if \<not> occ S h (2 * p) then spec_end S h (2 * p + 1)
      else if \<not> occ S h (2 * p + 1) then spec_end S h (2 * p)
      else (Suc h, p))"

text \<open>
  A descent of length \<open>l\<close> and path \<open>r\<close> from the node of height \<open>k\<close> and path \<open>q\<close>: a leaf below the node is updated, all
  leaves below the node are below the end, the length is at least two, and the end is a leaf or
  has leaves on both sides. In a tree of height \<open>h\<close> below the node \<open>p\<close>, a descent starts at the root or at a node whose
  sibling has leaves.
\<close>

definition descends :: "(nat \<Rightarrow> bool) \<Rightarrow> (nat \<Rightarrow> bool) \<Rightarrow> nat \<Rightarrow> nat \<Rightarrow> nat \<Rightarrow> nat \<Rightarrow> bool" where
  "descends U S k q l r \<longleftrightarrow>
     occ U k q \<and> 1 < l \<and> l \<le> k \<and> r < 2 ^ l \<and>
     (\<forall>i. S i \<longrightarrow> i div 2 ^ k = q \<longrightarrow> i div 2 ^ (k - l) = q * 2 ^ l + r) \<and>
     (l = k \<or> occ S (k - l - 1) (2 * (q * 2 ^ l + r)) \<and> occ S (k - l - 1) (2 * (q * 2 ^ l + r) + 1))"

definition is_descent ::
  "(nat \<Rightarrow> bool) \<Rightarrow> (nat \<Rightarrow> bool) \<Rightarrow> nat \<Rightarrow> nat \<Rightarrow> nat \<Rightarrow> nat \<Rightarrow> nat \<Rightarrow> nat \<Rightarrow> bool" where
  "is_descent U S h p k q l r \<longleftrightarrow>
     k \<le> h \<and> q div 2 ^ (h - k) = p \<and> (k = h \<or> occ S k (sibling q)) \<and> descends U S k q l r"

lemma div_pow_add: "i div 2 ^ (a + b) = i div 2 ^ a div (2 ^ b :: nat)"
  by (simp add: power_add div_mult2_eq)

lemma div_pow_le: "k \<le> h \<Longrightarrow> i div 2 ^ h = i div 2 ^ k div (2 ^ (h - k) :: nat)"
  using div_pow_add [of i k "h - k"] by simp

lemma div_two_iff: "(x :: nat) div 2 = q \<longleftrightarrow> x = 2 * q \<or> x = 2 * q + 1"
  by presburger

lemma div_pow_Suc_iff: "i div 2 ^ Suc k = q \<longleftrightarrow> i div 2 ^ k = 2 * q \<or> i div 2 ^ k = 2 * q + (1 :: nat)"
  using div_pow_add [of i k 1] div_two_iff [of "i div 2 ^ k" q] by simp

lemma occ_Suc: "occ S (Suc k) q \<longleftrightarrow> occ S k (2 * q) \<or> occ S k (2 * q + 1)"
  unfolding occ_def div_pow_Suc_iff by blast

lemma occ_mono: "(\<And>i. U i \<Longrightarrow> S i) \<Longrightarrow> occ U k q \<Longrightarrow> occ S k q"
  by (auto simp: occ_def)

lemma occ_up: "occ S k q \<Longrightarrow> k \<le> h \<Longrightarrow> occ S h (q div 2 ^ (h - k))"
  by (auto simp: occ_def div_pow_le)

lemma sibling_div: "sibling q div 2 = q div 2" "sibling q \<noteq> q"
  by (auto simp: sibling_def elim!: oddE)

lemma sibling_div_pow: "0 < n \<Longrightarrow> sibling q div 2 ^ n = q div 2 ^ n"
  using div_pow_le [of 1 n q] div_pow_le [of 1 n "sibling q"] by (simp add: sibling_div)

text \<open>The end of a descent: all leaves below the start are below the end, and the end has two children or is a leaf.\<close>

definition ends_at :: "(nat \<Rightarrow> bool) \<Rightarrow> nat \<Rightarrow> nat \<Rightarrow> nat \<Rightarrow> nat \<Rightarrow> bool" where
  "ends_at S h p h' p' \<longleftrightarrow>
     h' \<le> h \<and> p' div 2 ^ (h - h') = p \<and> (\<forall>i. S i \<longrightarrow> i div 2 ^ h = p \<longrightarrow> i div 2 ^ h' = p') \<and>
     (h' = 0 \<or> occ S (h' - 1) (2 * p') \<and> occ S (h' - 1) (2 * p' + 1))"

lemma ends_at_down:
  assumes "ends_at S h q h' p'" and "q div 2 = p" and "\<And>i. S i \<Longrightarrow> i div 2 ^ Suc h = p \<Longrightarrow> i div 2 ^ h = q"
  shows "ends_at S (Suc h) p h' p'"
proof -
  have "p' div 2 ^ (Suc h - h') = p"
    using assms(1, 2) div_pow_add [of p' "h - h'" 1] by (simp add: ends_at_def Suc_diff_le)
  with assms(1, 3) show ?thesis by (auto simp: ends_at_def)
qed

lemma spec_end_ends_at: "occ S h p \<Longrightarrow> ends_at S h p (fst (spec_end S h p)) (snd (spec_end S h p))"
proof (induction h arbitrary: p)
  case 0
  then show ?case by (auto simp: ends_at_def)
next
  case (Suc h)
  consider "\<not> occ S h (2 * p)" | "occ S h (2 * p)" "\<not> occ S h (2 * p + 1)" | "occ S h (2 * p)" "occ S h (2 * p + 1)"
    by blast
  then show ?case
  proof cases
    case 1
    then have o: "occ S h (2 * p + 1)" using Suc.prems by (simp add: occ_Suc)
    have "i div 2 ^ h = 2 * p + 1" if "S i" "i div 2 ^ Suc h = p" for i
      using that 1 by (auto simp: occ_def div_pow_Suc_iff simp del: power_Suc)
    from ends_at_down [OF Suc.IH [OF o] _ this] 1 show ?thesis by simp
  next
    case 2
    have "i div 2 ^ h = 2 * p" if "S i" "i div 2 ^ Suc h = p" for i
      using that 2 by (auto simp: occ_def div_pow_Suc_iff simp del: power_Suc)
    from ends_at_down [OF Suc.IH [OF 2(1)] _ this] 2 show ?thesis by simp
  next
    case 3
    then show ?thesis by (simp add: ends_at_def)
  qed
qed

lemma ends_at_unique:
  assumes "occ S h p" and 1: "ends_at S h p a x" and 2: "ends_at S h p b y"
  shows "a = b \<and> x = y"
proof -
  have no: False if "ends_at S h p a x" "ends_at S h p b y" "a < b" for a b x y
  proof -
    have below: "z div 2 ^ (b - 1 - a) = w" if w: "occ S (b - 1) w" "w div 2 = y" "z = x" for w z
    proof -
      obtain i where i: "S i" "i div 2 ^ (b - 1) = w" using w(1) by (auto simp: occ_def)
      have "i div 2 ^ b = y" using div_pow_le [of "b - 1" b i] i w(2) \<open>a < b\<close> by simp
      then have "i div 2 ^ h = p"
        using div_pow_le [of b h i] \<open>ends_at S h p b y\<close> by (simp add: ends_at_def)
      then have "i div 2 ^ a = x" using \<open>ends_at S h p a x\<close> i(1) by (simp add: ends_at_def)
      then show ?thesis using div_pow_le [of a "b - 1" i] \<open>a < b\<close> i(2) w(3) by simp
    qed
    have "occ S (b - 1) (2 * y)" "occ S (b - 1) (2 * y + 1)"
      using that(2, 3) by (auto simp: ends_at_def)
    from below [OF this(1)] below [OF this(2)] show False by simp
  qed
  have "a = b" using no [OF 1 2] no [OF 2 1] by force
  moreover obtain i where "S i" "i div 2 ^ h = p" using assms(1) by (auto simp: occ_def)
  ultimately show ?thesis using 1 2 by (auto simp: ends_at_def)
qed

text \<open>Descents start at the start of the search or at a child of the end of the first descent.\<close>

lemma descends_ends_at:
  "descends U S k q l r \<longleftrightarrow> occ U k q \<and> 1 < l \<and> l \<le> k \<and> r < 2 ^ l \<and> ends_at S k q (k - l) (q * 2 ^ l + r)"
  by (auto simp: descends_def ends_at_def)

lemma descends_occ: "descends U S k q l r \<Longrightarrow> occ U k q"
  by (simp add: descends_def)

lemma is_descent_root:
  assumes US: "\<And>i. U i \<Longrightarrow> S i" and "occ U h p" and e: "ends_at S h p h' p'"
  shows "is_descent U S h p h q l r \<longleftrightarrow> q = p \<and> 1 < h - h' \<and> l = h - h' \<and> r = p' mod 2 ^ (h - h')"
proof -
  have S: "occ S h p" using occ_mono [OF US assms(2)] .
  have p': "p' = p * 2 ^ (h - h') + p' mod 2 ^ (h - h')" "h' \<le> h"
    using e div_mult_mod_eq [of p' "2 ^ (h - h')"] by (auto simp: ends_at_def)
  show ?thesis
  proof
    assume "is_descent U S h p h q l r"
    then have d: "q = p" "1 < l" "l \<le> h" "r < 2 ^ l" "ends_at S h p (h - l) (p * 2 ^ l + r)"
      by (auto simp: is_descent_def descends_ends_at)
    from ends_at_unique [OF S d(5) e] have eq: "h - l = h'" "p * 2 ^ l + r = p'" by auto
    from eq(1) d(3) have "l = h - h'" by auto
    moreover have "p' mod 2 ^ l = r" using eq(2) d(4) by auto
    ultimately show "q = p \<and> 1 < h - h' \<and> l = h - h' \<and> r = p' mod 2 ^ (h - h')"
      using d by auto
  next
    assume "q = p \<and> 1 < h - h' \<and> l = h - h' \<and> r = p' mod 2 ^ (h - h')"
    then show "is_descent U S h p h q l r"
      using e p' assms(2) by (auto simp: is_descent_def descends_ends_at)
  qed
qed

lemma is_descent_below:
  assumes US: "\<And>i. U i \<Longrightarrow> S i" and e: "ends_at S h p h' p'" and "k < h"
  shows "is_descent U S h p k q l r \<longleftrightarrow>
    0 < h' \<and> (is_descent U S (h' - 1) (2 * p') k q l r \<or> is_descent U S (h' - 1) (2 * p' + 1) k q l r)"
proof
  assume d: "is_descent U S h p k q l r"
  have q: "q div 2 ^ (h - k) = p" "sibling q div 2 ^ (h - k) = p"
    using d \<open>k < h\<close> by (simp_all add: is_descent_def sibling_div_pow)
  have leaf: "i div 2 ^ h' = p'" if "S i" "i div 2 ^ k = q \<or> i div 2 ^ k = sibling q" for i
    using e that div_pow_le [of k h i] \<open>k < h\<close> q by (auto simp: ends_at_def)
  have "occ U k q" using d by (auto simp: is_descent_def intro: descends_occ)
  then obtain i where i: "S i" "i div 2 ^ k = q" using US by (auto simp: occ_def)
  have sib: "occ S k (sibling q)" using d \<open>k < h\<close> by (simp add: is_descent_def)
  then obtain j where j: "S j" "j div 2 ^ k = sibling q" by (auto simp: occ_def)
  have ij: "i div 2 ^ h' = p'" "j div 2 ^ h' = p'" using leaf [of i] leaf [of j] i j by simp_all
  have "k < h'"
  proof (rule ccontr)
    assume "\<not> k < h'"
    then have "q = p' div 2 ^ (k - h')" "sibling q = p' div 2 ^ (k - h')"
      using i(2) j(2) ij div_pow_le [of h' k i] div_pow_le [of h' k j] by simp_all
    then show False using sibling_div(2) [of q] by simp
  qed
  then have "q div 2 ^ (h' - k) = p'" using i(2) ij div_pow_le [of k h' i] by simp
  then have "q div 2 ^ Suc (h' - 1 - k) = p'" using \<open>k < h'\<close> by (simp add: Suc_diff_Suc)
  then show "0 < h' \<and> (is_descent U S (h' - 1) (2 * p') k q l r \<or> is_descent U S (h' - 1) (2 * p' + 1) k q l r)"
    unfolding div_pow_Suc_iff using d \<open>k < h'\<close> sib by (auto simp: is_descent_def)
next
  assume a: "0 < h' \<and> (is_descent U S (h' - 1) (2 * p') k q l r \<or> is_descent U S (h' - 1) (2 * p' + 1) k q l r)"
  then have h': "0 < h'" "k \<le> h' - 1" "k = h' - 1 \<or> occ S k (sibling q)" and
    q: "q div 2 ^ (h' - 1 - k) = 2 * p' \<or> q div 2 ^ (h' - 1 - k) = 2 * p' + 1"
    by (auto simp: is_descent_def)
  have up: "q div 2 ^ (h' - k) = p'"
    using q h' div_pow_Suc_iff [of q "h' - 1 - k" p'] by (simp add: Suc_diff_Suc)
  have "q div 2 ^ (h - k) = q div 2 ^ (h' - k) div 2 ^ (h - h')"
    using div_pow_add [of q "h' - k" "h - h'"] h' e by (simp add: ends_at_def)
  then have "q div 2 ^ (h - k) = p" using e up by (simp add: ends_at_def)
  moreover have "occ S k (sibling q)"
    using h'(3)
  proof
    assume "k = h' - 1"
    then have "q = 2 * p' \<or> q = 2 * p' + 1" and "occ S k (2 * p')" "occ S k (2 * p' + 1)"
      using q e h' by (auto simp: ends_at_def)
    then show ?thesis by (auto simp: sibling_def)
  qed
  ultimately show "is_descent U S h p k q l r"
    using a \<open>k < h\<close> by (auto simp: is_descent_def)
qed

lemma is_descent_leaf: "\<not> is_descent U S 0 p k q l r"
  by (simp add: is_descent_def descends_def)

lemma is_descent_unused: "\<not> occ U h p \<Longrightarrow> \<not> is_descent U S h p k q l r"
  using occ_up [of U k q h] descends_occ [of U S k q l r] by (auto simp: is_descent_def)

lemma is_descent_height: "is_descent U S h p k q l r \<Longrightarrow> k \<le> h"
  by (simp add: is_descent_def)

section \<open>Trees of preimages\<close>

fun trip :: "triple \<Rightarrow> triplet" where
  "trip (b, p, l) = (l, p, biguint_of_Hash b)"

text \<open>The facts of the nodes above the leaves of \<open>U\<close>, in the tree of height \<open>h\<close> below the path \<open>p\<close>.\<close>

fun visited_facts ::
  "(nat \<Rightarrow> bool) \<Rightarrow> hash_fn \<Rightarrow> nat \<Rightarrow> nat \<Rightarrow> (nat \<Rightarrow> hash) \<Rightarrow> (hash \<times> patricia_node_fact) list" where
  "visited_facts U H 0 p g = []"
| "visited_facts U H (Suc h) p g =
     (if occ U (Suc h) p
      then
        visited_facts U H h (2 * p) g @ visited_facts U H h (2 * p + 1) (right_half h g) @
        (if fst (canon H h g) \<noteq> EMPTY_HASH \<and> fst (canon H h (right_half h g)) \<noteq> EMPTY_HASH
         then
           (if occ U h (2 * p) then edge_facts H (canon H h g) else []) @
           (if occ U h (2 * p + 1) then edge_facts H (canon H h (right_half h g)) else []) @
           [(spec_hash H (node_hash H (canon H h g)) (node_hash H (canon H h (right_half h g))),
             BinaryFact \<lparr> left_node = node_hash H (canon H h g),
                          right_node = node_hash H (canon H h (right_half h g)) \<rparr>)]
         else [])
      else [])"

definition pre_holds :: "preimage_map \<Rightarrow> (hash \<times> patricia_node_fact) list \<Rightarrow> bool" where
  "pre_holds pre fs \<longleftrightarrow>
     (\<forall>(k, n) \<in> set fs. map_of pre (biguint_of_Hash k) = Some (PatriciaNodeFact_to_tuple n))"

lemma pre_holds_simps [simp]:
  "pre_holds pre []"
  "pre_holds pre (x # xs) \<longleftrightarrow>
     map_of pre (biguint_of_Hash (fst x)) = Some (PatriciaNodeFact_to_tuple (snd x)) \<and> pre_holds pre xs"
  "pre_holds pre (xs @ ys) \<longleftrightarrow> pre_holds pre xs \<and> pre_holds pre ys"
  by (auto simp: pre_holds_def)

text \<open>A map of preimages has no preimage of zero, and no edge of length zero.\<close>

definition pre_ok :: "preimage_map \<Rightarrow> bool" where
  "pre_ok pre \<longleftrightarrow> map_of pre 0 = None \<and> [0, 0, 0] \<notin> ran (map_of pre)"

definition subtree_ok :: "(nat \<Rightarrow> bool) \<Rightarrow> hash_fn \<Rightarrow> preimage_map \<Rightarrow> nat \<Rightarrow> nat \<Rightarrow> (nat \<Rightarrow> hash) \<Rightarrow> bool" where
  "subtree_ok U H pre h p g \<longleftrightarrow>
     h \<le> MAX_HEIGHT \<and> (\<forall>i < 2 ^ h. hash_valid (g i)) \<and> nonempty_keys (tree_facts H h g) \<and>
     pre_ok pre \<and> pre_holds pre (visited_facts U H h p g)"

definition child_repr ::
  "(nat \<Rightarrow> bool) \<Rightarrow> hash_fn \<Rightarrow> nat \<Rightarrow> nat \<Rightarrow> (nat \<Rightarrow> hash) \<Rightarrow> triplet \<Rightarrow> bool" where
  "child_repr U H h p g x \<longleftrightarrow>
     (x = empty_triplet \<longleftrightarrow> (\<forall>i < 2 ^ h. g i = EMPTY_HASH)) \<and>
     (occ U h p \<longrightarrow> 0 < h \<longrightarrow> x = trip (canon H h g))"

lemma subtree_ok_halves:
  assumes "subtree_ok U H pre (Suc h) p g" and "occ U (Suc h) p"
  shows "subtree_ok U H pre h (2 * p) g" and "subtree_ok U H pre h (2 * p + 1) (right_half h g)"
  using assms by (auto simp: subtree_ok_def right_half_def)

lemma canonic_empty: "pre_ok pre \<Longrightarrow> canonic pre x = empty_triplet \<longleftrightarrow> x = 0"
  by (auto simp: pre_ok_def canonic_def empty_triplet_def ran_def length_Suc_conv numeral_3_eq_3 split: option.splits)

lemma two_power_less_prime: "k \<le> 251 \<Longrightarrow> (2 :: nat) ^ k < STARK_PRIME"
  by (rule le_less_trans [OF power_increasing [of k 251]]) (simp_all add: STARK_PRIME_def)

lemma felt_sub_le:
  assumes "y \<le> x" and "x < STARK_PRIME"
  shows "felt_sub x y = x - y"
proof -
  have "x + (STARK_PRIME - y) = (x - y) + STARK_PRIME" using assms by simp
  moreover have "y mod STARK_PRIME = y" using assms by simp
  ultimately have "felt_sub x y = (x - y + STARK_PRIME) mod STARK_PRIME" by (simp only: felt_sub_def)
  also have "\<dots> = x - y" using assms(2) by (simp only: mod_add_self2) simp
  finally show ?thesis .
qed

lemma edge_children:
  assumes "p < 2 ^ Suc k" and "k < 251"
  shows "preimage_get_children pre (Suc k, p, b) =
    (if p < 2 ^ k then Inr ((k, p, b), empty_triplet) else Inr (empty_triplet, (k, p - 2 ^ k, b)))"
proof -
  have p: "(2 :: nat) ^ Suc k < STARK_PRIME" "(2 :: nat) ^ k < STARK_PRIME"
    using assms(2) by (simp_all add: two_power_less_prime del: power_Suc)
  moreover from p(1) have "Suc k < STARK_PRIME" by (rule less_trans [OF less_exp])
  ultimately have p: "(2 :: nat) ^ Suc k < STARK_PRIME" "(2 :: nat) ^ k < STARK_PRIME" "Suc k < STARK_PRIME"
    by simp_all
  have k: "felt_sub (Suc k) 1 = k" using p by (simp add: felt_sub_le)
  have "felt_sub p (felt_of_nat (2 ^ k)) = p - 2 ^ k" if "\<not> p < 2 ^ k"
    using p assms(1) that by (simp add: felt_sub_le felt_of_nat_def)
  moreover have "Suc k < u64_bound" using assms(2) by (simp add: u64_bound_def)
  ultimately show ?thesis
    using k by (simp add: preimage_get_children_def felt_to_u64_def ok_or_def div_eq_0_iff)
qed

lemma biguint_EMPTY: "biguint_of_Hash EMPTY_HASH = 0"
  by (simp add: EMPTY_HASH_eq Hash_empty_felt biguint_of_Hash_def Hash_of_felt_def Hash_from_bytes_be_def)

lemma biguint_zero: "hash_valid x \<Longrightarrow> biguint_of_Hash x = 0 \<longleftrightarrow> x = EMPTY_HASH"
  using biguint_of_Hash_inj [of x EMPTY_HASH] hash_valid_wf [of x] hash_valid_wf [OF hash_valid_empty]
  by (auto simp: biguint_EMPTY EMPTY_HASH_eq [symmetric])

context patricia_env
begin

lemma canonic_child:
  assumes ok: "subtree_ok U (env_hash e) pre h p g" and c: "canon (env_hash e) h g = (b, q, l)" and "b \<noteq> EMPTY_HASH"
    and edge: "nonempty_keys (edge_facts (env_hash e) (b, q, l))"
      "occ U h p \<Longrightarrow> pre_holds pre (edge_facts (env_hash e) (b, q, l))"
  shows "child_repr U (env_hash e) h p g (canonic pre (biguint_of_Hash (node_hash (env_hash e) (b, q, l))))"
proof -
  let ?H = "env_hash e"
  have v: "hash_valid (node_hash ?H (b, q, l))"
    using canon_valid [of h g] ok c by (simp add: subtree_ok_def)
  have ne: "nonempty_keys (tree_facts ?H h g)" and pre: "pre_ok pre" using ok by (simp_all add: subtree_ok_def)
  have "node_hash ?H (b, q, l) \<noteq> EMPTY_HASH" using \<open>b \<noteq> EMPTY_HASH\<close> edge(1) by auto
  then have nz: "biguint_of_Hash (node_hash ?H (b, q, l)) \<noteq> 0" using biguint_zero [OF v] by simp
  have "canonic pre (biguint_of_Hash (node_hash ?H (b, q, l))) = trip (b, q, l)" if o: "occ U h p" and "0 < h"
  proof (cases "l = 0")
    case False
    then show ?thesis
      using edge(2) [OF o] by (simp add: canonic_def PatriciaNodeFact_to_tuple_def EdgeNodeFact_to_tuple_def)
  next
    case True
    obtain j where j: "h = Suc j" using \<open>0 < h\<close> gr0_implies_Suc by blast
    from c [unfolded j] ne [unfolded j] \<open>b \<noteq> EMPTY_HASH\<close> show ?thesis
    proof (cases rule: canon_Suc_cases)
      case Binary
      then have "\<exists>B. (b, BinaryFact B) \<in> set (visited_facts U ?H h p g)"
        using o by (auto simp: j)
      then have "\<exists>B. map_of pre (biguint_of_Hash b) = Some (PatriciaNodeFact_to_tuple (BinaryFact B))"
        using ok by (auto simp: subtree_ok_def pre_holds_def)
      then show ?thesis
        using Binary by (auto simp: canonic_def PatriciaNodeFact_to_tuple_def BinaryNodeFact_to_tuple_def)
    qed (use True in auto)
  qed
  moreover have "\<not> (\<forall>i < 2 ^ h. g i = EMPTY_HASH)"
    using canon_empty_iff [OF ne] c \<open>b \<noteq> EMPTY_HASH\<close> by simp
  ultimately show ?thesis
    using nz by (simp add: child_repr_def canonic_empty [OF pre] c)
qed

lemma child_repr_canon:
  assumes "subtree_ok U (env_hash e) pre h p g" and "canon (env_hash e) h g = (b, q, l)" and "b \<noteq> EMPTY_HASH"
  shows "child_repr U (env_hash e) h p g (l, q, biguint_of_Hash b)"
  using assms canon_empty_iff [of "env_hash e" h g] canon_valid [of h g] biguint_zero [of b]
  by (auto simp: subtree_ok_def child_repr_def empty_triplet_def)

lemma child_repr_empty:
  assumes "subtree_ok U (env_hash e) pre h p g" and "canon (env_hash e) h g = (EMPTY_HASH, 0, 0)"
  shows "child_repr U (env_hash e) h p g empty_triplet"
  using assms canon_empty_iff [of "env_hash e" h g]
  by (auto simp: subtree_ok_def child_repr_def empty_triplet_def biguint_EMPTY)

lemma children_repr:
  assumes ok: "subtree_ok U (env_hash e) pre (Suc h) p g" and o: "occ U (Suc h) p"
  shows "\<exists>x y. preimage_get_children pre (trip (canon (env_hash e) (Suc h) g)) = Inr (x, y) \<and>
    child_repr U (env_hash e) h (2 * p) g x \<and> child_repr U (env_hash e) h (2 * p + 1) (right_half h g) y"
proof -
  let ?H = "env_hash e"
  note oks = subtree_ok_halves [OF ok o]
  obtain b q l where c: "canon ?H (Suc h) g = (b, q, l)" by (cases "canon ?H (Suc h) g")
  have ne: "nonempty_keys (tree_facts ?H (Suc h) g)" using ok by (simp add: subtree_ok_def)
  have h: "h < 251" using ok by (simp add: subtree_ok_def MAX_HEIGHT_def)
  show ?thesis
  proof (cases "b = EMPTY_HASH")
    case True
    have q: "q = 0" "l = 0" using canon_shape [OF c] ne True by auto
    have "\<forall>i < 2 ^ Suc h. g i = EMPTY_HASH" using canon_empty_iff [OF ne] c True by simp
    then have "canon ?H h g = (EMPTY_HASH, 0, 0)" "canon ?H h (right_half h g) = (EMPTY_HASH, 0, 0)"
      by (auto intro!: canon_all_empty [THEN conjunct1] simp: right_half_def)
    moreover have "preimage_get_children pre (0, 0, 0) = Inr (empty_triplet, empty_triplet)"
      using ok by (simp add: preimage_get_children_def subtree_ok_def canonic_empty)
    ultimately show ?thesis
      using child_repr_empty [OF oks(1)] child_repr_empty [OF oks(2)] True
      by (simp only: c q True trip.simps biguint_EMPTY) blast
  next
    case False
    from c ne False show ?thesis
    proof (cases rule: canon_Suc_cases)
      case (Right r k)
      have "k \<le> h" using canon_shape [OF Right(2)] by simp
      then have "preimage_get_children pre (trip (b, q, l)) = Inr (empty_triplet, (k, r, biguint_of_Hash b))"
        using Right(3-5) h by (simp add: edge_children)
      then show ?thesis
        using child_repr_empty [OF oks(1) Right(1)] child_repr_canon [OF oks(2) Right(2) False] by (simp only: c) blast
    next
      case (Left k)
      have "k \<le> h" using canon_shape [OF Left(1)] by simp
      then have "preimage_get_children pre (trip (b, q, l)) = Inr ((k, q, biguint_of_Hash b), empty_triplet)"
        using Left(3, 4) h by (simp add: edge_children)
      then show ?thesis
        using child_repr_canon [OF oks(1) Left(1) False] child_repr_empty [OF oks(2) Left(2)] by (simp only: c) blast
    next
      case Binary
      obtain bl ql ll where cl: "canon ?H h g = (bl, ql, ll)" by (cases "canon ?H h g")
      obtain br qr lr where cr: "canon ?H h (right_half h g) = (br, qr, lr)" by (cases "canon ?H h (right_half h g)")
      have bs: "bl \<noteq> EMPTY_HASH" "br \<noteq> EMPTY_HASH" using Binary(1, 2) by (simp_all add: cl cr)
      have E: "nonempty_keys (edge_facts ?H (bl, ql, ll))" "nonempty_keys (edge_facts ?H (br, qr, lr))"
        using ne bs by (simp_all add: cl cr merge_facts_def)
      have V: "pre_holds pre (visited_facts U ?H (Suc h) p g)" using ok by (simp add: subtree_ok_def)
      have P: "occ U h (2 * p) \<Longrightarrow> pre_holds pre (edge_facts ?H (bl, ql, ll))"
        "occ U h (2 * p + 1) \<Longrightarrow> pre_holds pre (edge_facts ?H (br, qr, lr))"
        "map_of pre (biguint_of_Hash b) =
           Some [biguint_of_Hash (node_hash ?H (bl, ql, ll)), biguint_of_Hash (node_hash ?H (br, qr, lr))]"
        using V o bs Binary(3)
        by (simp_all add: cl cr PatriciaNodeFact_to_tuple_def BinaryNodeFact_to_tuple_def biguint_of_Hash_def
            del: node_hash.simps edge_facts.simps)
      have "hash_valid b" using canon_valid [of "Suc h" g] ok c by (simp add: subtree_ok_def)
      then have "biguint_of_Hash b \<noteq> 0" using False biguint_zero by simp
      then have "preimage_get_children pre (trip (b, q, l)) =
        Inr (canonic pre (biguint_of_Hash (node_hash ?H (bl, ql, ll))), canonic pre (biguint_of_Hash (node_hash ?H (br, qr, lr))))"
        using P(3) by (simp add: Binary(4, 5) preimage_get_children_def vec_index_def del: node_hash.simps)
      then show ?thesis
        using canonic_child [OF oks(1) cl bs(1) E(1) P(1)] canonic_child [OF oks(2) cr bs(2) E(2) P(2)]
        by (simp only: c) blast
    qed
  qed
qed

end

text \<open>The root of a tree is never missing, even if the tree is empty.\<close>

definition iter_repr ::
  "(nat \<Rightarrow> bool) \<Rightarrow> hash_fn \<Rightarrow> nat \<Rightarrow> nat \<Rightarrow> (nat \<Rightarrow> hash) \<Rightarrow> preimage_iter option \<Rightarrow> bool" where
  "iter_repr U H h p g tree \<longleftrightarrow>
     (case tree of
        None \<Rightarrow> \<forall>i < 2 ^ h. g i = EMPTY_HASH
      | Some it \<Rightarrow>
          it_height it = h \<and> \<not> is_done it \<and> (occ U h p \<longrightarrow> 0 < h \<longrightarrow> it_node it = trip (canon H h g)))"

definition open_child :: "nat \<Rightarrow> triplet \<Rightarrow> preimage_iter option" where
  "open_child h x = (if x = empty_triplet then None else Some (preimage_tree h x))"

lemma open_child_repr:
  assumes "child_repr U H h p g x"
  shows "iter_repr U H h p g (open_child h x)"
    and "open_child h x = None \<longleftrightarrow> (\<forall>i < 2 ^ h. g i = EMPTY_HASH)"
  using assms by (auto simp: child_repr_def iter_repr_def open_child_def preimage_tree_def)

context patricia_env
begin

lemma open_tree_repr:
  assumes ok: "subtree_ok U (env_hash e) pre (Suc h) p g" and o: "occ U (Suc h) p"
    and it: "iter_repr U (env_hash e) (Suc h) p g tree"
  shows "\<exists>l r. open_tree pre tree = Inr (l, r) \<and>
    iter_repr U (env_hash e) h (2 * p) g l \<and>
    iter_repr U (env_hash e) h (2 * p + 1) (right_half h g) r \<and>
    (l = None \<longleftrightarrow> (\<forall>i < 2 ^ h. g i = EMPTY_HASH)) \<and>
    (r = None \<longleftrightarrow> (\<forall>i < 2 ^ h. right_half h g i = EMPTY_HASH))"
proof (cases tree)
  case None
  have "\<forall>i < 2 ^ Suc h. g i = EMPTY_HASH" using it by (simp add: iter_repr_def None)
  then show ?thesis by (simp add: None open_tree_def iter_repr_def right_half_def)
next
  case (Some t)
  obtain x y where xy: "preimage_get_children pre (trip (canon (env_hash e) (Suc h) g)) = Inr (x, y)"
    "child_repr U (env_hash e) h (2 * p) g x" "child_repr U (env_hash e) h (2 * p + 1) (right_half h g) y"
    using children_repr [OF ok o] by blast
  have "it_height t = Suc h" "\<not> is_done t" "it_node t = trip (canon (env_hash e) (Suc h) g)"
    using it o by (simp_all add: iter_repr_def Some)
  then have "open_tree pre tree = Inr (open_child h x, open_child h y)"
    by (simp add: Some open_tree_def iter_next_def xy(1) open_child_def u64_sub_def del: canon.simps)
  then show ?thesis
    using open_child_repr [OF xy(2)] open_child_repr [OF xy(3)]
    by (intro exI [of _ "open_child h x"] exI [of _ "open_child h y"]) simp
qed

end

text \<open>The three trees at a node: the leaves of the update tree, and of the trees before and after.\<close>

definition trees_repr ::
  "hash_fn \<Rightarrow> preimage_map \<Rightarrow> (nat \<Rightarrow> 'lf option) \<Rightarrow> (nat \<Rightarrow> hash) \<Rightarrow> (nat \<Rightarrow> hash) \<Rightarrow> nat \<Rightarrow> nat
   \<Rightarrow> 'lf three_trees \<Rightarrow> bool" where
  "trees_repr H pre m f g h p trees \<longleftrightarrow>
     (case trees of (update, previous_tree, new_tree) \<Rightarrow>
        update = spec_update m h p \<and>
        subtree_ok (\<lambda>i. m i \<noteq> None) H pre h p (below h p f) \<and>
        iter_repr (\<lambda>i. m i \<noteq> None) H h p (below h p f) previous_tree \<and>
        subtree_ok (\<lambda>i. m i \<noteq> None) H pre h p (below h p g) \<and>
        iter_repr (\<lambda>i. m i \<noteq> None) H h p (below h p g) new_tree)"

text \<open>The leaves in one of the three trees.\<close>

definition used :: "(nat \<Rightarrow> 'lf option) \<Rightarrow> (nat \<Rightarrow> hash) \<Rightarrow> (nat \<Rightarrow> hash) \<Rightarrow> nat \<Rightarrow> bool" where
  "used m f g i \<longleftrightarrow> m i \<noteq> None \<or> f i \<noteq> EMPTY_HASH \<or> g i \<noteq> EMPTY_HASH"

lemma div_pow_eq_iff: "i div 2 ^ k = q \<longleftrightarrow> (\<exists>r < 2 ^ k. i = q * 2 ^ k + (r :: nat))"
proof
  assume "i div 2 ^ k = q"
  then have "i = q * 2 ^ k + i mod 2 ^ k" using div_mult_mod_eq [of i "2 ^ k"] by simp
  then show "\<exists>r < 2 ^ k. i = q * 2 ^ k + r" by (intro exI [of _ "i mod 2 ^ k"]) simp
qed auto

lemma occ_iff: "occ S k q \<longleftrightarrow> (\<exists>r < 2 ^ k. S (q * 2 ^ k + r))"
  by (auto simp: occ_def div_pow_eq_iff)

lemma occ_used:
  "occ (used m f g) k q \<longleftrightarrow>
     occ (\<lambda>i. m i \<noteq> None) k q \<or> \<not> (\<forall>i < 2 ^ k. below k q f i = EMPTY_HASH) \<or>
     \<not> (\<forall>i < 2 ^ k. below k q g i = EMPTY_HASH)"
  by (auto simp: occ_iff used_def below_def)

lemma spec_update_occ: "spec_update m k q = None \<longleftrightarrow> \<not> occ (\<lambda>i. m i \<noteq> None) k q"
  by (simp add: spec_update_None_iff occ_iff)

lemma leaves_below_children:
  "below h (2 * p) g = below (Suc h) p g" "below h (2 * p + 1) g = right_half h (below (Suc h) p g)"
  by (simp_all add: below_def right_half_def fun_eq_iff algebra_simps)

context patricia_env
begin

lemma open_trees_repr:
  assumes t: "trees_repr (env_hash e) pre m f g (Suc h) p trees" and o: "occ (\<lambda>i. m i \<noteq> None) (Suc h) p"
  shows "\<exists>l r. open_trees pre trees = Inr (l, r) \<and>
    trees_repr (env_hash e) pre m f g h (2 * p) l \<and> trees_repr (env_hash e) pre m f g h (2 * p + 1) r \<and>
    (l = (None, None, None) \<longleftrightarrow> \<not> occ (used m f g) h (2 * p)) \<and>
    (r = (None, None, None) \<longleftrightarrow> \<not> occ (used m f g) h (2 * p + 1))"
proof -
  let ?U = "\<lambda>i. m i \<noteq> None"
  obtain u a b where trees: "trees = (u, a, b)" by (cases trees)
  have u: "u = spec_update m (Suc h) p"
    and f: "subtree_ok ?U (env_hash e) pre (Suc h) p (below (Suc h) p f)"
      "iter_repr ?U (env_hash e) (Suc h) p (below (Suc h) p f) a"
    and g: "subtree_ok ?U (env_hash e) pre (Suc h) p (below (Suc h) p g)"
      "iter_repr ?U (env_hash e) (Suc h) p (below (Suc h) p g) b"
    using t by (simp_all add: trees_repr_def trees)
  have u': "open_update u = Inr (spec_update m h (2 * p), spec_update m h (2 * p + 1))"
    using o by (auto simp: u spec_update_occ occ_Suc)
  obtain al ar where a: "open_tree pre a = Inr (al, ar)"
    "iter_repr ?U (env_hash e) h (2 * p) (below h (2 * p) f) al"
    "iter_repr ?U (env_hash e) h (2 * p + 1) (below h (2 * p + 1) f) ar"
    "al = None \<longleftrightarrow> (\<forall>i < 2 ^ h. below h (2 * p) f i = EMPTY_HASH)"
    "ar = None \<longleftrightarrow> (\<forall>i < 2 ^ h. below h (2 * p + 1) f i = EMPTY_HASH)"
    using open_tree_repr [OF f(1) o f(2)] unfolding leaves_below_children by blast
  obtain bl br where b: "open_tree pre b = Inr (bl, br)"
    "iter_repr ?U (env_hash e) h (2 * p) (below h (2 * p) g) bl"
    "iter_repr ?U (env_hash e) h (2 * p + 1) (below h (2 * p + 1) g) br"
    "bl = None \<longleftrightarrow> (\<forall>i < 2 ^ h. below h (2 * p) g i = EMPTY_HASH)"
    "br = None \<longleftrightarrow> (\<forall>i < 2 ^ h. below h (2 * p + 1) g i = EMPTY_HASH)"
    using open_tree_repr [OF g(1) o g(2)] unfolding leaves_below_children by blast
  let ?l = "(spec_update m h (2 * p), al, bl)" and ?r = "(spec_update m h (2 * p + 1), ar, br)"
  have "open_trees pre trees = Inr (?l, ?r)"
    by (simp add: open_trees_def trees u' a(1) b(1) del: spec_update.simps)
  moreover have "trees_repr (env_hash e) pre m f g h (2 * p) ?l"
    using a(2) b(2) subtree_ok_halves(1) [OF f(1) o] subtree_ok_halves(1) [OF g(1) o]
    by (simp add: trees_repr_def leaves_below_children)
  moreover have "trees_repr (env_hash e) pre m f g h (2 * p + 1) ?r"
    using a(3) b(3) subtree_ok_halves(2) [OF f(1) o] subtree_ok_halves(2) [OF g(1) o]
    unfolding trees_repr_def leaves_below_children by simp
  moreover have "?l = (None, None, None) \<longleftrightarrow> \<not> occ (used m f g) h (2 * p)"
    using a(4) b(4) by (simp only: occ_used spec_update_occ prod.inject) blast
  moreover have "?r = (None, None, None) \<longleftrightarrow> \<not> occ (used m f g) h (2 * p + 1)"
    using a(5) b(5) by (simp only: occ_used spec_update_occ prod.inject) blast
  ultimately show ?thesis by blast
qed

lemma descent_loop_spec:
  assumes "trees_repr (env_hash e) pre m f g h p trees" and "0 < h" and "occ (\<lambda>i. m i \<noteq> None) h p"
    and "spec_end (used m f g) h p = (h', p')"
  shows "\<exists>l r. descent_loop pre h p trees = Inr (h', p', l, r) \<and>
    (0 < h' \<longrightarrow> trees_repr (env_hash e) pre m f g (h' - 1) (2 * p') l \<and>
      trees_repr (env_hash e) pre m f g (h' - 1) (2 * p' + 1) r)"
  using assms
proof (induction h arbitrary: p trees)
  case 0
  then show ?case by simp
next
  case (Suc h)
  let ?U = "\<lambda>i. m i \<noteq> None" and ?S = "used m f g"
  obtain l r where lr: "open_trees pre trees = Inr (l, r)"
    "trees_repr (env_hash e) pre m f g h (2 * p) l" "trees_repr (env_hash e) pre m f g h (2 * p + 1) r"
    "l = (None, None, None) \<longleftrightarrow> \<not> occ ?S h (2 * p)" "r = (None, None, None) \<longleftrightarrow> \<not> occ ?S h (2 * p + 1)"
    using open_trees_repr [OF Suc.prems(1, 3)] by blast
  have US: "occ ?U h q \<Longrightarrow> occ ?S h q" for q by (auto simp: occ_def used_def)
  have down: "\<exists>l' r'. (if h = 0 then Inr (h, q, l, r) else descent_loop pre h q t) = Inr (h', p', l', r') \<and>
      (0 < h' \<longrightarrow> trees_repr (env_hash e) pre m f g (h' - 1) (2 * p') l' \<and>
        trees_repr (env_hash e) pre m f g (h' - 1) (2 * p' + 1) r')"
    if "trees_repr (env_hash e) pre m f g h q t" "occ ?U h q" "spec_end ?S h q = (h', p')" for q t
    using Suc.IH [OF that(1) _ that(2, 3)] that(3)
    by (cases "h = 0") (auto simp del: split_paired_Ex)
  consider "\<not> occ ?S h (2 * p)" | "occ ?S h (2 * p)" "\<not> occ ?S h (2 * p + 1)" | "occ ?S h (2 * p)" "occ ?S h (2 * p + 1)"
    by blast
  then show ?case
  proof cases
    case 1
    then have "occ ?U h (2 * p + 1)" using Suc.prems(3) US by (auto simp: occ_Suc)
    moreover have "descent_loop pre (Suc h) p trees =
        (if h = 0 then Inr (h, 2 * p + 1, l, r) else descent_loop pre h (2 * p + 1) r)"
      using 1 lr(1, 4) by (subst descent_loop.simps) (simp add: u64_sub_def mult.commute [of p])
    ultimately show ?thesis using down [OF lr(3)] 1 Suc.prems(4) by simp
  next
    case 2
    then have "occ ?U h (2 * p)" using Suc.prems(3) US by (auto simp: occ_Suc)
    moreover have "descent_loop pre (Suc h) p trees =
        (if h = 0 then Inr (h, 2 * p, l, r) else descent_loop pre h (2 * p) l)"
      using 2 lr(1, 4, 5) by (subst descent_loop.simps) (simp add: u64_sub_def mult.commute [of p])
    ultimately show ?thesis using down [OF lr(2)] 2 Suc.prems(4) by simp
  next
    case 3
    with lr Suc.prems(4) show ?thesis by (subst descent_loop.simps) auto
  qed
qed

end

text \<open>The map of descents is exact.\<close>

definition descents_of :: "descent_map \<Rightarrow> (nat \<Rightarrow> bool) \<Rightarrow> (nat \<Rightarrow> bool) \<Rightarrow> nat \<Rightarrow> nat \<Rightarrow> bool" where
  "descents_of dm U S h p \<longleftrightarrow>
     hm_wf dm \<and> (\<forall>k q l r. map_of dm (k, q) = Some (l, r) \<longleftrightarrow> is_descent U S h p k q l r)"

definition first_descent :: "nat \<Rightarrow> nat \<Rightarrow> nat \<Rightarrow> nat \<Rightarrow> descent_map" where
  "first_descent h p h' p' = (if 1 < h - h' then [((h, p), (h - h', p' mod 2 ^ (h - h')))] else [])"

lemma map_of_first_descent:
  assumes "\<And>i. U i \<Longrightarrow> S i" and "occ U h p" and "ends_at S h p h' p'"
  shows "map_of (first_descent h p h' p') (k, q) = Some (l, r) \<longleftrightarrow> k = h \<and> is_descent U S h p k q l r"
  using is_descent_root [OF assms, of q l r] by (auto simp: first_descent_def)

lemma descents_of_end:
  assumes "\<And>i. U i \<Longrightarrow> S i" and "occ U h p" and "ends_at S h p 0 p'"
  shows "descents_of (first_descent h p 0 p') U S h p"
proof -
  have "\<not> is_descent U S h p k q l r" if "k \<noteq> h" for k q l r
    using is_descent_below [OF assms(1, 3), where k = k] is_descent_height [of U S h p k q l r] that by force
  then show ?thesis
    using map_of_first_descent [OF assms] by (auto simp: descents_of_def first_descent_def)
qed

lemma descents_of_join:
  assumes US: "\<And>i. U i \<Longrightarrow> S i" and o: "occ U h p" and e: "ends_at S h p h' p'" and "0 < h'"
    and L: "descents_of L U S (h' - 1) (2 * p')" and R: "descents_of R U S (h' - 1) (2 * p' + 1)"
  shows "descents_of (hm_extend (hm_extend (first_descent h p h' p') L) R) U S h p"
proof -
  let ?D = "first_descent h p h' p'"
  have h': "h' \<le> h" using e by (simp add: ends_at_def)
  have "map_of (hm_extend (hm_extend ?D L) R) (k, q) = Some (l, r) \<longleftrightarrow> is_descent U S h p k q l r" for k q l r
  proof -
    have M: "map_of (hm_extend (hm_extend ?D L) R) (k, q) =
        (case map_of R (k, q) of Some v \<Rightarrow> Some v
         | None \<Rightarrow> (case map_of L (k, q) of Some v \<Rightarrow> Some v | None \<Rightarrow> map_of ?D (k, q)))"
      using L R by (simp add: descents_of_def map_of_hm_extend_distinct map_add_def split: option.split)
    have low: "k < h" if "is_descent U S (h' - 1) w k q l' r'" for w l' r'
      using is_descent_height [OF that] h' \<open>0 < h'\<close> by simp
    have disj: "\<not> (is_descent U S (h' - 1) (2 * p') k q a b \<and> is_descent U S (h' - 1) (2 * p' + 1) k q c d)" for a b c d
      by (auto simp: is_descent_def)
    have l: "map_of L (k, q) = Some (a, b) \<longleftrightarrow> is_descent U S (h' - 1) (2 * p') k q a b"
      and r: "map_of R (k, q) = Some (a, b) \<longleftrightarrow> is_descent U S (h' - 1) (2 * p' + 1) k q a b" for a b
      using L R by (simp_all add: descents_of_def)
    have d: "map_of ?D (k, q) = Some (a, b) \<longleftrightarrow> k = h \<and> is_descent U S h p k q a b" for a b
      using map_of_first_descent [OF US o e] .
    show ?thesis
    proof (cases "k < h")
      case True
      then have "map_of ?D (k, q) = None" using d by (cases "map_of ?D (k, q)") auto
      moreover have "map_of L (k, q) = None \<or> map_of R (k, q) = None"
      proof (rule ccontr)
        assume "\<not> ?thesis"
        then obtain x y where "map_of L (k, q) = Some x" "map_of R (k, q) = Some y" by (auto simp del: split_paired_All)
        then show False using l [of "fst x" "snd x"] r [of "fst y" "snd y"] disj by simp
      qed
      moreover have "is_descent U S h p k q l r \<longleftrightarrow> map_of L (k, q) = Some (l, r) \<or> map_of R (k, q) = Some (l, r)"
        using is_descent_below [where U = U, OF US e True] \<open>0 < h'\<close> l r by simp
      ultimately show ?thesis by (auto simp: M split: option.splits)
    next
      case False
      have "map_of L (k, q) = None"
        using l [of "fst (the (map_of L (k, q)))" "snd (the (map_of L (k, q)))"] low False
        by (cases "map_of L (k, q)") auto
      moreover have "map_of R (k, q) = None"
        using r [of "fst (the (map_of R (k, q)))" "snd (the (map_of R (k, q)))"] low False
        by (cases "map_of R (k, q)") auto
      ultimately show ?thesis
        using d [of l r] is_descent_height [of U S h p k q l r] False by (auto simp: M)
    qed
  qed
  moreover have "hm_wf ?D" by (simp add: first_descent_def)
  ultimately show ?thesis by (simp add: descents_of_def)
qed

context patricia_env
begin

lemma get_descents_spec:
  assumes "trees_repr (env_hash e) pre m f g h p trees"
  shows "\<exists>dm. get_descents pre h p trees = Inr dm \<and> descents_of dm (\<lambda>i. m i \<noteq> None) (used m f g) h p"
  using assms
proof (induction h arbitrary: p trees rule: less_induct)
  case (less h)
  let ?U = "\<lambda>i. m i \<noteq> None" and ?S = "used m f g"
  have none: "fst trees = None \<longleftrightarrow> \<not> occ ?U h p"
    using less.prems by (auto simp: trees_repr_def spec_update_occ split: prod.splits)
  show ?case
  proof (cases "h = 0 \<or> \<not> occ ?U h p")
    case True
    then have "descents_of [] ?U ?S h p"
      by (auto simp: descents_of_def is_descent_leaf is_descent_unused)
    then show ?thesis using True none by (subst get_descents.simps) auto
  next
    case False
    then have h: "0 < h" and o: "occ ?U h p" by simp_all
    have US: "?U i \<Longrightarrow> ?S i" for i by (simp add: used_def)
    obtain h' p' where end': "spec_end ?S h p = (h', p')" by (cases "spec_end ?S h p")
    have e: "ends_at ?S h p h' p'"
      using spec_end_ends_at [OF occ_mono [where U = ?U and S = ?S, OF US o]] by (simp add: end')
    then have h': "h' \<le> h" by (simp add: ends_at_def)
    obtain l r where lr: "descent_loop pre h p trees = Inr (h', p', l, r)"
      "0 < h' \<Longrightarrow> trees_repr (env_hash e) pre m f g (h' - 1) (2 * p') l"
      "0 < h' \<Longrightarrow> trees_repr (env_hash e) pre m f g (h' - 1) (2 * p' + 1) r"
      using descent_loop_spec [OF less.prems h o end'] by blast
    obtain u where u: "fst trees = Some u" using none o by blast
    have run: "get_descents pre h p trees =
        (if h' > 0
         then bindR (get_descents pre (h' - 1) (p' * 2) l) (\<lambda>left_map.
              bindR (get_descents pre (h' - 1) (p' * 2 + 1) r) (\<lambda>right_map.
                Inr (hm_extend (hm_extend (first_descent h p h' p') left_map) right_map)))
         else Inr (first_descent h p h' p'))"
      using h h'
      by (subst get_descents.simps)
        (simp add: u lr(1) u64_sub_def Let_def first_descent_def hm_insert_def hm_remove_def)
    show ?thesis
    proof (cases "h' = 0")
      case True
      then show ?thesis using descents_of_end [OF US o] e by (simp add: run)
    next
      case pos: False
      then obtain L R where
        "get_descents pre (h' - 1) (2 * p') l = Inr L" "descents_of L ?U ?S (h' - 1) (2 * p')"
        "get_descents pre (h' - 1) (2 * p' + 1) r = Inr R" "descents_of R ?U ?S (h' - 1) (2 * p' + 1)"
        using less.IH [of "h' - 1", OF _ lr(2)] less.IH [of "h' - 1", OF _ lr(3)] h' by fastforce
      then show ?thesis
        using descents_of_join [OF US o e] pos by (simp add: run mult.commute [of p'])
    qed
  qed
qed

end

section \<open>The descents of an update\<close>

lemma visited_facts_subset: "set (visited_facts U H h p g) \<subseteq> set (tree_facts H h g)"
proof (induction h arbitrary: p g)
  case (Suc h)
  show ?case
    using Suc.IH [of "2 * p" g] Suc.IH [of "2 * p + 1" "right_half h g"] by (auto simp: merge_facts_def)
qed simp

text \<open>The preimages of the nodes on the paths from the root of a tree to the updated leaves.\<close>

definition pre_paths ::
  "('s, 'lf) tree_env \<Rightarrow> preimage_map \<Rightarrow> (nat \<Rightarrow> bool) \<Rightarrow> nat \<Rightarrow> (nat \<Rightarrow> 'lf) \<Rightarrow> bool" where
  "pre_paths e pre U h f \<longleftrightarrow>
     pre_holds pre (visited_facts U (env_hash e) h 0 (leaf_hashes e f)) \<and>
     pre_holds pre (edge_facts (env_hash e) (canon (env_hash e) h (leaf_hashes e f)))"

text \<open>Only the leaves in range matter.\<close>

lemma occ_cong:
  assumes "\<And>i. i < 2 ^ h \<Longrightarrow> S i = S' i" and "k \<le> h" and "q div 2 ^ (h - k) = 0"
  shows "occ S k q = occ S' k q"
proof -
  have "S i = S' i" if "i div 2 ^ k = q" for i
    using assms that div_pow_le [of k h i] by (simp add: div_eq_0_iff)
  then show ?thesis by (auto simp: occ_def)
qed

lemma is_descent_cong:
  assumes S: "\<And>i. i < 2 ^ h \<Longrightarrow> S i = S' i"
  shows "is_descent U S h 0 k q l r \<longleftrightarrow> is_descent U S' h 0 k q l r"
proof (cases "k \<le> h \<and> q div 2 ^ (h - k) = 0 \<and> l \<le> k \<and> r < 2 ^ l")
  case True
  have leaf: "S i = S' i" if "i div 2 ^ k = q" for i
    using S [of i] that True div_pow_le [of k h i] by (simp add: div_eq_0_iff)
  have sib: "k = h \<or> occ S k (sibling q) = occ S' k (sibling q)"
    using True occ_cong [where h = h and S = S and S' = S' and k = k and q = "sibling q", OF S] sibling_div_pow [of "h - k" q] by (cases "k = h") auto
  have up: "x div 2 ^ Suc l div 2 ^ (h - k) = 0" if "x = 2 * (q * 2 ^ l + r) \<or> x = 2 * (q * 2 ^ l + r) + 1" for x
  proof -
    have "x div 2 = q * 2 ^ l + r" using that by auto
    then have "x div 2 ^ Suc l = q" using True by (simp add: div_mult2_eq)
    then show ?thesis using True by simp
  qed
  have "occ S (k - l - 1) x = occ S' (k - l - 1) x"
    if "l \<noteq> k" "x = 2 * (q * 2 ^ l + r) \<or> x = 2 * (q * 2 ^ l + r) + 1" for x
  proof (rule occ_cong [where h = h])
    have "h - (k - l - 1) = Suc l + (h - k)" using True that(1) by linarith
    then show "x div 2 ^ (h - (k - l - 1)) = 0" using up [OF that(2)] by (simp only: div_pow_add)
  qed (use True S in auto)
  then show ?thesis using leaf sib by (auto simp: is_descent_def descends_def)
qed (auto simp: is_descent_def descends_def)

context patricia_env
begin

lemma root_repr:
  assumes good: "good_tree e valid h f" and "pre_ok pre" and paths: "pre_paths e pre U h f"
  shows "subtree_ok U (env_hash e) pre h 0 (leaf_hashes e f)"
    and "iter_repr U (env_hash e) h 0 (leaf_hashes e f)
      (Some (preimage_tree h (canonic pre (felt_of_nat (biguint_of_Hash (spec_root e h f))))))"
proof -
  let ?H = "env_hash e" and ?g = "leaf_hashes e f"
  have v: "\<And>i. i < 2 ^ h \<Longrightarrow> hash_valid (?g i)"
    using good lhash_valid by (simp add: good_tree_def leaves_ok_def leaf_hashes_def)
  have h: "h \<le> MAX_HEIGHT" using good by (simp add: good_tree_def)
  have ne: "nonempty_keys (tree_facts ?H h ?g)" "nonempty_keys (edge_facts ?H (canon ?H h ?g))"
    using good by (simp_all add: good_tree_def all_facts_def)
  show ok: "subtree_ok U ?H pre h 0 ?g"
    using assms(2) h v ne paths by (simp add: subtree_ok_def pre_paths_def)
  obtain b q l where c: "canon ?H h ?g = (b, q, l)" by (cases "canon ?H h ?g")
  have "hash_valid (node_hash ?H (b, q, l))" using canon_valid [where g = ?g, OF v h] c by simp
  then have root: "felt_of_nat (biguint_of_Hash (spec_root e h f)) = biguint_of_Hash (node_hash ?H (b, q, l))"
    by (simp add: spec_root_def c hash_valid_def felt_of_nat_def)
  have "child_repr U ?H h 0 ?g (canonic pre (biguint_of_Hash (node_hash ?H (b, q, l))))"
  proof (cases "b = EMPTY_HASH")
    case True
    then have "q = 0" "l = 0" using canon_shape [OF c] ne(1) by simp_all
    then have "canonic pre (biguint_of_Hash (node_hash ?H (b, q, l))) = empty_triplet"
      using \<open>pre_ok pre\<close> by (simp add: True biguint_EMPTY canonic_empty)
    then show ?thesis using child_repr_empty [OF ok] c True \<open>q = 0\<close> \<open>l = 0\<close> by simp
  next
    case False
    show ?thesis
      by (rule canonic_child [OF ok c False]) (use ne(2) paths in \<open>simp_all only: pre_paths_def c\<close>)
  qed
  then show "iter_repr U ?H h 0 ?g
      (Some (preimage_tree h (canonic pre (felt_of_nat (biguint_of_Hash (spec_root e h f))))))"
    unfolding root by (simp add: child_repr_def iter_repr_def preimage_tree_def)
qed

lemma guess_descents_spec:
  fixes m :: "nat \<Rightarrow> 'lf option"
  assumes "good_tree e valid h f" and "good_tree e valid h g" and "pre_ok pre"
    and "pre_paths e pre (\<lambda>i. m i \<noteq> None) h f" and "pre_paths e pre (\<lambda>i. m i \<noteq> None) h g"
  shows "\<exists>dm. patricia_guess_descents h (spec_update m h 0) pre
      (biguint_of_Hash (spec_root e h f)) (biguint_of_Hash (spec_root e h g)) = Inr dm \<and>
    descents_of dm (\<lambda>i. m i \<noteq> None) (used m (leaf_hashes e f) (leaf_hashes e g)) h 0"
proof -
  have "trees_repr (env_hash e) pre m (leaf_hashes e f) (leaf_hashes e g) h 0
      (spec_update m h 0,
       Some (preimage_tree h (canonic pre (felt_of_nat (biguint_of_Hash (spec_root e h f))))),
       Some (preimage_tree h (canonic pre (felt_of_nat (biguint_of_Hash (spec_root e h g))))))"
    using root_repr [OF assms(1, 3, 4)] root_repr [OF assms(2, 3, 5)] by (simp add: trees_repr_def below_root)
  from get_descents_spec [OF this] show ?thesis by (simp add: patricia_guess_descents_def Let_def)
qed

end

text \<open>
  C6. The descents that the operating system is given for an update of a storage tree are exact. Let
  the map of preimages hold the nodes of the previous tree and of the new tree on the paths to the
  updated leaves. Then the search ends without an error, and its map has an entry for
  a node exactly when a descent starts there: the node is the root or a child of a node with leaves on
  both sides, some leaf below it is updated, and all leaves below it, updated, old or new, are below
  one node at least two levels down; the entry is the longest such descent.
\<close>

theorem guess_descents_exact:
  fixes ms :: "(tree_index \<times> storage_leaf) list"
  assumes "good_tree (storage_env ped) StorageLeaf_wf h f" and "good_tree (storage_env ped) StorageLeaf_wf h g"
    and "\<forall>(i, x) \<in> set ms. i < 2 ^ h" and "(build_update_tree h ms :: (tree_error, _) res) = Inr update"
    and "pre_ok pre" and "pre_paths (storage_env ped) pre (\<lambda>i. i \<in> fst ` set ms) h f"
    and "pre_paths (storage_env ped) pre (\<lambda>i. i \<in> fst ` set ms) h g"
  shows "\<exists>dm. patricia_guess_descents h update pre (biguint_of_Hash (spec_root (storage_env ped) h f))
      (biguint_of_Hash (spec_root (storage_env ped) h g)) = Inr dm \<and>
    (\<forall>k q l r. map_of dm (k, q) = Some (l, r) \<longleftrightarrow>
       is_descent (\<lambda>i. i \<in> fst ` set ms)
         (\<lambda>i. i \<in> fst ` set ms \<or> leaf_value (f i) \<noteq> 0 \<or> leaf_value (g i) \<noteq> 0) h 0 k q l r)"
proof -
  let ?e = "storage_env ped" and ?U = "\<lambda>i. i \<in> fst ` set ms"
  let ?S = "\<lambda>i. ?U i \<or> leaf_value (f i) \<noteq> 0 \<or> leaf_value (g i) \<noteq> 0"
  have U: "?U = (\<lambda>i. mods_map ms i \<noteq> None)"
    by (auto simp: mods_map_def fun_eq_iff map_of_eq_None_iff)
  have "(build_update_tree h ms :: (tree_error, _) res) = Inr (spec_update (mods_map ms) h 0)"
    using assms(3) by (intro build_update_tree_eq) auto
  with assms(4) have u: "update = spec_update (mods_map ms) h 0" by simp
  obtain dm where dm: "patricia_guess_descents h update pre (biguint_of_Hash (spec_root ?e h f))
      (biguint_of_Hash (spec_root ?e h g)) = Inr dm"
    "descents_of dm ?U (used (mods_map ms) (leaf_hashes ?e f) (leaf_hashes ?e g)) h 0"
    using st.guess_descents_spec [where m = "mods_map ms", OF assms(1, 2, 5) assms(6, 7) [unfolded U]] unfolding u U by blast
  have leaf: "leaf_hashes ?e x i \<noteq> EMPTY_HASH \<longleftrightarrow> leaf_value (x i) \<noteq> 0"
    if "good_tree ?e StorageLeaf_wf h x" "i < 2 ^ h" for x i
    using that Hash_of_felt_inj [of "leaf_value (x i)" 0]
    by (cases "leaf_value (x i) = 0") (auto simp: storage_good_tree leaf_hashes_def storage_lhash EMPTY_HASH_eq Hash_empty_felt)
  have "used (mods_map ms) (leaf_hashes ?e f) (leaf_hashes ?e g) i = ?S i" if "i < 2 ^ h" for i
    using fun_cong [OF U, of i] leaf [OF assms(1) that] leaf [OF assms(2) that] by (simp only: used_def)
  from is_descent_cong [where h = h, OF this] dm show ?thesis by (auto simp: descents_of_def)
qed

text \<open>A tree of height three, empty before the update and with one leaf after it.\<close>

definition demo_single :: "nat \<Rightarrow> storage_leaf" where
  "demo_single = (\<lambda>_. StorageLeaf_empty) (1 := StorageLeaf_new 2000)"

lemma demo_hash_wf: "felt_wf 2000" "felt_wf 1" "felt_wf 2006"
  by (simp_all add: felt_wf_def STARK_PRIME_def)

lemma demo_leaf_hashes:
  "leaf_hashes (storage_env demo_ped) (\<lambda>_. StorageLeaf_empty) i = EMPTY_HASH"
  "leaf_hashes (storage_env demo_ped) demo_single i = (if i = 1 then Hash_of_felt 2000 else EMPTY_HASH)"
  by (simp_all add: leaf_hashes_def storage_lhash EMPTY_HASH_eq Hash_empty_felt demo_single_def)

lemma demo_empty_hashes:
  "canon (PedersenHash demo_ped) h (leaf_hashes (storage_env demo_ped) (\<lambda>_. StorageLeaf_empty)) = (EMPTY_HASH, 0, 0) \<and>
   tree_facts (PedersenHash demo_ped) h (leaf_hashes (storage_env demo_ped) (\<lambda>_. StorageLeaf_empty)) = []"
  by (rule canon_all_empty) (rule demo_leaf_hashes)

lemma demo_single_hashes:
  "canon (PedersenHash demo_ped) 3 (leaf_hashes (storage_env demo_ped) demo_single) = (Hash_of_felt 2000, 1, 3) \<and>
   tree_facts (PedersenHash demo_ped) 3 (leaf_hashes (storage_env demo_ped) demo_single) = []"
  using single_leaf_canon [where i = 1 and h = 3 and H = "PedersenHash demo_ped" and
    g = "leaf_hashes (storage_env demo_ped) demo_single"] demo_hash_wf
  by (simp add: demo_leaf_hashes EMPTY_HASH_eq)

lemma demo_empty_root:
  "good_tree (storage_env demo_ped) StorageLeaf_wf 3 (\<lambda>_. StorageLeaf_empty)"
  "spec_root (storage_env demo_ped) 3 (\<lambda>_. StorageLeaf_empty) = EMPTY_HASH"
proof -
  show "good_tree (storage_env demo_ped) StorageLeaf_wf 3 (\<lambda>_. StorageLeaf_empty)"
    unfolding storage_good_tree all_facts_def by (simp add: demo_empty_hashes MAX_HEIGHT_def collision_free_def)
  show "spec_root (storage_env demo_ped) 3 (\<lambda>_. StorageLeaf_empty) = EMPTY_HASH"
    by (simp add: spec_root_def demo_empty_hashes)
qed

lemma demo_single_root:
  "good_tree (storage_env demo_ped) StorageLeaf_wf 3 demo_single"
  "spec_root (storage_env demo_ped) 3 demo_single = Hash_of_felt 2006"
proof -
  have ped: "felt_add (felt_of_nat (demo_ped 2000 1)) 3 = 2006"
    by (simp add: demo_ped_def felt_add_def felt_of_nat_def STARK_PRIME_def)
  note single = single_storage_leaf [of 1 3 2000 demo_ped DictStorage, unfolded ped, folded demo_single_def]
  show "good_tree (storage_env demo_ped) StorageLeaf_wf 3 demo_single"
    by (rule single(1)) (simp_all add: MAX_HEIGHT_def demo_hash_wf)
  show "spec_root (storage_env demo_ped) 3 demo_single = Hash_of_felt 2006"
    by (rule single(2)) (simp_all add: MAX_HEIGHT_def demo_hash_wf)
qed

lemma biguint_of_Hash_of_felt: "felt_wf x \<Longrightarrow> biguint_of_Hash (Hash_of_felt x) = x"
  by (simp add: biguint_of_Hash_def Hash_of_felt_def Hash_from_bytes_be_def)

lemma demo_pre_paths:
  "pre_paths (storage_env demo_ped) [(2006, [3, 1, 2000])] U 3 (\<lambda>_. StorageLeaf_empty)"
  "pre_paths (storage_env demo_ped) [(2006, [3, 1, 2000])] U 3
     demo_single"
proof -
  have none: "visited_facts U (PedersenHash demo_ped) 3 0 g = []" if "tree_facts (PedersenHash demo_ped) 3 g = []" for g
    using visited_facts_subset [of U "PedersenHash demo_ped" 3 0 g] that by simp
  show "pre_paths (storage_env demo_ped) [(2006, [3, 1, 2000])] U 3 (\<lambda>_. StorageLeaf_empty)"
    by (simp add: pre_paths_def none demo_empty_hashes)
  have "spec_edge_hash (PedersenHash demo_ped) (Hash_of_felt 2000) 1 3 = Hash_of_felt 2006"
    unfolding pedersen_edge_hash [OF demo_hash_wf(1, 2)]
    by (simp add: demo_ped_def felt_add_def felt_of_nat_def STARK_PRIME_def)
  then show "pre_paths (storage_env demo_ped) [(2006, [3, 1, 2000])] U 3
     demo_single"
    using demo_hash_wf by (simp add: pre_paths_def none demo_single_hashes biguint_of_Hash_of_felt
        PatriciaNodeFact_to_tuple_def EdgeNodeFact_to_tuple_def)
qed

theorem guess_descents_exact_witness:
  "\<exists>update dm. build_update_tree 3 [(1, StorageLeaf_new 2000)] = (Inr update :: (tree_error, _) res) \<and>
     patricia_guess_descents 3 update [(2006, [3, 1, 2000])] 0 2006 = Inr dm \<and> map_of dm (3, 0) = Some (3, 1)"
proof -
  let ?ms = "[(1 :: nat, StorageLeaf_new 2000)]"
  obtain update where u: "build_update_tree 3 ?ms = (Inr update :: (tree_error, _) res)"
    using build_update_tree_eq [of ?ms 3] by auto
  have pre: "pre_ok [(2006, [3, 1, 2000])]" by (simp add: pre_ok_def)
  have ms: "\<forall>(i, x) \<in> set ?ms. i < 2 ^ 3" by simp
  have roots: "biguint_of_Hash (spec_root (storage_env demo_ped) 3 (\<lambda>_. StorageLeaf_empty)) = 0"
    "biguint_of_Hash (spec_root (storage_env demo_ped) 3 demo_single) = 2006"
    by (simp_all add: demo_empty_root demo_single_root biguint_EMPTY biguint_of_Hash_of_felt demo_hash_wf)
  obtain dm where dm: "patricia_guess_descents 3 update [(2006, [3, 1, 2000])] 0 2006 = Inr dm"
    "\<forall>k q l r. map_of dm (k, q) = Some (l, r) \<longleftrightarrow>
       is_descent (\<lambda>i. i \<in> fst ` set ?ms)
         (\<lambda>i. i \<in> fst ` set ?ms \<or> leaf_value StorageLeaf_empty \<noteq> 0 \<or> leaf_value (demo_single i) \<noteq> 0) 3 0 k q l r"
    using guess_descents_exact [OF demo_empty_root(1) demo_single_root(1) ms u pre demo_pre_paths] unfolding roots by (elim exE conjE) (rule that)
  have leaf: "i \<in> fst ` set ?ms \<or> leaf_value StorageLeaf_empty \<noteq> 0 \<or> leaf_value (demo_single i) \<noteq> 0 \<longleftrightarrow> i = 1"
    for i by (simp add: demo_single_def)
  have "is_descent (\<lambda>i. i \<in> fst ` set ?ms)
    (\<lambda>i. i \<in> fst ` set ?ms \<or> leaf_value StorageLeaf_empty \<noteq> 0 \<or> leaf_value (demo_single i) \<noteq> 0) 3 0 3 0 3 1"
    unfolding leaf by (simp add: is_descent_def descends_def occ_def)
  then have m: "map_of dm (3, 0) = Some (3, 1)" by (simp only: dm(2))
  show ?thesis by (intro exI conjI, rule u, rule dm(1), rule m)
qed

end
