(* ===== verification/Trie_Proofs.thy ===== *)
theory Trie_Proofs
  imports Storage_Trees
begin

text \<open>
  Storage proofs of a full node (\<open>rpc-client/src/pathfinder/proofs.rs\<close>): the nodes on the path from the root of a tree
  to a key, and their verification against the commitment, the root of the tree.

  The theory shows that verification is sound with respect to the tree of the commitment, unless a node of the
  proof collides with a node of the tree, and that it accepts the nodes of the tree on the path.
\<close>

section \<open>Definitions\<close>

record edge_path_value =
  ep_len :: nat
  ep_value :: felt

datatype trie_node = TrieBinary felt felt | TrieEdge felt edge_path_value

text \<open>The bits of a field element, 256 of them, the most significant first.\<close>

definition to_bits_be :: "felt \<Rightarrow> bool list" where
  "to_bits_be x = map (\<lambda>i. odd (x div 2 ^ (255 - i))) [0..<256]"

definition expect :: "string \<Rightarrow> ('f, 'a) res \<Rightarrow> ('e, 'a) res" where
  "expect msg r = (case r of Inr a \<Rightarrow> Inr a | Inl (Error _) \<Rightarrow> Inl (Panic msg) | Inl (Panic m) \<Rightarrow> Inl (Panic m))"

fun TrieNode_hash :: "hash_fn \<Rightarrow> trie_node \<Rightarrow> ('e, felt) res" where
  "TrieNode_hash H (TrieBinary left right) =
     bindR (expect ''storage proof endpoint gave us an invalid binary node''
              (BinaryNodeFact_new (Hash_of_felt left) (Hash_of_felt right))) (\<lambda>fact.
     bindR (unwrap ''hash'' (BinaryNodeFact_hash H fact)) (\<lambda>h. Inr (felt_of_Hash h)))"
| "TrieNode_hash H (TrieEdge child ep) =
     bindR (expect ''storage proof endpoint gave us an invalid edge node''
              (EdgeNodeFact_new (Hash_of_felt child) (ep_value ep) (ep_len ep))) (\<lambda>fact.
     bindR (unwrap ''hash'' (EdgeNodeFact_hash H fact)) (\<lambda>h. Inr (felt_of_Hash h)))"

datatype proof_error =
    NonExistenceProof felt nat "trie_node list"
  | InvalidChildNodeHash felt felt
  | ConversionError

definition DEFAULT_STORAGE_TREE_HEIGHT :: nat where
  "DEFAULT_STORAGE_TREE_HEIGHT = 251"

definition slice :: "'a list \<Rightarrow> nat \<Rightarrow> nat \<Rightarrow> ('e, 'a list) res" where
  "slice xs a b =
     (if a \<le> b \<and> b \<le> length xs then Inr (drop a (take b xs)) else Inl (Panic ''slice index out of range''))"

definition proof_start :: nat where
  "proof_start = 5"

fun verify_loop ::
  "hash_fn \<Rightarrow> felt \<Rightarrow> trie_node list \<Rightarrow> felt \<Rightarrow> nat \<Rightarrow> trie_node list \<Rightarrow> (proof_error, unit) res" where
  "verify_loop H key proof parent_hash index [] = Inr ()"
| "verify_loop H key proof parent_hash index (node # rest) =
     bindR (TrieNode_hash H node) (\<lambda>node_hash.
       if node_hash \<noteq> parent_hash then Inl (Error (InvalidChildNodeHash node_hash parent_hash))
       else case node of
         TrieBinary left right \<Rightarrow>
           bindR (vec_index (to_bits_be key) index) (\<lambda>b.
           bindR (u64_add index 1) (\<lambda>index'.
             verify_loop H key proof (if b then right else left) index' rest))
       | TrieEdge child ep \<Rightarrow>
           bindR (u64_sub (length (to_bits_be (ep_value ep))) (ep_len ep)) (\<lambda>from.
           bindR (slice (to_bits_be (ep_value ep)) from (length (to_bits_be (ep_value ep)))) (\<lambda>relevant_path_bits.
           bindR (u64_add index (ep_len ep)) (\<lambda>index'.
           bindR (slice (to_bits_be key) index index') (\<lambda>key_bits_slice.
             if relevant_path_bits \<noteq> key_bits_slice
             then
               bindR (u64_sub index' proof_start) (\<lambda>d.
               bindR (u64_sub DEFAULT_STORAGE_TREE_HEIGHT d) (\<lambda>height.
                 Inl (Error (NonExistenceProof key height proof))))
             else verify_loop H key proof child index' rest)))))"

definition verify_proof :: "hash_fn \<Rightarrow> felt \<Rightarrow> felt \<Rightarrow> trie_node list \<Rightarrow> (proof_error, unit) res" where
  "verify_proof H key commitment proof = verify_loop H key proof commitment proof_start proof"

record contract_data =
  cd_root :: felt
  storage_proofs :: "trie_node list list"

text \<open>The errors of all keys are collected; a panic ends the loop.\<close>

definition ContractData_verify ::
  "hash_fn \<Rightarrow> contract_data \<Rightarrow> felt list \<Rightarrow> (proof_error list, unit) res" where
  "ContractData_verify H self storage_keys =
     bindR (foldR (\<lambda>errors (index, storage_key).
              bindR (vec_index (storage_proofs self) index) (\<lambda>proof.
                case verify_proof H storage_key (cd_root self) proof of
                  Inr _ \<Rightarrow> Inr errors
                | Inl (Error e) \<Rightarrow> Inr (errors @ [e])
                | Inl (Panic m) \<Rightarrow> Inl (Panic m))) [] (enumerate 0 storage_keys)) (\<lambda>errors.
       if errors = [] then Inr () else Inl (Error errors))"

record pathfinder_class_proof =
  class_commitment :: felt
  class_proof :: "trie_node list"

definition PathfinderClassProof_verify ::
  "hash_fn \<Rightarrow> pathfinder_class_proof \<Rightarrow> felt \<Rightarrow> (proof_error, unit) res" where
  "PathfinderClassProof_verify H self class_hash = verify_proof H class_hash (class_commitment self) (class_proof self)"

section \<open>The path of a key\<close>

text \<open>The nodes of the canonical tree of the leaf hashes \<open>g\<close> on the path to a key, from the root to the leaf or to the edge that leaves the path.\<close>

function tree_path :: "hash_fn \<Rightarrow> nat \<Rightarrow> (nat \<Rightarrow> hash) \<Rightarrow> nat \<Rightarrow> trie_node list" where
  "tree_path H h g key =
     (case canon H h g of (b, q, l) \<Rightarrow>
        if h = 0 \<or> b = EMPTY_HASH then []
        else if 0 < l
        then
          TrieEdge (felt_of_Hash b) \<lparr> ep_len = l, ep_value = q \<rparr> #
          (if key div 2 ^ (h - l) = q then tree_path H (h - l) (below (h - l) q g) (key mod 2 ^ (h - l)) else [])
        else
          TrieBinary (felt_of_Hash (node_hash H (canon H (h - 1) g)))
            (felt_of_Hash (node_hash H (canon H (h - 1) (right_half (h - 1) g)))) #
          (if key < 2 ^ (h - 1) then tree_path H (h - 1) g key
           else tree_path H (h - 1) (right_half (h - 1) g) (key - 2 ^ (h - 1))))"
  by pat_completeness auto
termination by (relation "measure (\<lambda>(H, h, g, key). h)") auto

declare tree_path.simps [simp del]

text \<open>The levels of the tree that a node spans.\<close>

fun levels :: "trie_node \<Rightarrow> nat" where
  "levels (TrieBinary l r) = 1"
| "levels (TrieEdge c p) = ep_len p"

text \<open>The fact that a node of a proof stands for, and what is assumed of the hash function: no node of the proof has the hash of another node of the tree.\<close>

fun trie_fact :: "trie_node \<Rightarrow> patricia_node_fact" where
  "trie_fact (TrieBinary l r) = BinaryFact \<lparr> left_node = Hash_of_felt l, right_node = Hash_of_felt r \<rparr>"
| "trie_fact (TrieEdge c ep) =
     EdgeFact \<lparr> edge_bottom_node = Hash_of_felt c, edge_path = ep_value ep, edge_length = ep_len ep \<rparr>"

fun trie_node_wf :: "trie_node \<Rightarrow> bool" where
  "trie_node_wf (TrieBinary l r) \<longleftrightarrow> felt_wf l \<and> felt_wf r"
| "trie_node_wf (TrieEdge c ep) \<longleftrightarrow> felt_wf c \<and> felt_wf (ep_value ep) \<and> ep_len ep < u64_bound"

definition no_collision :: "hash_fn \<Rightarrow> trie_node list \<Rightarrow> (hash \<times> patricia_node_fact) list \<Rightarrow> bool" where
  "no_collision H proof facts \<longleftrightarrow>
     (\<forall>n\<in>set proof. \<forall>x\<in>set facts.
        (TrieNode_hash H n :: (proof_error, felt) res) = Inr (felt_of_Hash (fst x)) \<longrightarrow> trie_fact n = snd x)"

section \<open>Bits\<close>

definition low_bits :: "nat \<Rightarrow> nat \<Rightarrow> bool list" where
  "low_bits n x = map (\<lambda>i. bit x (n - Suc i)) [0..<n]"

lemma length_to_bits_be [simp]: "length (to_bits_be x) = 256"
  by (simp add: to_bits_be_def)

lemma nth_to_bits_be: "i < 256 \<Longrightarrow> to_bits_be x ! i = odd (x div 2 ^ (255 - i))"
  by (simp add: to_bits_be_def)

lemma bits_slice:
  assumes "a \<le> b" and "b \<le> 256"
  shows "drop a (take b (to_bits_be x)) = low_bits (b - a) (x div 2 ^ (256 - b))"
proof (rule nth_equalityI)
  fix i
  assume "i < length (drop a (take b (to_bits_be x)))"
  then have i: "a + i < b" using assms by simp
  then have "bit (x div 2 ^ (256 - b)) (b - a - Suc i) = bit x (255 - (a + i))"
    using assms by (simp add: bit_iff_odd flip: div_mult2_eq power_add)
  then show "drop a (take b (to_bits_be x)) ! i = low_bits (b - a) (x div 2 ^ (256 - b)) ! i"
    using i assms by (simp add: nth_to_bits_be low_bits_def bit_iff_odd)
qed (use assms in \<open>simp add: low_bits_def\<close>)

lemma low_bits_eq_iff: "low_bits n x = low_bits n y \<longleftrightarrow> x mod 2 ^ n = y mod 2 ^ n"
proof -
  have "low_bits n x = low_bits n y \<longleftrightarrow> (\<forall>i < n. bit x (n - Suc i) = bit y (n - Suc i))"
    by (auto simp: low_bits_def)
  also have "\<dots> \<longleftrightarrow> (\<forall>j < n. bit x j = bit y j)"
  proof (rule iffI; intro allI impI)
    fix j
    assume *: "\<forall>i < n. bit x (n - Suc i) = bit y (n - Suc i)" and "j < n"
    then show "bit x j = bit y j" using * [rule_format, of "n - Suc j"] by (simp add: Suc_diff_Suc)
  qed simp
  also have "\<dots> \<longleftrightarrow> take_bit n x = take_bit n y"
    by (auto simp: bit_eq_iff bit_take_bit_iff)
  finally show ?thesis by (simp add: take_bit_eq_mod)
qed

text \<open>The bits of the key below height \<open>k\<close>, down to the end of an edge.\<close>

lemma key_slice_iff:
  assumes "l \<le> k" and "k \<le> 256" and "q < 2 ^ l"
  shows "drop (256 - l) (take 256 (to_bits_be q)) = drop (256 - k) (take (256 - (k - l)) (to_bits_be key)) \<longleftrightarrow>
    key mod 2 ^ k div 2 ^ (k - l) = q"
proof -
  have "key mod 2 ^ k div 2 ^ (k - l) = key div 2 ^ (k - l) mod 2 ^ l"
    using assms(1) by (metis div_exp_mod_exp_eq le_add_diff_inverse2 mod_mod_trivial)
  with assms show ?thesis
    by (subst (1 2) bits_slice) (auto simp: low_bits_eq_iff)
qed

section \<open>Steps of the loop\<close>

lemma slice_256: "a \<le> b \<Longrightarrow> b \<le> 256 \<Longrightarrow> slice (to_bits_be x) a b = Inr (drop a (take b (to_bits_be x)))"
  by (simp add: slice_def)

lemma verify_binary_step:
  assumes "(TrieNode_hash H (TrieBinary x y) :: (proof_error, felt) res) = Inr p" and "k < 256"
  shows "verify_loop H key pf p (256 - Suc k) (TrieBinary x y # rest) =
    verify_loop H key pf (if odd (key div 2 ^ k) then y else x) (256 - k) rest"
proof -
  have "u64_add (256 - Suc k) 1 = (Inr (256 - k) :: (proof_error, nat) res)"
    using assms(2) by (auto simp: u64_add_def u64_bound_def)
  with assms show ?thesis
    by (simp add: vec_index_Inr nth_to_bits_be Suc_diff_Suc del: TrieNode_hash.simps)
qed

lemma verify_edge_step:
  assumes "(TrieNode_hash H (TrieEdge c \<lparr> ep_len = l, ep_value = q \<rparr>) :: (proof_error, felt) res) = Inr p"
    and "l \<le> k" and "k \<le> 251" and "q < 2 ^ l"
  shows "verify_loop H key pf p (256 - k) (TrieEdge c \<lparr> ep_len = l, ep_value = q \<rparr> # rest) =
    (if key mod 2 ^ k div 2 ^ (k - l) = q then verify_loop H key pf c (256 - (k - l)) rest
     else Inl (Error (NonExistenceProof key (k - l) pf)))"
proof -
  have "u64_sub 256 l = (Inr (256 - l) :: (proof_error, nat) res)"
    "u64_add (256 - k) l = (Inr (256 - (k - l)) :: (proof_error, nat) res)"
    "u64_sub (256 - (k - l)) proof_start = (Inr (251 - (k - l)) :: (proof_error, nat) res)"
    "u64_sub DEFAULT_STORAGE_TREE_HEIGHT (251 - (k - l)) = (Inr (k - l) :: (proof_error, nat) res)"
    using assms(2,3)
    by (simp_all add: u64_sub_def u64_add_def u64_bound_def proof_start_def DEFAULT_STORAGE_TREE_HEIGHT_def)
  then show ?thesis
    using assms key_slice_iff [of l k q key]
    by (simp add: slice_256 del: TrieNode_hash.simps take_all_iff take_all)
qed

lemma TrieNode_hash_no_error: "TrieNode_hash H n \<noteq> Inl (Error x)"
  by (cases n) (auto simp: expect_def bindR_def unwrap_def split: sum.splits exn.splits option.splits)

lemma verify_past_leaf:
  "verify_loop H key pf p 256 rest \<noteq> Inl (Error (NonExistenceProof x y z))"
proof (induction rest arbitrary: p)
  case (Cons n rest)
  show ?case
  proof (cases n)
    case (TrieBinary l r)
    then show ?thesis using TrieNode_hash_no_error [of H n "NonExistenceProof x y z"]
      by (auto simp: bindR_def vec_index_def simp del: TrieNode_hash.simps split: sum.splits exn.splits)
  next
    case (TrieEdge c ep)
    then show ?thesis
      using Cons.IH TrieNode_hash_no_error [of H n "NonExistenceProof x y z"]
      by (auto simp: bindR_def slice_def u64_sub_def u64_add_def u64_bound_def simp del: TrieNode_hash.simps
          split: sum.splits exn.splits if_splits)
  qed
qed simp

text \<open>A proof that is cut off is accepted as well, the empty proof included.\<close>

lemma truncated_proof_accepted:
  "verify_loop H key pf p index (xs @ ys) = Inr () \<Longrightarrow> verify_loop H key pf p index xs = Inr ()"
proof (induction xs arbitrary: p index)
  case (Cons n xs)
  then show ?case
    by (cases n) (auto simp: bindR_def simp del: TrieNode_hash.simps split: sum.splits if_splits)
qed simp

section \<open>Verification of a path\<close>

lemma Hash_of_felt_of_Hash:
  assumes "hash_valid h"
  shows "Hash_of_felt (felt_of_Hash h) = h" and "felt_wf (felt_of_Hash h)"
proof -
  have f: "felt_of_Hash h = biguint_of_Hash h"
    using assms by (simp add: felt_of_Hash_def felt_from_bytes_be_slice_def biguint_of_Hash_def hash_valid_def felt_of_nat_def)
  then show wf: "felt_wf (felt_of_Hash h)"
    using assms by (simp add: felt_wf_def hash_valid_def)
  then have "biguint_of_Hash (Hash_of_felt (felt_of_Hash h)) = biguint_of_Hash h"
    by (simp add: biguint_of_Hash_def Hash_of_felt_def Hash_from_bytes_be_def f [unfolded biguint_of_Hash_def])
  then show "Hash_of_felt (felt_of_Hash h) = h"
    using assms by (intro biguint_of_Hash_inj) (simp_all add: hash_valid_def)
qed

text \<open>A non-empty subtree of the tree of the commitment.\<close>

definition sub_ok :: "hash_fn \<Rightarrow> nat \<Rightarrow> (nat \<Rightarrow> hash) \<Rightarrow> bool" where
  "sub_ok H k g \<longleftrightarrow>
     k \<le> 251 \<and> (\<forall>i < 2 ^ k. hash_valid (g i)) \<and> nonempty_keys (all_facts H k g) \<and> fst (canon H k g) \<noteq> EMPTY_HASH"

lemma below_less: "k \<le> h \<Longrightarrow> q < 2 ^ (h - k) \<Longrightarrow> i < 2 ^ k \<Longrightarrow> q * 2 ^ k + i < (2 ^ h :: nat)"
proof -
  assume "k \<le> h" "q < 2 ^ (h - k)" "i < 2 ^ k"
  then have "q * 2 ^ k + i < (q + 1) * 2 ^ k" by simp
  also have "\<dots> \<le> 2 ^ (h - k) * 2 ^ k" using \<open>q < 2 ^ (h - k)\<close> by (intro mult_le_mono1) simp
  also have "\<dots> = 2 ^ h" using \<open>k \<le> h\<close> by (simp flip: power_add)
  finally show ?thesis .
qed

lemma sub_ok_edge:
  assumes ok: "sub_ok H k g" and c: "canon H k g = (b, q, l)" and "0 < l"
  shows "sub_ok H (k - l) (below (k - l) q g)" and "canon H (k - l) (below (k - l) q g) = (b, 0, 0)"
    and "l \<le> k" and "q < 2 ^ l"
    and "set (all_facts H (k - l) (below (k - l) q g)) \<subseteq> set (all_facts H k g)"
    and "i < 2 ^ k \<Longrightarrow> i div 2 ^ (k - l) \<noteq> q \<Longrightarrow> g i = EMPTY_HASH"
proof -
  have ne: "nonempty_keys (tree_facts H k g)" and b: "b \<noteq> EMPTY_HASH" and k: "k \<le> 251"
    and v: "\<And>i. i < 2 ^ k \<Longrightarrow> hash_valid (g i)"
    using ok c by (auto simp: sub_ok_def all_facts_def)
  note edge = canon_edge [OF c ne b]
  show l: "l \<le> k" "q < 2 ^ l"
    using canon_shape [OF c] by auto
  show c': "canon H (k - l) (below (k - l) q g) = (b, 0, 0)"
    using edge by simp
  show facts: "set (all_facts H (k - l) (below (k - l) q g)) \<subseteq> set (all_facts H k g)"
    using edge by (auto simp: all_facts_def c')
  have "hash_valid (below (k - l) q g i)" if "i < 2 ^ (k - l)" for i
    using that l v [OF below_less [of "k - l" k q i]] by (simp add: below_def)
  moreover have "nonempty_keys (all_facts H (k - l) (below (k - l) q g))"
    using facts ok by (auto simp: sub_ok_def intro: nonempty_keys_subset)
  ultimately show "sub_ok H (k - l) (below (k - l) q g)"
    using k b by (simp add: sub_ok_def c')
  show "i < 2 ^ k \<Longrightarrow> i div 2 ^ (k - l) \<noteq> q \<Longrightarrow> g i = EMPTY_HASH"
    using edge by simp
qed

lemma sub_ok_binary:
  assumes ok: "sub_ok H (Suc k) g" and c: "canon H (Suc k) g = (b, q, 0)"
  shows "sub_ok H k g" and "sub_ok H k (right_half k g)"
    and "(b, BinaryFact \<lparr> left_node = node_hash H (canon H k g), right_node = node_hash H (canon H k (right_half k g)) \<rparr>)
      \<in> set (all_facts H (Suc k) g)"
    and "set (all_facts H k g) \<subseteq> set (all_facts H (Suc k) g)"
    and "set (all_facts H k (right_half k g)) \<subseteq> set (all_facts H (Suc k) g)"
    and "b = spec_hash H (node_hash H (canon H k g)) (node_hash H (canon H k (right_half k g)))"
proof -
  have ne: "nonempty_keys (tree_facts H (Suc k) g)" and b: "b \<noteq> EMPTY_HASH"
    using ok c by (auto simp: sub_ok_def all_facts_def)
  have children: "fst (canon H k g) \<noteq> EMPTY_HASH" "fst (canon H k (right_half k g)) \<noteq> EMPTY_HASH"
    and b_eq: "b = spec_hash H (node_hash H (canon H k g)) (node_hash H (canon H k (right_half k g)))"
    using c ne b by (cases rule: canon_Suc_cases; simp)+
  then show "(b, BinaryFact \<lparr> left_node = node_hash H (canon H k g), right_node = node_hash H (canon H k (right_half k g)) \<rparr>)
      \<in> set (all_facts H (Suc k) g)"
    by (simp add: all_facts_def merge_facts_def)
  show facts: "set (all_facts H k g) \<subseteq> set (all_facts H (Suc k) g)"
    "set (all_facts H k (right_half k g)) \<subseteq> set (all_facts H (Suc k) g)"
    using children by (auto simp: all_facts_def merge_facts_def)
  show "sub_ok H k g" "sub_ok H k (right_half k g)"
    using ok children facts [THEN nonempty_keys_subset [rotated]] by (auto simp: sub_ok_def right_half_def)
  show "b = spec_hash H (node_hash H (canon H k g)) (node_hash H (canon H k (right_half k g)))"
    by (rule b_eq)
qed

context patricia_env
begin

lemma sub_ok_valid:
  assumes "sub_ok (env_hash e) k g"
  shows "hash_valid (fst (canon (env_hash e) k g))" and "hash_valid (node_hash (env_hash e) (canon (env_hash e) k g))"
    and "node_hash (env_hash e) (canon (env_hash e) k g) \<noteq> EMPTY_HASH"
proof -
  show "hash_valid (fst (canon (env_hash e) k g))" "hash_valid (node_hash (env_hash e) (canon (env_hash e) k g))"
    using canon_valid [of k g] assms by (auto simp: sub_ok_def MAX_HEIGHT_def)
  show "node_hash (env_hash e) (canon (env_hash e) k g) \<noteq> EMPTY_HASH"
    using assms by (cases "canon (env_hash e) k g") (auto simp: sub_ok_def all_facts_def)
qed

lemma tree_edge_hash:
  assumes "hash_valid b" and "q < 2 ^ l" and "l \<le> 251"
  shows "TrieNode_hash (env_hash e) (TrieEdge (felt_of_Hash b) \<lparr> ep_len = l, ep_value = q \<rparr>) =
    Inr (felt_of_Hash (spec_edge_hash (env_hash e) b q l))"
  using spec_edge_valid [of b q l] assms
  by (simp add: Hash_of_felt_of_Hash EdgeNodeFact_new_def EdgeNodeFact_hash_def MAX_HEIGHT_def expect_def unwrap_def)

lemma tree_binary_hash:
  assumes "hash_valid x" and "hash_valid y" and "x \<noteq> EMPTY_HASH" and "y \<noteq> EMPTY_HASH"
  shows "TrieNode_hash (env_hash e) (TrieBinary (felt_of_Hash x) (felt_of_Hash y)) =
    Inr (felt_of_Hash (spec_hash (env_hash e) x y))"
  using spec_hash_valid [of x y] assms
  by (simp add: Hash_of_felt_of_Hash BinaryNodeFact_new_def BinaryNodeFact_hash_def expect_def unwrap_def)

end

text \<open>The path of a key, for the two kinds of nodes.\<close>

lemma tree_path_0 [simp]: "tree_path H 0 g i = []"
  by (simp add: tree_path.simps)

lemma tree_path_edge:
  assumes "sub_ok H k g" and "canon H k g = (b, q, l)" and "0 < l"
  shows "tree_path H k g i =
    TrieEdge (felt_of_Hash b) \<lparr> ep_len = l, ep_value = q \<rparr> #
    (if i div 2 ^ (k - l) = q then tree_path H (k - l) (below (k - l) q g) (i mod 2 ^ (k - l)) else [])"
  using assms sub_ok_edge(3) [OF assms] by (subst tree_path.simps) (auto simp: sub_ok_def)

lemma mod_power_Suc: "i mod 2 ^ Suc k = (if odd (i div 2 ^ k) then 2 ^ k + i mod 2 ^ k else i mod 2 ^ k)" for i :: nat
  using mod_mult2_eq [of i "2 ^ k" 2] by (simp add: mult.commute odd_iff_mod_2_eq_one)

lemma tree_path_binary:
  assumes "sub_ok H (Suc k) g" and "canon H (Suc k) g = (b, q, 0)"
  shows "tree_path H (Suc k) g (i mod 2 ^ Suc k) =
    TrieBinary (felt_of_Hash (node_hash H (canon H k g))) (felt_of_Hash (node_hash H (canon H k (right_half k g)))) #
    (if odd (i div 2 ^ k) then tree_path H k (right_half k g) (i mod 2 ^ k) else tree_path H k g (i mod 2 ^ k))"
proof -
  have "b \<noteq> EMPTY_HASH" using assms by (simp add: sub_ok_def)
  with assms(2) show ?thesis
    by (subst tree_path.simps) (simp add: mod_power_Suc del: canon.simps power_Suc)
qed

lemma right_half_mod: "right_half k g (i mod 2 ^ k) = g (i mod 2 ^ Suc k)" if "odd (i div 2 ^ k)" for i :: nat
  using that by (simp add: right_half_def mod_power_Suc del: power_Suc)

lemma below_mod:
  assumes "l \<le> k" and "i mod 2 ^ k div 2 ^ (k - l) = q"
  shows "below (k - l) q g (i mod 2 ^ (k - l)) = g (i mod 2 ^ k)" and "i mod 2 ^ k mod 2 ^ (k - l) = i mod 2 ^ (k - l)"
proof -
  show m: "i mod 2 ^ k mod 2 ^ (k - l) = i mod 2 ^ (k - l)"
    by (simp add: le_imp_power_dvd mod_mod_cancel)
  show "below (k - l) q g (i mod 2 ^ (k - l)) = g (i mod 2 ^ k)"
    using assms(2) div_mult_mod_eq [of "i mod 2 ^ k" "2 ^ (k - l)"] by (simp add: below_def m)
qed

context patricia_env
begin

lemma tree_nodes_hash:
  assumes "sub_ok (env_hash e) k g" and "canon (env_hash e) k g = (b, q, l)"
  shows "0 < l \<Longrightarrow> TrieNode_hash (env_hash e) (TrieEdge (felt_of_Hash b) \<lparr> ep_len = l, ep_value = q \<rparr>) =
      (Inr (felt_of_Hash (node_hash (env_hash e) (canon (env_hash e) k g))) :: (proof_error, felt) res)"
    and "k = Suc k' \<Longrightarrow> l = 0 \<Longrightarrow> TrieNode_hash (env_hash e)
      (TrieBinary (felt_of_Hash (node_hash (env_hash e) (canon (env_hash e) k' g)))
        (felt_of_Hash (node_hash (env_hash e) (canon (env_hash e) k' (right_half k' g))))) =
      (Inr (felt_of_Hash (node_hash (env_hash e) (canon (env_hash e) k g))) :: (proof_error, felt) res)"
proof -
  assume "0 < l"
  moreover have "k \<le> 251" using assms(1) by (simp add: sub_ok_def)
  ultimately show "TrieNode_hash (env_hash e) (TrieEdge (felt_of_Hash b) \<lparr> ep_len = l, ep_value = q \<rparr>) =
      (Inr (felt_of_Hash (node_hash (env_hash e) (canon (env_hash e) k g))) :: (proof_error, felt) res)"
    using sub_ok_edge [OF assms] sub_ok_valid [OF assms(1)] tree_edge_hash [of b q l] by (simp add: assms(2))
next
  assume k: "k = Suc k'" and "l = 0"
  note ok = assms [unfolded k \<open>l = 0\<close>]
  show "TrieNode_hash (env_hash e)
      (TrieBinary (felt_of_Hash (node_hash (env_hash e) (canon (env_hash e) k' g)))
        (felt_of_Hash (node_hash (env_hash e) (canon (env_hash e) k' (right_half k' g))))) =
      (Inr (felt_of_Hash (node_hash (env_hash e) (canon (env_hash e) k g))) :: (proof_error, felt) res)"
    using sub_ok_valid [OF sub_ok_binary(1) [OF ok]] sub_ok_valid [OF sub_ok_binary(2) [OF ok]] sub_ok_binary(6) [OF ok]
    by (subst tree_binary_hash) (simp_all add: ok(2) k del: canon.simps)
qed

lemma verify_tree_path:
  assumes "sub_ok (env_hash e) k g"
  shows "verify_loop (env_hash e) key pf (felt_of_Hash (node_hash (env_hash e) (canon (env_hash e) k g))) (256 - k)
      (tree_path (env_hash e) k g (key mod 2 ^ k)) =
    (if g (key mod 2 ^ k) \<noteq> EMPTY_HASH then Inr ()
     else Inl (Error (NonExistenceProof key (k - sum_list (map levels (tree_path (env_hash e) k g (key mod 2 ^ k)))) pf)))"
  using assms
proof (induction k arbitrary: g rule: less_induct)
  case (less k)
  let ?H = "env_hash e"
  obtain b q l where c: "canon ?H k g = (b, q, l)" by (cases "canon ?H k g") auto
  have k: "k \<le> 251" using less.prems by (simp add: sub_ok_def)
  consider "k = 0" | "0 < l" | k' where "k = Suc k'" "l = 0" by (cases k) auto
  then show ?case
  proof cases
    case 1
    then show ?thesis using less.prems by (simp add: sub_ok_def)
  next
    case 2
    note edge = sub_ok_edge [OF less.prems c 2]
    note hash = tree_nodes_hash(1) [OF less.prems c 2]
    have path: "tree_path ?H k g (key mod 2 ^ k) = TrieEdge (felt_of_Hash b) \<lparr> ep_len = l, ep_value = q \<rparr> #
      (if key mod 2 ^ k div 2 ^ (k - l) = q then tree_path ?H (k - l) (below (k - l) q g) (key mod 2 ^ (k - l)) else [])"
      using tree_path_edge [OF less.prems c 2] below_mod(2) [OF edge(3)] by simp
    have IH: "key mod 2 ^ k div 2 ^ (k - l) = q \<Longrightarrow>
        verify_loop ?H key pf (felt_of_Hash b) (256 - (k - l)) (tree_path ?H (k - l) (below (k - l) q g) (key mod 2 ^ (k - l))) =
        (if g (key mod 2 ^ k) \<noteq> EMPTY_HASH then Inr ()
         else Inl (Error (NonExistenceProof key (k - l - sum_list (map levels
            (tree_path ?H (k - l) (below (k - l) q g) (key mod 2 ^ (k - l))))) pf)))"
      using less.IH [OF _ edge(1)] 2 edge(2,3) below_mod(1) [OF edge(3), of key q g] by simp
    have "verify_loop ?H key pf (felt_of_Hash (node_hash ?H (canon ?H k g))) (256 - k) (tree_path ?H k g (key mod 2 ^ k)) =
      (if key mod 2 ^ k div 2 ^ (k - l) = q
       then verify_loop ?H key pf (felt_of_Hash b) (256 - (k - l)) (tree_path ?H (k - l) (below (k - l) q g) (key mod 2 ^ (k - l)))
       else Inl (Error (NonExistenceProof key (k - l) pf)))"
      unfolding path by (subst verify_edge_step [OF hash edge(3) k edge(4)]) simp
    then show ?thesis
      using IH edge(6) [of "key mod 2 ^ k"] by (simp add: path del: verify_loop.simps) 
  next
    case (3 k')
    note ok = less.prems [unfolded 3(1)] and c' = c [unfolded 3]
    note binary = sub_ok_binary [OF ok c']
    note hash = tree_nodes_hash(2) [OF less.prems c 3]
    note path = tree_path_binary [OF ok c', of key]
    have "k' < k" "k' < 256" using 3 k by auto
    have step: "verify_loop ?H key pf (felt_of_Hash (node_hash ?H (canon ?H k g))) (256 - k) (tree_path ?H k g (key mod 2 ^ k)) =
      (if odd (key div 2 ^ k')
       then verify_loop ?H key pf (felt_of_Hash (node_hash ?H (canon ?H k' (right_half k' g)))) (256 - k')
         (tree_path ?H k' (right_half k' g) (key mod 2 ^ k'))
       else verify_loop ?H key pf (felt_of_Hash (node_hash ?H (canon ?H k' g))) (256 - k') (tree_path ?H k' g (key mod 2 ^ k')))"
      unfolding 3(1) path by (subst verify_binary_step [OF hash [unfolded 3(1)] \<open>k' < 256\<close>]) simp
    show ?thesis
    proof (cases "odd (key div 2 ^ k')")
      case True
      then show ?thesis
        unfolding step using less.IH [OF \<open>k' < k\<close> binary(2)] by (simp add: right_half_mod path 3(1) del: canon.simps power_Suc)
    next
      case False
      then have "key mod 2 ^ k = key mod 2 ^ k'" by (simp add: 3(1) mod_power_Suc del: power_Suc)
      with False show ?thesis
        unfolding step using less.IH [OF \<open>k' < k\<close> binary(1)] path [folded 3(1)] by (simp add: 3(1) del: canon.simps power_Suc)
    qed
  qed
qed

end

text \<open>Soundness: up to collisions, the nodes of an accepted proof are the nodes of the path.\<close>

lemma trie_fact_inj: "trie_node_wf m \<Longrightarrow> trie_node_wf n \<Longrightarrow> trie_fact m = trie_fact n \<longleftrightarrow> m = n"
  by (cases m; cases n) (auto dest: Hash_of_felt_inj)

lemma felt_of_Hash_eq: "Hash_of_felt x = h \<Longrightarrow> felt_wf x \<Longrightarrow> x = felt_of_Hash h"
  by auto

lemma no_collision_mono: "no_collision H (n # rest) fs \<Longrightarrow> set fs' \<subseteq> set fs \<Longrightarrow> no_collision H rest fs'"
  by (auto simp: no_collision_def)

definition proof_sound :: "hash_fn \<Rightarrow> felt \<Rightarrow> nat \<Rightarrow> (nat \<Rightarrow> hash) \<Rightarrow> trie_node list \<Rightarrow> (proof_error, unit) res \<Rightarrow> bool" where
  "proof_sound H key k g rest r \<longleftrightarrow>
     (r = Inr () \<longrightarrow> sum_list (map levels rest) = k \<longrightarrow>
        g (key mod 2 ^ k) \<noteq> EMPTY_HASH \<and> (\<exists>zs. rest = tree_path H k g (key mod 2 ^ k) @ zs)) \<and>
     (\<forall>x y z. r = Inl (Error (NonExistenceProof x y z)) \<longrightarrow> g (key mod 2 ^ k) = EMPTY_HASH)"

lemma proof_sound_edge:
  assumes "sub_ok H k g" and "canon H k g = (b, q, l)" and "0 < l"
    and "proof_sound H key (k - l) (below (k - l) q g) rest r"
  shows "proof_sound H key k g (TrieEdge (felt_of_Hash b) \<lparr> ep_len = l, ep_value = q \<rparr> # rest)
    (if key mod 2 ^ k div 2 ^ (k - l) = q then r else Inl (Error (NonExistenceProof x y z)))"
proof (cases "key mod 2 ^ k div 2 ^ (k - l) = q")
  case True
  note edge = sub_ok_edge [OF assms(1-3)]
  have path: "tree_path H k g (key mod 2 ^ k) = TrieEdge (felt_of_Hash b) \<lparr> ep_len = l, ep_value = q \<rparr> #
      tree_path H (k - l) (below (k - l) q g) (key mod 2 ^ (k - l))"
    by (simp only: tree_path_edge [OF assms(1-3)] True if_True simp_thms below_mod(2) [OF edge(3) True])
  have leaf: "g (key mod 2 ^ k) = below (k - l) q g (key mod 2 ^ (k - l))"
    by (rule below_mod(1) [OF edge(3) True, symmetric])
  have "l + x = k \<longleftrightarrow> x = k - l" for x using edge(3) by auto
  then show ?thesis
    using assms(4) unfolding proof_sound_def path leaf if_P [OF True] by simp
next
  case False
  then show ?thesis
    using sub_ok_edge(6) [OF assms(1-3), of "key mod 2 ^ k"] by (simp add: proof_sound_def)
qed

lemma proof_sound_binary:
  assumes "sub_ok H (Suc k) g" and "canon H (Suc k) g = (b, q, 0)"
    and "odd (key div 2 ^ k) \<Longrightarrow> proof_sound H key k (right_half k g) rest r"
    and "even (key div 2 ^ k) \<Longrightarrow> proof_sound H key k g rest r"
  shows "proof_sound H key (Suc k) g (TrieBinary (felt_of_Hash (node_hash H (canon H k g)))
    (felt_of_Hash (node_hash H (canon H k (right_half k g)))) # rest) r"
proof (cases "odd (key div 2 ^ k)")
  case True
  then show ?thesis
    using assms(3) unfolding proof_sound_def tree_path_binary [OF assms(1,2)] by (simp add: right_half_mod)
next
  case False
  then have "key mod 2 ^ Suc k = key mod 2 ^ k" by (simp add: mod_power_Suc del: power_Suc)
  with False show ?thesis
    using assms(4) tree_path_binary [OF assms(1,2), of key] unfolding proof_sound_def by simp
qed

context patricia_env
begin

text \<open>The node of a proof that has the hash of a subtree is the root of the subtree.\<close>

lemma proof_node_cases:
  assumes ok: "sub_ok (env_hash e) k g" and c: "canon (env_hash e) k g = (b, q, l)" and "0 < k"
    and wf: "trie_node_wf n" and nc: "no_collision (env_hash e) (n # rest) (all_facts (env_hash e) k g)"
    and hash: "(TrieNode_hash (env_hash e) n :: (proof_error, felt) res) =
      Inr (felt_of_Hash (node_hash (env_hash e) (canon (env_hash e) k g)))"
  shows "n = (if 0 < l then TrieEdge (felt_of_Hash b) \<lparr> ep_len = l, ep_value = q \<rparr>
     else TrieBinary (felt_of_Hash (node_hash (env_hash e) (canon (env_hash e) (k - 1) g)))
        (felt_of_Hash (node_hash (env_hash e) (canon (env_hash e) (k - 1) (right_half (k - 1) g)))))"
proof (cases "0 < l")
  case True
  note edge = sub_ok_edge [OF ok c True] and v = sub_ok_valid(1) [OF ok]
  have "(node_hash (env_hash e) (canon (env_hash e) k g), EdgeFact \<lparr> edge_bottom_node = b, edge_path = q, edge_length = l \<rparr>)
      \<in> set (all_facts (env_hash e) k g)"
    using True by (simp add: all_facts_def c)
  then have "trie_fact n = EdgeFact \<lparr> edge_bottom_node = b, edge_path = q, edge_length = l \<rparr>"
    using nc hash by (fastforce simp: no_collision_def)
  then show ?thesis
    using wf True by (cases n) (auto simp: felt_of_Hash_of_felt)
next
  case False
  then obtain k' where k: "k = Suc k'" and l: "l = 0" using \<open>0 < k\<close> by (cases k) auto
  note binary = sub_ok_binary [OF ok [unfolded k] c [unfolded k l]]
  have "trie_fact n = BinaryFact \<lparr> left_node = node_hash (env_hash e) (canon (env_hash e) k' g),
      right_node = node_hash (env_hash e) (canon (env_hash e) k' (right_half k' g)) \<rparr>"
    using nc hash binary(3) by (auto simp: no_collision_def c [unfolded k l] k simp del: canon.simps TrieNode_hash.simps)
  then show ?thesis
    using wf False by (cases n) (auto simp: k simp del: canon.simps intro: felt_of_Hash_eq)
qed

lemma verify_sound:
  assumes "sub_ok (env_hash e) k g" and "no_collision (env_hash e) rest (all_facts (env_hash e) k g)"
    and "\<forall>n\<in>set rest. trie_node_wf n"
  shows "proof_sound (env_hash e) key k g rest (verify_loop (env_hash e) key pf
    (felt_of_Hash (node_hash (env_hash e) (canon (env_hash e) k g))) (256 - k) rest)"
  using assms
proof (induction rest arbitrary: k g)
  case Nil
  then show ?case by (auto simp: proof_sound_def sub_ok_def)
next
  case (Cons n rest)
  let ?H = "env_hash e" and ?p = "felt_of_Hash (node_hash (env_hash e) (canon (env_hash e) k g))"
  obtain b q l where c: "canon ?H k g = (b, q, l)" by (cases "canon ?H k g") auto
  have wf: "trie_node_wf n" "\<forall>n\<in>set rest. trie_node_wf n" using Cons.prems(3) by simp_all
  have k: "k \<le> 251" using Cons.prems(1) by (simp add: sub_ok_def)
  consider "k = 0" | (Hash) "(TrieNode_hash ?H n :: (proof_error, felt) res) = Inr ?p" "0 < k"
    | (No) "(TrieNode_hash ?H n :: (proof_error, felt) res) \<noteq> Inr ?p" "0 < k" by blast
  then show ?case
  proof cases
    case 1
    then show ?thesis
      using Cons.prems(1) verify_past_leaf [of ?H key pf ?p "n # rest"]
      by (auto simp: proof_sound_def sub_ok_def simp del: verify_loop.simps)
  next
    case No
    then show ?thesis
      using TrieNode_hash_no_error [of ?H n "NonExistenceProof x y z" for x y z]
      by (auto simp: proof_sound_def bindR_def simp del: TrieNode_hash.simps split: sum.splits if_splits)
  next
    case Hash
    note node = proof_node_cases [OF Cons.prems(1) c Hash(2) wf(1) Cons.prems(2) Hash(1)]
    show ?thesis
    proof (cases "0 < l")
      case True
      note edge = sub_ok_edge [OF Cons.prems(1) c True]
      have n: "n = TrieEdge (felt_of_Hash b) \<lparr> ep_len = l, ep_value = q \<rparr>" using node True by simp
      have IH: "proof_sound ?H key (k - l) (below (k - l) q g) rest
          (verify_loop ?H key pf (felt_of_Hash b) (256 - (k - l)) rest)"
        using Cons.IH [OF edge(1) no_collision_mono [OF Cons.prems(2) edge(5)] wf(2)] by (simp add: edge(2))
      show ?thesis
        unfolding n verify_edge_step [OF Hash(1) [unfolded n] edge(3) k edge(4)]
        by (rule proof_sound_edge [OF Cons.prems(1) c True IH])
    next
      case False
      then obtain k' where k': "k = Suc k'" and l: "l = 0" using Hash(2) by (cases k) auto
      note binary = sub_ok_binary [OF Cons.prems(1) [unfolded k'] c [unfolded k' l]]
      note path = tree_path_binary [OF Cons.prems(1) [unfolded k'] c [unfolded k' l], of key]
      note n = node [unfolded l k', simplified (no_asm_use) less_irrefl if_False diff_Suc_1]
      have "k' < 256" using k k' by simp
      note IH = Cons.IH [OF binary(1) no_collision_mono [OF Cons.prems(2) binary(4) [folded k']] wf(2)]
        Cons.IH [OF binary(2) no_collision_mono [OF Cons.prems(2) binary(5) [folded k']] wf(2)]
      show ?thesis
        unfolding n k' verify_binary_step [OF Hash(1) [unfolded n k'] \<open>k' < 256\<close>]
        by (rule proof_sound_binary [OF Cons.prems(1) [unfolded k'] c [unfolded k' l]]) (use IH in auto)
    qed
  qed
qed

end

section \<open>The properties\<close>

lemma storage_sub_ok:
  assumes "good_tree (storage_env ped) StorageLeaf_wf 251 f" and "i < 2 ^ 251" and "leaf_value (f i) \<noteq> 0"
  shows "sub_ok (PedersenHash ped) 251 (leaf_hashes (storage_env ped) f)"
proof -
  have g: "\<forall>i < 2 ^ 251. felt_wf (leaf_value (f i))"
    "nonempty_keys (all_facts (PedersenHash ped) 251 (leaf_hashes (storage_env ped) f))"
    using assms(1) unfolding storage_good_tree by blast+
  then have "nonempty_keys (tree_facts (PedersenHash ped) 251 (leaf_hashes (storage_env ped) f))"
    by (simp add: all_facts_def)
  from canon_empty_iff [OF this] have "fst (canon (PedersenHash ped) 251 (leaf_hashes (storage_env ped) f)) \<noteq> EMPTY_HASH"
    using g(1) assms(2,3) by (auto simp: leaf_hashes_def storage_lhash EMPTY_HASH_eq)
  with g show ?thesis
    by (simp add: sub_ok_def leaf_hashes_def storage_lhash)
qed

lemma storage_leaf_empty:
  assumes "good_tree (storage_env ped) StorageLeaf_wf 251 f" and "i < 2 ^ 251"
  shows "leaf_hashes (storage_env ped) f i = EMPTY_HASH \<longleftrightarrow> leaf_value (f i) = 0"
  using assms by (simp add: storage_good_tree leaf_hashes_def storage_lhash EMPTY_HASH_eq)

lemma verify_honest:
  assumes "good_tree (storage_env ped) StorageLeaf_wf 251 f" and "i < 2 ^ 251" and "leaf_value (f i) \<noteq> 0"
    and "key < 2 ^ 251"
  shows "verify_proof (PedersenHash ped) key (felt_of_Hash (spec_root (storage_env ped) 251 f))
      (tree_path (PedersenHash ped) 251 (leaf_hashes (storage_env ped) f) key) =
    (if leaf_value (f key) \<noteq> 0 then Inr ()
     else Inl (Error (NonExistenceProof key
       (251 - sum_list (map levels (tree_path (PedersenHash ped) 251 (leaf_hashes (storage_env ped) f) key)))
       (tree_path (PedersenHash ped) 251 (leaf_hashes (storage_env ped) f) key))))"
  using st.verify_tree_path [where k = 251 and key = key and ped = ped and g = "leaf_hashes (storage_env ped) f"]
    storage_sub_ok [OF assms(1-3)] storage_leaf_empty [OF assms(1,4)] assms(4)
  by (simp add: verify_proof_def proof_start_def spec_root_def)

text \<open>
  C8. A verified storage proof is about the tree of the commitment. Let the commitment be the root
  of a tree with a leaf, and let no node of the proof have the hash of a node of the tree without
  being that node. If the proof is verified and its nodes span all 251 levels, the key has a value
  in the tree and the proof starts with the nodes of the tree on the path to the key. If the proof
  is rejected as a proof of non-existence, the key has no value.
\<close>

theorem verified_proof_sound:
  assumes "good_tree (storage_env ped) StorageLeaf_wf 251 f" and "i < 2 ^ 251" and "leaf_value (f i) \<noteq> 0"
    and "key < 2 ^ 251" and "\<forall>n\<in>set proof. trie_node_wf n"
    and "no_collision (PedersenHash ped) proof (all_facts (PedersenHash ped) 251 (leaf_hashes (storage_env ped) f))"
    and r: "verify_proof (PedersenHash ped) key (felt_of_Hash (spec_root (storage_env ped) 251 f)) proof = r"
  shows "(r = Inr () \<and> sum_list (map levels proof) = 251 \<longrightarrow>
      leaf_value (f key) \<noteq> 0 \<and>
      (\<exists>zs. proof = tree_path (PedersenHash ped) 251 (leaf_hashes (storage_env ped) f) key @ zs)) \<and>
    (\<forall>h. r = Inl (Error (NonExistenceProof key h proof)) \<longrightarrow> leaf_value (f key) = 0)"
proof -
  have "proof_sound (PedersenHash ped) key 251 (leaf_hashes (storage_env ped) f) proof r"
    using st.verify_sound [OF _ _ assms(5), where k = 251 and key = key and pf = "proof" and g = "leaf_hashes (storage_env ped) f"
        and ped = ped] storage_sub_ok [OF assms(1-3)] assms(6) r
    by (simp add: verify_proof_def proof_start_def spec_root_def)
  then show ?thesis
    using storage_leaf_empty [OF assms(1,4)] assms(4) by (auto simp: proof_sound_def)
qed

text \<open>The tree with the value 2000 at the key 1000; its only node is an edge.\<close>

lemma demo_leaf_path:
  "tree_path (PedersenHash demo_ped) 251 (leaf_hashes (storage_env demo_ped) ((\<lambda>_. StorageLeaf_empty) (1000 := StorageLeaf_new 2000))) key =
     [TrieEdge 2000 \<lparr> ep_len = 251, ep_value = 1000 \<rparr>]"
  "all_facts (PedersenHash demo_ped) 251 (leaf_hashes (storage_env demo_ped) ((\<lambda>_. StorageLeaf_empty) (1000 := StorageLeaf_new 2000))) =
     [(Hash_of_felt 4252, EdgeFact \<lparr> edge_bottom_node = Hash_of_felt 2000, edge_path = 1000, edge_length = 251 \<rparr>)]"
proof -
  let ?g = "leaf_hashes (storage_env demo_ped) ((\<lambda>_. StorageLeaf_empty) (1000 := StorageLeaf_new 2000))"
  have wf: "felt_wf 2000" "felt_wf 1000" by (simp_all add: felt_wf_def STARK_PRIME_def)
  have g: "?g j = (if j = 1000 then Hash_of_felt 2000 else EMPTY_HASH)" for j
    by (simp add: leaf_hashes_def storage_lhash EMPTY_HASH_eq Hash_empty_felt)
  have c: "canon (PedersenHash demo_ped) 251 ?g = (Hash_of_felt 2000, 1000, 251) \<and> tree_facts (PedersenHash demo_ped) 251 ?g = []"
    using single_leaf_canon [of 1000 251 ?g] wf by (simp add: g EMPTY_HASH_eq)
  then show "tree_path (PedersenHash demo_ped) 251 ?g key = [TrieEdge 2000 \<lparr> ep_len = 251, ep_value = 1000 \<rparr>]"
    using wf by (subst tree_path.simps) (simp add: EMPTY_HASH_eq)
  have "felt_add (felt_of_nat (demo_ped 2000 1000)) 251 = 4252"
    by (simp add: demo_ped_def felt_add_def felt_of_nat_def STARK_PRIME_def)
  with c show "all_facts (PedersenHash demo_ped) 251 ?g =
     [(Hash_of_felt 4252, EdgeFact \<lparr> edge_bottom_node = Hash_of_felt 2000, edge_path = 1000, edge_length = 251 \<rparr>)]"
    using pedersen_edge_hash [OF wf, of demo_ped 251] by (simp add: all_facts_def)
qed

lemma demo_root:
  "felt_of_Hash (spec_root (storage_env demo_ped) 251 ((\<lambda>_. StorageLeaf_empty) (1000 := StorageLeaf_new 2000))) = 4252"
  using demo_good(2) by (simp add: felt_wf_def STARK_PRIME_def)

lemma demo_wf: "felt_wf 2000" "felt_wf 1000" "251 < u64_bound"
  by (simp_all add: felt_wf_def STARK_PRIME_def u64_bound_def)

lemma demo_no_collision:
  "no_collision H [TrieEdge 2000 \<lparr> ep_len = 251, ep_value = 1000 \<rparr>]
     [(Hash_of_felt 4252, EdgeFact \<lparr> edge_bottom_node = Hash_of_felt 2000, edge_path = 1000, edge_length = 251 \<rparr>)]"
  by (simp add: no_collision_def)

theorem verified_proof_sound_witness:
  "verify_proof (PedersenHash demo_ped) 7 4252 [TrieEdge 2000 \<lparr> ep_len = 251, ep_value = 1000 \<rparr>] =
     Inl (Error (NonExistenceProof 7 0 [TrieEdge 2000 \<lparr> ep_len = 251, ep_value = 1000 \<rparr>])) \<and>
   leaf_value (((\<lambda>_ :: nat. StorageLeaf_empty) (1000 := StorageLeaf_new 2000)) 7) = 0"
proof -
  let ?f = "(\<lambda>_ :: nat. StorageLeaf_empty) (1000 := StorageLeaf_new 2000)"
    and ?proof = "[TrieEdge 2000 \<lparr> ep_len = 251, ep_value = 1000 \<rparr>]"
  have "verify_proof (PedersenHash demo_ped) 7 4252 ?proof = Inl (Error (NonExistenceProof 7 0 ?proof))"
    using verify_honest [OF demo_good(1), of 1000 7] by (simp add: demo_root demo_leaf_path)
  moreover have "leaf_value (?f 7) = 0"
    using verified_proof_sound [OF demo_good(1), of 1000 7 ?proof] calculation
    by (simp add: demo_root demo_leaf_path demo_no_collision demo_wf)
  ultimately show ?thesis by blast
qed

lemma empty_tree_path:
  assumes "good_tree (storage_env ped) StorageLeaf_wf 251 f" and "\<forall>i < 2 ^ 251. leaf_value (f i) = 0"
  shows "tree_path (PedersenHash ped) 251 (leaf_hashes (storage_env ped) f) key = []"
proof -
  have "nonempty_keys (all_facts (PedersenHash ped) 251 (leaf_hashes (storage_env ped) f))"
    using assms(1) unfolding storage_good_tree by blast
  then have "nonempty_keys (tree_facts (PedersenHash ped) 251 (leaf_hashes (storage_env ped) f))"
    by (simp add: all_facts_def)
  from canon_empty_iff [OF this] have "fst (canon (PedersenHash ped) 251 (leaf_hashes (storage_env ped) f)) = EMPTY_HASH"
    using assms(2) storage_leaf_empty [OF assms(1)] by simp
  then show ?thesis by (simp add: tree_path.simps [of _ 251] case_prod_unfold)
qed

lemma verify_path:
  assumes "good_tree (storage_env ped) StorageLeaf_wf 251 f" and "key < 2 ^ 251"
    and "p = tree_path (PedersenHash ped) 251 (leaf_hashes (storage_env ped) f)"
  shows "verify_proof (PedersenHash ped) key (felt_of_Hash (spec_root (storage_env ped) 251 f)) (p key) =
    (if (\<exists>i < 2 ^ 251. leaf_value (f i) \<noteq> 0) \<and> leaf_value (f key) = 0
     then Inl (Error (NonExistenceProof key (251 - sum_list (map levels (p key))) (p key))) else Inr ())"
proof (cases "\<exists>i < 2 ^ 251. leaf_value (f i) \<noteq> 0")
  case True
  then obtain i where "i < 2 ^ 251" "leaf_value (f i) \<noteq> 0" by blast
  from verify_honest [OF assms(1) this assms(2), folded assms(3)] True show ?thesis by simp
next
  case False
  then have "p key = []" using empty_tree_path [OF assms(1)] assms(3) by auto
  with False show ?thesis by (auto simp: verify_proof_def)
qed

text \<open>
  C34. The proofs that a node takes from the tree are verified: for the paths of any storage keys in a tree with at least one value,
  \<open>ContractData::verify\<close> fails exactly if a key has no value, with one proof of non-existence for each
  such key, in the order of the keys; the height it reports is the one at which the tree leaves the
  path of the key. In a tree without values all paths are empty and are accepted, whatever the keys are.
\<close>

theorem contract_proofs_verified:
  assumes "good_tree (storage_env ped) StorageLeaf_wf 251 f"
    and "\<forall>key\<in>set keys. key < 2 ^ 251"
    and "p = tree_path (PedersenHash ped) 251 (leaf_hashes (storage_env ped) f)"
  shows "ContractData_verify (PedersenHash ped)
      \<lparr> cd_root = felt_of_Hash (spec_root (storage_env ped) 251 f), storage_proofs = map p keys \<rparr> keys =
    (if \<exists>i < 2 ^ 251. leaf_value (f i) \<noteq> 0
     then let absent = filter (\<lambda>key. leaf_value (f key) = 0) keys
       in if absent = [] then Inr ()
          else Inl (Error (map (\<lambda>key. NonExistenceProof key (251 - sum_list (map levels (p key))) (p key)) absent))
     else Inr ()) \<and>
    ((\<exists>i < 2 ^ 251. leaf_value (f i) \<noteq> 0) \<or> map p keys = replicate (length keys) [])"
proof -
  let ?c = "felt_of_Hash (spec_root (storage_env ped) 251 f)"
  let ?err = "\<lambda>key. NonExistenceProof key (251 - sum_list (map levels (p key))) (p key)"
  let ?ex = "\<exists>i < 2 ^ 251. leaf_value (f i) \<noteq> 0"
  let ?step = "\<lambda>errors (index, storage_key).
    bindR (vec_index (map p keys) index) (\<lambda>proof.
      case verify_proof (PedersenHash ped) storage_key ?c proof of
        Inr _ \<Rightarrow> Inr errors | Inl (Error e) \<Rightarrow> Inr (errors @ [e]) | Inl (Panic m) \<Rightarrow> Inl (Panic m))"
  have empty: "p key = []" if "\<not> ?ex" for key
    using empty_tree_path [OF assms(1)] that assms(3) by auto
  have "(foldR ?step errors (enumerate (length ds) rest) :: (proof_error list, proof_error list) res) =
      Inr (errors @ map ?err (filter (\<lambda>key. ?ex \<and> leaf_value (f key) = 0) rest))" if "keys = ds @ rest" for errors ds rest
    using that
  proof (induction rest arbitrary: errors ds)
    case (Cons key rest)
    then have "key < 2 ^ 251" using assms(2) by simp
    note v = verify_path [OF assms(1) this assms(3)]
    have "vec_index (map p keys) (length ds) = (Inr (p key) :: (proof_error list, trie_node list) res)"
      using Cons.prems by (simp add: vec_index_Inr nth_append)
    then show ?case
      using Cons.IH [of "ds @ [key]"] Cons.prems v by simp
  qed simp
  from this [of "[]" keys "[]"] have "ContractData_verify (PedersenHash ped) \<lparr> cd_root = ?c, storage_proofs = map p keys \<rparr> keys =
      (let absent = filter (\<lambda>key. ?ex \<and> leaf_value (f key) = 0) keys in if absent = [] then Inr () else Inl (Error (map ?err absent)))"
    by (simp add: ContractData_verify_def)
  moreover have "map p keys = replicate (length keys) []" if "\<not> ?ex"
    by (induction keys) (simp_all add: empty [OF that])
  moreover have "filter (\<lambda>key. False) keys = []" by simp
  ultimately show ?thesis by (cases ?ex) (simp_all only: if_True if_False simp_thms Let_def)
qed

theorem contract_proofs_verified_witness:
  "ContractData_verify (PedersenHash demo_ped) \<lparr> cd_root = 4252,
       storage_proofs = replicate 3 [TrieEdge 2000 \<lparr> ep_len = 251, ep_value = 1000 \<rparr>] \<rparr> [5, 1000, 7] =
     Inl (Error [NonExistenceProof 5 0 [TrieEdge 2000 \<lparr> ep_len = 251, ep_value = 1000 \<rparr>],
       NonExistenceProof 7 0 [TrieEdge 2000 \<lparr> ep_len = 251, ep_value = 1000 \<rparr>]])"
proof -
  let ?f = "(\<lambda>_ :: nat. StorageLeaf_empty) (1000 := StorageLeaf_new 2000)"
  have "\<exists>i < 2 ^ 251. leaf_value (?f i) \<noteq> 0" by (intro exI [of _ 1000]) simp
  then show ?thesis
    using contract_proofs_verified [OF demo_good(1), of "[5, 1000, 7]", OF _ refl]
    by (simp add: demo_root demo_leaf_path numeral_3_eq_3)
qed

end
