(* ===== verification/Kzg.thy ===== *)
theory Kzg
  imports Bytes "HOL-Library.Signed_Division"
begin

text \<open>
  The data of a block as a blob and its KZG commitment (\<open>hints/kzg.rs\<close>), the limbs of a field element
  (\<open>hints/bls_utils.rs\<close>) and the manager that keeps the data (\<open>starknet/core/os/kzg_manager.rs\<close>).

  The data are the coefficients of a polynomial over the scalar field of the curve BLS12-381. The blob lists its
  values at the 4096 roots of unity in bit-reversed order, computed by a fast Fourier
  transform. The theory shows that the transform evaluates the polynomial, and what the bytes of
  the blob are. The functions of the crate \<open>c_kzg\<close> are parameters.

  A \<open>BigInt\<close> is an \<open>int\<close>; its operator \<open>%\<close> truncates, as \<open>smod\<close> does.
\<close>

unbundle bit_operations_syntax

section \<open>Definitions\<close>

definition FIELD_ELEMENTS_PER_BLOB :: nat where
  "FIELD_ELEMENTS_PER_BLOB = 4096"

definition BYTES_PER_FIELD_ELEMENT :: nat where
  "BYTES_PER_FIELD_ELEMENT = 32"

definition COMMITMENT_BYTES_LENGTH :: nat where
  "COMMITMENT_BYTES_LENGTH = 48"

definition BLOB_SUBGROUP_GENERATOR :: int where
  "BLOB_SUBGROUP_GENERATOR = 39033254847818212395286706435128746857159659164139250548781411570340225835782"

definition BLS_PRIME :: int where
  "BLS_PRIME = 52435875175126190479447740508185965837690552500527637822603658699938581184513"

definition COMMITMENT_BITS :: nat where
  "COMMITMENT_BITS = 384"

definition COMMITMENT_BITS_MIDPOINT :: nat where
  "COMMITMENT_BITS_MIDPOINT = COMMITMENT_BITS div 2"

datatype 'k fft_error =
    GroupMissingLastElement
  | InvalidBinaryToUsize
  | ParseBigIntError
  | CKzgError 'k
  | TooManyCoefficients

definition big_rem :: "int \<Rightarrow> int \<Rightarrow> ('e, int) res" where
  "big_rem a b = (if b = 0 then Inl (Panic ''attempt to divide by zero'') else Inr (a smod b))"

fun step_by_2 :: "'a list \<Rightarrow> 'a list" where
  "step_by_2 [] = []"
| "step_by_2 [x] = [x]"
| "step_by_2 (x # y # xs) = x # step_by_2 xs"

text \<open>
  The part of \<open>inner_fft\<close> after the recursive calls. The loops run over the indices of \<open>f_even\<close> and index the
  other list, which panics if it is shorter.
\<close>

definition fft_butterfly :: "int list \<Rightarrow> int list \<Rightarrow> int list \<Rightarrow> int \<Rightarrow> ('e, int list) res" where
  "fft_butterfly grp f_even f_odd prime =
     bindR (mapR (\<lambda>(g, f). big_rem (g * f) prime) (zip (take (length f_odd) grp) f_odd)) (\<lambda>group_mul_f_odd.
     bindR (mapR (\<lambda>i. bindR (vec_index f_even i) (\<lambda>e. bindR (vec_index group_mul_f_odd i) (\<lambda>m.
              big_rem (e + m) prime))) [0..<length f_even]) (\<lambda>first.
     bindR (mapR (\<lambda>i. bindR (vec_index f_even i) (\<lambda>e. bindR (vec_index group_mul_f_odd i) (\<lambda>m.
              big_rem (e - m + prime) prime))) [0..<length f_even]) (\<lambda>second.
       Inr (first @ second))))"

text \<open>The recursion does not end on an empty list; the value is then \<open>None\<close>.\<close>

partial_function (option) inner_fft :: "int list \<Rightarrow> int list \<Rightarrow> int \<Rightarrow> ('e, int list) res option" where
  "inner_fft coeffs grp prime =
     (if length coeffs = 1 then Some (Inr coeffs)
      else
        Option.bind (inner_fft (step_by_2 coeffs) (step_by_2 grp) prime) (\<lambda>r_even.
          case r_even of
            Inl e \<Rightarrow> Some (Inl e)
          | Inr f_even \<Rightarrow>
              Option.bind (inner_fft (step_by_2 (drop 1 coeffs)) (step_by_2 grp) prime) (\<lambda>r_odd.
                case r_odd of
                  Inl e \<Rightarrow> Some (Inl e)
                | Inr f_odd \<Rightarrow> Some (fft_butterfly grp f_even f_odd prime))))"

text \<open>The bits of a number: \<open>format!("{:0width$b}", i)\<close> and \<open>usize::from_str_radix(s, 2)\<close>.\<close>

function binary_digits :: "nat \<Rightarrow> string" where
  "binary_digits n =
     (if n < 2 then [if n = 0 then CHR ''0'' else CHR ''1'']
      else binary_digits (n div 2) @ [if even n then CHR ''0'' else CHR ''1''])"
  by pat_completeness auto
termination by (relation "measure id") auto

declare binary_digits.simps [simp del]

definition format_binary :: "nat \<Rightarrow> nat \<Rightarrow> string" where
  "format_binary width i =
     (let s = binary_digits i in replicate (width - length s) (CHR ''0'') @ s)"

fun parse_binary :: "nat \<Rightarrow> string \<Rightarrow> nat option" where
  "parse_binary acc [] = Some acc"
| "parse_binary acc (c # cs) =
     (if c = CHR ''0'' \<or> c = CHR ''1''
      then
        (let acc' = 2 * acc + (if c = CHR ''0'' then 0 else 1)
         in if acc' < u64_bound then parse_binary acc' cs else None)
      else None)"

definition usize_from_binary :: "string \<Rightarrow> nat option" where
  "usize_from_binary s = (if s = [] then None else parse_binary 0 s)"

function is_power_of_two :: "nat \<Rightarrow> bool" where
  "is_power_of_two n = (if n < 2 then n = 1 else if odd n then False else is_power_of_two (n div 2))"
  by pat_completeness auto
termination by (relation "measure id") auto

declare is_power_of_two.simps [simp del]

function trailing_zeros :: "nat \<Rightarrow> nat" where
  "trailing_zeros n = (if n = 0 then 64 else if odd n then 0 else Suc (trailing_zeros (n div 2)))"
  by pat_completeness auto
termination by (relation "measure id") auto

declare trailing_zeros.simps [simp del]

definition last_opt :: "'a list \<Rightarrow> 'a option" where
  "last_opt xs = (if xs = [] then None else Some (last xs))"

definition fft_group :: "nat \<Rightarrow> int \<Rightarrow> int \<Rightarrow> ('k fft_error, int list) res" where
  "fft_group n generator prime =
     foldR (\<lambda>grp _.
       bindR (ok_or GroupMissingLastElement (last_opt grp)) (\<lambda>l.
       bindR (big_rem (l * generator) prime) (\<lambda>x. Inr (grp @ [x])))) [1] [0..<n]"

definition bit_reverse_values :: "int list \<Rightarrow> nat \<Rightarrow> ('k fft_error, int list) res" where
  "bit_reverse_values values coeffs_len =
     (let width = trailing_zeros coeffs_len
      in bindR (mapR (\<lambda>i. ok_or InvalidBinaryToUsize (usize_from_binary (rev (format_binary width i))))
                 [0..<coeffs_len]) (\<lambda>perm.
         mapR (vec_index values) perm))"

definition fft :: "int list \<Rightarrow> int \<Rightarrow> int \<Rightarrow> bool \<Rightarrow> ('k fft_error, int list) res option" where
  "fft coeffs generator prime bit_reversed =
     (if coeffs = [] then Some (Inr [])
      else
        (case bindR (assert_that ''Length is not a power of two.'' (is_power_of_two (length coeffs))) (\<lambda>_.
              fft_group (length coeffs - 1) generator prime) of
           Inl e \<Rightarrow> Some (Inl e)
         | Inr grp \<Rightarrow>
             map_option (\<lambda>r. bindR r (\<lambda>values.
                 if bit_reversed then bit_reverse_values values (length coeffs) else Inr values))
               (inner_fft coeffs grp prime)))"

definition split_commitment :: "int \<Rightarrow> int \<times> int" where
  "split_commitment n =
     (let num = n AND (push_bit COMMITMENT_BITS 1 - 1);
          mask = push_bit COMMITMENT_BITS_MIDPOINT 1 - 1;
          low = num AND mask;
          high = drop_bit COMMITMENT_BITS_MIDPOINT num
      in (low, high))"

text \<open>\<open>to_bytes_be().1\<close> are the bytes of the magnitude.\<close>

definition to_bytes :: "int \<Rightarrow> nat \<Rightarrow> bytes" where
  "to_bytes x len =
     (let bs = to_bytes_be (nat \<bar>x\<bar>);
          padding = len - length bs
      in if padding > 0 then replicate padding 0 @ bs else bs)"

definition serialize_blob :: "int list \<Rightarrow> ('e, bytes) res" where
  "serialize_blob blob =
     bindR (assert_that ''Bad blob size.'' (length blob = FIELD_ELEMENTS_PER_BLOB)) (\<lambda>_.
       Inr (concat (map (\<lambda>x. to_bytes x BYTES_PER_FIELD_ELEMENT) blob)))"

definition resize :: "nat \<Rightarrow> 'a \<Rightarrow> 'a list \<Rightarrow> 'a list" where
  "resize n x xs = take n xs @ replicate (n - length xs) x"

definition polynomial_coefficients_to_blob :: "int list \<Rightarrow> ('k fft_error, bytes) res option" where
  "polynomial_coefficients_to_blob coefficients =
     (if length coefficients > FIELD_ELEMENTS_PER_BLOB then Some (Inl (Error TooManyCoefficients))
      else
        map_option (\<lambda>r. bindR r serialize_blob)
          (fft (resize FIELD_ELEMENTS_PER_BLOB 0 coefficients) BLOB_SUBGROUP_GENERATOR BLS_PRIME True))"

text \<open>
  The functions of \<open>c_kzg\<close>: \<open>Blob::from_bytes\<close>, the commitment of a blob under the trusted setup, its number of bytes
  and the number that its hexadecimal digits denote.
\<close>

record ('b, 'c, 'k) kzg_api =
  blob_from_bytes :: "bytes \<Rightarrow> 'k + 'b"
  blob_to_kzg_commitment :: "'b \<Rightarrow> 'k + 'c"
  commitment_len :: "'c \<Rightarrow> nat"
  commitment_hex_value :: "'c \<Rightarrow> int option"

definition kzg_result :: "'k + 'a \<Rightarrow> ('k fft_error, 'a) res" where
  "kzg_result r = (case r of Inl k \<Rightarrow> Inl (Error (CKzgError k)) | Inr a \<Rightarrow> Inr a)"

definition polynomial_coefficients_to_kzg_commitment ::
  "('b, 'c, 'k) kzg_api \<Rightarrow> int list \<Rightarrow> ('k fft_error, int \<times> int) res option" where
  "polynomial_coefficients_to_kzg_commitment api coefficients =
     map_option (\<lambda>r.
       bindR r (\<lambda>blob.
       bindR (kzg_result (blob_from_bytes api blob)) (\<lambda>b.
       bindR (kzg_result (blob_to_kzg_commitment api b)) (\<lambda>commitment_bytes.
       bindR (assert_that ''Bad commitment bytes length.'' (commitment_len api commitment_bytes = COMMITMENT_BYTES_LENGTH)) (\<lambda>_.
       bindR (ok_or ParseBigIntError (commitment_hex_value api commitment_bytes)) (\<lambda>kzg_bigint.
         Inr (split_commitment kzg_bigint)))))))
       (polynomial_coefficients_to_blob coefficients)"

subsection \<open>Limbs\<close>

datatype split_error = AssertionFailed string

definition split_BASE :: int where
  "split_BASE = 2 ^ 86"

definition split :: "felt \<Rightarrow> (split_error, felt list) res" where
  "split num =
     (let n0 = int num;
          (n1, d0) = (n0 div split_BASE, n0 mod split_BASE);
          (n2, d1) = (n1 div split_BASE, n1 mod split_BASE)
      in if \<bar>n2\<bar> \<ge> 2 ^ 127
         then Inl (Error (AssertionFailed ''remainder should be less than 2**127''))
         else Inr (map (\<lambda>x. nat (x mod int STARK_PRIME)) [d0, d1, n2]))"

subsection \<open>The manager\<close>

record kzg_manager =
  da_segment :: "felt list option"

definition KzgManager_default :: kzg_manager where
  "KzgManager_default = \<lparr> da_segment = None \<rparr>"

definition store_da_segment :: "felt list \<Rightarrow> kzg_manager \<Rightarrow> (string, kzg_manager) res" where
  "store_da_segment segment self =
     (if da_segment self \<noteq> None then Inl (Error ''DA segment is already initialized.'')
      else Inr (self \<lparr> da_segment := Some segment \<rparr>))"

section \<open>The transform evaluates the polynomial\<close>

definition poly_eval :: "int list \<Rightarrow> int \<Rightarrow> int" where
  "poly_eval cs x = (\<Sum>j < length cs. cs ! j * x ^ j)"

lemma poly_eval_Nil [simp]: "poly_eval [] x = 0"
  by (simp add: poly_eval_def)

lemma poly_eval_Cons [simp]: "poly_eval (c # cs) x = c + x * poly_eval cs x"
proof -
  have "poly_eval (c # cs) x = c + (\<Sum>j < length cs. cs ! j * x ^ Suc j)"
    unfolding poly_eval_def length_Cons sum.lessThan_Suc_shift by simp
  then show ?thesis by (simp add: poly_eval_def sum_distrib_left mult.left_commute)
qed

lemma poly_eval_halves:
  "poly_eval cs x = poly_eval (step_by_2 cs) (x * x) + x * poly_eval (step_by_2 (drop 1 cs)) (x * x)"
proof (induction cs rule: step_by_2.induct)
  case (3 c d cs)
  have "step_by_2 (d # cs) = d # step_by_2 (drop 1 cs)" by (cases cs) auto
  with 3 show ?case by (simp add: algebra_simps)
qed auto

lemma poly_eval_cong: "x mod p = y mod p \<Longrightarrow> poly_eval cs x mod p = poly_eval cs y mod p"
proof (induction cs)
  case (Cons c cs)
  have "(x * poly_eval cs x) mod p = (y * poly_eval cs y) mod p"
    using mod_mult_cong [OF Cons.prems Cons.IH [OF Cons.prems]] .
  then show ?case unfolding poly_eval_Cons by (rule mod_add_cong [OF refl])
qed simp

lemma length_step_by_2: "length (step_by_2 xs) = (length xs + 1) div 2"
  by (induction xs rule: step_by_2.induct) auto

lemma nth_step_by_2: "2 * i < length xs \<Longrightarrow> step_by_2 xs ! i = xs ! (2 * i)"
proof (induction xs arbitrary: i rule: step_by_2.induct)
  case (3 x y xs)
  then show ?case by (cases i) auto
qed auto

lemma set_step_by_2: "set (step_by_2 xs) \<subseteq> set xs"
  by (induction xs rule: step_by_2.induct) auto

lemma big_rem_nonneg [simp]: "0 \<le> a \<Longrightarrow> 0 < b \<Longrightarrow> big_rem a b = Inr (a mod b)"
  by (cases "a = 0")
    (simp_all add: big_rem_def signed_modulo_int_def signed_divide_int_def minus_mult_div_eq_mod mult.commute)

lemma zip_take_map:
  assumes "n \<le> length xs"
  shows "zip (take n xs) (map f [0..<n]) = map (\<lambda>i. (xs ! i, f i)) [0..<n]"
  using assms by (intro nth_equalityI) auto

lemma fft_butterfly_eq:
  fixes p :: int
  assumes "0 < p" and "n \<le> length grp" and "\<And>i. i < n \<Longrightarrow> 0 \<le> grp ! i"
    and "\<And>i. i < n \<Longrightarrow> 0 \<le> ev i" and "\<And>i. i < n \<Longrightarrow> 0 \<le> od i"
  shows "fft_butterfly grp (map ev [0..<n]) (map od [0..<n]) p =
    Inr (map (\<lambda>i. (ev i + grp ! i * od i) mod p) [0..<n] @ map (\<lambda>i. (ev i - grp ! i * od i) mod p) [0..<n])"
proof -
  let ?m = "\<lambda>i. (grp ! i * od i) mod p"
  have 1: "mapR (\<lambda>(g, f). big_rem (g * f) p) (zip (take (length (map od [0..<n])) grp) (map od [0..<n])) =
      (Inr (map ?m [0..<n]) :: ('e, int list) res)"
    using assms by (simp add: zip_take_map) (simp add: mapR_eq_Inr_iff list_all2_map2 list_all2_map1 list_all2_same)
  have 2: "mapR (\<lambda>i. bindR (vec_index (map ev [0..<n]) i) (\<lambda>e. bindR (vec_index (map ?m [0..<n]) i) (\<lambda>m. big_rem (e + m) p)))
      [0..<length (map ev [0..<n])] = (Inr (map (\<lambda>i. (ev i + grp ! i * od i) mod p) [0..<n]) :: ('e, int list) res)"
    using assms by (subst mapR_total [where g = "\<lambda>i. (ev i + grp ! i * od i) mod p"]) (auto simp: mod_simps)
  have pos: "0 \<le> ev i - ?m i + p" if "i < n" for i
    using assms(4) [OF that] pos_mod_bound [OF assms(1), of "grp ! i * od i"] by linarith
  have 3: "mapR (\<lambda>i. bindR (vec_index (map ev [0..<n]) i) (\<lambda>e. bindR (vec_index (map ?m [0..<n]) i) (\<lambda>m. big_rem (e - m + p) p)))
      [0..<length (map ev [0..<n])] = (Inr (map (\<lambda>i. (ev i - grp ! i * od i) mod p) [0..<n]) :: ('e, int list) res)"
    using assms(1) pos by (subst mapR_total [where g = "\<lambda>i. (ev i - grp ! i * od i) mod p"]) (auto simp: mod_simps)
  show ?thesis unfolding fft_butterfly_def 1 by (simp only: bindR_Inr 2 3)
qed

lemma poly_eval_nonneg: "\<forall>c \<in> set cs. 0 \<le> c \<Longrightarrow> 0 \<le> x \<Longrightarrow> 0 \<le> poly_eval cs x"
  by (induction cs) auto

lemma inner_fft_correct:
  fixes p w :: int
  assumes "length coeffs = 2 ^ k" and "length grp = 2 ^ k" and "1 < p"
    and "\<forall>c \<in> set coeffs. 0 \<le> c \<and> c < p"
    and "\<And>i. i < 2 ^ k \<Longrightarrow> 0 \<le> grp ! i \<and> grp ! i mod p = w ^ i mod p"
    and "0 < k \<Longrightarrow> w ^ (2 ^ (k - 1)) mod p = p - 1"
  shows "(inner_fft coeffs grp p :: ('e, int list) res option) = Some (Inr (map (\<lambda>i. poly_eval coeffs (w ^ i) mod p) [0..<2 ^ k]))"
  using assms
proof (induction k arbitrary: coeffs grp w)
  case 0
  then obtain c where "coeffs = [c]" by (auto simp: length_Suc_conv)
  with 0 show ?case by (subst inner_fft.simps) auto
next
  case (Suc k)
  let ?n = "2 ^ k :: nat" and ?E = "step_by_2 coeffs" and ?O = "step_by_2 (drop 1 coeffs)"
  have root: "w ^ ?n mod p = (- 1) mod p" using Suc.prems(3, 6) by (simp add: zmod_minus1)
  have len: "length ?E = ?n" "length ?O = ?n" "length (step_by_2 grp) = ?n"
    using Suc.prems(1, 2) by (simp_all add: length_step_by_2)
  have rng: "\<forall>c \<in> set ?E. 0 \<le> c \<and> c < p" "\<forall>c \<in> set ?O. 0 \<le> c \<and> c < p"
    using Suc.prems(4) set_step_by_2 [of coeffs] set_step_by_2 [of "drop 1 coeffs"] set_drop_subset [of 1 coeffs] by blast+
  have g: "0 \<le> step_by_2 grp ! i \<and> step_by_2 grp ! i mod p = (w * w) ^ i mod p" if "i < ?n" for i
    using Suc.prems(2) Suc.prems(5) [of "2 * i"] that by (simp add: nth_step_by_2 power_mult power2_eq_square)
  have r: "(w * w) ^ (2 ^ (k - 1)) mod p = p - 1" if "0 < k"
    using Suc.prems(6) that by (cases k) (simp_all add: power_mult power2_eq_square)
  let ?ev = "\<lambda>i. poly_eval ?E ((w * w) ^ i) mod p" and ?od = "\<lambda>i. poly_eval ?O ((w * w) ^ i) mod p"
  have ev: "(inner_fft ?E (step_by_2 grp) p :: ('e, int list) res option) = Some (Inr (map ?ev [0..<?n]))"
    using Suc.IH [OF len(1, 3) Suc.prems(3) rng(1) g r] by simp
  have od: "(inner_fft ?O (step_by_2 grp) p :: ('e, int list) res option) = Some (Inr (map ?od [0..<?n]))"
    using Suc.IH [OF len(2, 3) Suc.prems(3) rng(2) g r] by simp
  have at: "poly_eval coeffs x mod p = (?ev i + y * ?od i) mod p"
    if "x mod p = y mod p" "(y * y) mod p = ((w * w) ^ i) mod p" for x y i
  proof -
    have "poly_eval coeffs x mod p = poly_eval coeffs y mod p" by (rule poly_eval_cong) (rule that)
    also have "\<dots> = (poly_eval ?E (y * y) mod p + y * (poly_eval ?O (y * y) mod p)) mod p"
      by (subst poly_eval_halves) (rule mod_add_cong, simp_all add: mod_mult_right_eq)
    also have "\<dots> = (?ev i + y * ?od i) mod p"
      by (simp only: poly_eval_cong [OF that(2)])
    finally show ?thesis .
  qed
  have first: "(?ev i + grp ! i * ?od i) mod p = poly_eval coeffs (w ^ i) mod p" if "i < ?n" for i
  proof -
    have gi: "grp ! i mod p = w ^ i mod p" using Suc.prems(5) [of i] that by simp
    have "poly_eval coeffs (w ^ i) mod p = (?ev i + w ^ i * ?od i) mod p"
      by (rule at) (simp_all add: power_mult_distrib)
    also have "\<dots> = (?ev i + grp ! i * ?od i) mod p"
      by (metis gi mod_add_right_eq mod_mult_left_eq)
    finally show ?thesis by simp
  qed
  have second: "(?ev i - grp ! i * ?od i) mod p = poly_eval coeffs (w ^ (?n + i)) mod p" if "i < ?n" for i
  proof -
    have gi: "(- (w ^ i)) mod p = (- (grp ! i)) mod p"
      using Suc.prems(5) [of i] that mod_minus_eq [of "w ^ i" p] mod_minus_eq [of "grp ! i" p] by simp
    have "w ^ (?n + i) mod p = (- 1 * w ^ i) mod p"
      unfolding power_add using root by (metis mod_mult_left_eq)
    then have "poly_eval coeffs (w ^ (?n + i)) mod p = (?ev i + - (w ^ i) * ?od i) mod p"
      by (intro at) (simp_all add: power_mult_distrib)
    also have "\<dots> = (?ev i + - (grp ! i) * ?od i) mod p"
      by (metis gi mod_add_right_eq mod_mult_left_eq)
    finally show ?thesis by simp
  qed
  have "(fft_butterfly grp (map ?ev [0..<?n]) (map ?od [0..<?n]) p :: ('e, int list) res) =
      Inr (map (\<lambda>i. poly_eval coeffs (w ^ i) mod p) [0..<?n] @ map (\<lambda>i. poly_eval coeffs (w ^ (?n + i)) mod p) [0..<?n])"
    using Suc.prems(2, 3, 5) first second
    by (subst fft_butterfly_eq) (auto intro!: map_cong)
  moreover have "map h [0..<2 ^ Suc k] = map h [0..<?n] @ map (\<lambda>i. h (?n + i)) [0..<?n]" for h :: "nat \<Rightarrow> int"
    by (rule nth_equalityI) (auto simp: nth_append)
  ultimately show ?case
    using Suc.prems(1) by (subst inner_fft.simps) (simp add: ev od [unfolded One_nat_def] del: upt_Suc)
qed

section \<open>Powers of the generator and bit reversal\<close>

lemma fft_group_eq:
  assumes "1 < p" and "0 \<le> g"
  shows "\<exists>gs. (fft_group n g p :: ('k fft_error, int list) res) = Inr gs \<and> length gs = Suc n \<and> (\<forall>i \<le> n. gs ! i = g ^ i mod p)"
proof (induction n)
  case 0
  show ?case using assms by (simp add: fft_group_def)
next
  case (Suc n)
  then obtain gs where gs: "fft_group n g p = (Inr gs :: ('k fft_error, int list) res)" "length gs = Suc n"
    "\<forall>i \<le> n. gs ! i = g ^ i mod p" by blast
  have ne: "gs \<noteq> []" using gs(2) by auto
  have l: "last gs = g ^ n mod p" using gs(2, 3) ne by (simp add: last_conv_nth)
  from ne have "fft_group (Suc n) g p = (Inr (gs @ [g ^ n mod p * g mod p]) :: ('k fft_error, int list) res)"
    using gs(1) l assms unfolding fft_group_def by (simp add: foldR_append last_opt_def)
  moreover have "\<forall>i \<le> Suc n. (gs @ [g ^ n mod p * g mod p]) ! i = g ^ i mod p"
    using gs(2, 3) by (auto simp: nth_append le_Suc_eq mod_simps mult.commute)
  ultimately show ?case using gs(2) by (intro exI conjI) auto
qed

text \<open>The number with the \<open>k\<close> low bits of \<open>i\<close> in reverse order.\<close>

fun bit_reverse :: "nat \<Rightarrow> nat \<Rightarrow> nat" where
  "bit_reverse 0 i = 0"
| "bit_reverse (Suc k) i = i mod 2 * 2 ^ k + bit_reverse k (i div 2)"

definition digit :: "nat \<Rightarrow> char" where
  "digit i = (if even i then CHR ''0'' else CHR ''1'')"

fun bits :: "nat \<Rightarrow> nat \<Rightarrow> string" where
  "bits 0 i = []"
| "bits (Suc k) i = bits k (i div 2) @ [digit i]"

lemma bits_zero: "bits k 0 = replicate k (CHR ''0'')"
  by (induction k) (simp_all add: digit_def replicate_append_same)

lemma length_bits [simp]: "length (bits k i) = k"
  by (induction k arbitrary: i) auto

lemma length_binary_digits: "i < 2 ^ Suc k \<Longrightarrow> length (binary_digits i) \<le> Suc k"
proof (induction k arbitrary: i)
  case 0
  then show ?case by (subst binary_digits.simps) simp
next
  case (Suc k)
  then have "length (binary_digits (i div 2)) \<le> Suc k" by (intro Suc.IH) auto
  then show ?case by (subst binary_digits.simps) simp
qed

lemma format_binary_bits: "i < 2 ^ Suc k \<Longrightarrow> format_binary (Suc k) i = bits (Suc k) i"
proof (induction k arbitrary: i)
  case 0
  then show ?case by (simp add: format_binary_def binary_digits.simps [of i] digit_def) presburger
next
  case (Suc k)
  show ?case
  proof (cases "i < 2")
    case True
    then have "i div 2 = 0" by simp
    then show ?thesis
      using True by (simp add: format_binary_def binary_digits.simps [of i] bits_zero digit_def replicate_append_same
          del: bits.simps(2)) (auto simp: bits_zero less_2_cases_iff digit_def replicate_append_same)
  next
    case False
    have d: "i div 2 < 2 ^ Suc k" using Suc.prems by simp
    have "format_binary (Suc (Suc k)) i = format_binary (Suc k) (i div 2) @ [digit i]"
      using False length_binary_digits [OF d]
      by (simp add: format_binary_def binary_digits.simps [of i] digit_def Let_def)
    then show ?thesis using Suc.IH [OF d] by simp
  qed
qed

lemma parse_bits:
  assumes "(acc + 1) * 2 ^ k \<le> u64_bound"
  shows "parse_binary acc (rev (bits k i)) = Some (acc * 2 ^ k + bit_reverse k i)"
  using assms
proof (induction k arbitrary: acc i)
  case 0
  then show ?case by simp
next
  case (Suc k)
  let ?acc = "2 * acc + i mod 2"
  have acc: "?acc + 1 \<le> 2 * (acc + 1)" by simp
  have "(?acc + 1) * 2 ^ k \<le> u64_bound"
    by (rule le_trans [OF mult_le_mono1 [OF acc]]) (use Suc.prems in \<open>simp add: mult.assoc mult.left_commute\<close>)
  moreover from this have "?acc < u64_bound"
    using mult_le_mono2 [of 1 "2 ^ k" "?acc + 1"] by simp
  moreover have "(if digit i = CHR ''0'' then 0 else 1) = i mod 2" by (simp add: digit_def mod2_eq_if)
  ultimately show ?case
    using Suc.IH [of ?acc "i div 2"] by (simp add: Let_def digit_def algebra_simps split: if_splits)
qed

lemma bit_reverse_less: "bit_reverse k i < 2 ^ k"
proof (induction k arbitrary: i)
  case (Suc k)
  have "i mod 2 = 0 \<or> i mod 2 = 1" by auto
  with Suc [of "i div 2"] show ?case by auto
qed simp

lemma usize_from_reversed:
  assumes "i < 2 ^ k" and "k < 64"
  shows "usize_from_binary (rev (format_binary k i)) = Some (bit_reverse k i)"
proof (cases k)
  case 0
  then show ?thesis
    using assms by (simp add: format_binary_def binary_digits.simps [of 0] usize_from_binary_def u64_bound_def)
next
  case (Suc n)
  have "(0 + 1) * 2 ^ k \<le> u64_bound"
    using power_increasing [of k 64 "2 :: nat"] assms(2) by (simp add: u64_bound_def)
  from parse_bits [OF this, of i] show ?thesis
    using format_binary_bits [of i n] assms(1) Suc by (simp add: usize_from_binary_def)
qed

lemma trailing_zeros_power: "trailing_zeros (2 ^ k) = k"
  by (induction k) (subst trailing_zeros.simps, simp)+

lemma is_power_of_two_power: "is_power_of_two (2 ^ k)"
  by (induction k) (subst is_power_of_two.simps, simp)+

lemma fft_correct:
  fixes p g :: int
  assumes len: "length coeffs = 2 ^ k" and "k < 64" and p: "1 < p" and c: "\<forall>c \<in> set coeffs. 0 \<le> c \<and> c < p"
    and g: "0 \<le> g" and order: "0 < k \<Longrightarrow> g ^ (2 ^ (k - 1)) mod p = p - 1"
  shows "(fft coeffs g p bit_reversed :: ('k fft_error, int list) res option) =
    Some (Inr (map (\<lambda>i. poly_eval coeffs (g ^ (if bit_reversed then bit_reverse k i else i)) mod p) [0..<2 ^ k]))"
proof -
  obtain gs where gs: "fft_group (2 ^ k - 1) g p = (Inr gs :: ('k fft_error, int list) res)" "length gs = 2 ^ k"
    "\<forall>i \<le> 2 ^ k - 1. gs ! i = g ^ i mod p"
    using fft_group_eq [OF p g, of "2 ^ k - 1"] by auto
  have "0 \<le> gs ! i \<and> gs ! i mod p = g ^ i mod p" if "i < 2 ^ k" for i
  proof -
    have "i \<le> 2 ^ k - 1" using that by simp
    then show ?thesis using gs(3) p by simp
  qed
  from inner_fft_correct [OF len gs(2) p c this order]
  have run: "(inner_fft coeffs gs p :: ('k fft_error, int list) res option) =
      Some (Inr (map (\<lambda>i. poly_eval coeffs (g ^ i) mod p) [0..<2 ^ k]))" .
  have "bit_reverse_values (map h [0..<2 ^ k]) (2 ^ k) =
      (Inr (map (\<lambda>i. h (bit_reverse k i)) [0..<2 ^ k]) :: ('k fft_error, int list) res)" for h
  proof -
    have "mapR (\<lambda>i. ok_or InvalidBinaryToUsize (usize_from_binary (rev (format_binary k i)))) [0..<2 ^ k] =
        (Inr (map (bit_reverse k) [0..<2 ^ k]) :: ('k fft_error, nat list) res)"
      using assms(2) by (intro mapR_total) (simp add: usize_from_reversed)
    moreover have "mapR (vec_index (map h [0..<2 ^ k])) (map (bit_reverse k) [0..<2 ^ k]) =
        (Inr (map (\<lambda>i. h (bit_reverse k i)) [0..<2 ^ k]) :: ('k fft_error, int list) res)"
      by (subst mapR_total [where g = h]) (auto simp: bit_reverse_less)
    ultimately show ?thesis by (simp add: bit_reverse_values_def trailing_zeros_power)
  qed
  moreover have "coeffs \<noteq> []" using len by auto
  ultimately show ?thesis
    by (simp add: fft_def len is_power_of_two_power gs(1) [unfolded One_nat_def] run)
qed

section \<open>Blobs\<close>

fun square_mod :: "nat \<Rightarrow> int \<Rightarrow> int \<Rightarrow> int" where
  "square_mod 0 x p = x mod p"
| "square_mod (Suc n) x p = square_mod n (x * x mod p) p"

lemma square_mod_power: "square_mod n x p = x ^ (2 ^ n) mod p"
proof (induction n arbitrary: x)
  case (Suc n)
  have "(x * x mod p) ^ (2 ^ n) mod p = x ^ (2 ^ Suc n) mod p"
    by (simp add: power_mod power_mult power2_eq_square)
  with Suc show ?case by simp
qed simp

text \<open>
  The order of the generator: its square is taken eleven times. Each step gives the quotient and the remainder of
  a square by the modulus.
\<close>

lemma square_step:
  assumes "x * x = q * BLS_PRIME + r" and "0 \<le> r" and "r < BLS_PRIME"
  shows "square_mod (Suc n) x BLS_PRIME = square_mod n r BLS_PRIME"
  using assms by simp

lemma generator_square_1:
  "square_mod (Suc n)
     39033254847818212395286706435128746857159659164139250548781411570340225835782 BLS_PRIME =
   square_mod n
     49307615728544765012166121802278658070711169839041683575071795236746050763237 BLS_PRIME"
  by (rule square_step [where
        q = 29056346993850996498408613211046595192243508027277179240039304581442059905599]) code_simp+

lemma generator_square_2:
  "square_mod (Suc n)
     49307615728544765012166121802278658070711169839041683575071795236746050763237 BLS_PRIME =
   square_mod n
     22781213702924172180523978385542388841346373992886390990881355510284839737428 BLS_PRIME"
  by (rule square_step [where
        q = 46365984370699199490387537932779246691790987783203796165207256631841590439557]) code_simp+

lemma generator_square_3:
  "square_mod (Suc n)
     22781213702924172180523978385542388841346373992886390990881355510284839737428 BLS_PRIME =
   square_mod n
     4214636447306890335450803789410475782380792963881561516561680164772024173390 BLS_PRIME"
  by (rule square_step [where
        q = 9897492814699666225703588144736490092861041638969691344979563153664421763138]) code_simp+

lemma generator_square_4:
  "square_mod (Suc n)
     4214636447306890335450803789410475782380792963881561516561680164772024173390 BLS_PRIME =
   square_mod n
     36007022166693598376559747923784822035233416720563672082740011604939309541707 BLS_PRIME"
  by (rule square_step [where
        q = 338759681680566094384661421608725582014079238341167629848615681613431472761]) code_simp+

lemma generator_square_5:
  "square_mod (Suc n)
     36007022166693598376559747923784822035233416720563672082740011604939309541707 BLS_PRIME =
   square_mod n
     47309214877430199588914062438791732591241783999377560080318349803002842391998 BLS_PRIME"
  by (rule square_step [where
        q = 24725546030893419283650058338437031747284857013340151260074394014359783700027]) code_simp+

lemma generator_square_6:
  "square_mod (Suc n)
     47309214877430199588914062438791732591241783999377560080318349803002842391998 BLS_PRIME =
   square_mod n
     31519469946562159605140591558550197856588417350474800936898404023113662197331 BLS_PRIME"
  by (rule square_step [where
        q = 42683788624559304820678447170489061067855387984546907739320709598449179462321]) code_simp+

lemma generator_square_7:
  "square_mod (Suc n)
     31519469946562159605140591558550197856588417350474800936898404023113662197331 BLS_PRIME =
   square_mod n
     36581797046584068049060372878520385032448812009597153775348195406694427778894 BLS_PRIME"
  by (rule square_step [where
        q = 18946512905414557504371570029177993596326186137134313470805608426261485096859]) code_simp+

lemma generator_square_8:
  "square_mod (Suc n)
     36581797046584068049060372878520385032448812009597153775348195406694427778894 BLS_PRIME =
   square_mod n
     14788168760825820622209131888203028446852016562542525606630160374691593895118 BLS_PRIME"
  by (rule square_step [where
        q = 25521227035651289821428581224593977611479455108593087890288738081119609700086]) code_simp+

lemma generator_square_9:
  "square_mod (Suc n)
     14788168760825820622209131888203028446852016562542525606630160374691593895118 BLS_PRIME =
   square_mod n
     23674694431658770659612952115660802947967373701506253797663184111817857449850 BLS_PRIME"
  by (rule square_step [where
        q = 4170616673570918327606325064043322261829970076819436991364757318224184538698]) code_simp+

lemma generator_square_10:
  "square_mod (Suc n)
     23674694431658770659612952115660802947967373701506253797663184111817857449850 BLS_PRIME =
   square_mod n
     3465144826073652318776269530687742778270252468765361963008 BLS_PRIME"
  by (rule square_step [where
        q = 10689077936822400752933022887068862718368496949774884062459812111304843150884]) code_simp+

lemma generator_square_11:
  "square_mod (Suc n)
     3465144826073652318776269530687742778270252468765361963008 BLS_PRIME =
   square_mod n
     52435875175126190479447740508185965837690552500527637822603658699938581184512 BLS_PRIME"
  by (rule square_step [where
        q = 228988810152649578064853576960394133504]) code_simp+

lemmas generator_squares =
  generator_square_1 generator_square_2 generator_square_3 generator_square_4 generator_square_5 generator_square_6
  generator_square_7 generator_square_8 generator_square_9 generator_square_10 generator_square_11

lemma generator_order: "BLOB_SUBGROUP_GENERATOR ^ (2 ^ 11) mod BLS_PRIME = BLS_PRIME - 1"
proof -
  have "square_mod (Suc (Suc (Suc (Suc (Suc (Suc (Suc (Suc (Suc (Suc (Suc 0)))))))))))
      BLOB_SUBGROUP_GENERATOR BLS_PRIME = BLS_PRIME - 1"
    unfolding BLOB_SUBGROUP_GENERATOR_def generator_squares square_mod.simps(1) by code_simp
  moreover have "(11 :: nat) = Suc (Suc (Suc (Suc (Suc (Suc (Suc (Suc (Suc (Suc (Suc 0))))))))))" by simp
  ultimately show ?thesis by (simp only: square_mod_power)
qed

lemma BLS_PRIME_bounds: "1 < BLS_PRIME" "BLS_PRIME < 256 ^ 32" "0 \<le> BLOB_SUBGROUP_GENERATOR"
  by (simp_all add: BLS_PRIME_def BLOB_SUBGROUP_GENERATOR_def)

lemma poly_eval_zeros: "poly_eval (cs @ replicate n 0) x = poly_eval cs x"
proof (induction cs)
  case Nil
  show ?case by (induction n) auto
qed auto

lemma to_bytes_fixed: "0 \<le> x \<Longrightarrow> x < 256 ^ 32 \<Longrightarrow> to_bytes x 32 = fixed_be 32 (nat x)"
  using pad_to_bytes_be [of "nat x" 32]
  by (cases "length (to_bytes_be (nat x)) < 32") (simp_all add: to_bytes_def Let_def nat_less_iff)

text \<open>
  C13. The fast Fourier transform evaluates the polynomial. For \<open>2 ^ k\<close> coefficients in the field and a
  generator of order \<open>2 ^ k\<close>, the recursion ends without a panic, and entry \<open>i\<close> of the result is the value
  of the polynomial at the \<open>i\<close>-th power of the generator, or at the power whose exponent has the \<open>k\<close> bits
  of \<open>i\<close> reversed.
\<close>

theorem fft_evaluates:
  assumes "length coeffs = 2 ^ k" and "k < 64" and "1 < p" and "\<forall>c \<in> set coeffs. 0 \<le> c \<and> c < p"
    and "0 \<le> g" and "0 < k \<longrightarrow> g ^ (2 ^ (k - 1)) mod p = p - 1"
  shows "(fft coeffs g p bit_reversed :: ('k fft_error, int list) res option) =
    Some (Inr (map (\<lambda>i. (\<Sum>j < 2 ^ k. coeffs ! j * (g ^ (if bit_reversed then bit_reverse k i else i)) ^ j) mod p)
      [0..<2 ^ k]))"
  using fft_correct [OF assms(1-5)] assms(1, 6) by (simp add: poly_eval_def)

theorem fft_evaluates_witness:
  "fft [1, 2, 3, 4] 4 17 True = (Some (Inr [10, 15, 7, 6]) :: (unit fft_error, int list) res option)"
proof -
  have "(fft [1, 2, 3, 4] 4 17 True :: (unit fft_error, int list) res option) =
    Some (Inr (map (\<lambda>i. (\<Sum>j < 2 ^ 2. [1, 2, 3, 4] ! j * (4 ^ bit_reverse 2 i) ^ j) mod 17) [0..<2 ^ 2]))"
    using fft_evaluates [of "[1, 2, 3, 4]" 2 17 4 True] by simp
  also have "map (\<lambda>i. (\<Sum>j < 2 ^ 2. [1, 2, 3, 4] ! j * (4 ^ bit_reverse 2 i) ^ j) mod 17) [0..<2 ^ 2] = [10, 15, 7, 6 :: int]"
    by code_simp
  finally show ?thesis .
qed

text \<open>
  C35. The blob of at most 4096 coefficients in the scalar field lists, each in 32 big-endian bytes,
  the values of their polynomial at the 4096 powers of the generator, in bit-reversed order. More
  coefficients are rejected.
\<close>

theorem blob_of_coefficients:
  assumes "\<forall>c \<in> set coefficients. 0 \<le> c \<and> c < BLS_PRIME"
  shows "(polynomial_coefficients_to_blob coefficients :: ('k fft_error, bytes) res option) =
    Some (if 4096 < length coefficients then Inl (Error TooManyCoefficients)
          else Inr (concat (map (\<lambda>i. fixed_be 32 (nat (poly_eval coefficients
            (BLOB_SUBGROUP_GENERATOR ^ bit_reverse 12 i) mod BLS_PRIME))) [0..<4096])))"
proof (cases "4096 < length coefficients")
  case True
  then show ?thesis by (simp add: polynomial_coefficients_to_blob_def FIELD_ELEMENTS_PER_BLOB_def)
next
  case False
  let ?cs = "resize FIELD_ELEMENTS_PER_BLOB 0 coefficients"
  have cs: "?cs = coefficients @ replicate (4096 - length coefficients) 0"
    using False by (simp add: resize_def FIELD_ELEMENTS_PER_BLOB_def)
  then have len: "length ?cs = 2 ^ 12" using False by simp
  have rng: "\<forall>c \<in> set ?cs. 0 \<le> c \<and> c < BLS_PRIME"
    using assms BLS_PRIME_bounds(1) by (auto simp: cs)
  let ?v = "\<lambda>i. poly_eval coefficients (BLOB_SUBGROUP_GENERATOR ^ bit_reverse 12 i) mod BLS_PRIME"
  have "(fft ?cs BLOB_SUBGROUP_GENERATOR BLS_PRIME True :: ('k fft_error, int list) res option) =
      Some (Inr (map ?v [0..<2 ^ 12]))"
    using fft_correct [OF len _ BLS_PRIME_bounds(1) rng BLS_PRIME_bounds(3), where bit_reversed = True] generator_order
    by (simp add: cs poly_eval_zeros)
  moreover have "to_bytes (?v i) 32 = fixed_be 32 (nat (?v i))" for i
  proof (rule to_bytes_fixed)
    show "?v i < 256 ^ 32"
      by (rule less_trans [OF pos_mod_bound]) (use BLS_PRIME_bounds in auto)
  qed (use BLS_PRIME_bounds in simp)
  ultimately show ?thesis
    using False by (simp add: polynomial_coefficients_to_blob_def serialize_blob_def FIELD_ELEMENTS_PER_BLOB_def
        BYTES_PER_FIELD_ELEMENT_def comp_def del: upt.simps)
qed

theorem blob_of_coefficients_witness:
  "(polynomial_coefficients_to_blob [5] :: (unit fft_error, bytes) res option) =
     Some (Inr (concat (replicate 4096 (fixed_be 32 5))))"
proof -
  have "\<forall>c \<in> set [5]. 0 \<le> c \<and> c < BLS_PRIME" and "5 mod BLS_PRIME = 5"
    by (simp_all add: BLS_PRIME_def)
  then show ?thesis
    using blob_of_coefficients [of "[5]"] by (simp add: map_replicate_const del: upt.simps)
qed

text \<open>
  C36. A commitment is split into two halves of 192 bits, the low one first, and no bit of its 384 is lost.
\<close>

theorem split_commitment_halves:
  "case split_commitment n of (low, high) \<Rightarrow>
     0 \<le> low \<and> low < 2 ^ 192 \<and> 0 \<le> high \<and> high < 2 ^ 192 \<and> low + 2 ^ 192 * high = n mod 2 ^ 384"
proof -
  have mask: "m AND (push_bit k 1 - 1) = m mod 2 ^ k" for m :: int and k
    by (simp add: push_bit_eq_mult flip: mask_eq_exp_minus_1 take_bit_eq_mask take_bit_eq_mod)
  have "split_commitment n = (n mod 2 ^ 384 mod 2 ^ 192, n mod 2 ^ 384 div 2 ^ 192)"
    unfolding split_commitment_def mask Let_def drop_bit_eq_div COMMITMENT_BITS_MIDPOINT_def COMMITMENT_BITS_def by simp
  moreover have "n mod 2 ^ 384 div 2 ^ 192 < 2 ^ 192"
    using pos_mod_bound [of "2 ^ 384" n] by (simp add: div_less_iff_less_mult flip: power_add)
  ultimately show ?thesis by (simp add: pos_imp_zdiv_nonneg_iff)
qed

lemma three_limbs: "x = x mod b + x div b mod b * b + x div b div b * (b * b)" for x b :: nat
proof -
  have "x = (x div b div b * b + x div b mod b) * b + x mod b" by simp
  then show ?thesis by (simp only: distrib_left distrib_right ac_simps)
qed

text \<open>
  C37. A field element is split into three limbs in base \<open>2 ^ 86\<close>, always successfully, and the limbs
  denote the element.
\<close>

theorem split_limbs:
  assumes "felt_wf x"
  shows "\<exists>d0 d1 d2. split x = Inr [d0, d1, d2] \<and> x = d0 + d1 * 2 ^ 86 + d2 * 2 ^ 172 \<and>
    d0 < 2 ^ 86 \<and> d1 < 2 ^ 86 \<and> d2 < 2 ^ 80"
proof -
  let ?B = "2 ^ 86 :: nat"
  have top: "x div ?B div ?B < 2 ^ 80"
  proof -
    have "x < 2 ^ 80 * ?B * ?B" using assms by (simp add: felt_wf_def STARK_PRIME_def)
    then show ?thesis by (simp only: less_mult_imp_div_less)
  qed
  have small: "2 ^ 86 < STARK_PRIME" "2 ^ 80 < STARK_PRIME" by (simp_all add: STARK_PRIME_def)
  have limb: "nat (int d mod int STARK_PRIME) = d" if "d < ?B" for d
    using that small(1) by (simp flip: zmod_int)
  have "int x div split_BASE = int (x div ?B)" "int x mod split_BASE = int (x mod ?B)"
    "int (x div ?B) div split_BASE = int (x div ?B div ?B)" "int (x div ?B) mod split_BASE = int (x div ?B mod ?B)"
    by (simp_all add: split_BASE_def zdiv_int zmod_int)
  moreover have "x div ?B div ?B < ?B" "int (x div ?B div ?B) < 2 ^ 127"
    using top by simp_all
  ultimately have "split x = Inr [x mod ?B, x div ?B mod ?B, x div ?B div ?B]"
    by (simp add: split_def Let_def limb del: of_nat_div of_nat_mod)
  moreover have "x = x mod ?B + x div ?B mod ?B * 2 ^ 86 + x div ?B div ?B * 2 ^ 172"
    using three_limbs [of x ?B] by (simp only: flip: power_add) simp
  ultimately show ?thesis using top by (intro exI conjI) auto
qed

theorem split_limbs_witness:
  "\<exists>d0 d1 d2. split (1 + 2 * 2 ^ 86 + 3 * 2 ^ 172) = Inr [d0, d1, d2] \<and>
     1 + 2 * 2 ^ 86 + 3 * 2 ^ 172 = d0 + d1 * 2 ^ 86 + d2 * 2 ^ 172 \<and> d0 < 2 ^ 86 \<and> d1 < 2 ^ 86 \<and> d2 < 2 ^ 80"
  by (rule split_limbs) (simp add: felt_wf_def STARK_PRIME_def)

end
