(* ===== verification/Vm.thy ===== *)
theory Vm
  imports Bytes
begin

text \<open>
  The part of the Cairo virtual machine that the operating system calls. The machine is not part of the sources: its
  memory, its segments and its errors are fields of the record \<open>vm_api\<close>, which every definition that
  touches the machine takes as a parameter. \<open>vm_laws\<close> collects what the code relies on: a memory cell is written at most
  once, a write changes no other cell, and a new segment is empty. It is stated with two views of a machine, the contents
  of its cells and the set of its segments without validation rules. \<open>toy_api\<close> is a concrete machine that satisfies the laws; the examples of
  the development run on it.

  Addresses and cell values are the data types \<open>Relocatable\<close> and \<open>MaybeRelocatable\<close>. Code that changes the machine and can fail is
  a function of type \<open>prog\<close> from a state to a result and the state after it; the state is kept when
  the code fails, because some callers go on.
\<close>

section \<open>Addresses and values\<close>

record relocatable =
  segment_index :: int
  offset :: nat

datatype maybe_relocatable = IntV felt | RelocatableValue relocatable

definition rel :: "int \<Rightarrow> nat \<Rightarrow> relocatable" where
  "rel s n = \<lparr> segment_index = s, offset = n \<rparr>"

text \<open>Decimal digits, as \<open>format!("{}", n)\<close> writes them.\<close>

function decimal :: "nat \<Rightarrow> string" where
  "decimal n =
     (if n < 10 then [char_of (48 + n)] else decimal (n div 10) @ [char_of (48 + n mod 10)])"
  by pat_completeness auto
termination by (relation "measure id") auto

declare decimal.simps [simp del]

definition show_relocatable :: "relocatable \<Rightarrow> string" where
  "show_relocatable a =
     (if segment_index a < 0 then ''-'' else []) @ decimal (nat \<bar>segment_index a\<bar>) @ '':'' @ decimal (offset a)"

section \<open>Programs with state\<close>

type_synonym ('s, 'e, 'a) prog = "'s \<Rightarrow> ('e, 'a) res \<times> 's"

definition retS :: "'a \<Rightarrow> ('s, 'e, 'a) prog" where
  "retS a s = (Inr a, s)"

definition bindS :: "('s, 'e, 'a) prog \<Rightarrow> ('a \<Rightarrow> ('s, 'e, 'b) prog) \<Rightarrow> ('s, 'e, 'b) prog" where
  "bindS m k s = (case m s of (Inl e, s') \<Rightarrow> (Inl e, s') | (Inr a, s') \<Rightarrow> k a s')"

definition liftS :: "('e, 'a) res \<Rightarrow> ('s, 'e, 'a) prog" where
  "liftS r s = (r, s)"

text \<open>The error conversion of the question mark operator.\<close>

definition map_errS :: "('e \<Rightarrow> 'f) \<Rightarrow> ('s, 'e, 'a) prog \<Rightarrow> ('s, 'f, 'a) prog" where
  "map_errS f m s = (case m s of (r, s') \<Rightarrow> (map_err f r, s'))"

text \<open>A program on a part of the state.\<close>

definition zoomS :: "('s \<Rightarrow> 'p) \<Rightarrow> ('p \<Rightarrow> 's \<Rightarrow> 's) \<Rightarrow> ('p, 'e, 'a) prog \<Rightarrow> ('s, 'e, 'a) prog" where
  "zoomS get put m s = (case m (get s) of (r, p) \<Rightarrow> (r, put p s))"

lemma prog_simps [simp]:
  "retS a s = (Inr a, s)"
  "bindS (retS a) k s = k a s"
  "bindS (liftS r) k s = (case r of Inl e \<Rightarrow> (Inl e, s) | Inr a \<Rightarrow> k a s)"
  "liftS r s = (r, s)"
  by (simp_all add: retS_def bindS_def liftS_def split: sum.split)

lemma bindS_Inr [simp]: "m s = (Inr a, s') \<Longrightarrow> bindS m k s = k a s'"
  by (simp add: bindS_def)

lemma bindS_Inl [simp]: "m s = (Inl e, s') \<Longrightarrow> bindS m k s = (Inl e, s')"
  by (simp add: bindS_def)

lemma bindS_assoc: "bindS (bindS m k) l = bindS m (\<lambda>a. bindS (k a) l)"
  by (simp add: bindS_def fun_eq_iff split: prod.split sum.split)

lemma map_errS_Inr [simp]: "m s = (Inr a, s') \<Longrightarrow> map_errS f m s = (Inr a, s')"
  by (simp add: map_errS_def map_err_def)

section \<open>The machine\<close>

text \<open>
  The errors \<open>MemoryError\<close>, \<open>MathError\<close> and \<open>VirtualMachineError\<close> of the machine are values of one type \<open>'x\<close>; \<open>of_math\<close>
  is the inclusion of the second in the first.
\<close>

record ('vm, 'x) vm_api =
  get_integer :: "'vm \<Rightarrow> relocatable \<Rightarrow> 'x + felt"
  get_relocatable :: "'vm \<Rightarrow> relocatable \<Rightarrow> 'x + relocatable"
  get_integer_range :: "'vm \<Rightarrow> relocatable \<Rightarrow> nat \<Rightarrow> 'x + felt list"
  insert_value :: "relocatable \<Rightarrow> maybe_relocatable \<Rightarrow> 'vm \<Rightarrow> ('x + unit) \<times> 'vm"
  load_data :: "relocatable \<Rightarrow> maybe_relocatable list \<Rightarrow> 'vm \<Rightarrow> ('x + relocatable) \<times> 'vm"
  add_memory_segment :: "'vm \<Rightarrow> relocatable \<times> 'vm"
  add_temporary_segment :: "'vm \<Rightarrow> relocatable \<times> 'vm"
  rel_add :: "relocatable \<Rightarrow> nat \<Rightarrow> 'x + relocatable"
  rel_sub :: "relocatable \<Rightarrow> relocatable \<Rightarrow> 'x + nat"
  segment_capacity :: nat
  of_math :: "'x \<Rightarrow> 'x"
  show_error :: "'x \<Rightarrow> string"

text \<open>The errors of hints: those the code creates, and those of the machine.\<close>

datatype 'x hint_error =
    AssertionFailedHint string
  | CustomHint string
  | SyscallErrorHint string
  | MachineHint 'x

definition of_vm :: "'x + 'a \<Rightarrow> ('x, 'a) res" where
  "of_vm r = (case r of Inl x \<Rightarrow> Inl (Error x) | Inr a \<Rightarrow> Inr a)"

definition add_offset :: "('vm, 'x) vm_api \<Rightarrow> relocatable \<Rightarrow> nat \<Rightarrow> ('x, relocatable) res" where
  "add_offset api a n = of_vm (rel_add api a n)"

definition insertS :: "('vm, 'x) vm_api \<Rightarrow> relocatable \<Rightarrow> maybe_relocatable \<Rightarrow> ('vm, 'x, unit) prog" where
  "insertS api a v vm = (case insert_value api a v vm of (r, vm') \<Rightarrow> (of_vm r, vm'))"

definition loadS :: "('vm, 'x) vm_api \<Rightarrow> relocatable \<Rightarrow> maybe_relocatable list \<Rightarrow> ('vm, 'x, relocatable) prog" where
  "loadS api a vs vm = (case load_data api a vs vm of (r, vm') \<Rightarrow> (of_vm r, vm'))"

definition segmentS :: "('vm, 'x) vm_api \<Rightarrow> ('vm, 'e, relocatable) prog" where
  "segmentS api vm = (case add_memory_segment api vm of (a, vm') \<Rightarrow> (Inr a, vm'))"

definition temp_segmentS :: "('vm, 'x) vm_api \<Rightarrow> ('vm, 'e, relocatable) prog" where
  "temp_segmentS api vm = (case add_temporary_segment api vm of (a, vm') \<Rightarrow> (Inr a, vm'))"

section \<open>What the code relies on\<close>

definition shift :: "relocatable \<Rightarrow> nat \<Rightarrow> relocatable" where
  "shift a n = a \<lparr> offset := offset a + n \<rparr>"

type_synonym memory = "relocatable \<Rightarrow> maybe_relocatable option"

text \<open>The memory after the values \<open>vs\<close> were written from the address \<open>a\<close> on.\<close>

fun write_all :: "relocatable \<Rightarrow> maybe_relocatable list \<Rightarrow> memory \<Rightarrow> memory" where
  "write_all a [] m = m"
| "write_all a (v # vs) m = write_all (shift a 1) vs (m (a \<mapsto> v))"

text \<open>
  What the code relies on in the machine. A cell is written at most once: \<open>cells\<close> are the values in memory. \<open>segs\<close> are the segments
  without validation rules, which excludes the segments of builtins that check what is written. Only in these, and only below the number
  of cells that a segment can hold, is a write to a free cell known to succeed; elsewhere the machine may refuse it. A new segment is
  empty and has no rules.
\<close>

definition vm_laws ::
  "('vm, 'x) vm_api \<Rightarrow> ('vm \<Rightarrow> memory) \<Rightarrow> ('vm \<Rightarrow> int set) \<Rightarrow> bool" where
  "vm_laws api cells segs \<longleftrightarrow>
     (\<forall>vm a x. get_integer api vm a = Inr x \<longleftrightarrow> cells vm a = Some (IntV x)) \<and>
     (\<forall>vm a x. get_relocatable api vm a = Inr x \<longleftrightarrow> cells vm a = Some (RelocatableValue x)) \<and>
     (\<forall>vm a n xs. get_integer_range api vm a n = Inr xs \<longleftrightarrow>
        length xs = n \<and> (\<forall>i < n. cells vm (shift a i) = Some (IntV (xs ! i)))) \<and>
     (\<forall>vm a v. segment_index a \<in> segs vm \<and> offset a < segment_capacity api \<and> cells vm a \<in> {None, Some v} \<longrightarrow>
        (\<exists>vm'. insert_value api a v vm = (Inr (), vm') \<and> cells vm' = (cells vm)(a \<mapsto> v) \<and> segs vm' = segs vm)) \<and>
     (\<forall>vm a vs. segment_index a \<in> segs vm \<and> offset a + length vs \<le> segment_capacity api \<and>
          (\<forall>i < length vs. cells vm (shift a i) = None) \<longrightarrow>
        (\<exists>vm'. load_data api a vs vm = (Inr (shift a (length vs)), vm') \<and>
           cells vm' = write_all a vs (cells vm) \<and> segs vm' = segs vm)) \<and>
     (\<forall>vm. \<exists>s vm'. add_memory_segment api vm = (rel s 0, vm') \<and> s \<notin> segs vm \<and> (\<forall>n. cells vm (rel s n) = None) \<and>
        cells vm' = cells vm \<and> segs vm' = insert s (segs vm)) \<and>
     (\<forall>vm. \<exists>s vm'. add_temporary_segment api vm = (rel s 0, vm') \<and> s \<notin> segs vm \<and> (\<forall>n. cells vm (rel s n) = None) \<and>
        cells vm' = cells vm \<and> segs vm' = insert s (segs vm)) \<and>
     segment_capacity api < u64_bound \<and>
     (\<forall>a n. offset a + n < u64_bound \<longrightarrow> rel_add api a n = Inr (shift a n)) \<and>
     (\<forall>a b. segment_index a = segment_index b \<and> offset b \<le> offset a \<longrightarrow> rel_sub api a b = Inr (offset a - offset b)) \<and>
     (\<forall>vm a v vm'. insert_value api a v vm = (Inr (), vm') \<longrightarrow>
        cells vm a \<in> {None, Some v} \<and> cells vm' = (cells vm)(a \<mapsto> v) \<and> segs vm' = segs vm) \<and>
     (\<forall>vm a vs b vm'. load_data api a vs vm = (Inr b, vm') \<longrightarrow>
        b = shift a (length vs) \<and> (\<forall>i < length vs. cells vm (shift a i) \<in> {None, Some (vs ! i)}) \<and>
        cells vm' = write_all a vs (cells vm) \<and> segs vm' = segs vm) \<and>
     (\<forall>a n b. rel_add api a n = Inr b \<longrightarrow> b = shift a n)"

text \<open>The single laws.\<close>

lemma vm_get_integer:
  assumes "vm_laws api cells segs"
  shows "get_integer api vm a = Inr x \<longleftrightarrow> cells vm a = Some (IntV x)"
  using assms [unfolded vm_laws_def, THEN conjunct1] by blast

lemma vm_get_relocatable:
  assumes "vm_laws api cells segs"
  shows "get_relocatable api vm a = Inr y \<longleftrightarrow> cells vm a = Some (RelocatableValue y)"
  using assms [unfolded vm_laws_def, THEN conjunct2, THEN conjunct1] by blast

lemma vm_get_integer_range:
  assumes "vm_laws api cells segs"
  shows "get_integer_range api vm a n = Inr xs \<longleftrightarrow>
      length xs = n \<and> (\<forall>i < n. cells vm (shift a i) = Some (IntV (xs ! i)))"
  using assms [unfolded vm_laws_def, THEN conjunct2, THEN conjunct2, THEN conjunct1] by blast

lemma vm_insert_value:
  assumes "vm_laws api cells segs"
  shows "segment_index a \<in> segs vm \<Longrightarrow> offset a < segment_capacity api \<Longrightarrow> cells vm a \<in> {None, Some v} \<Longrightarrow>
      \<exists>vm'. insert_value api a v vm = (Inr (), vm') \<and> cells vm' = (cells vm)(a \<mapsto> v) \<and> segs vm' = segs vm"
  using assms [unfolded vm_laws_def, THEN conjunct2, THEN conjunct2, THEN conjunct2, THEN conjunct1] by blast

lemma vm_load_data:
  assumes "vm_laws api cells segs"
  shows "segment_index a \<in> segs vm \<Longrightarrow> offset a + length vs \<le> segment_capacity api \<Longrightarrow>
      \<forall>i < length vs. cells vm (shift a i) = None \<Longrightarrow>
      \<exists>vm'. load_data api a vs vm = (Inr (shift a (length vs)), vm') \<and> cells vm' = write_all a vs (cells vm) \<and> segs vm' = segs vm"
  using assms [unfolded vm_laws_def, THEN conjunct2, THEN conjunct2, THEN conjunct2, THEN conjunct2, THEN conjunct1] by blast

lemma vm_add_memory_segment:
  assumes "vm_laws api cells segs"
  shows "\<exists>s vm'. add_memory_segment api vm = (rel s 0, vm') \<and> s \<notin> segs vm \<and> (\<forall>n. cells vm (rel s n) = None) \<and>
      cells vm' = cells vm \<and> segs vm' = insert s (segs vm)"
  using assms [unfolded vm_laws_def, THEN conjunct2, THEN conjunct2, THEN conjunct2, THEN conjunct2, THEN conjunct2, THEN conjunct1] by blast

lemma vm_add_temporary_segment:
  assumes "vm_laws api cells segs"
  shows "\<exists>s vm'. add_temporary_segment api vm = (rel s 0, vm') \<and> s \<notin> segs vm \<and> (\<forall>n. cells vm (rel s n) = None) \<and>
      cells vm' = cells vm \<and> segs vm' = insert s (segs vm)"
  using assms [unfolded vm_laws_def, THEN conjunct2, THEN conjunct2, THEN conjunct2, THEN conjunct2, THEN conjunct2, THEN conjunct2, THEN conjunct1] by blast

lemma vm_capacity:
  assumes "vm_laws api cells segs"
  shows "segment_capacity api < u64_bound"
  using assms [unfolded vm_laws_def, THEN conjunct2, THEN conjunct2, THEN conjunct2, THEN conjunct2, THEN conjunct2, THEN conjunct2, THEN conjunct2, THEN conjunct1] by blast

lemma vm_rel_add:
  assumes "vm_laws api cells segs"
  shows "offset a + k < u64_bound \<Longrightarrow> rel_add api a k = Inr (shift a k)"
  using assms [unfolded vm_laws_def, THEN conjunct2, THEN conjunct2, THEN conjunct2, THEN conjunct2, THEN conjunct2, THEN conjunct2, THEN conjunct2, THEN conjunct2, THEN conjunct1] by blast

lemma vm_rel_sub:
  assumes "vm_laws api cells segs"
  shows "segment_index a = segment_index b \<Longrightarrow> offset b \<le> offset a \<Longrightarrow> rel_sub api a b = Inr (offset a - offset b)"
  using assms [unfolded vm_laws_def, THEN conjunct2, THEN conjunct2, THEN conjunct2, THEN conjunct2, THEN conjunct2, THEN conjunct2, THEN conjunct2, THEN conjunct2, THEN conjunct2, THEN conjunct1] by blast

lemma vm_insert_value_Inr:
  assumes "vm_laws api cells segs"
  shows "insert_value api a v vm = (Inr (), vm') \<Longrightarrow>
      cells vm a \<in> {None, Some v} \<and> cells vm' = (cells vm)(a \<mapsto> v) \<and> segs vm' = segs vm"
  using assms [unfolded vm_laws_def, THEN conjunct2, THEN conjunct2, THEN conjunct2, THEN conjunct2, THEN conjunct2, THEN conjunct2, THEN conjunct2, THEN conjunct2, THEN conjunct2, THEN conjunct2, THEN conjunct1] by blast

lemma vm_load_data_Inr:
  assumes "vm_laws api cells segs"
  shows "load_data api a vs vm = (Inr b, vm') \<Longrightarrow>
      b = shift a (length vs) \<and> (\<forall>i < length vs. cells vm (shift a i) \<in> {None, Some (vs ! i)}) \<and>
      cells vm' = write_all a vs (cells vm) \<and> segs vm' = segs vm"
  using assms [unfolded vm_laws_def, THEN conjunct2, THEN conjunct2, THEN conjunct2, THEN conjunct2, THEN conjunct2, THEN conjunct2, THEN conjunct2, THEN conjunct2, THEN conjunct2, THEN conjunct2, THEN conjunct2, THEN conjunct1] by blast

lemma vm_rel_add_Inr:
  assumes "vm_laws api cells segs"
  shows "rel_add api a k = Inr b \<Longrightarrow> b = shift a k"
  using assms [unfolded vm_laws_def, THEN conjunct2, THEN conjunct2, THEN conjunct2, THEN conjunct2, THEN conjunct2, THEN conjunct2, THEN conjunct2, THEN conjunct2, THEN conjunct2, THEN conjunct2, THEN conjunct2, THEN conjunct2] by blast

lemma shift_simps [simp]:
  "segment_index (shift a n) = segment_index a" "offset (shift a n) = offset a + n" "shift a 0 = a"
  "shift (shift a m) n = shift a (m + n)" "shift a m = shift a n \<longleftrightarrow> m = n"
  "segment_index (rel s n) = s" "offset (rel s n) = n" "shift (rel s m) n = rel s (m + n)"
  by (cases a; simp add: shift_def rel_def)+

lemma write_all_other:
  "(\<And>i. i < length vs \<Longrightarrow> b \<noteq> shift a i) \<Longrightarrow> write_all a vs m b = m b"
proof (induction vs arbitrary: a m)
  case (Cons v vs)
  have "b \<noteq> shift (shift a 1) i" if "i < length vs" for i
    using Cons.prems [of "Suc i"] that by simp
  moreover have "b \<noteq> a" using Cons.prems [of 0] by simp
  ultimately show ?case using Cons.IH [of "shift a 1"] by simp
qed simp

lemma write_all_at:
  "i < length vs \<Longrightarrow> write_all a vs m (shift a i) = Some (vs ! i)"
proof (induction vs arbitrary: a m i)
  case (Cons v vs)
  show ?case
  proof (cases i)
    case 0
    have "write_all (shift a 1) vs (m(a \<mapsto> v)) a = (m(a \<mapsto> v)) a"
      using shift_simps(5) [of a 0] by (intro write_all_other) (metis Suc_neq_Zero add.commute plus_1_eq_Suc shift_simps(3,4))
    with 0 show ?thesis by simp
  next
    case (Suc j)
    then show ?thesis using Cons.IH [of j "shift a 1"] Cons.prems by simp
  qed
qed simp

section \<open>A concrete machine\<close>

record toy_vm =
  toy_cells :: memory
  toy_next :: nat
  toy_temp :: nat

definition toy_capacity :: nat where
  "toy_capacity = 2 ^ 32"

definition toy_segs :: "toy_vm \<Rightarrow> int set" where
  "toy_segs vm = {- int (toy_temp vm)..<int (toy_next vm)}"

definition toy_mem :: "toy_vm \<Rightarrow> memory" where
  "toy_mem vm a = (if segment_index a \<in> toy_segs vm then toy_cells vm a else None)"

definition toy_insert :: "relocatable \<Rightarrow> maybe_relocatable \<Rightarrow> toy_vm \<Rightarrow> (string + unit) \<times> toy_vm" where
  "toy_insert a v vm =
     (if segment_index a \<in> toy_segs vm \<and> offset a < toy_capacity \<and> (toy_mem vm a = None \<or> toy_mem vm a = Some v)
      then (Inr (), vm \<lparr> toy_cells := (toy_mem vm)(a \<mapsto> v) \<rparr>) else (Inl ''inconsistent memory'', vm))"

fun toy_load :: "relocatable \<Rightarrow> maybe_relocatable list \<Rightarrow> toy_vm \<Rightarrow> (string + relocatable) \<times> toy_vm" where
  "toy_load a [] vm = (Inr a, vm)"
| "toy_load a (v # vs) vm =
     (case toy_insert a v vm of (Inl e, vm') \<Rightarrow> (Inl e, vm') | (Inr _, vm') \<Rightarrow> toy_load (shift a 1) vs vm')"

fun is_int :: "maybe_relocatable option \<Rightarrow> bool" where
  "is_int (Some (IntV x)) = True"
| "is_int _ = False"

lemma is_int_iff: "is_int c \<longleftrightarrow> (\<exists>x. c = Some (IntV x))"
  by (cases c rule: is_int.cases) auto

definition toy_api :: "(toy_vm, string) vm_api" where
  "toy_api =
     \<lparr> get_integer = (\<lambda>vm a. case toy_mem vm a of Some (IntV x) \<Rightarrow> Inr x | _ \<Rightarrow> Inl ''expected integer''),
       get_relocatable = (\<lambda>vm a. case toy_mem vm a of Some (RelocatableValue x) \<Rightarrow> Inr x | _ \<Rightarrow> Inl ''expected relocatable''),
       get_integer_range = (\<lambda>vm a n.
         if list_all (\<lambda>i. is_int (toy_mem vm (shift a i))) [0..<n]
         then Inr (map (\<lambda>i. case toy_mem vm (shift a i) of Some (IntV x) \<Rightarrow> x | _ \<Rightarrow> 0) [0..<n])
         else Inl ''expected integers''),
       insert_value = toy_insert,
       load_data = toy_load,
       add_memory_segment = (\<lambda>vm.
         (rel (int (toy_next vm)) 0, vm \<lparr> toy_cells := toy_mem vm, toy_next := toy_next vm + 1 \<rparr>)),
       add_temporary_segment = (\<lambda>vm.
         (rel (- int (toy_temp vm) - 1) 0, vm \<lparr> toy_cells := toy_mem vm, toy_temp := toy_temp vm + 1 \<rparr>)),
       rel_add = (\<lambda>a n. if offset a + n < u64_bound then Inr (shift a n) else Inl ''offset overflow''),
       rel_sub = (\<lambda>a b. if segment_index a = segment_index b \<and> offset b \<le> offset a then Inr (offset a - offset b) else Inl ''subtraction''),
       segment_capacity = toy_capacity,
       of_math = id,
       show_error = id \<rparr>"

lemma toy_insert_ok:
  assumes "segment_index a \<in> toy_segs vm" and "offset a < toy_capacity" and "toy_mem vm a = None \<or> toy_mem vm a = Some v"
  shows "\<exists>vm'. toy_insert a v vm = (Inr (), vm') \<and> toy_mem vm' = (toy_mem vm)(a \<mapsto> v) \<and> toy_segs vm' = toy_segs vm"
proof -
  let ?vm = "vm \<lparr> toy_cells := (toy_mem vm)(a \<mapsto> v) \<rparr>"
  have segs: "toy_segs ?vm = toy_segs vm" by (simp add: toy_segs_def)
  have "toy_mem ?vm = (toy_mem vm)(a \<mapsto> v)"
    using assms(1) by (simp add: fun_eq_iff toy_mem_def segs)
  with segs assms show ?thesis by (simp add: toy_insert_def)
qed

lemma toy_load_ok:
  assumes "segment_index a \<in> toy_segs vm" and "offset a + length vs \<le> toy_capacity"
    and "\<forall>i < length vs. toy_mem vm (shift a i) = None"
  shows "\<exists>vm'. toy_load a vs vm = (Inr (shift a (length vs)), vm') \<and> toy_mem vm' = write_all a vs (toy_mem vm) \<and> toy_segs vm' = toy_segs vm"
  using assms
proof (induction vs arbitrary: a vm)
  case (Cons v vs)
  have "toy_mem vm a = None" using Cons.prems(3) by (metis length_greater_0_conv list.distinct(1) shift_simps(3))
  then obtain vm1 where vm1: "toy_insert a v vm = (Inr (), vm1)" "toy_mem vm1 = (toy_mem vm)(a \<mapsto> v)" "toy_segs vm1 = toy_segs vm"
    using toy_insert_ok [of a vm v] Cons.prems(1,2) by auto
  have "toy_mem vm1 (shift (shift a 1) i) = None" if "i < length vs" for i
    using Cons.prems(3) that vm1(2) shift_simps(5) [of a "Suc i" 0] by auto
  then show ?case
    using Cons.IH [of "shift a 1" vm1] Cons.prems(1,2) vm1 by (simp add: fun_upd_def)
qed simp

lemma toy_insert_Inr:
  assumes "toy_insert a v vm = (Inr (), vm')"
  shows "toy_mem vm a \<in> {None, Some v} \<and> toy_mem vm' = (toy_mem vm)(a \<mapsto> v) \<and> toy_segs vm' = toy_segs vm"
proof -
  have "segment_index a \<in> toy_segs vm" and "offset a < toy_capacity" and "toy_mem vm a = None \<or> toy_mem vm a = Some v"
    using assms by (auto simp: toy_insert_def split: if_splits)
  with toy_insert_ok [of a vm v] assms show ?thesis by auto
qed

lemma toy_load_Inr:
  assumes "toy_load a vs vm = (Inr b, vm')"
  shows "b = shift a (length vs) \<and> (\<forall>i < length vs. toy_mem vm (shift a i) \<in> {None, Some (vs ! i)}) \<and>
    toy_mem vm' = write_all a vs (toy_mem vm) \<and> toy_segs vm' = toy_segs vm"
  using assms
proof (induction vs arbitrary: a vm)
  case (Cons v vs)
  then obtain vm1 where vm1: "toy_insert a v vm = (Inr (), vm1)" "toy_load (shift a 1) vs vm1 = (Inr b, vm')"
    by (auto split: prod.splits sum.splits)
  note first = toy_insert_Inr [OF vm1(1)] and rest = Cons.IH [OF vm1(2)]
  have "toy_mem vm (shift a i) \<in> {None, Some ((v # vs) ! i)}" if "i < length (v # vs)" for i
  proof (cases i)
    case (Suc j)
    then have "toy_mem vm1 (shift a i) \<in> {None, Some (vs ! j)}" using rest that by simp
    moreover have "toy_mem vm1 (shift a i) = toy_mem vm (shift a i)"
      using first Suc shift_simps(5) [of a "Suc j" 0] by simp
    ultimately show ?thesis using Suc by simp
  qed (use first in simp)
  with first rest show ?case by (simp add: fun_upd_def)
qed simp

lemma toy_segment_ok:
  "toy_mem (vm \<lparr> toy_cells := toy_mem vm, toy_next := toy_next vm + 1 \<rparr>) = toy_mem vm"
  "toy_mem (vm \<lparr> toy_cells := toy_mem vm, toy_temp := toy_temp vm + 1 \<rparr>) = toy_mem vm"
  by (auto simp: toy_mem_def toy_segs_def fun_eq_iff)

lemma toy_laws: "vm_laws toy_api toy_mem toy_segs"
proof -
  have range: "get_integer_range toy_api vm a n = Inr xs \<longleftrightarrow>
      length xs = n \<and> (\<forall>i < n. toy_mem vm (shift a i) = Some (IntV (xs ! i)))" for vm a n xs
  proof
    assume r: "get_integer_range toy_api vm a n = Inr xs"
    then have ints: "\<forall>i\<in>{0..<n}. \<exists>x. toy_mem vm (shift a i) = Some (IntV x)"
      and xs: "xs = map (\<lambda>i. case toy_mem vm (shift a i) of Some (IntV x) \<Rightarrow> x | _ \<Rightarrow> 0) [0..<n]"
      by (simp_all add: toy_api_def is_int_iff list_all_iff split: if_splits)
    have "toy_mem vm (shift a i) = Some (IntV (xs ! i))" if "i < n" for i
      using ints that by (auto simp: xs dest!: bspec [of _ _ i])
    then show "length xs = n \<and> (\<forall>i < n. toy_mem vm (shift a i) = Some (IntV (xs ! i)))"
      by (simp add: xs)
  next
    assume "length xs = n \<and> (\<forall>i < n. toy_mem vm (shift a i) = Some (IntV (xs ! i)))"
    then show "get_integer_range toy_api vm a n = Inr xs"
      by (auto simp: toy_api_def is_int_iff list_all_iff intro!: nth_equalityI)
  qed
  have segs: "toy_segs (vm \<lparr> toy_cells := c, toy_next := toy_next vm + 1 \<rparr>) = insert (int (toy_next vm)) (toy_segs vm)"
    "toy_segs (vm \<lparr> toy_cells := c, toy_temp := toy_temp vm + 1 \<rparr>) = insert (- int (toy_temp vm) - 1) (toy_segs vm)" for vm c
    by (auto simp: toy_segs_def)
  have get: "get_integer toy_api vm a = Inr x \<longleftrightarrow> toy_mem vm a = Some (IntV x)"
    "get_relocatable toy_api vm a = Inr y \<longleftrightarrow> toy_mem vm a = Some (RelocatableValue y)" for vm a x y
    by (simp_all add: toy_api_def split: option.splits maybe_relocatable.splits)
  have fresh: "int (toy_next vm) \<notin> toy_segs vm" "- int (toy_temp vm) - 1 \<notin> toy_segs vm" for vm
    by (simp_all add: toy_segs_def)
  have add: "\<exists>s vm'. add_memory_segment toy_api vm = (rel s 0, vm') \<and> s \<notin> toy_segs vm \<and> (\<forall>n. toy_mem vm (rel s n) = None) \<and>
      toy_mem vm' = toy_mem vm \<and> toy_segs vm' = insert s (toy_segs vm)" for vm
    using fresh [of vm] segs [of vm] toy_segment_ok [of vm] by (auto simp: toy_api_def toy_mem_def [of vm])
  have temp: "\<exists>s vm'. add_temporary_segment toy_api vm = (rel s 0, vm') \<and> s \<notin> toy_segs vm \<and> (\<forall>n. toy_mem vm (rel s n) = None) \<and>
      toy_mem vm' = toy_mem vm \<and> toy_segs vm' = insert s (toy_segs vm)" for vm
    using fresh [of vm] segs [of vm] toy_segment_ok [of vm] by (auto simp: toy_api_def toy_mem_def [of vm])
  have "insert_value toy_api = toy_insert" "load_data toy_api = toy_load" by (simp_all add: toy_api_def)
  moreover have "segment_capacity toy_api = toy_capacity" "toy_capacity < u64_bound"
    by (simp_all add: toy_api_def toy_capacity_def u64_bound_def)
  ultimately show ?thesis
    unfolding vm_laws_def using toy_insert_ok toy_load_ok
    by (intro conjI allI impI get range add temp)
       (use toy_insert_Inr toy_load_Inr in \<open>auto simp: toy_api_def toy_mem_def split: if_splits\<close>)
qed

end
