(* ===== verification/Os_Output.thy ===== *)
theory Os_Output
  imports Vm
begin

text \<open>
  The output of a run of the operating system (\<open>io/output.rs\<close>): the header, the messages, the changes of contracts and
  classes, parsed from the field elements of the output segment.

  An iterator over the remaining elements is the list of them, and every function returns the rest. The counts in an
  output are passed to \<open>with_capacity\<close>, which panics when the memory cannot be reserved; how many entries can be
  reserved depends on the sizes of the entries and on the allocator and is a parameter.

  The layout is the one of the Cairo program whose output is read; \<open>encode_os_output\<close> writes it down. The theory shows
  that parsing inverts it, in both forms and in the one with KZG data, that a cut off output is rejected, and when
  parsing panics: on counts that cannot be reserved, and on KZG data that is missing or too large.
\<close>

section \<open>Definitions\<close>

datatype sn_os_error = CatchAll string

record contract_changes =
  addr :: felt
  nonce :: felt
  class_hash :: "felt option"
  storage_changes :: "(felt, felt) hash_map"

record starknet_os_output =
  initial_root :: felt
  final_root :: felt
  prev_block_number :: felt
  new_block_number :: felt
  prev_block_hash :: felt
  new_block_hash :: felt
  os_program_hash :: felt
  starknet_os_config_hash :: felt
  use_kzg_da :: felt
  full_output :: felt
  messages_to_l1 :: "felt list"
  messages_to_l2 :: "felt list"
  contracts :: "contract_changes list"
  classes :: "(felt, felt) hash_map"

definition PREVIOUS_MERKLE_UPDATE_OFFSET :: nat where "PREVIOUS_MERKLE_UPDATE_OFFSET = 0"
definition NEW_MERKLE_UPDATE_OFFSET :: nat where "NEW_MERKLE_UPDATE_OFFSET = 1"
definition PREV_BLOCK_NUMBER_OFFSET :: nat where "PREV_BLOCK_NUMBER_OFFSET = 2"
definition NEW_BLOCK_NUMBER_OFFSET :: nat where "NEW_BLOCK_NUMBER_OFFSET = 3"
definition PREV_BLOCK_HASH_OFFSET :: nat where "PREV_BLOCK_HASH_OFFSET = 4"
definition NEW_BLOCK_HASH_OFFSET :: nat where "NEW_BLOCK_HASH_OFFSET = 5"
definition OS_PROGRAM_HASH_OFFSET :: nat where "OS_PROGRAM_HASH_OFFSET = 6"
definition CONFIG_HASH_OFFSET :: nat where "CONFIG_HASH_OFFSET = 7"
definition USE_KZG_DA_OFFSET :: nat where "USE_KZG_DA_OFFSET = 8"
definition FULL_OUTPUT_OFFSET :: nat where "FULL_OUTPUT_OFFSET = 9"
definition HEADER_SIZE :: nat where "HEADER_SIZE = 10"
definition KZG_N_BLOBS_OFFSET :: nat where "KZG_N_BLOBS_OFFSET = 1"

lemmas output_offsets =
  PREVIOUS_MERKLE_UPDATE_OFFSET_def NEW_MERKLE_UPDATE_OFFSET_def PREV_BLOCK_NUMBER_OFFSET_def
  NEW_BLOCK_NUMBER_OFFSET_def PREV_BLOCK_HASH_OFFSET_def NEW_BLOCK_HASH_OFFSET_def OS_PROGRAM_HASH_OFFSET_def
  CONFIG_HASH_OFFSET_def USE_KZG_DA_OFFSET_def FULL_OUTPUT_OFFSET_def HEADER_SIZE_def KZG_N_BLOBS_OFFSET_def

definition next_or_fail :: "felt list \<Rightarrow> string \<Rightarrow> (sn_os_error, felt \<times> felt list) res" where
  "next_or_fail it item_name =
     (case it of
        [] \<Rightarrow> Inl (Error (CatchAll (''Could not read '' @ item_name @ '' field'')))
      | x # rest \<Rightarrow> Inr (x, rest))"

definition next_as_usize :: "felt list \<Rightarrow> string \<Rightarrow> (sn_os_error, nat \<times> felt list) res" where
  "next_as_usize it item_name =
     (case it of
        [] \<Rightarrow> Inl (Error (CatchAll (''Could not read '' @ item_name @ '' segment size'')))
      | x # rest \<Rightarrow>
          bindR (ok_or (CatchAll (item_name @ '' segment size is too large'')) (felt_to_u64 x)) (\<lambda>n. Inr (n, rest)))"

text \<open>
  The largest numbers of entries that can be reserved for the vector of contracts and for a map from felts to felts, and
  the two constructors that panic beyond them. A failed allocation, which aborts, is a panic as well.
\<close>

record capacity_limits =
  max_vec :: nat
  max_map :: nat

definition Vec_with_capacity :: "capacity_limits \<Rightarrow> nat \<Rightarrow> ('e, 'a list) res" where
  "Vec_with_capacity lim n = (if n \<le> max_vec lim then Inr [] else Inl (Panic ''capacity overflow''))"

definition HashMap_with_capacity :: "capacity_limits \<Rightarrow> nat \<Rightarrow> ('e, ('k, 'v) hash_map) res" where
  "HashMap_with_capacity lim n = (if n \<le> max_map lim then Inr [] else Inl (Panic ''Hash table capacity overflow''))"

text \<open>
  The loop over pairs of a key and a value: \<open>k\<close>, \<open>p\<close> and \<open>v\<close> name the items in errors. With a full output the previous
  value stands between the two and is skipped.
\<close>

primrec deserialize_pairs ::
  "string \<Rightarrow> string \<Rightarrow> string \<Rightarrow> felt \<Rightarrow> nat \<Rightarrow> nat \<Rightarrow> (felt, felt) hash_map \<Rightarrow> felt list
   \<Rightarrow> (sn_os_error, (felt, felt) hash_map \<times> felt list) res" where
  "deserialize_pairs k p v full i 0 m it = Inr (m, it)"
| "deserialize_pairs k p v full i (Suc n) m it =
     bindR (next_or_fail it (k @ '' #'' @ decimal i)) (\<lambda>(key, it).
     bindR (if full \<noteq> 0 then bindR (next_or_fail it (p @ '' #'' @ decimal i)) (\<lambda>(_, it). Inr it) else Inr it) (\<lambda>it.
     bindR (next_or_fail it (v @ '' #'' @ decimal i)) (\<lambda>(new_value, it).
       deserialize_pairs k p v full (Suc i) n (hm_insert key new_value m) it)))"

definition deserialize_da_changes ::
  "capacity_limits \<Rightarrow> felt list \<Rightarrow> nat \<Rightarrow> felt \<Rightarrow> (sn_os_error, (felt, felt) hash_map \<times> felt list) res" where
  "deserialize_da_changes lim it n_updates full =
     bindR (HashMap_with_capacity lim n_updates) (\<lambda>changes.
       deserialize_pairs ''contract change key'' ''contract change prev_value'' ''contract change new_value''
         full 0 n_updates changes it)"

definition deserialize_contract_state_inner ::
  "capacity_limits \<Rightarrow> felt list \<Rightarrow> felt \<Rightarrow> (sn_os_error, contract_changes \<times> felt list) res" where
  "deserialize_contract_state_inner lim it full =
     (let bound = u64_bound in
      bindR (next_or_fail it ''contract change addr'') (\<lambda>(a, it).
      bindR (next_or_fail it ''contract change value'') (\<lambda>(val, it).
        let (val, n_actual_updates) = (val div bound, val mod bound);
            (was_class_updated, new_state_nonce) = (val div bound, val mod bound)
        in
        bindR (if full \<noteq> 0
               then
                 bindR (next_or_fail it ''contract change prev_state.class_hash'') (\<lambda>(_, it).
                 bindR (next_or_fail it ''contract change new_state.class_hash'') (\<lambda>(c, it). Inr (Some c, it)))
               else if was_class_updated \<noteq> 0
               then bindR (next_or_fail it ''contract change new_state.class_hash'') (\<lambda>(c, it). Inr (Some c, it))
               else Inr (None, it)) (\<lambda>(new_state_class_hash, it).
        bindR (unwrap ''n_updates should be 64-bit by definition. Did you modify the parsing above?''
                 (felt_to_u64 n_actual_updates)) (\<lambda>n_actual_updates.
        bindR (deserialize_da_changes lim it n_actual_updates full) (\<lambda>(changes, it).
          Inr (\<lparr> addr = a, nonce = new_state_nonce, class_hash = new_state_class_hash, storage_changes = changes \<rparr>,
               it)))))))"

primrec deserialize_contracts ::
  "capacity_limits \<Rightarrow> felt \<Rightarrow> nat \<Rightarrow> contract_changes list \<Rightarrow> felt list
   \<Rightarrow> (sn_os_error, contract_changes list \<times> felt list) res" where
  "deserialize_contracts lim full 0 cs it = Inr (cs, it)"
| "deserialize_contracts lim full (Suc n) cs it =
     bindR (deserialize_contract_state_inner lim it full) (\<lambda>(c, it).
       deserialize_contracts lim full n (cs @ [c]) it)"

definition deserialize_contract_state ::
  "capacity_limits \<Rightarrow> felt list \<Rightarrow> felt \<Rightarrow> (sn_os_error, contract_changes list \<times> felt list) res" where
  "deserialize_contract_state lim it full =
     bindR (next_as_usize it ''output_n_updates'') (\<lambda>(output_n_updates, it).
     bindR (Vec_with_capacity lim output_n_updates) (\<lambda>contract_changes.
       deserialize_contracts lim full output_n_updates contract_changes it))"

definition deserialize_contract_class_da_changes ::
  "capacity_limits \<Rightarrow> felt list \<Rightarrow> felt \<Rightarrow> (sn_os_error, (felt, felt) hash_map \<times> felt list) res" where
  "deserialize_contract_class_da_changes lim it full =
     bindR (next_as_usize it ''n_actual_updates'') (\<lambda>(n_actual_updates, it).
     bindR (HashMap_with_capacity lim n_actual_updates) (\<lambda>cls.
       deserialize_pairs ''class hash'' ''previous compiled class hash'' ''compiled class hash''
         full 0 n_actual_updates cls it))"

definition read_segment :: "felt list \<Rightarrow> nat \<Rightarrow> string \<Rightarrow> (sn_os_error, felt list \<times> felt list) res" where
  "read_segment it len item_name =
     (let segment = take len it
      in if length segment \<noteq> len
         then Inl (Error (CatchAll (''Expected '' @ decimal len @ '' '' @ item_name @ '', could only read '' @
                decimal (length segment))))
         else Inr (segment, drop len it))"

definition read_variable_length_segment ::
  "felt list \<Rightarrow> string \<Rightarrow> (sn_os_error, felt list \<times> felt list) res" where
  "read_variable_length_segment it item_name =
     bindR (next_as_usize it item_name) (\<lambda>(n_items, it). read_segment it n_items item_name)"

definition deserialize_messages ::
  "felt list \<Rightarrow> (sn_os_error, (felt list \<times> felt list) \<times> felt list) res" where
  "deserialize_messages it =
     bindR (read_variable_length_segment it ''L1 messages'') (\<lambda>(l1, it).
     bindR (read_variable_length_segment it ''L2 messages'') (\<lambda>(l2, it).
       Inr ((l1, l2), it)))"

text \<open>Skipping the KZG data.\<close>

definition skip_kzg :: "felt list \<Rightarrow> (sn_os_error, felt list) res" where
  "skip_kzg it =
     (let kzg_segment = take 2 it; it = drop 2 it in
      bindR (unwrap ''Should have n_blobs in header when using kzg da''
               (if KZG_N_BLOBS_OFFSET < length kzg_segment then Some (kzg_segment ! KZG_N_BLOBS_OFFSET) else None)) (\<lambda>x.
      bindR (unwrap ''n_blobs should fit in a usize'' (felt_to_u64 x)) (\<lambda>n_blobs.
      bindR (u64_mul 4 n_blobs) (\<lambda>n. Inr (drop n it)))))"

definition deserialize_os_output ::
  "capacity_limits \<Rightarrow> felt list \<Rightarrow> (sn_os_error, starknet_os_output \<times> felt list) res" where
  "deserialize_os_output lim it =
     bindR (read_segment it HEADER_SIZE ''header elements'') (\<lambda>(header, it).
       let kzg = header ! USE_KZG_DA_OFFSET; full = header ! FULL_OUTPUT_OFFSET in
       bindR (if kzg \<noteq> 0 then skip_kzg it else Inr it) (\<lambda>it.
       bindR (deserialize_messages it) (\<lambda>((l1, l2), it).
       bindR (if kzg = 0
              then
                bindR (deserialize_contract_state lim it full) (\<lambda>(cs, it).
                bindR (deserialize_contract_class_da_changes lim it full) (\<lambda>(cls, it). Inr ((cs, cls), it)))
              else Inr (([], []), it)) (\<lambda>((contract_changes, cls), it).
         Inr (\<lparr> initial_root = header ! PREVIOUS_MERKLE_UPDATE_OFFSET,
                final_root = header ! NEW_MERKLE_UPDATE_OFFSET,
                prev_block_number = header ! PREV_BLOCK_NUMBER_OFFSET,
                new_block_number = header ! NEW_BLOCK_NUMBER_OFFSET,
                prev_block_hash = header ! PREV_BLOCK_HASH_OFFSET,
                new_block_hash = header ! NEW_BLOCK_HASH_OFFSET,
                os_program_hash = header ! OS_PROGRAM_HASH_OFFSET,
                starknet_os_config_hash = header ! CONFIG_HASH_OFFSET,
                use_kzg_da = kzg,
                full_output = full,
                messages_to_l1 = l1,
                messages_to_l2 = l2,
                contracts = contract_changes,
                classes = cls \<rparr>, it)))))"

text \<open>
  The output segment of a finished run. The builtins of the machine with the bases of their segments and the
  values that the program returned, one per builtin, come from the machine; the first return value is the end of the
  output segment.
\<close>

datatype builtin_runner = OutputBuiltin nat | OtherBuiltin nat

fun builtin_base :: "builtin_runner \<Rightarrow> nat" where
  "builtin_base (OutputBuiltin b) = b"
| "builtin_base (OtherBuiltin b) = b"

fun is_output :: "builtin_runner \<Rightarrow> bool" where
  "is_output (OutputBuiltin b) = True"
| "is_output (OtherBuiltin b) = False"

record run_vm =
  builtin_runners :: "builtin_runner list"
  return_values :: "nat \<Rightarrow> string + maybe_relocatable list"
  get_range :: "relocatable \<Rightarrow> nat \<Rightarrow> maybe_relocatable option list"

text \<open>The cast of the segment index to \<open>usize\<close> wraps.\<close>

definition get_output_info :: "run_vm \<Rightarrow> (sn_os_error, nat \<times> nat) res" where
  "get_output_info vm =
     bindR (case return_values vm (length (builtin_runners vm)) of
              Inl e \<Rightarrow> Inl (Error (CatchAll e)) | Inr vs \<Rightarrow> Inr vs) (\<lambda>builtin_end_ptrs.
     bindR (unwrap ''Os vm should have the output builtin'' (find is_output (builtin_runners vm))) (\<lambda>runner.
     let output_base = builtin_base runner in
     bindR (vec_index builtin_end_ptrs 0) (\<lambda>end_ptr.
       case end_ptr of
         IntV _ \<Rightarrow> Inl (Error (CatchAll ''expected a relocatable as output builtin end pointer''))
       | RelocatableValue address \<Rightarrow>
           if segment_index address mod 2 ^ 64 \<noteq> int output_base
           then Inl (Error (CatchAll (''output builtin end pointer ('' @ show_relocatable address @
                  '') is not on the expected segment ('' @ decimal output_base @ '')'')))
           else Inr (output_base, offset address))))"

definition get_raw_output :: "run_vm \<Rightarrow> nat \<Rightarrow> nat \<Rightarrow> (sn_os_error, felt list) res" where
  "get_raw_output vm output_base output_size =
     mapR (\<lambda>x. bindR (unwrap ''called `Option::unwrap()` on a `None` value'' x) (\<lambda>v.
         case v of IntV val \<Rightarrow> Inr val | RelocatableValue _ \<Rightarrow> Inl (Error (CatchAll ''Output should be all integers''))))
       (get_range vm (rel (int output_base) 0) output_size)"

definition from_run :: "capacity_limits \<Rightarrow> run_vm \<Rightarrow> (sn_os_error, starknet_os_output) res" where
  "from_run lim vm =
     bindR (get_output_info vm) (\<lambda>(output_base, output_size).
     bindR (get_raw_output vm output_base output_size) (\<lambda>raw_output.
     bindR (deserialize_os_output lim raw_output) (\<lambda>(output, _). Inr output)))"

section \<open>The layout\<close>

definition encode_pairs :: "felt \<Rightarrow> (felt \<Rightarrow> felt) \<Rightarrow> (felt, felt) hash_map \<Rightarrow> felt list" where
  "encode_pairs full prev m = concat (map (\<lambda>(k, v). if full \<noteq> 0 then [k, prev k, v] else [k, v]) m)"

text \<open>
  Without the previous values, the flag says whether a class hash follows; with them both class hashes are always there,
  and the flag says whether they differ, which \<open>updated\<close> decides.
\<close>

definition encode_contract :: "felt \<Rightarrow> (felt \<Rightarrow> felt) \<Rightarrow> felt \<Rightarrow> bool \<Rightarrow> contract_changes \<Rightarrow> felt list" where
  "encode_contract full prev prev_class updated c =
     [addr c,
      length (storage_changes c) + u64_bound * (nonce c + u64_bound *
        of_bool (if full \<noteq> 0 then updated else class_hash c \<noteq> None))] @
     (case class_hash c of None \<Rightarrow> [] | Some h \<Rightarrow> if full \<noteq> 0 then [prev_class, h] else [h]) @
     encode_pairs full prev (storage_changes c)"

definition encode_header :: "starknet_os_output \<Rightarrow> felt list" where
  "encode_header o' =
     [initial_root o', final_root o', prev_block_number o', new_block_number o', prev_block_hash o',
      new_block_hash o', os_program_hash o', starknet_os_config_hash o', use_kzg_da o', full_output o']"

text \<open>
  \<open>prev\<close>, \<open>prev_class\<close> and \<open>prev_compiled\<close> are the previous values, \<open>updated\<close> the contracts whose class flag is set in a full output, \<open>kzg\<close> is the data of the blobs with \<open>z\<close> before their number.
\<close>

definition encode_os_output ::
  "(felt \<Rightarrow> felt \<Rightarrow> felt) \<Rightarrow> (felt \<Rightarrow> felt) \<Rightarrow> (felt \<Rightarrow> felt) \<Rightarrow> (felt \<Rightarrow> bool) \<Rightarrow> felt \<Rightarrow> felt list
   \<Rightarrow> starknet_os_output \<Rightarrow> felt list" where
  "encode_os_output prev prev_class prev_compiled updated z kzg o' =
     encode_header o' @
     (if use_kzg_da o' \<noteq> 0 then [z, length kzg div 4] @ kzg else []) @
     [length (messages_to_l1 o')] @ messages_to_l1 o' @
     [length (messages_to_l2 o')] @ messages_to_l2 o' @
     (if use_kzg_da o' \<noteq> 0 then []
      else
        [length (contracts o')] @
        concat (map (\<lambda>c. encode_contract (full_output o') (prev (addr c)) (prev_class (addr c)) (updated (addr c)) c)
          (contracts o')) @
        [length (classes o')] @ encode_pairs (full_output o') prev_compiled (classes o'))"

definition contract_wf :: "felt \<Rightarrow> contract_changes \<Rightarrow> bool" where
  "contract_wf full c \<longleftrightarrow>
     nonce c < u64_bound \<and> length (storage_changes c) < u64_bound \<and> hm_wf (storage_changes c) \<and>
     (full \<noteq> 0 \<longrightarrow> class_hash c \<noteq> None)"

definition output_wf :: "starknet_os_output \<Rightarrow> bool" where
  "output_wf o' \<longleftrightarrow>
     length (messages_to_l1 o') < u64_bound \<and> length (messages_to_l2 o') < u64_bound \<and>
     (if use_kzg_da o' \<noteq> 0 then contracts o' = [] \<and> classes o' = []
      else length (contracts o') < u64_bound \<and> length (classes o') < u64_bound \<and> hm_wf (classes o') \<and>
        (\<forall>c \<in> set (contracts o'). contract_wf (full_output o') c))"

section \<open>Parsing inverts the layout\<close>

lemma is_panic_simps [simp]:
  "\<not> is_panic (Inr a)" "\<not> is_panic (Inl (Error e))" "is_panic (Inl (Panic m))"
  by (simp_all add: is_panic_def)

lemma is_panic_bindR: "is_panic (bindR m f) \<longleftrightarrow> is_panic m \<or> (\<exists>a. m = Inr a \<and> is_panic (f a))"
  by (cases m) (auto simp: is_panic_def)

lemma next_or_fail_Cons [simp]: "next_or_fail (x # rest) item = Inr (x, rest)"
  by (simp add: next_or_fail_def)

lemma next_as_usize_Cons [simp]: "n < u64_bound \<Longrightarrow> next_as_usize (n # rest) item = Inr (n, rest)"
  by (simp add: next_as_usize_def felt_to_u64_def)

lemma deserialize_pairs_encode:
  "deserialize_pairs k p v full i (length m) acc (encode_pairs full prev m @ rest) = Inr (hm_extend acc m, rest)"
  by (induction m arbitrary: i acc) (auto simp: encode_pairs_def split: prod.split)

lemma hm_insert_new: "key \<notin> fst ` set m \<Longrightarrow> hm_insert key val m = m @ [(key, val)]"
  unfolding hm_insert_def by (induction m) auto

lemma hm_extend_new: "distinct (map fst (acc @ m)) \<Longrightarrow> hm_extend acc m = acc @ m"
  by (induction m arbitrary: acc) (auto simp: hm_insert_new)

lemma hm_extend_empty: "hm_wf m \<Longrightarrow> hm_extend [] m = m"
  by (simp add: hm_extend_new hm_wf_def)

lemma unpack:
  fixes b :: nat
  assumes "n < b" and "k < b"
  shows "(n + b * (k + b * x)) mod b = n" and "(n + b * (k + b * x)) div b mod b = k"
    and "(n + b * (k + b * x)) div b div b = x"
  using assms by simp_all

lemma deserialize_contract_encode:
  assumes "contract_wf full c"
  shows "deserialize_contract_state_inner lim (encode_contract full prev prev_class updated c @ rest) full =
    (if length (storage_changes c) \<le> max_map lim then Inr (c, rest) else Inl (Panic ''Hash table capacity overflow''))"
proof -
  let ?n = "length (storage_changes c)"
  have small: "?n < u64_bound" "nonce c < u64_bound" using assms by (simp_all add: contract_wf_def)
  have "deserialize_da_changes lim (encode_pairs full prev (storage_changes c) @ rest) ?n full =
      (if ?n \<le> max_map lim then Inr (storage_changes c, rest) else Inl (Panic ''Hash table capacity overflow''))"
    using assms
    by (simp add: deserialize_da_changes_def HashMap_with_capacity_def deserialize_pairs_encode hm_extend_empty
        contract_wf_def)
  then show ?thesis
    using assms small unpack [OF small, of 0] unpack [OF small, of 1]
    by (cases "class_hash c"; cases updated)
      (auto simp: deserialize_contract_state_inner_def encode_contract_def Let_def felt_to_u64_def contract_wf_def
        mult.commute [of _ u64_bound])
qed

lemma deserialize_contracts_encode:
  assumes "\<forall>c \<in> set cs. contract_wf full c"
  shows "deserialize_contracts lim full (length cs) acc
      (concat (map (\<lambda>c. encode_contract full (prev c) (prev_class c) (updated c) c) cs) @ rest) =
    (if \<forall>c \<in> set cs. length (storage_changes c) \<le> max_map lim then Inr (acc @ cs, rest)
     else Inl (Panic ''Hash table capacity overflow''))"
  using assms by (induction cs arbitrary: acc) (simp_all add: deserialize_contract_encode)

lemma read_segment_append [simp]: "read_segment (xs @ rest) (length xs) item = Inr (xs, rest)"
  by (simp add: read_segment_def)

lemma deserialize_messages_encode:
  assumes "length l1 < u64_bound" and "length l2 < u64_bound"
  shows "deserialize_messages ([length l1] @ l1 @ [length l2] @ l2 @ rest) = Inr ((l1, l2), rest)"
  using assms by (simp add: deserialize_messages_def read_variable_length_segment_def)

lemma encode_header_nth:
  "encode_header out ! PREVIOUS_MERKLE_UPDATE_OFFSET = initial_root out"
  "encode_header out ! NEW_MERKLE_UPDATE_OFFSET = final_root out"
  "encode_header out ! PREV_BLOCK_NUMBER_OFFSET = prev_block_number out"
  "encode_header out ! NEW_BLOCK_NUMBER_OFFSET = new_block_number out"
  "encode_header out ! PREV_BLOCK_HASH_OFFSET = prev_block_hash out"
  "encode_header out ! NEW_BLOCK_HASH_OFFSET = new_block_hash out"
  "encode_header out ! OS_PROGRAM_HASH_OFFSET = os_program_hash out"
  "encode_header out ! CONFIG_HASH_OFFSET = starknet_os_config_hash out"
  "encode_header out ! USE_KZG_DA_OFFSET = use_kzg_da out"
  "encode_header out ! FULL_OUTPUT_OFFSET = full_output out"
  by (simp_all add: encode_header_def output_offsets)

lemma read_header_encode: "read_segment (encode_header out @ r) HEADER_SIZE item = Inr (encode_header out, r)"
proof -
  have "length (encode_header out) = HEADER_SIZE" by (simp add: encode_header_def HEADER_SIZE_def)
  then show ?thesis using read_segment_append [of "encode_header out" r] by (simp only:)
qed

lemma skip_kzg_encode:
  assumes "length kzg < u64_bound" and "4 dvd length kzg"
  shows "skip_kzg ([z, length kzg div 4] @ kzg @ r) = Inr r"
proof -
  obtain k where k: "length kzg = 4 * k" using assms(2) by blast
  then show ?thesis
    using assms(1) by (simp add: skip_kzg_def KZG_N_BLOBS_OFFSET_def felt_to_u64_def u64_mul_def k)
qed

lemma deserialize_contract_state_encode:
  assumes "output_wf out" and "use_kzg_da out = 0"
  shows "deserialize_contract_state lim ([length (contracts out)] @
      concat (map (\<lambda>c. encode_contract (full_output out) (prev c) (prev_class c) (updated c) c) (contracts out)) @ r) (full_output out) =
    (if length (contracts out) \<le> max_vec lim
     then if \<forall>c \<in> set (contracts out). length (storage_changes c) \<le> max_map lim then Inr (contracts out, r)
          else Inl (Panic ''Hash table capacity overflow'')
     else Inl (Panic ''capacity overflow''))"
  using assms by (simp add: deserialize_contract_state_def Vec_with_capacity_def deserialize_contracts_encode output_wf_def)

lemma deserialize_classes_encode:
  assumes "output_wf out" and "use_kzg_da out = 0"
  shows "deserialize_contract_class_da_changes lim
      ([length (classes out)] @ encode_pairs (full_output out) prev_compiled (classes out) @ rest) (full_output out) =
    (if length (classes out) \<le> max_map lim then Inr (classes out, rest)
     else Inl (Panic ''Hash table capacity overflow''))"
  using assms
  by (simp add: deserialize_contract_class_da_changes_def HashMap_with_capacity_def deserialize_pairs_encode
      hm_extend_empty output_wf_def)

text \<open>The output whose tables can be reserved.\<close>

definition output_fits :: "capacity_limits \<Rightarrow> starknet_os_output \<Rightarrow> bool" where
  "output_fits lim o' \<longleftrightarrow>
     length (contracts o') \<le> max_vec lim \<and> (\<forall>c \<in> set (contracts o'). length (storage_changes c) \<le> max_map lim) \<and>
     length (classes o') \<le> max_map lim"

text \<open>
  C12. Parsing inverts the layout of the output: the header, the messages and the changes of contracts and classes are
  returned as they were written, whether or not the previous values are included and whatever the class flag of a full
  output is, the data of KZG blobs is skipped, and the elements after the output are left. The only outputs excepted are those
  with more contracts, classes or storage changes than can be reserved: for them, and only for them, parsing panics.
\<close>

theorem output_roundtrip:
  assumes "output_wf out" and "length kzg < u64_bound" and "4 dvd length kzg"
  shows "if output_fits lim out
    then deserialize_os_output lim (encode_os_output prev prev_class prev_compiled updated z kzg out @ rest) = Inr (out, rest)
    else is_panic (deserialize_os_output lim (encode_os_output prev prev_class prev_compiled updated z kzg out @ rest))"
proof -
  have msgs: "deserialize_messages ([length (messages_to_l1 out)] @ messages_to_l1 out @
      [length (messages_to_l2 out)] @ messages_to_l2 out @ r) = Inr ((messages_to_l1 out, messages_to_l2 out), r)" for r
    using assms(1) by (intro deserialize_messages_encode) (simp_all add: output_wf_def)
  show ?thesis
  proof (cases "use_kzg_da out = 0")
    case True
    note changes = deserialize_contract_state_encode [OF assms(1) True] deserialize_classes_encode [OF assms(1) True]
    show ?thesis
      unfolding deserialize_os_output_def encode_os_output_def append_assoc
      by (auto simp: read_header_encode encode_header_nth True msgs [simplified] changes [simplified] output_fits_def Let_def)
  next
    case False
    then have "contracts out = []" "classes out = []" using assms(1) by (simp_all add: output_wf_def)
    with False show ?thesis
      unfolding deserialize_os_output_def encode_os_output_def append_assoc
      using skip_kzg_encode [OF assms(2,3)] msgs by (simp add: read_header_encode encode_header_nth output_fits_def)
  qed
qed

theorem output_roundtrip_witness:
  "deserialize_os_output \<lparr> max_vec = 1000, max_map = 1000 \<rparr>
     ([1, 2, 3, 4, 5, 6, 0, 8, 0, 1] @ [1, 70] @ [0] @
      [2] @ [9, 1 + 2 ^ 64 * (7 + 2 ^ 64), 50, 60, 11, 12, 13] @ [10, 2 ^ 64 * 3, 50, 50] @ [0] @ [99]) =
   Inr (\<lparr> initial_root = 1, final_root = 2, prev_block_number = 3, new_block_number = 4, prev_block_hash = 5,
          new_block_hash = 6, os_program_hash = 0, starknet_os_config_hash = 8, use_kzg_da = 0, full_output = 1,
          messages_to_l1 = [70], messages_to_l2 = [],
          contracts = [\<lparr> addr = 9, nonce = 7, class_hash = Some 60, storage_changes = [(11, 13)] \<rparr>,
            \<lparr> addr = 10, nonce = 3, class_hash = Some 50, storage_changes = [] \<rparr>], classes = [] \<rparr>, [99])"
  (is "deserialize_os_output ?lim _ = Inr (?out, _)")
proof -
  have "output_wf ?out" by (simp add: output_wf_def contract_wf_def u64_bound_def)
  moreover have "output_fits ?lim ?out" by (simp add: output_fits_def)
  ultimately have "deserialize_os_output ?lim
      (encode_os_output (\<lambda>_ _. 12) (\<lambda>_. 50) (\<lambda>_. 0) (\<lambda>a. a = 9) 0 [] ?out @ [99]) = Inr (?out, [99])"
    using output_roundtrip [of ?out "[]" ?lim "\<lambda>_ _. 12" "\<lambda>_. 50" "\<lambda>_. 0" "\<lambda>a. a = 9" 0 "[99]"]
    by (simp add: u64_bound_def)
  then show ?thesis
    by (simp add: encode_os_output_def encode_header_def encode_contract_def encode_pairs_def u64_bound_def numeral_2_eq_2)
qed

section \<open>Cut off outputs\<close>

text \<open>
  A parser that reads a fixed part of its input: it leaves the rest alone, and on a proper prefix of that part
  it returns an error, except for the prefixes with a length in \<open>N\<close>, on which it panics.
\<close>

definition reads_except :: "nat set \<Rightarrow> (felt list \<Rightarrow> (sn_os_error, 'a \<times> felt list) res) \<Rightarrow> bool" where
  "reads_except N P \<longleftrightarrow>
     (\<forall>xs a r. P xs = Inr (a, r) \<longrightarrow>
        (\<exists>p. xs = p @ r \<and> (\<forall>q. P (p @ q) = Inr (a, q)) \<and> N \<subseteq> {..<length p} \<and>
           (\<forall>n < length p. if n \<in> N then is_panic (P (take n p)) else \<exists>e. P (take n p) = Inl (Error e))))"

abbreviation reads :: "(felt list \<Rightarrow> (sn_os_error, 'a \<times> felt list) res) \<Rightarrow> bool" where
  "reads \<equiv> reads_except {}"

lemma readsE:
  assumes "reads_except N P" and "P xs = Inr (a, r)"
  obtains p where "xs = p @ r" "\<And>q. P (p @ q) = Inr (a, q)" "N \<subseteq> {..<length p}"
    "\<And>n. n < length p \<Longrightarrow> if n \<in> N then is_panic (P (take n p)) else \<exists>e. P (take n p) = Inl (Error e)"
  using assms unfolding reads_except_def by blast

lemma reads_return: "reads (\<lambda>it. Inr (a, it))"
  by (auto simp: reads_except_def)

lemma reads_failing: "reads (\<lambda>it. Inl e)"
  by (simp add: reads_except_def)

lemma reads_bind:
  assumes "reads_except N P" and "\<And>a. reads (Q a)"
  shows "reads_except N (\<lambda>it. bindR (P it) (\<lambda>(a, it). Q a it))"
  unfolding reads_except_def
proof (intro allI impI)
  fix xs b r
  let ?B = "\<lambda>it. bindR (P it) (\<lambda>(a, it). Q a it)"
  assume "?B xs = Inr (b, r)"
  then obtain a r1 where 1: "P xs = Inr (a, r1)" and 2: "Q a r1 = Inr (b, r)" by (auto simp: bindR_eq_Inr_iff)
  obtain p1 where p1: "xs = p1 @ r1" "\<And>q. P (p1 @ q) = Inr (a, q)" "N \<subseteq> {..<length p1}"
    "\<And>n. n < length p1 \<Longrightarrow> if n \<in> N then is_panic (P (take n p1)) else \<exists>e. P (take n p1) = Inl (Error e)"
    using readsE [OF assms(1) 1] by blast
  obtain p2 where p2: "r1 = p2 @ r" "\<And>q. Q a (p2 @ q) = Inr (b, q)"
    "\<And>n. n < length p2 \<Longrightarrow> \<exists>e. Q a (take n p2) = Inl (Error e)"
    using readsE [OF assms(2) 2] by (metis empty_iff)
  have pre: "if n \<in> N then is_panic (?B (take n (p1 @ p2))) else \<exists>e. ?B (take n (p1 @ p2)) = Inl (Error e)"
    if "n < length (p1 @ p2)" for n
  proof (cases "n < length p1")
    case True
    then show ?thesis using p1(4) [OF True] by (auto simp: is_panic_bindR)
  next
    case False
    then have "n \<notin> N" using p1(3) by auto
    then show ?thesis using False p2(3) [of "n - length p1"] that by (auto simp: p1(2))
  qed
  show "\<exists>p. xs = p @ r \<and> (\<forall>q. ?B (p @ q) = Inr (b, q)) \<and> N \<subseteq> {..<length p} \<and>
      (\<forall>n < length p. if n \<in> N then is_panic (?B (take n p)) else \<exists>e. ?B (take n p) = Inl (Error e))"
  proof (rule exI [of _ "p1 @ p2"], intro conjI allI impI)
    show "xs = (p1 @ p2) @ r" using p1(1) p2(1) by simp
    show "?B ((p1 @ p2) @ q) = Inr (b, q)" for q by (simp add: p1(2) p2(2))
    show "N \<subseteq> {..<length (p1 @ p2)}" using p1(3) by auto
  qed (rule pre)
qed

lemma reads_after:
  assumes "\<And>a. reads (Q a)"
  shows "reads (\<lambda>it. bindR m (\<lambda>a. Q a it))"
  using assms by (cases m) (simp_all add: reads_failing)

lemma reads_next: "reads (\<lambda>it. next_or_fail it item)"
  unfolding reads_except_def next_or_fail_def by (auto split: list.splits intro!: exI [of _ "[_]"])

lemma reads_usize: "reads (\<lambda>it. next_as_usize it item)"
  unfolding reads_except_def next_as_usize_def
  by (auto split: list.splits simp: bindR_eq_Inr_iff felt_to_u64_def intro!: exI [of _ "[_]"])

lemma reads_segment: "reads (\<lambda>it. read_segment it n item)"
proof (unfold reads_except_def, intro allI impI)
  fix xs a r
  assume "read_segment xs n item = Inr (a, r)"
  then have "n \<le> length xs" "a = take n xs" "r = drop n xs"
    by (auto simp: read_segment_def Let_def split: if_splits)
  then show "\<exists>p. xs = p @ r \<and> (\<forall>q. read_segment (p @ q) n item = Inr (a, q)) \<and> {} \<subseteq> {..<length p} \<and>
      (\<forall>k < length p. if k \<in> {} then is_panic (read_segment (take k p) n item)
        else \<exists>e. read_segment (take k p) n item = Inl (Error e))"
    by (intro exI [of _ "take n xs"]) (auto simp: read_segment_def Let_def)
qed

lemma reads_skip:
  assumes "reads P"
  shows "reads (\<lambda>it. bindR (if c then bindR (next_or_fail it item) (\<lambda>(_, it). Inr it) else Inr it) P)"
proof (cases c)
  case True
  have "bindR (bindR (next_or_fail it item) (\<lambda>(_, it). Inr it)) P = bindR (next_or_fail it item) (\<lambda>(_, it). P it)" for it
    by (simp add: bindR_assoc case_prod_unfold)
  with True reads_bind [OF reads_next, of "\<lambda>_. P" item] assms show ?thesis by simp
qed (use assms in simp)

lemma reads_pairs: "reads (deserialize_pairs k p v full i n m)"
proof (induction n arbitrary: i m)
  case 0
  show ?case using reads_return [of m] by (simp add: reads_except_def)
next
  case (Suc n)
  show ?case
    unfolding deserialize_pairs.simps
    by (intro reads_bind reads_next reads_skip Suc.IH)
qed

lemma reads_contract: "reads (\<lambda>it. deserialize_contract_state_inner lim it full)"
proof -
  have cls: "reads (\<lambda>it. if full \<noteq> 0
      then bindR (next_or_fail it a) (\<lambda>(_, it). bindR (next_or_fail it b) (\<lambda>(c, it). Inr (Some c, it)))
      else if w then bindR (next_or_fail it b) (\<lambda>(c, it). Inr (Some c, it)) else Inr (None, it))" for a b w
    by (cases "full \<noteq> 0"; cases w) (auto intro!: reads_bind reads_next reads_return)
  show ?thesis
    unfolding deserialize_contract_state_inner_def Let_def prod.case deserialize_da_changes_def
    by (intro reads_bind reads_after reads_next cls reads_pairs reads_return)
qed

lemma reads_contracts: "reads (deserialize_contracts lim full n cs)"
proof (induction n arbitrary: cs)
  case 0
  show ?case using reads_return [of cs] by (simp add: reads_except_def)
next
  case (Suc n)
  show ?case unfolding deserialize_contracts.simps by (intro reads_bind reads_contract Suc.IH)
qed

lemma reads_messages: "reads deserialize_messages"
  unfolding deserialize_messages_def read_variable_length_segment_def
  by (intro reads_bind reads_usize reads_segment reads_return)

lemma reads_contract_state: "reads (\<lambda>it. deserialize_contract_state lim it full)"
  unfolding deserialize_contract_state_def
  by (intro reads_bind reads_after reads_usize reads_contracts)

lemma reads_changes:
  "reads (\<lambda>it. bindR (deserialize_contract_state lim it full) (\<lambda>(cs, it).
     bindR (deserialize_contract_class_da_changes lim it full) (\<lambda>(cls, it). Inr ((cs, cls), it))))"
  unfolding deserialize_contract_class_da_changes_def
  by (intro reads_bind reads_after reads_contract_state reads_usize reads_pairs reads_return)

lemma skip_kzg_Cons:
  "x < 2 ^ 62 \<Longrightarrow> skip_kzg (z # x # ys) = Inr (drop (4 * x) ys)"
  by (simp add: skip_kzg_def KZG_N_BLOBS_OFFSET_def felt_to_u64_def u64_mul_def u64_bound_def)

lemma skip_kzg_panics: "is_panic (skip_kzg it) \<longleftrightarrow> length it < 2 \<or> 2 ^ 62 \<le> it ! 1"
proof -
  consider "it = []" | x where "it = [x]" | x y r where "it = x # y # r"
    by (cases it rule: remdups_adj.cases) auto
  then show ?thesis
    by cases (auto simp: skip_kzg_def KZG_N_BLOBS_OFFSET_def felt_to_u64_def u64_mul_def u64_bound_def is_panic_bindR)
qed

lemma messages_Nil: "\<exists>e. deserialize_messages [] = Inl e"
  by (simp add: deserialize_messages_def read_variable_length_segment_def next_as_usize_def)

lemma reads_kzg_messages: "reads_except {0, 1} (\<lambda>it. bindR (skip_kzg it) deserialize_messages)"
proof (unfold reads_except_def, intro allI impI)
  fix xs a r
  let ?B = "\<lambda>it. bindR (skip_kzg it) deserialize_messages"
  assume ok: "?B xs = Inr (a, r)"
  then have "\<not> is_panic (skip_kzg xs)" by (auto simp: is_panic_def bindR_eq_Inr_iff)
  then have "2 \<le> length xs" "xs ! 1 < 2 ^ 62" by (auto simp: skip_kzg_panics)
  then obtain z x ys where xs: "xs = z # x # ys" and x: "x < 2 ^ 62"
    by (cases xs rule: remdups_adj.cases) auto
  from ok have m: "deserialize_messages (drop (4 * x) ys) = Inr (a, r)"
    by (simp add: xs skip_kzg_Cons [OF x])
  then obtain p where p: "drop (4 * x) ys = p @ r" "\<And>q. deserialize_messages (p @ q) = Inr (a, q)"
    "\<And>n. n < length p \<Longrightarrow> \<exists>e. deserialize_messages (take n p) = Inl (Error e)"
    using readsE [OF reads_messages m] by (metis empty_iff)
  have "p \<noteq> []" using p(2) [of "[]"] messages_Nil by auto
  then have len: "4 * x \<le> length ys" using p(1) by (metis append_is_Nil_conv drop_all nat_le_linear)
  let ?p = "[z, x] @ take (4 * x) ys @ p"
  have pre: "if n \<in> {0, 1} then is_panic (?B (take n ?p)) else \<exists>e. ?B (take n ?p) = Inl (Error e)"
    if "n < length ?p" for n
  proof -
    consider "n = 0" | "n = 1" | k where "n = Suc (Suc k)" by (metis One_nat_def not0_implies_Suc)
    then show ?thesis
    proof cases
      case 3
      have "drop (4 * x) (take k (take (4 * x) ys @ p)) = take (k - 4 * x) p"
        by (subst drop_take) (use len in simp)
      moreover have "k - 4 * x < length p" using that 3 len \<open>p \<noteq> []\<close> by (cases p) auto
      ultimately show ?thesis using 3 p(3) by (simp add: skip_kzg_Cons [OF x])
    qed (simp_all add: is_panic_bindR skip_kzg_panics)
  qed
  show "\<exists>p. xs = p @ r \<and> (\<forall>q. ?B (p @ q) = Inr (a, q)) \<and> {0, 1} \<subseteq> {..<length p} \<and>
      (\<forall>n < length p. if n \<in> {0, 1} then is_panic (?B (take n p)) else \<exists>e. ?B (take n p) = Inl (Error e))"
  proof (rule exI [of _ ?p], intro conjI allI impI)
    show "xs = ?p @ r" using p(1) by (simp add: xs) (metis append_take_drop_id)
    show "?B (?p @ q) = Inr (a, q)" for q using len p(2) by (simp add: skip_kzg_Cons [OF x])
    show "{0, 1} \<subseteq> {..<length ?p}" by simp
  qed (rule pre)
qed

text \<open>What is done after the header.\<close>

definition parse_body :: "capacity_limits \<Rightarrow> felt list \<Rightarrow> felt list \<Rightarrow> (sn_os_error, starknet_os_output \<times> felt list) res" where
  "parse_body lim header it =
     bindR (bindR (if header ! 8 \<noteq> 0 then skip_kzg it else Inr it) deserialize_messages) (\<lambda>(ms, it).
     bindR (if header ! 8 = 0
            then bindR (deserialize_contract_state lim it (header ! 9)) (\<lambda>(cs, it).
              bindR (deserialize_contract_class_da_changes lim it (header ! 9)) (\<lambda>(cls, it). Inr ((cs, cls), it)))
            else Inr (([], []), it)) (\<lambda>(ch, it).
       Inr (\<lparr> initial_root = header ! 0, final_root = header ! 1, prev_block_number = header ! 2,
              new_block_number = header ! 3, prev_block_hash = header ! 4, new_block_hash = header ! 5,
              os_program_hash = header ! 6, starknet_os_config_hash = header ! 7, use_kzg_da = header ! 8,
              full_output = header ! 9, messages_to_l1 = fst ms, messages_to_l2 = snd ms,
              contracts = fst ch, classes = snd ch \<rparr>, it)))"

lemma deserialize_os_output_body:
  "deserialize_os_output lim it =
     bindR (read_segment it HEADER_SIZE ''header elements'') (\<lambda>(header, it). parse_body lim header it)"
  by (simp add: deserialize_os_output_def parse_body_def Let_def case_prod_unfold bindR_assoc output_offsets)

lemma reads_body: "reads_except (if header ! 8 \<noteq> 0 then {0, 1} else {}) (parse_body lim header)"
proof -
  have changes: "reads (\<lambda>it. if c
      then bindR (deserialize_contract_state lim it full) (\<lambda>(cs, it).
        bindR (deserialize_contract_class_da_changes lim it full) (\<lambda>(cls, it). Inr ((cs, cls), it)))
      else Inr (([], []), it))" for c full
    using reads_changes reads_return by (cases c) auto
  have "reads_except (if header ! 8 \<noteq> 0 then {0, 1} else {})
      (\<lambda>it. bindR (if header ! 8 \<noteq> 0 then skip_kzg it else Inr it) deserialize_messages)"
    using reads_kzg_messages reads_messages by simp
  then show ?thesis
    unfolding parse_body_def [abs_def] by (rule reads_bind [OF _ reads_bind [OF changes reads_return]])
qed

lemma parse_body_kzg: "parse_body lim header it = Inr (out, r) \<Longrightarrow> use_kzg_da out = header ! 8"
  by (auto simp: parse_body_def bindR_eq_Inr_iff)

text \<open>
  C39. An output that was cut off is rejected, and what stands behind an output is not looked at: if parsing succeeds on a sequence, it
  reads a definite part of it, returns the same result whatever follows that part, and returns an error on every proper prefix of
  the part. There is one exception: an output with KZG data that is cut after the header or one element later panics.
\<close>

theorem output_cut_off:
  assumes "deserialize_os_output lim xs = Inr (out, rest)"
  shows "\<exists>p. xs = p @ rest \<and> (\<forall>q. deserialize_os_output lim (p @ q) = Inr (out, q)) \<and>
    (\<forall>n < length p. if use_kzg_da out \<noteq> 0 \<and> n \<in> {10, 11} then is_panic (deserialize_os_output lim (take n p))
      else \<exists>e. deserialize_os_output lim (take n p) = Inl (Error e))"
proof -
  let ?D = "deserialize_os_output lim"
  have short: "\<exists>e. ?D ys = Inl (Error e)" if "length ys < 10" for ys
    using that by (simp add: deserialize_os_output_body read_segment_def HEADER_SIZE_def)
  have seg: "read_segment ys HEADER_SIZE item = Inr (take 10 ys, drop 10 ys)" if "10 \<le> length ys" for ys item
    using that by (simp add: read_segment_def HEADER_SIZE_def)
  have len: "10 \<le> length xs" using assms short [of xs] by (cases "length xs < 10") auto
  let ?h = "take 10 xs"
  have b: "parse_body lim ?h (drop 10 xs) = Inr (out, rest)"
    using assms len by (simp add: deserialize_os_output_body seg)
  obtain p where p: "drop 10 xs = p @ rest" "\<And>q. parse_body lim ?h (p @ q) = Inr (out, q)"
    "\<And>n. n < length p \<Longrightarrow> if n \<in> (if ?h ! 8 \<noteq> 0 then {0, 1} else {}) then is_panic (parse_body lim ?h (take n p))
      else \<exists>e. parse_body lim ?h (take n p) = Inl (Error e)"
    by (rule readsE [OF reads_body b], rule that)
  have kzg: "use_kzg_da out = ?h ! 8" by (rule parse_body_kzg [OF b])
  have D: "?D (?h @ q) = parse_body lim ?h q" for q
    using len by (simp add: deserialize_os_output_body seg)
  have pre: "if use_kzg_da out \<noteq> 0 \<and> n \<in> {10, 11} then is_panic (?D (take n (?h @ p))) else \<exists>e. ?D (take n (?h @ p)) = Inl (Error e)"
    if n: "n < length (?h @ p)" for n
  proof (cases "n < 10")
    case True
    then show ?thesis using short [of "take n (?h @ p)"] by auto
  next
    case False
    then have "take n (?h @ p) = ?h @ take (n - 10) p" "n - 10 < length p" "n - 10 \<in> {0, 1} \<longleftrightarrow> n \<in> {10, 11}"
      using n len by auto
    then show ?thesis using p(3) [of "n - 10"] by (simp add: D kzg split: if_splits)
  qed
  show ?thesis
  proof (rule exI [of _ "?h @ p"], intro conjI allI impI)
    show "xs = (?h @ p) @ rest" using p(1) by (metis append_assoc append_take_drop_id)
    show "?D ((?h @ p) @ q) = Inr (out, q)" for q using p(2) D by simp
  qed (rule pre)
qed

theorem output_cut_off_witness:
  "\<exists>e. deserialize_os_output \<lparr> max_vec = 1000, max_map = 1000 \<rparr> (take 12 ([1, 2, 3, 4, 5, 6, 7, 8, 0, 0] @ [0, 0, 0, 0])) = Inl (Error e)"
  (is "\<exists>e. deserialize_os_output ?lim _ = _")
proof -
  have "deserialize_os_output ?lim ([1, 2, 3, 4, 5, 6, 7, 8, 0, 0] @ [0, 0, 0, 0]) =
    Inr (\<lparr> initial_root = 1, final_root = 2, prev_block_number = 3, new_block_number = 4, prev_block_hash = 5,
          new_block_hash = 6, os_program_hash = 7, starknet_os_config_hash = 8, use_kzg_da = 0, full_output = 0,
          messages_to_l1 = [], messages_to_l2 = [], contracts = [], classes = [] \<rparr>, [])"
    by (simp add: deserialize_os_output_def read_segment_def output_offsets deserialize_messages_def
        read_variable_length_segment_def deserialize_contract_state_def deserialize_contract_class_da_changes_def
        Vec_with_capacity_def HashMap_with_capacity_def u64_bound_def)
  from output_cut_off [OF this] obtain p where
    "[1, 2, 3, 4, 5, 6, 7, 8, 0, 0] @ [0, 0, 0, 0] = p" "\<forall>n < length p. \<exists>e. deserialize_os_output ?lim (take n p) = Inl (Error e)"
    by auto
  moreover from this have "12 < length p" by auto
  ultimately show ?thesis by blast
qed

section \<open>Panics\<close>

text \<open>The panics of the two constructors that reserve memory, and the other ones.\<close>

definition capacity_panic :: "('e, 'a) res \<Rightarrow> bool" where
  "capacity_panic m \<longleftrightarrow> m = Inl (Panic ''capacity overflow'') \<or> m = Inl (Panic ''Hash table capacity overflow'')"

definition other_panic :: "('e, 'a) res \<Rightarrow> bool" where
  "other_panic m \<longleftrightarrow> is_panic m \<and> \<not> capacity_panic m"

lemma capacity_panic_bindR: "capacity_panic (bindR m f) \<longleftrightarrow> capacity_panic m \<or> (\<exists>a. m = Inr a \<and> capacity_panic (f a))"
  by (cases m) (auto simp: capacity_panic_def)

lemma other_panic_bindR: "other_panic (bindR m f) \<longleftrightarrow> other_panic m \<or> (\<exists>a. m = Inr a \<and> other_panic (f a))"
  by (cases m) (auto simp: capacity_panic_def other_panic_def is_panic_def split: exn.splits)

lemma capacity_is_panic: "capacity_panic m \<Longrightarrow> is_panic m"
  by (auto simp: capacity_panic_def)

lemma no_panic: "\<not> is_panic m \<Longrightarrow> \<not> capacity_panic m" "\<not> is_panic m \<Longrightarrow> \<not> other_panic m"
  by (auto simp: other_panic_def dest: capacity_is_panic)

lemma next_no_panic: "\<not> is_panic (next_or_fail it item)" "\<not> is_panic (next_as_usize it item)"
  by (auto simp: next_or_fail_def next_as_usize_def is_panic_bindR ok_or_def split: list.split option.split)

lemma read_segment_no_panic: "\<not> is_panic (read_segment it n item)"
  by (simp add: read_segment_def Let_def)

lemma deserialize_pairs_no_panic: "\<not> is_panic (deserialize_pairs k p v full i n m it)"
  by (induction n arbitrary: i m it) (auto simp: is_panic_bindR next_no_panic)

lemma deserialize_messages_no_panic: "\<not> is_panic (deserialize_messages it)"
  by (auto simp: deserialize_messages_def read_variable_length_segment_def is_panic_bindR next_no_panic read_segment_no_panic)

lemmas no_panics [simp] =
  no_panic [OF next_no_panic(1)] no_panic [OF next_no_panic(2)] no_panic [OF read_segment_no_panic]
  no_panic [OF deserialize_pairs_no_panic] no_panic [OF deserialize_messages_no_panic]

lemma capacity_simps [simp]:
  "\<not> capacity_panic (Inr a)" "\<not> other_panic (Inr a)" "\<not> capacity_panic (Inl (Error e))" "\<not> other_panic (Inl (Error e))"
  "capacity_panic (Vec_with_capacity lim n) \<longleftrightarrow> max_vec lim < n" "\<not> other_panic (Vec_with_capacity lim n)"
  "capacity_panic (HashMap_with_capacity lim n) \<longleftrightarrow> max_map lim < n" "\<not> other_panic (HashMap_with_capacity lim n)"
  by (auto simp: capacity_panic_def other_panic_def Vec_with_capacity_def HashMap_with_capacity_def)

lemma deserialize_contract_panics:
  shows "\<not> other_panic (deserialize_contract_state_inner lim it full)"
    and "capacity_panic (deserialize_contract_state_inner lim it full) \<Longrightarrow> \<exists>x \<in> set it. max_map lim < x mod u64_bound"
proof -
  have small: "v mod u64_bound < u64_bound" for v :: nat by (simp add: u64_bound_def)
  show "\<not> other_panic (deserialize_contract_state_inner lim it full)"
    by (auto simp: deserialize_contract_state_inner_def deserialize_da_changes_def Let_def other_panic_bindR felt_to_u64_def small)
  assume "capacity_panic (deserialize_contract_state_inner lim it full)"
  then show "\<exists>x \<in> set it. max_map lim < x mod u64_bound"
    by (auto simp: deserialize_contract_state_inner_def deserialize_da_changes_def Let_def capacity_panic_bindR felt_to_u64_def small
        next_or_fail_def split: list.splits if_splits)
qed

lemma deserialize_contracts_panics:
  shows "\<not> other_panic (deserialize_contracts lim full n cs it)"
    and "capacity_panic (deserialize_contracts lim full n cs it) \<Longrightarrow> \<exists>x \<in> set it. max_map lim < x mod u64_bound"
proof -
  show "\<not> other_panic (deserialize_contracts lim full n cs it)"
    by (induction n arbitrary: cs it) (auto simp: other_panic_bindR deserialize_contract_panics(1))
  show "\<exists>x \<in> set it. max_map lim < x mod u64_bound" if "capacity_panic (deserialize_contracts lim full n cs it)"
    using that
  proof (induction n arbitrary: cs it)
    case (Suc n)
    then consider "capacity_panic (deserialize_contract_state_inner lim it full)"
      | c r where "deserialize_contract_state_inner lim it full = Inr (c, r)" "capacity_panic (deserialize_contracts lim full n (cs @ [c]) r)"
      by (auto simp: capacity_panic_bindR)
    then show ?case
    proof cases
      case 2
      then obtain p where "it = p @ r" using readsE [OF reads_contract 2(1)] by blast
      with Suc.IH [OF 2(2)] show ?thesis by auto
    qed (rule deserialize_contract_panics(2))
  qed simp
qed

text \<open>The elements that name a count over a limit, as a whole or in their lowest 64 bits.\<close>

definition names_large_count :: "capacity_limits \<Rightarrow> felt list \<Rightarrow> bool" where
  "names_large_count lim xs \<longleftrightarrow> (\<exists>x \<in> set xs. max_vec lim < x \<or> max_map lim < x mod u64_bound)"

lemma names_large_count_append [simp]:
  "names_large_count lim (xs @ ys) \<longleftrightarrow> names_large_count lim xs \<or> names_large_count lim ys"
  by (auto simp: names_large_count_def)

lemma next_as_usize_InrD: "next_as_usize it item = Inr (n, r) \<Longrightarrow> it = n # r \<and> n < u64_bound"
  by (auto simp: next_as_usize_def bindR_eq_Inr_iff felt_to_u64_def ok_or_def split: list.splits if_splits)

lemma deserialize_contract_state_panics:
  "\<not> other_panic (deserialize_contract_state lim it full)"
  "capacity_panic (deserialize_contract_state lim it full) \<Longrightarrow> names_large_count lim it"
  by (auto simp: deserialize_contract_state_def other_panic_bindR capacity_panic_bindR names_large_count_def
      deserialize_contracts_panics(1) dest!: next_as_usize_InrD deserialize_contracts_panics(2))

lemma deserialize_classes_panics:
  "\<not> other_panic (deserialize_contract_class_da_changes lim it full)"
  "capacity_panic (deserialize_contract_class_da_changes lim it full) \<Longrightarrow> names_large_count lim it"
  by (auto simp: deserialize_contract_class_da_changes_def other_panic_bindR capacity_panic_bindR names_large_count_def
      dest!: next_as_usize_InrD)

lemma skip_kzg_other: "other_panic (skip_kzg it) \<longleftrightarrow> is_panic (skip_kzg it)" "\<not> capacity_panic (skip_kzg it)"
  by (auto simp: other_panic_def skip_kzg_def u64_mul_def unwrap_def Let_def capacity_panic_bindR capacity_panic_def split: option.splits)

lemma parse_body_panics:
  shows "other_panic (parse_body lim header it) \<longleftrightarrow> header ! 8 \<noteq> 0 \<and> is_panic (skip_kzg it)"
    and "capacity_panic (parse_body lim header it) \<Longrightarrow> header ! 8 = 0 \<and> names_large_count lim it"
proof -
  show "other_panic (parse_body lim header it) \<longleftrightarrow> header ! 8 \<noteq> 0 \<and> is_panic (skip_kzg it)"
    by (auto simp: parse_body_def other_panic_bindR skip_kzg_other deserialize_contract_state_panics(1) deserialize_classes_panics(1))
  assume c: "capacity_panic (parse_body lim header it)"
  then have 8: "header ! 8 = 0"
    by (auto simp: parse_body_def capacity_panic_bindR skip_kzg_other split: if_splits)
  with c obtain ms r where 1: "deserialize_messages it = Inr (ms, r)"
    and 2: "capacity_panic (deserialize_contract_state lim r (header ! 9)) \<or>
      (\<exists>cs r'. deserialize_contract_state lim r (header ! 9) = Inr (cs, r') \<and>
        capacity_panic (deserialize_contract_class_da_changes lim r' (header ! 9)))"
    by (auto simp: parse_body_def capacity_panic_bindR)
  obtain p where p: "it = p @ r" using readsE [OF reads_messages 1] by blast
  from 2 have "names_large_count lim r"
  proof (elim disjE exE conjE)
    fix cs r' assume 3: "deserialize_contract_state lim r (header ! 9) = Inr (cs, r')"
      and "capacity_panic (deserialize_contract_class_da_changes lim r' (header ! 9))"
    then have "names_large_count lim r'" by (intro deserialize_classes_panics(2))
    moreover obtain q where "r = q @ r'" using readsE [OF reads_contract_state 3] by blast
    ultimately show ?thesis by simp
  qed (rule deserialize_contract_state_panics(2))
  with 8 p show "header ! 8 = 0 \<and> names_large_count lim it" by simp
qed

text \<open>
  C38. When parsing panics. Apart from the reservation of memory it does so exactly when a complete header announces KZG data and the two
  elements after it are missing or give a number of blobs of \<open>2 ^ 62\<close> or more. The reservation panics only in an output
  without KZG data in which an element after the header names a count above what can be reserved. Every other malformed output is an error.
\<close>

theorem output_panics:
  "(other_panic (deserialize_os_output lim xs) \<longleftrightarrow>
      10 \<le> length xs \<and> xs ! 8 \<noteq> 0 \<and> (length xs < 12 \<or> 2 ^ 62 \<le> xs ! 11)) \<and>
   (capacity_panic (deserialize_os_output lim xs) \<longrightarrow>
      10 \<le> length xs \<and> xs ! 8 = 0 \<and> names_large_count lim (drop 10 xs))"
proof (cases "10 \<le> length xs")
  case False
  then show ?thesis
    by (auto simp: deserialize_os_output_body read_segment_def HEADER_SIZE_def capacity_panic_def other_panic_def)
next
  case True
  have r: "deserialize_os_output lim xs = parse_body lim (take 10 xs) (drop 10 xs)"
    using True by (simp add: deserialize_os_output_body read_segment_def HEADER_SIZE_def)
  have "is_panic (skip_kzg (drop 10 xs)) \<longleftrightarrow> length xs < 12 \<or> 2 ^ 62 \<le> xs ! 11"
    using True by (auto simp: skip_kzg_panics)
  then show ?thesis
    using True parse_body_panics [of lim "take 10 xs" "drop 10 xs"] by (auto simp: r)
qed

theorem output_panics_witness:
  "capacity_panic (deserialize_os_output \<lparr> max_vec = 1000, max_map = 1000 \<rparr> ([1, 2, 3, 4, 5, 6, 7, 8, 0, 0] @ [0, 0, 2000])) \<and>
   names_large_count \<lparr> max_vec = 1000, max_map = 1000 \<rparr> [0, 0, 2000]"
  (is "capacity_panic (deserialize_os_output ?lim ?xs) \<and> _")
proof -
  have "capacity_panic (deserialize_os_output ?lim ?xs)"
    by (simp add: deserialize_os_output_def read_segment_def output_offsets deserialize_messages_def
        read_variable_length_segment_def deserialize_contract_state_def Vec_with_capacity_def u64_bound_def capacity_panic_def)
  then show ?thesis using output_panics [of ?lim ?xs] by simp
qed

end
