(* ===== verification/Cairo_Types.thy ===== *)
theory Cairo_Types
  imports Vm
begin

text \<open>
  The memory layouts of the structures that the operating system shares with its Cairo program (\<open>cairo_types\<close>), and the
  two derive macros that give the structures their accessors (\<open>cairo-type-derive/src/lib.rs\<close>). A structure is the
  list of its fields; the macros' output for it is computed by \<open>cairo_size\<close>, \<open>field_offset\<close>, \<open>from_memory\<close> and
  \<open>to_memory\<close>.

  The theory shows that the fields of every structure have distinct names and tile its cells, and that
  reading inverts writing.
\<close>

section \<open>The derive macros\<close>

datatype cairo_type = CairoFelt | CairoRelocatable | CairoStruct "(string \<times> cairo_type) list"

fun cairo_size :: "cairo_type \<Rightarrow> nat" where
  "cairo_size CairoFelt = 1"
| "cairo_size CairoRelocatable = 1"
| "cairo_size (CairoStruct fs) = sum_list (map (\<lambda>f. cairo_size (snd f)) fs)"

fun fields_of :: "cairo_type \<Rightarrow> (string \<times> cairo_type) list" where
  "fields_of (CairoStruct fs) = fs"
| "fields_of _ = []"

text \<open>The getters \<open><field>_offset\<close>: the sizes of the fields before the field, added up.\<close>

fun offsets_from :: "nat \<Rightarrow> (string \<times> cairo_type) list \<Rightarrow> (string \<times> nat) list" where
  "offsets_from k [] = []"
| "offsets_from k ((name, ty) # fs) = (name, k) # offsets_from (k + cairo_size ty) fs"

definition field_offset :: "cairo_type \<Rightarrow> string \<Rightarrow> nat option" where
  "field_offset ty name = map_of (offsets_from 0 (fields_of ty)) name"

definition n_fields :: "cairo_type \<Rightarrow> nat" where
  "n_fields ty = length (fields_of ty)"

text \<open>The accessors of \<open>CairoType\<close>, for structures whose fields are field elements.\<close>

fun from_memory_fields :: "('vm, 'x) vm_api \<Rightarrow> 'vm \<Rightarrow> relocatable \<Rightarrow> nat list \<Rightarrow> ('x, felt list) res" where
  "from_memory_fields api vm address [] = Inr []"
| "from_memory_fields api vm address (index # rest) =
     bindR (map_err (of_math api) (add_offset api address index)) (\<lambda>a.
     bindR (of_vm (get_integer api vm a)) (\<lambda>x.
     bindR (from_memory_fields api vm address rest) (\<lambda>xs. Inr (x # xs))))"

definition from_memory :: "('vm, 'x) vm_api \<Rightarrow> cairo_type \<Rightarrow> 'vm \<Rightarrow> relocatable \<Rightarrow> ('x, felt list) res" where
  "from_memory api ty vm address = from_memory_fields api vm address [0..<n_fields ty]"

fun to_memory_fields :: "('vm, 'x) vm_api \<Rightarrow> nat \<Rightarrow> felt list \<Rightarrow> relocatable \<Rightarrow> ('vm, 'x, unit) prog" where
  "to_memory_fields api n [] address = retS ()"
| "to_memory_fields api n (x # xs) address =
     bindS (liftS (map_err (of_math api) (add_offset api address n))) (\<lambda>a.
     bindS (insertS api a (IntV x)) (\<lambda>_. to_memory_fields api (n + 1) xs address))"

definition to_memory :: "('vm, 'x) vm_api \<Rightarrow> felt list \<Rightarrow> relocatable \<Rightarrow> ('vm, 'x, unit) prog" where
  "to_memory api values address = to_memory_fields api 0 values address"

section \<open>The structures\<close>

definition BigInt3_layout :: cairo_type where
  "BigInt3_layout = CairoStruct [(''d0'', CairoFelt), (''d1'', CairoFelt), (''d2'', CairoFelt)]"

definition HashBuiltin_layout :: cairo_type where
  "HashBuiltin_layout = CairoStruct [(''x'', CairoFelt), (''y'', CairoFelt), (''result'', CairoFelt)]"

definition SpongeHashBuiltin_layout :: cairo_type where
  "SpongeHashBuiltin_layout = CairoStruct [(''x'', CairoFelt), (''y'', CairoFelt), (''c_in'', CairoFelt), (''result'', CairoFelt),
     (''result1'', CairoFelt), (''c_out'', CairoFelt)]"

definition ContractClassComponentHashes_layout :: cairo_type where
  "ContractClassComponentHashes_layout = CairoStruct [(''contract_class_version'', CairoFelt), (''external_functions_hash'', CairoFelt),
     (''l1_handlers_hash'', CairoFelt), (''constructors_hash'', CairoFelt), (''abi_hash'', CairoFelt),
     (''sierra_program_hash'', CairoFelt)]"

definition DictAccess_layout :: cairo_type where
  "DictAccess_layout = CairoStruct [(''key'', CairoFelt), (''prev_value'', CairoFelt), (''new_value'', CairoFelt)]"

definition ExecutionContext_layout :: cairo_type where
  "ExecutionContext_layout = CairoStruct [(''entry_point_type'', CairoFelt), (''class_hash'', CairoFelt), (''calldata_size'', CairoFelt),
     (''calldata'', CairoRelocatable), (''execution_info'', CairoRelocatable),
     (''deprecated_tx_info'', CairoRelocatable)]"

definition CompiledClassFact_layout :: cairo_type where
  "CompiledClassFact_layout = CairoStruct [(''hash'', CairoFelt), (''compiled_class'', CairoFelt)]"

definition CompiledClass_layout :: cairo_type where
  "CompiledClass_layout = CairoStruct [(''compiled_class_version'', CairoFelt), (''n_external_functions'', CairoFelt),
     (''external_functions'', CairoFelt), (''n_l1_handlers'', CairoFelt), (''l1_handlers'', CairoFelt),
     (''n_constructors'', CairoFelt), (''constructors'', CairoFelt), (''bytecode_length'', CairoFelt),
     (''bytecode_ptr'', CairoFelt)]"

definition EntryPointReturnValues_layout :: cairo_type where
  "EntryPointReturnValues_layout = CairoStruct [(''gas_builtin'', CairoFelt), (''syscall_ptr'', CairoFelt), (''failure_flag'', CairoFelt),
     (''retdata_start'', CairoFelt), (''retdata_end'', CairoFelt)]"

definition BuiltinParams_layout :: cairo_type where
  "BuiltinParams_layout = CairoStruct [(''builtin_encodings'', CairoFelt), (''builtin_instance_sizes'', CairoFelt)]"

definition NodeEdge_layout :: cairo_type where
  "NodeEdge_layout = CairoStruct [(''length'', CairoFelt), (''path'', CairoFelt), (''bottom'', CairoFelt)]"

definition StorageReadRequest_layout :: cairo_type where
  "StorageReadRequest_layout = CairoStruct [(''selector'', CairoFelt), (''address'', CairoFelt)]"

definition StorageReadResponse_layout :: cairo_type where
  "StorageReadResponse_layout = CairoStruct [(''value'', CairoFelt)]"

definition StorageRead_layout :: cairo_type where
  "StorageRead_layout = CairoStruct [(''request'', StorageReadRequest_layout), (''response'', StorageReadResponse_layout)]"

definition StorageWrite_layout :: cairo_type where
  "StorageWrite_layout = CairoStruct [(''selector'', CairoFelt), (''address'', CairoFelt), (''value'', CairoFelt)]"

definition CallContractRequest_layout :: cairo_type where
  "CallContractRequest_layout = CairoStruct [(''selector'', CairoFelt), (''contract_address'', CairoFelt), (''function_selector'', CairoFelt),
     (''calldata_size'', CairoFelt), (''calldata'', CairoRelocatable)]"

definition CallContractResponse_layout :: cairo_type where
  "CallContractResponse_layout = CairoStruct [(''retdata_size'', CairoFelt), (''retdata'', CairoRelocatable)]"

definition CallContract_layout :: cairo_type where
  "CallContract_layout = CairoStruct [(''request'', CallContractRequest_layout), (''response'', CallContractResponse_layout)]"

definition DeployRequest_layout :: cairo_type where
  "DeployRequest_layout = CairoStruct [(''selector'', CairoFelt), (''class_hash'', CairoFelt), (''contract_address_salt'', CairoFelt),
     (''constructor_calldata_size'', CairoFelt), (''constructor_calldata'', CairoRelocatable),
     (''deploy_from_zero'', CairoFelt)]"

definition DeployResponse_layout :: cairo_type where
  "DeployResponse_layout = CairoStruct [(''contract_address'', CairoFelt), (''constructor_retdata_size'', CairoFelt),
     (''constructor_retdata'', CairoRelocatable)]"

definition Deploy_layout :: cairo_type where
  "Deploy_layout = CairoStruct [(''request'', DeployRequest_layout), (''response'', DeployResponse_layout)]"

definition GetBlockNumberRequest_layout :: cairo_type where
  "GetBlockNumberRequest_layout = CairoStruct [(''selector'', CairoFelt)]"

definition GetBlockNumberResponse_layout :: cairo_type where
  "GetBlockNumberResponse_layout = CairoStruct [(''block_number'', CairoFelt)]"

definition GetBlockNumber_layout :: cairo_type where
  "GetBlockNumber_layout = CairoStruct [(''request'', GetBlockNumberRequest_layout), (''response'', GetBlockNumberResponse_layout)]"

definition GetBlockTimestampRequest_layout :: cairo_type where
  "GetBlockTimestampRequest_layout = CairoStruct [(''selector'', CairoFelt)]"

definition GetBlockTimestampResponse_layout :: cairo_type where
  "GetBlockTimestampResponse_layout = CairoStruct [(''block_timestamp'', CairoFelt)]"

definition GetBlockTimestamp_layout :: cairo_type where
  "GetBlockTimestamp_layout = CairoStruct [(''request'', GetBlockTimestampRequest_layout), (''response'', GetBlockTimestampResponse_layout)]"

definition GetContractAddressRequest_layout :: cairo_type where
  "GetContractAddressRequest_layout = CairoStruct [(''selector'', CairoFelt)]"

definition GetContractAddressResponse_layout :: cairo_type where
  "GetContractAddressResponse_layout = CairoStruct [(''contract_address'', CairoFelt)]"

definition GetContractAddress_layout :: cairo_type where
  "GetContractAddress_layout = CairoStruct [(''request'', GetContractAddressRequest_layout), (''response'', GetContractAddressResponse_layout)]"

definition LibraryCallRequest_layout :: cairo_type where
  "LibraryCallRequest_layout = CairoStruct [(''selector'', CairoFelt), (''class_hash'', CairoFelt), (''function_selector'', CairoFelt),
     (''calldata_size'', CairoFelt), (''calldata'', CairoRelocatable)]"

definition LibraryCall_layout :: cairo_type where
  "LibraryCall_layout = CairoStruct [(''request'', LibraryCallRequest_layout), (''response'', CallContractResponse_layout)]"

definition GetSequencerAddressRequest_layout :: cairo_type where
  "GetSequencerAddressRequest_layout = CairoStruct [(''selector'', CairoFelt)]"

definition GetSequencerAddressResponse_layout :: cairo_type where
  "GetSequencerAddressResponse_layout = CairoStruct [(''sequencer_address'', CairoFelt)]"

definition GetSequencerAddress_layout :: cairo_type where
  "GetSequencerAddress_layout = CairoStruct [(''request'', GetSequencerAddressRequest_layout), (''response'', GetSequencerAddressResponse_layout)]"

definition TxInfo_layout :: cairo_type where
  "TxInfo_layout = CairoStruct [(''version'', CairoFelt), (''account_contract_address'', CairoFelt), (''max_fee'', CairoFelt),
     (''signature_len'', CairoFelt), (''signature'', CairoRelocatable),
     (''transaction_hash'', CairoFelt), (''chain_id'', CairoFelt), (''nonce'', CairoFelt)]"

definition GetTxInfoRequest_layout :: cairo_type where
  "GetTxInfoRequest_layout = CairoStruct [(''selector'', CairoFelt)]"

definition GetTxInfoResponse_layout :: cairo_type where
  "GetTxInfoResponse_layout = CairoStruct [(''tx_info'', CairoRelocatable)]"

definition GetTxInfo_layout :: cairo_type where
  "GetTxInfo_layout = CairoStruct [(''request'', GetTxInfoRequest_layout), (''response'', GetTxInfoResponse_layout)]"

definition GetTxSignatureRequest_layout :: cairo_type where
  "GetTxSignatureRequest_layout = CairoStruct [(''selector'', CairoFelt)]"

definition GetTxSignatureResponse_layout :: cairo_type where
  "GetTxSignatureResponse_layout = CairoStruct [(''signature_len'', CairoFelt), (''signature'', CairoRelocatable)]"

definition GetTxSignature_layout :: cairo_type where
  "GetTxSignature_layout = CairoStruct [(''request'', GetTxSignatureRequest_layout), (''response'', GetTxSignatureResponse_layout)]"

definition SecpNewResponse_layout :: cairo_type where
  "SecpNewResponse_layout = CairoStruct [(''not_on_curve'', CairoFelt), (''ec_point'', CairoRelocatable)]"

definition EcPoint_layout :: cairo_type where
  "EcPoint_layout = CairoStruct [(''d0'', CairoFelt), (''d1'', CairoFelt), (''d3'', CairoFelt)]"

definition EcCoordinate_layout :: cairo_type where
  "EcCoordinate_layout = CairoStruct [(''x'', EcPoint_layout), (''y'', EcPoint_layout)]"

definition new_CallContractRequest_layout :: cairo_type where
  "new_CallContractRequest_layout = CairoStruct [(''contract_address'', CairoFelt), (''selector'', CairoFelt), (''calldata_start'', CairoFelt),
     (''calldata_end'', CairoFelt)]"

definition new_CallContractResponse_layout :: cairo_type where
  "new_CallContractResponse_layout = CairoStruct [(''retdata_start'', CairoFelt), (''retdata_end'', CairoFelt)]"

definition new_DeployRequest_layout :: cairo_type where
  "new_DeployRequest_layout = CairoStruct [(''class_hash'', CairoFelt), (''contract_address_salt'', CairoFelt),
     (''constructor_calldata_start'', CairoFelt), (''constructor_calldata_end'', CairoFelt),
     (''deploy_from_zero'', CairoFelt)]"

definition new_DeployResponse_layout :: cairo_type where
  "new_DeployResponse_layout = CairoStruct [(''contract_address'', CairoFelt), (''constructor_retdata_start'', CairoRelocatable),
     (''constructor_retdata_end'', CairoRelocatable)]"

definition new_EmitEventRequest_layout :: cairo_type where
  "new_EmitEventRequest_layout = CairoStruct [(''keys_start'', CairoFelt), (''keys_end'', CairoFelt), (''data_start'', CairoFelt),
     (''data_end'', CairoFelt)]"

definition new_GetBlockHashRequest_layout :: cairo_type where
  "new_GetBlockHashRequest_layout = CairoStruct [(''block_number'', CairoFelt)]"

definition new_LibraryCallRequest_layout :: cairo_type where
  "new_LibraryCallRequest_layout = CairoStruct [(''class_hash'', CairoFelt), (''selector'', CairoFelt), (''calldata_start'', CairoRelocatable),
     (''calldata_end'', CairoRelocatable)]"

definition new_SendMessageToL1Request_layout :: cairo_type where
  "new_SendMessageToL1Request_layout = CairoStruct [(''to_address'', CairoFelt), (''payload_start'', CairoFelt), (''payload_end'', CairoFelt)]"

definition new_StorageReadRequest_layout :: cairo_type where
  "new_StorageReadRequest_layout = CairoStruct [(''address_domain'', CairoFelt), (''key'', CairoFelt)]"

definition new_StorageWriteRequest_layout :: cairo_type where
  "new_StorageWriteRequest_layout = CairoStruct [(''address_domain'', CairoFelt), (''key'', CairoFelt), (''value'', CairoFelt)]"

definition new_ReplaceClassRequest_layout :: cairo_type where
  "new_ReplaceClassRequest_layout = CairoStruct [(''class_hash'', CairoFelt)]"

definition new_ExecutionInfo_layout :: cairo_type where
  "new_ExecutionInfo_layout = CairoStruct [(''block_info'', CairoRelocatable), (''tx_info'', CairoRelocatable),
     (''caller_address'', CairoFelt), (''contract_address'', CairoFelt), (''selector'', CairoFelt)]"

definition new_BlockInfo_layout :: cairo_type where
  "new_BlockInfo_layout = CairoStruct [(''block_number'', CairoFelt), (''block_timestamp'', CairoFelt), (''sequencer_address'', CairoFelt)]"

section \<open>Properties of layouts\<close>

text \<open>All the structures.\<close>

definition structures :: "cairo_type list" where
  "structures =
    [BigInt3_layout, HashBuiltin_layout, SpongeHashBuiltin_layout, ContractClassComponentHashes_layout, DictAccess_layout,
     ExecutionContext_layout, CompiledClassFact_layout, CompiledClass_layout, EntryPointReturnValues_layout,
     BuiltinParams_layout, NodeEdge_layout, StorageReadRequest_layout, StorageReadResponse_layout, StorageRead_layout,
     StorageWrite_layout, CallContractRequest_layout, CallContractResponse_layout, CallContract_layout, DeployRequest_layout,
     DeployResponse_layout, Deploy_layout, GetBlockNumberRequest_layout, GetBlockNumberResponse_layout, GetBlockNumber_layout,
     GetBlockTimestampRequest_layout, GetBlockTimestampResponse_layout, GetBlockTimestamp_layout,
     GetContractAddressRequest_layout, GetContractAddressResponse_layout, GetContractAddress_layout, LibraryCallRequest_layout,
     LibraryCall_layout, GetSequencerAddressRequest_layout, GetSequencerAddressResponse_layout, GetSequencerAddress_layout,
     TxInfo_layout, GetTxInfoRequest_layout, GetTxInfoResponse_layout, GetTxInfo_layout, GetTxSignatureRequest_layout,
     GetTxSignatureResponse_layout, GetTxSignature_layout, SecpNewResponse_layout, EcPoint_layout, EcCoordinate_layout,
     new_CallContractRequest_layout, new_CallContractResponse_layout, new_DeployRequest_layout, new_DeployResponse_layout,
     new_EmitEventRequest_layout, new_GetBlockHashRequest_layout, new_LibraryCallRequest_layout,
     new_SendMessageToL1Request_layout, new_StorageReadRequest_layout, new_StorageWriteRequest_layout,
     new_ReplaceClassRequest_layout, new_ExecutionInfo_layout, new_BlockInfo_layout]"

text \<open>A structure with distinct field names, whose fields are structures of the same kind.\<close>

fun layout_wf :: "cairo_type \<Rightarrow> bool" where
  "layout_wf CairoFelt = True"
| "layout_wf CairoRelocatable = True"
| "layout_wf (CairoStruct fs) \<longleftrightarrow> fs \<noteq> [] \<and> distinct (map fst fs) \<and> (\<forall>f\<in>set fs. layout_wf (snd f))"

lemma layout_size_pos: "layout_wf ty \<Longrightarrow> 0 < cairo_size ty"
proof (induction ty rule: cairo_size.induct)
  case (3 fs)
  then obtain f gs where "fs = f # gs" by (cases fs) auto
  with 3 show ?case by auto
qed auto

lemma offsets_from_names [simp]: "map fst (offsets_from k fs) = map fst fs"
  by (induction k fs rule: offsets_from.induct) auto

text \<open>The cells of a field.\<close>

definition cells_of :: "(string \<times> nat) list \<Rightarrow> (string \<times> cairo_type) list \<Rightarrow> string \<Rightarrow> nat list" where
  "cells_of offs fs name =
     (case (map_of offs name, map_of fs name) of (Some j, Some fty) \<Rightarrow> [j..<j + cairo_size fty] | _ \<Rightarrow> [])"

definition field_cells :: "cairo_type \<Rightarrow> string \<Rightarrow> nat list" where
  "field_cells ty = cells_of (offsets_from 0 (fields_of ty)) (fields_of ty)"

lemma cells_of_Cons:
  "cells_of ((n, k) # offs) ((n, ty) # fs) n = [k..<k + cairo_size ty]"
  "m \<noteq> n \<Longrightarrow> cells_of ((n, k) # offs) ((n, ty) # fs) m = cells_of offs fs m"
  by (simp_all add: cells_of_def)

lemma offsets_tile:
  assumes "distinct (map fst fs)"
  shows "concat (map (cells_of (offsets_from k fs) fs) (map fst fs)) = [k..<k + sum_list (map (\<lambda>f. cairo_size (snd f)) fs)]"
  using assms
proof (induction k fs rule: offsets_from.induct)
  case (2 k name ty fs)
  have tl: "map (cells_of (offsets_from k ((name, ty) # fs)) ((name, ty) # fs)) (map fst fs) =
    map (cells_of (offsets_from (k + cairo_size ty) fs) fs) (map fst fs)"
  proof (rule map_cong [OF refl])
    fix m assume "m \<in> set (map fst fs)"
    with "2.prems" have "m \<noteq> name" by auto
    then show "cells_of (offsets_from k ((name, ty) # fs)) ((name, ty) # fs) m =
        cells_of (offsets_from (k + cairo_size ty) fs) fs m"
      by (simp add: cells_of_Cons(2))
  qed
  have "concat (map (cells_of (offsets_from k ((name, ty) # fs)) ((name, ty) # fs)) (map fst ((name, ty) # fs))) =
      [k..<k + cairo_size ty] @ concat (map (cells_of (offsets_from (k + cairo_size ty) fs) fs) (map fst fs))"
    unfolding list.map(2) [of fst] fst_conv list.map(2) [of "cells_of _ _"] concat.simps(2) tl
    by (simp add: cells_of_Cons(1))
  also have "\<dots> = [k..<k + cairo_size ty] @
      [k + cairo_size ty..<k + cairo_size ty + sum_list (map (\<lambda>f. cairo_size (snd f)) fs)]"
    using 2 by (simp only: distinct.simps list.map)
  also have "\<dots> = [k..<k + sum_list (map (\<lambda>f. cairo_size (snd f)) ((name, ty) # fs))]"
    using upt_add_eq_append [of k "k + cairo_size ty" "sum_list (map (\<lambda>f. cairo_size (snd f)) fs)"]
    by (simp add: add.assoc)
  finally show ?case .
qed simp

lemma struct_tiles:
  assumes "layout_wf (CairoStruct fs)"
  shows "concat (map (field_cells (CairoStruct fs)) (map fst fs)) = [0..<cairo_size (CairoStruct fs)] \<and>
    (\<forall>f\<in>set fs. \<exists>k. field_offset (CairoStruct fs) (fst f) = Some k \<and>
       field_cells (CairoStruct fs) (fst f) = [k..<k + cairo_size (snd f)] \<and>
       k + cairo_size (snd f) \<le> cairo_size (CairoStruct fs))"
proof (intro conjI ballI)
  have d: "distinct (map fst fs)" using assms by simp
  show tile: "concat (map (field_cells (CairoStruct fs)) (map fst fs)) = [0..<cairo_size (CairoStruct fs)]"
    using offsets_tile [OF d, of 0] by (simp add: field_cells_def del: map_map)
  fix f
  assume f: "f \<in> set fs"
  then have fty: "map_of fs (fst f) = Some (snd f)"
    using d by (intro map_of_is_SomeI) simp_all
  have "fst f \<in> set (map fst (offsets_from 0 fs))" using f by simp
  then obtain k where k: "map_of (offsets_from 0 fs) (fst f) = Some k"
    by (metis map_of_eq_None_iff not_None_eq list.set_map)
  have cells: "field_cells (CairoStruct fs) (fst f) = [k..<k + cairo_size (snd f)]"
    by (simp add: field_cells_def cells_of_def k fty)
  have "set (field_cells (CairoStruct fs) (fst f)) \<subseteq> {0..<cairo_size (CairoStruct fs)}"
    using f arg_cong [OF tile, of set] by auto
  moreover have "0 < cairo_size (snd f)" using assms f by (intro layout_size_pos) auto
  ultimately have "k + cairo_size (snd f) \<le> cairo_size (CairoStruct fs)"
    unfolding cells by (auto dest!: subsetD [of _ _ "k + cairo_size (snd f) - 1"])
  with k cells show "\<exists>k. field_offset (CairoStruct fs) (fst f) = Some k \<and>
       field_cells (CairoStruct fs) (fst f) = [k..<k + cairo_size (snd f)] \<and>
       k + cairo_size (snd f) \<le> cairo_size (CairoStruct fs)"
    by (simp add: field_offset_def)
qed

lemma structures_wf: "list_all layout_wf structures"
  by code_simp

lemma structures_struct: "ty \<in> set structures \<Longrightarrow> ty = CairoStruct (fields_of ty)"
proof -
  have "list_all (\<lambda>ty. ty = CairoStruct (fields_of ty)) structures" by code_simp
  then show "ty \<in> set structures \<Longrightarrow> ty = CairoStruct (fields_of ty)" unfolding list_all_iff by blast
qed

text \<open>
  C20. The offset getters lay every one of the structures out without gaps or overlaps: its fields have distinct names, the cells of its
  fields, one field after the other, are exactly the cells from 0 to its size, and each field has an offset with its size many cells
  from there on, which end within the structure. Hence two fields never share a cell.
\<close>

theorem layout_tiles:
  assumes "ty \<in> set structures"
  shows "distinct (map fst (fields_of ty)) \<and>
    concat (map (field_cells ty) (map fst (fields_of ty))) = [0..<cairo_size ty] \<and>
    (\<forall>f\<in>set (fields_of ty). \<exists>k. field_offset ty (fst f) = Some k \<and>
       field_cells ty (fst f) = [k..<k + cairo_size (snd f)] \<and> k + cairo_size (snd f) \<le> cairo_size ty)"
proof -
  obtain fs where ty: "ty = CairoStruct fs" using structures_struct [OF assms] by blast
  have wf: "layout_wf (CairoStruct fs)" using structures_wf assms unfolding list_all_iff ty by blast
  then have "distinct (map fst fs)" by simp
  with struct_tiles [OF wf] show ?thesis unfolding ty fields_of.simps by blast
qed

theorem layout_tiles_witness:
  "Deploy_layout \<in> set structures \<and> TxInfo_layout \<in> set structures \<and> cairo_size Deploy_layout = 9 \<and>
   field_offset Deploy_layout ''response'' = Some 6 \<and>
   concat (map (field_cells Deploy_layout) (map fst (fields_of Deploy_layout))) = [0..<9] \<and>
   distinct (map fst (fields_of TxInfo_layout))"
proof -
  have wf: "Deploy_layout \<in> set structures" "TxInfo_layout \<in> set structures" by (simp_all add: structures_def)
  moreover have "cairo_size Deploy_layout = 9" "field_offset Deploy_layout ''response'' = Some 6"
    by (simp_all add: Deploy_layout_def DeployRequest_layout_def DeployResponse_layout_def field_offset_def)
  ultimately show ?thesis
    using layout_tiles [OF wf(1), THEN conjunct2, THEN conjunct1] layout_tiles [OF wf(2), THEN conjunct1]
    by (simp only: HOL.simp_thms)
qed

text \<open>Writing the fields of a structure to cells that are free, and reading them.\<close>

lemma to_memory_fields_ok:
  assumes laws: "vm_laws api cells segs" and "segment_index a \<in> segs vm" and "offset a + n + length xs \<le> segment_capacity api"
    and "\<forall>i < length xs. cells vm (shift a (n + i)) = None"
  shows "\<exists>vm'. to_memory_fields api n xs a vm = (Inr (), vm') \<and>
    cells vm' = write_all (shift a n) (map IntV xs) (cells vm) \<and> segs vm' = segs vm"
  using assms(2-)
proof (induction xs arbitrary: n vm)
  case (Cons x xs)
  have "cells vm (shift a n) = None" using Cons.prems(3) by (metis add_0_right length_greater_0_conv list.distinct(1))
  then obtain vm1 where vm1: "insert_value api (shift a n) (IntV x) vm = (Inr (), vm1)"
    "cells vm1 = (cells vm)(shift a n \<mapsto> IntV x)" "segs vm1 = segs vm"
    using vm_insert_value [OF laws, of "shift a n" vm "IntV x"] Cons.prems(1,2) by auto
  have "cells vm1 (shift a (n + 1 + i)) = None" if "i < length xs" for i
    using Cons.prems(3) [rule_format, of "Suc i"] that by (simp add: vm1(2))
  with Cons.IH [of vm1 "n + 1"] Cons.prems obtain vm2 where
    vm2: "to_memory_fields api (n + 1) xs a vm1 = (Inr (), vm2)"
      "cells vm2 = write_all (shift a (n + 1)) (map IntV xs) (cells vm1)" "segs vm2 = segs vm1"
    by (auto simp: vm1(3))
  have "insertS api (shift a n) (IntV x) vm = (Inr (), vm1)"
    using vm1(1) by (simp add: insertS_def of_vm_def)
  moreover have "add_offset api a n = Inr (shift a n)"
    using Cons.prems(2) vm_capacity [OF laws] by (simp add: add_offset_def of_vm_def vm_rel_add [OF laws])
  ultimately show ?case
    using vm1 vm2 by simp
qed simp

lemma from_memory_fields_ok:
  assumes laws: "vm_laws api cells segs"
    and "\<forall>i\<in>set is. offset a + i < u64_bound \<and> cells vm (shift a i) = Some (IntV (f i))"
  shows "from_memory_fields api vm a is = Inr (map f is)"
  using assms(2)
proof (induction "is")
  case (Cons i "is")
  have "add_offset api a i = Inr (shift a i)" "get_integer api vm (shift a i) = Inr (f i)"
    using Cons.prems by (simp_all add: add_offset_def of_vm_def vm_rel_add [OF laws] vm_get_integer [OF laws])
  with Cons show ?case by (simp add: of_vm_def)
qed simp

text \<open>
  C19. A structure of field elements that is written to free cells of a segment, within its capacity, is read back as it was
  written, and no cell outside the structure changes.
\<close>

theorem memory_roundtrip:
  assumes "vm_laws api cells segs" and "segment_index a \<in> segs vm" and "offset a + n_fields ty \<le> segment_capacity api"
    and "\<forall>i < n_fields ty. cells vm (shift a i) = None" and "length xs = n_fields ty"
  shows "\<exists>vm'. to_memory api xs a vm = (Inr (), vm') \<and> from_memory api ty vm' a = Inr xs \<and>
    (\<forall>b. (\<forall>i < n_fields ty. b \<noteq> shift a i) \<longrightarrow> cells vm' b = cells vm b)"
proof -
  obtain vm' where vm': "to_memory_fields api 0 xs a vm = (Inr (), vm')"
    "cells vm' = write_all a (map IntV xs) (cells vm)"
    using to_memory_fields_ok [OF assms(1,2), of 0 xs] assms(3-5) by auto
  have "from_memory_fields api vm' a [0..<n_fields ty] = Inr (map (\<lambda>i. xs ! i) [0..<n_fields ty])"
    using assms(3,5) vm_capacity [OF assms(1)]
    by (intro from_memory_fields_ok [OF assms(1)]) (auto simp: vm'(2) write_all_at)
  moreover have "map (\<lambda>i. xs ! i) [0..<n_fields ty] = xs"
    using assms(5) map_nth [of xs] by simp
  moreover have "cells vm' b = cells vm b" if "\<forall>i < n_fields ty. b \<noteq> shift a i" for b
    using that assms(5) unfolding vm'(2) by (intro write_all_other) simp
  ultimately show ?thesis
    using vm'(1) by (intro exI [of _ vm']) (simp add: to_memory_def from_memory_def)
qed

definition demo_vm :: toy_vm where
  "demo_vm = \<lparr> toy_cells = (\<lambda>_. None), toy_next = 2, toy_temp = 0 \<rparr>"

lemma demo_vm_simps [simp]: "toy_mem demo_vm a = None" "toy_segs demo_vm = {0, 1}"
  by (auto simp: demo_vm_def toy_mem_def toy_segs_def)

theorem memory_roundtrip_witness:
  "\<exists>vm'. to_memory toy_api [251, 1000, 2000] (rel 1 5) demo_vm = (Inr (), vm') \<and>
     from_memory toy_api NodeEdge_layout vm' (rel 1 5) = Inr [251, 1000, 2000] \<and> toy_mem vm' (rel 1 8) = None"
proof -
  have n: "n_fields NodeEdge_layout = 3" by (simp add: n_fields_def NodeEdge_layout_def)
  have "rel 1 8 \<noteq> rel 1 (5 + i)" if "i < 3" for i using that by (simp add: rel_def)
  with memory_roundtrip [OF toy_laws, of "rel 1 5" demo_vm NodeEdge_layout "[251, 1000, 2000]"] show ?thesis
    by (auto simp: n toy_api_def toy_capacity_def)
qed

end
