(* ===== verification/Execution_Helper.thy ===== *)
theory Execution_Helper
  imports Starknet_Storage Kzg Vm "HOL-Library.Sublist"
begin

text \<open>
  The execution helper (\<open>execution/helper.rs\<close>), which replays the calls that the blockifier recorded
  for the transactions of a block. It holds iterators over the transactions, over the calls of the current transaction, and
  over the results, deployed addresses and storage reads of the current call.

  The recorded calls are values of the blockifier; \<open>call_info\<close> has the fields of \<open>CallInfo\<close> that the
  code reads. The block context, the input of the operating system and the elliptic curve processors are type
  parameters. The locks around the helper are taken for one method at a time, so that
  methods are functions on its state.

  The theory shows that a run that gets through has entered the calls of all transactions, each once and in
  order, and has consumed all that was recorded for them, and that a run that follows the
  record gets through.
\<close>

section \<open>Recorded calls\<close>

datatype entry_point_type = Constructor | External | L1Handler

datatype call_info =
  CallInfo
    (ci_entry_point_type: entry_point_type)
    (ci_storage_address: felt)
    (ci_caller_address: felt)
    (ci_failed: bool)
    (ci_retdata: "felt list")
    (ci_gas_consumed: nat)
    (storage_read_values: "felt list")
    (inner_calls: "call_info list")

record call_result =
  cr_failed :: bool
  cr_retdata :: "felt list"
  cr_gas_consumed :: nat

record transaction_execution_info =
  validate_call_info :: "call_info option"
  execute_call_info :: "call_info option"
  fee_transfer_call_info :: "call_info option"

primrec gen_call_topology :: "call_info \<Rightarrow> call_info list" where
  "gen_call_topology (CallInfo ty addr caller failed retdata gas reads inner) =
     CallInfo ty addr caller failed retdata gas reads inner # concat (map gen_call_topology inner)"

definition opt_iter :: "'a option \<Rightarrow> 'a list" where
  "opt_iter x = (case x of None \<Rightarrow> [] | Some a \<Rightarrow> [a])"

definition gen_call_iterator :: "transaction_execution_info \<Rightarrow> call_info list" where
  "gen_call_iterator tx =
     (let is_deploy =
        (case execute_call_info tx of
           Some call \<Rightarrow> ci_entry_point_type call = Constructor
         | None \<Rightarrow> False);
        call_info_iter =
          (if is_deploy
           then opt_iter (execute_call_info tx) @ opt_iter (validate_call_info tx) @ opt_iter (fee_transfer_call_info tx)
           else opt_iter (validate_call_info tx) @ opt_iter (execute_call_info tx) @ opt_iter (fee_transfer_call_info tx))
      in concat (map gen_call_topology call_info_iter))"

section \<open>The helper\<close>

text \<open>The processor of the syscalls of one elliptic curve, and the segment its points live in.\<close>

record 'p secp_syscall_processor =
  processor :: 'p
  secp_segment :: "relocatable option"

text \<open>The trait \<open>PerContractStorage\<close>.\<close>

record 'pcs pcs_ops =
  pcs_compute_commitment :: "'pcs \<Rightarrow> (commitment_info_error, commitment_info \<times> 'pcs) res"
  pcs_read :: "'pcs \<Rightarrow> tree_index \<Rightarrow> (storage_error, felt option \<times> 'pcs) res"
  pcs_write :: "'pcs \<Rightarrow> tree_index \<Rightarrow> felt \<Rightarrow> 'pcs"

record ('pcs, 'bc, 'inp, 'k1, 'r1) execution_helper =
  prev_block_context :: "'bc option"
  eh_os_input :: "'inp option"
  eh_kzg_manager :: kzg_manager
  tx_execution_info_iter :: "transaction_execution_info list"
  tx_execution_info :: "transaction_execution_info option"
  tx_info_ptr :: "relocatable option"
  call_execution_info_ptr :: "relocatable option"
  old_block_number_and_hash :: "(felt \<times> felt) option"
  call_iter :: "call_info list"
  eh_call_info :: "call_info option"
  result_iter :: "call_result list"
  deployed_contracts_iter :: "felt list"
  execute_code_read_iter :: "felt list"
  storage_by_address :: "(felt, 'pcs) hash_map"
  secp256k1_syscall_processor :: "'k1 secp_syscall_processor"
  secp256r1_syscall_processor :: "'r1 secp_syscall_processor"
  sha256_segment :: "relocatable option"

definition STORED_BLOCK_HASH_BUFFER :: nat where
  "STORED_BLOCK_HASH_BUFFER = 10"

definition ExecutionHelper_new ::
  "('bc \<Rightarrow> nat) \<Rightarrow> 'k1 \<Rightarrow> 'r1 \<Rightarrow> (felt, 'pcs) hash_map \<Rightarrow> transaction_execution_info list \<Rightarrow> 'bc \<Rightarrow> 'inp option \<Rightarrow> felt \<times> felt
   \<Rightarrow> ('pcs, 'bc, 'inp, 'k1, 'r1) execution_helper" where
  "ExecutionHelper_new block_number k1_default r1_default contract_storage_map tx_execution_infos block_context os_input old_block =
     \<lparr> prev_block_context =
         (if STORED_BLOCK_HASH_BUFFER \<le> block_number block_context then Some block_context else None),
       eh_os_input = os_input,
       eh_kzg_manager = KzgManager_default,
       tx_execution_info_iter = tx_execution_infos,
       tx_execution_info = None,
       tx_info_ptr = None,
       call_execution_info_ptr = None,
       old_block_number_and_hash = Some old_block,
       call_iter = [],
       eh_call_info = None,
       result_iter = [],
       deployed_contracts_iter = [],
       execute_code_read_iter = [],
       storage_by_address = contract_storage_map,
       secp256k1_syscall_processor = \<lparr> processor = k1_default, secp_segment = None \<rparr>,
       secp256r1_syscall_processor = \<lparr> processor = r1_default, secp_segment = None \<rparr>,
       sha256_segment = None \<rparr>"

definition get_old_block_number_and_hash ::
  "('pcs, 'bc, 'inp, 'k1, 'r1) execution_helper \<Rightarrow> ('x hint_error, felt \<times> felt) res" where
  "get_old_block_number_and_hash eh =
     ok_or (AssertionFailedHint (''Block number is probably < '' @ decimal STORED_BLOCK_HASH_BUFFER @ ''.''))
       (old_block_number_and_hash eh)"

definition start_tx ::
  "relocatable option \<Rightarrow> ('pcs, 'bc, 'inp, 'k1, 'r1) execution_helper
   \<Rightarrow> ('e, ('pcs, 'bc, 'inp, 'k1, 'r1) execution_helper) res" where
  "start_tx ptr eh =
     bindR (assert_that ''tx_info_ptr'' (tx_info_ptr eh = None)) (\<lambda>_.
       let eh = eh \<lparr> tx_info_ptr := ptr \<rparr> in
       bindR (assert_that ''tx_execution_info'' (tx_execution_info eh = None)) (\<lambda>_.
         case tx_execution_info_iter eh of
           [] \<Rightarrow> Inl (Panic ''called unwrap on a None value'')
         | tx # txs \<Rightarrow>
             Inr (eh \<lparr> tx_execution_info := Some tx, tx_execution_info_iter := txs, call_iter := gen_call_iterator tx \<rparr>)))"

definition end_tx ::
  "('pcs, 'bc, 'inp, 'k1, 'r1) execution_helper \<Rightarrow> ('e, ('pcs, 'bc, 'inp, 'k1, 'r1) execution_helper) res" where
  "end_tx eh =
     bindR (assert_that ''call_iter'' (call_iter eh = [])) (\<lambda>_.
       let eh = eh \<lparr> tx_info_ptr := None \<rparr> in
       bindR (assert_that ''tx_execution_info'' (tx_execution_info eh \<noteq> None)) (\<lambda>_.
         Inr (eh \<lparr> tx_execution_info := None \<rparr>)))"

definition skip_tx ::
  "('pcs, 'bc, 'inp, 'k1, 'r1) execution_helper \<Rightarrow> ('e, ('pcs, 'bc, 'inp, 'k1, 'r1) execution_helper) res" where
  "skip_tx eh = bindR (start_tx None eh) end_tx"

definition assert_iterators_exhausted :: "('pcs, 'bc, 'inp, 'k1, 'r1) execution_helper \<Rightarrow> ('e, unit) res" where
  "assert_iterators_exhausted eh =
     bindR (assert_that ''deployed_contracts_iter'' (deployed_contracts_iter eh = [])) (\<lambda>_.
     bindR (assert_that ''result_iter'' (result_iter eh = [])) (\<lambda>_.
       assert_that ''execute_code_read_iter'' (execute_code_read_iter eh = [])))"

text \<open>What a call has recorded: the addresses its inner calls deployed, their results, and its reads.\<close>

definition deployed_of :: "call_info \<Rightarrow> felt list" where
  "deployed_of c =
     List.map_filter (\<lambda>call. if ci_entry_point_type call = Constructor then Some (ci_storage_address call) else None)
       (inner_calls c)"

definition results_of :: "call_info \<Rightarrow> call_result list" where
  "results_of c =
     map (\<lambda>call. \<lparr> cr_failed = ci_failed call, cr_retdata = ci_retdata call, cr_gas_consumed = ci_gas_consumed call \<rparr>)
       (inner_calls c)"

definition enter_call ::
  "relocatable option \<Rightarrow> ('pcs, 'bc, 'inp, 'k1, 'r1) execution_helper
   \<Rightarrow> ('e, ('pcs, 'bc, 'inp, 'k1, 'r1) execution_helper) res" where
  "enter_call ptr eh =
     bindR (assert_that ''call_execution_info_ptr'' (call_execution_info_ptr eh = None)) (\<lambda>_.
       let eh = eh \<lparr> call_execution_info_ptr := ptr \<rparr> in
       bindR (assert_iterators_exhausted eh) (\<lambda>_.
       bindR (assert_that ''call_info'' (eh_call_info eh = None)) (\<lambda>_.
         case call_iter eh of
           [] \<Rightarrow> Inl (Panic ''called unwrap on a None value'')
         | call # calls \<Rightarrow>
             Inr (eh \<lparr> call_iter := calls,
                       deployed_contracts_iter := deployed_of call,
                       result_iter := results_of call,
                       execute_code_read_iter := storage_read_values call,
                       eh_call_info := Some call \<rparr>))))"

definition exit_call ::
  "('pcs, 'bc, 'inp, 'k1, 'r1) execution_helper \<Rightarrow> ('e, ('pcs, 'bc, 'inp, 'k1, 'r1) execution_helper) res" where
  "exit_call eh =
     (let eh = eh \<lparr> call_execution_info_ptr := None \<rparr> in
      bindR (assert_iterators_exhausted eh) (\<lambda>_.
      bindR (assert_that ''call_info'' (eh_call_info eh \<noteq> None)) (\<lambda>_.
        Inr (eh \<lparr> eh_call_info := None \<rparr>))))"

definition skip_call ::
  "('pcs, 'bc, 'inp, 'k1, 'r1) execution_helper \<Rightarrow> ('e, ('pcs, 'bc, 'inp, 'k1, 'r1) execution_helper) res" where
  "skip_call eh = bindR (enter_call None eh) exit_call"

definition read_storage_for_address ::
  "'pcs pcs_ops \<Rightarrow> felt \<Rightarrow> felt \<Rightarrow> ('pcs, 'bc, 'inp, 'k1, 'r1) execution_helper
   \<Rightarrow> (storage_error, felt \<times> ('pcs, 'bc, 'inp, 'k1, 'r1) execution_helper) res" where
  "read_storage_for_address ops address key eh =
     (case map_of (storage_by_address eh) address of
        Some storage \<Rightarrow>
          bindR (pcs_read ops storage key) (\<lambda>(value, storage').
          bindR (ok_or ContentNotFound value) (\<lambda>value.
            Inr (value, eh \<lparr> storage_by_address := hm_insert address storage' (storage_by_address eh) \<rparr>)))
      | None \<Rightarrow> Inl (Error ContentNotFound))"

definition write_storage_for_address ::
  "'pcs pcs_ops \<Rightarrow> felt \<Rightarrow> felt \<Rightarrow> felt \<Rightarrow> ('pcs, 'bc, 'inp, 'k1, 'r1) execution_helper
   \<Rightarrow> (storage_error, ('pcs, 'bc, 'inp, 'k1, 'r1) execution_helper) res" where
  "write_storage_for_address ops address key value eh =
     (case map_of (storage_by_address eh) address of
        Some storage \<Rightarrow>
          Inr (eh \<lparr> storage_by_address := hm_insert address (pcs_write ops storage key value) (storage_by_address eh) \<rparr>)
      | None \<Rightarrow> Inl (Error ContentNotFound))"

text \<open>The storages are visited in the order of the map; each is replaced by its new state.\<close>

definition compute_storage_commitments ::
  "'pcs pcs_ops \<Rightarrow> ('pcs, 'bc, 'inp, 'k1, 'r1) execution_helper
   \<Rightarrow> (commitment_info_error, (felt, commitment_info) hash_map \<times> ('pcs, 'bc, 'inp, 'k1, 'r1) execution_helper) res" where
  "compute_storage_commitments ops eh =
     foldR (\<lambda>(commitments, eh) (key, storage).
         bindR (pcs_compute_commitment ops storage) (\<lambda>(info, storage').
           Inr (hm_insert key info commitments, eh \<lparr> storage_by_address := hm_insert key storage' (storage_by_address eh) \<rparr>)))
       ([], eh) (storage_by_address eh)"

section \<open>Replaying a block\<close>

text \<open>The system calls take one item from an iterator of the current call.\<close>

definition next_result ::
  "('pcs, 'bc, 'inp, 'k1, 'r1) execution_helper \<Rightarrow> (call_result \<times> ('pcs, 'bc, 'inp, 'k1, 'r1) execution_helper) option" where
  "next_result eh = (case result_iter eh of [] \<Rightarrow> None | r # rs \<Rightarrow> Some (r, eh \<lparr> result_iter := rs \<rparr>))"

definition next_deployed ::
  "('pcs, 'bc, 'inp, 'k1, 'r1) execution_helper \<Rightarrow> (felt \<times> ('pcs, 'bc, 'inp, 'k1, 'r1) execution_helper) option" where
  "next_deployed eh =
     (case deployed_contracts_iter eh of [] \<Rightarrow> None | a # as \<Rightarrow> Some (a, eh \<lparr> deployed_contracts_iter := as \<rparr>))"

definition next_read ::
  "('pcs, 'bc, 'inp, 'k1, 'r1) execution_helper \<Rightarrow> (felt \<times> ('pcs, 'bc, 'inp, 'k1, 'r1) execution_helper) option" where
  "next_read eh =
     (case execute_code_read_iter eh of [] \<Rightarrow> None | v # vs \<Rightarrow> Some (v, eh \<lparr> execute_code_read_iter := vs \<rparr>))"

text \<open>What a run has taken from the helper.\<close>

record replay_log =
  entered :: "call_info list"
  taken_results :: "call_result list"
  taken_deployed :: "felt list"
  taken_reads :: "felt list"

definition empty_log :: replay_log where
  "empty_log = \<lparr> entered = [], taken_results = [], taken_deployed = [], taken_reads = [] \<rparr>"

datatype replay_action =
    StartTx "relocatable option" | EndTx | EnterCall "relocatable option" | ExitCall
  | NextResult | NextDeployed | NextRead

fun replay_act ::
  "replay_action \<Rightarrow> ('pcs, 'bc, 'inp, 'k1, 'r1) execution_helper \<times> replay_log
   \<Rightarrow> (unit, ('pcs, 'bc, 'inp, 'k1, 'r1) execution_helper \<times> replay_log) res" where
  "replay_act (StartTx ptr) (eh, log) = bindR (start_tx ptr eh) (\<lambda>eh. Inr (eh, log))"
| "replay_act EndTx (eh, log) = bindR (end_tx eh) (\<lambda>eh. Inr (eh, log))"
| "replay_act (EnterCall ptr) (eh, log) =
     bindR (enter_call ptr eh) (\<lambda>eh. Inr (eh, log \<lparr> entered := entered log @ opt_iter (eh_call_info eh) \<rparr>))"
| "replay_act ExitCall (eh, log) = bindR (exit_call eh) (\<lambda>eh. Inr (eh, log))"
| "replay_act NextResult (eh, log) =
     bindR (ok_or () (next_result eh)) (\<lambda>(r, eh). Inr (eh, log \<lparr> taken_results := taken_results log @ [r] \<rparr>))"
| "replay_act NextDeployed (eh, log) =
     bindR (ok_or () (next_deployed eh)) (\<lambda>(a, eh). Inr (eh, log \<lparr> taken_deployed := taken_deployed log @ [a] \<rparr>))"
| "replay_act NextRead (eh, log) =
     bindR (ok_or () (next_read eh)) (\<lambda>(v, eh). Inr (eh, log \<lparr> taken_reads := taken_reads log @ [v] \<rparr>))"

inductive replays ::
  "('pcs, 'bc, 'inp, 'k1, 'r1) execution_helper \<Rightarrow> ('pcs, 'bc, 'inp, 'k1, 'r1) execution_helper \<times> replay_log \<Rightarrow> bool"
  for eh0 where
    replays_start: "replays eh0 (eh0, empty_log)"
  | replays_step: "replays eh0 s \<Longrightarrow> replay_act a s = Inr s' \<Longrightarrow> replays eh0 s'"

definition replay_finished :: "('pcs, 'bc, 'inp, 'k1, 'r1) execution_helper \<Rightarrow> bool" where
  "replay_finished eh \<longleftrightarrow> tx_execution_info_iter eh = [] \<and> tx_execution_info eh = None \<and> eh_call_info eh = None"

text \<open>
  The invariant of a run: the calls entered and those still to come are the calls of all
  transactions, what was taken and what is left is what the entered calls have recorded, and between calls and
  transactions nothing is left over.
\<close>

definition replay_inv ::
  "transaction_execution_info list \<Rightarrow> ('pcs, 'bc, 'inp, 'k1, 'r1) execution_helper \<times> replay_log \<Rightarrow> bool" where
  "replay_inv txs s \<longleftrightarrow>
     (case s of (eh, log) \<Rightarrow>
        entered log @ call_iter eh @ concat (map gen_call_iterator (tx_execution_info_iter eh)) =
          concat (map gen_call_iterator txs) \<and>
        taken_results log @ result_iter eh = concat (map results_of (entered log)) \<and>
        taken_deployed log @ deployed_contracts_iter eh = concat (map deployed_of (entered log)) \<and>
        taken_reads log @ execute_code_read_iter eh = concat (map storage_read_values (entered log)) \<and>
        (tx_execution_info eh = None \<longrightarrow> call_iter eh = [] \<and> tx_info_ptr eh = None) \<and>
        (eh_call_info eh = None \<longrightarrow>
           result_iter eh = [] \<and> deployed_contracts_iter eh = [] \<and> execute_code_read_iter eh = [] \<and>
           call_execution_info_ptr eh = None))"

lemmas helper_defs = start_tx_def end_tx_def enter_call_def exit_call_def assert_iterators_exhausted_def
  next_result_def next_deployed_def next_read_def Let_def opt_iter_def

lemma replay_inv_step:
  assumes "replay_inv txs s" and "replay_act a s = Inr s'"
  shows "replay_inv txs s'"
proof -
  obtain eh log where s: "s = (eh, log)" by (cases s)
  show ?thesis
    using assms unfolding s replay_inv_def
    by (cases a) (auto simp: helper_defs bindR_eq_Inr_iff split: list.splits option.splits)
qed

lemma replays_inv:
  assumes "replays (ExecutionHelper_new bn k1 r1 storages txs bc inp old) s"
  shows "replay_inv txs s"
  using assms
proof induction
  case replays_start
  show ?case by (simp add: replay_inv_def ExecutionHelper_new_def empty_log_def)
qed (rule replay_inv_step)

text \<open>
  C5. A replay cannot skip or reorder anything. Whatever sequence of starts, calls and reads a run makes of a new helper, as
  long as no assertion fails, what it has taken is a prefix of the record: of the calls of the transactions in
  their order, and of the results, deployed addresses and storage reads of the calls entered. When no transaction and no call is
  left, it has taken the whole record.
\<close>

theorem replay_exact:
  assumes "replays (ExecutionHelper_new bn k1 r1 storages txs bc inp old) (eh, log)"
    and "calls = concat (map gen_call_iterator txs)"
  shows "Sublist.prefix (entered log) calls \<and>
    Sublist.prefix (taken_results log) (concat (map results_of (entered log))) \<and>
    Sublist.prefix (taken_deployed log) (concat (map deployed_of (entered log))) \<and>
    Sublist.prefix (taken_reads log) (concat (map storage_read_values (entered log))) \<and>
    (replay_finished eh \<longrightarrow>
       entered log = calls \<and>
       taken_results log = concat (map results_of calls) \<and>
       taken_deployed log = concat (map deployed_of calls) \<and>
       taken_reads log = concat (map storage_read_values calls))"
  using replays_inv [OF assms(1)]
  by (auto simp: replay_inv_def assms(2) replay_finished_def Sublist.prefix_def) (metis append.assoc)+

text \<open>A finite sequence of actions.\<close>

fun replay_acts ::
  "replay_action list \<Rightarrow> ('pcs, 'bc, 'inp, 'k1, 'r1) execution_helper \<times> replay_log
   \<Rightarrow> (unit, ('pcs, 'bc, 'inp, 'k1, 'r1) execution_helper \<times> replay_log) res" where
  "replay_acts [] s = Inr s"
| "replay_acts (a # as) s = bindR (replay_act a s) (replay_acts as)"

definition can_reach ::
  "('pcs, 'bc, 'inp, 'k1, 'r1) execution_helper \<times> replay_log
   \<Rightarrow> (('pcs, 'bc, 'inp, 'k1, 'r1) execution_helper \<Rightarrow> bool) \<Rightarrow> bool" where
  "can_reach s P \<longleftrightarrow> (\<exists>as eh log. replay_acts as s = Inr (eh, log) \<and> P eh)"

lemma can_reach_now: "P eh \<Longrightarrow> can_reach (eh, log) P"
  unfolding can_reach_def by (intro exI [of _ "[]"] exI conjI) auto

lemma can_reach_step: "replay_act a s = Inr s' \<Longrightarrow> can_reach s' P \<Longrightarrow> can_reach s P"
  unfolding can_reach_def by (metis bindR_Inr replay_acts.simps(2))

text \<open>The current call can be finished; that leaves the rest of the helper as it is.\<close>

lemma can_take_results:
  assumes "\<And>log. can_reach (eh \<lparr> result_iter := [] \<rparr>, log) P"
  shows "can_reach (eh, log) P"
  using assms
proof (induction "result_iter eh" arbitrary: eh log)
  case Nil
  have "eh \<lparr> result_iter := [] \<rparr> = eh" using Nil.hyps by simp
  then show ?case using Nil.prems [of log] by (simp only:)
next
  case (Cons r rs)
  have "replay_act NextResult (eh, log) = Inr (eh \<lparr> result_iter := rs \<rparr>, log \<lparr> taken_results := taken_results log @ [r] \<rparr>)"
    using Cons.hyps(2) [symmetric] by (simp add: next_result_def ok_or_def)
  moreover have "can_reach (eh \<lparr> result_iter := rs \<rparr>, log') P" for log'
  proof (rule Cons.hyps(1))
    show "can_reach (eh \<lparr> result_iter := rs, result_iter := [] \<rparr>, log) P" for log
      using Cons.prems [of log] by simp
  qed simp
  ultimately show ?case by (rule can_reach_step)
qed

lemma can_take_deployed:
  assumes "\<And>log. can_reach (eh \<lparr> deployed_contracts_iter := [] \<rparr>, log) P"
  shows "can_reach (eh, log) P"
  using assms
proof (induction "deployed_contracts_iter eh" arbitrary: eh log)
  case Nil
  have "eh \<lparr> deployed_contracts_iter := [] \<rparr> = eh" using Nil.hyps by simp
  then show ?case using Nil.prems [of log] by (simp only:)
next
  case (Cons a as)
  have "replay_act NextDeployed (eh, log) =
      Inr (eh \<lparr> deployed_contracts_iter := as \<rparr>, log \<lparr> taken_deployed := taken_deployed log @ [a] \<rparr>)"
    using Cons.hyps(2) [symmetric] by (simp add: next_deployed_def ok_or_def)
  moreover have "can_reach (eh \<lparr> deployed_contracts_iter := as \<rparr>, log') P" for log'
  proof (rule Cons.hyps(1))
    show "can_reach (eh \<lparr> deployed_contracts_iter := as, deployed_contracts_iter := [] \<rparr>, log) P" for log
      using Cons.prems [of log] by simp
  qed simp
  ultimately show ?case by (rule can_reach_step)
qed

lemma can_take_reads:
  assumes "\<And>log. can_reach (eh \<lparr> execute_code_read_iter := [] \<rparr>, log) P"
  shows "can_reach (eh, log) P"
  using assms
proof (induction "execute_code_read_iter eh" arbitrary: eh log)
  case Nil
  have "eh \<lparr> execute_code_read_iter := [] \<rparr> = eh" using Nil.hyps by simp
  then show ?case using Nil.prems [of log] by (simp only:)
next
  case (Cons v vs)
  have "replay_act NextRead (eh, log) =
      Inr (eh \<lparr> execute_code_read_iter := vs \<rparr>, log \<lparr> taken_reads := taken_reads log @ [v] \<rparr>)"
    using Cons.hyps(2) [symmetric] by (simp add: next_read_def ok_or_def)
  moreover have "can_reach (eh \<lparr> execute_code_read_iter := vs \<rparr>, log') P" for log'
  proof (rule Cons.hyps(1))
    show "can_reach (eh \<lparr> execute_code_read_iter := vs, execute_code_read_iter := [] \<rparr>, log) P" for log
      using Cons.prems [of log] by simp
  qed simp
  ultimately show ?case by (rule can_reach_step)
qed

lemma can_drain:
  assumes "eh_call_info eh = Some c"
    and "\<And>log. can_reach (eh \<lparr> result_iter := [], deployed_contracts_iter := [], execute_code_read_iter := [],
       call_execution_info_ptr := None, eh_call_info := None \<rparr>, log) P"
  shows "can_reach (eh, log) P"
proof (rule can_take_results, rule can_take_deployed, rule can_take_reads)
  fix log
  let ?eh = "eh \<lparr> result_iter := [], deployed_contracts_iter := [], execute_code_read_iter := [] \<rparr>"
  have "replay_act ExitCall (?eh, log) = Inr (?eh \<lparr> call_execution_info_ptr := None, eh_call_info := None \<rparr>, log)"
    using assms(1) by (simp add: exit_call_def assert_iterators_exhausted_def Let_def)
  moreover have "can_reach (?eh \<lparr> call_execution_info_ptr := None, eh_call_info := None \<rparr>, log) P"
    using assms(2) [of log] by simp
  ultimately show "can_reach (?eh, log) P" by (rule can_reach_step)
qed

text \<open>Between calls, the calls of the transaction can be gone through one after the other, and then the other transactions.\<close>

definition between_calls :: "('pcs, 'bc, 'inp, 'k1, 'r1) execution_helper \<Rightarrow> bool" where
  "between_calls eh \<longleftrightarrow>
     eh_call_info eh = None \<and> call_execution_info_ptr eh = None \<and>
     result_iter eh = [] \<and> deployed_contracts_iter eh = [] \<and> execute_code_read_iter eh = []"

lemma between_calls_restore:
  assumes "between_calls eh"
  shows "eh \<lparr> call_iter := cs, deployed_contracts_iter := a, result_iter := b, execute_code_read_iter := c, eh_call_info := d \<rparr>
      \<lparr> result_iter := [], deployed_contracts_iter := [], execute_code_read_iter := [],
        call_execution_info_ptr := None, eh_call_info := None \<rparr> = eh \<lparr> call_iter := cs \<rparr>"
  using assms by (cases eh) (simp add: between_calls_def)

lemma can_finish_calls:
  assumes "between_calls eh" and "\<And>log. can_reach (eh \<lparr> call_iter := [] \<rparr>, log) P"
  shows "can_reach (eh, log) P"
  using assms
proof (induction "call_iter eh" arbitrary: eh log)
  case Nil
  have "eh \<lparr> call_iter := [] \<rparr> = eh" using Nil.hyps by simp
  then show ?case using Nil.prems(2) [of log] by (simp only:)
next
  case (Cons c cs)
  let ?eh = "eh \<lparr> call_iter := cs, deployed_contracts_iter := deployed_of c, result_iter := results_of c,
    execute_code_read_iter := storage_read_values c, eh_call_info := Some c \<rparr>"
  have ptr: "eh \<lparr> call_execution_info_ptr := None \<rparr> = eh"
    using Cons.prems(1) by (cases eh) (simp add: between_calls_def)
  have "enter_call None eh = (Inr ?eh :: (unit, _) res)"
    using Cons.prems(1) Cons.hyps(2) [symmetric]
    by (simp add: enter_call_def assert_iterators_exhausted_def between_calls_def Let_def ptr)
  then have "replay_act (EnterCall None) (eh, log) = Inr (?eh, log \<lparr> entered := entered log @ [c] \<rparr>)"
    by (simp add: opt_iter_def)
  moreover have "can_reach (?eh, log') P" for log'
  proof (rule can_drain [where c = c])
    have "can_reach (eh \<lparr> call_iter := cs \<rparr>, log'') P" for log''
    proof (rule Cons.hyps(1))
      show "between_calls (eh \<lparr> call_iter := cs \<rparr>)" using Cons.prems(1) by (simp add: between_calls_def)
      show "can_reach (eh \<lparr> call_iter := cs, call_iter := [] \<rparr>, log) P" for log using Cons.prems(2) [of log] by simp
    qed simp
    then show "can_reach (?eh \<lparr> result_iter := [], deployed_contracts_iter := [], execute_code_read_iter := [],
        call_execution_info_ptr := None, eh_call_info := None \<rparr>, log'') P" for log''
      unfolding between_calls_restore [OF Cons.prems(1)] .
  qed simp
  ultimately show ?case by (rule can_reach_step)
qed

lemma can_finish_txs:
  assumes "between_calls eh" and "call_iter eh = []" and "tx_execution_info eh = None" and "tx_info_ptr eh = None"
  shows "can_reach (eh, log) replay_finished"
  using assms
proof (induction "tx_execution_info_iter eh" arbitrary: eh log)
  case Nil
  then show ?case by (intro can_reach_now) (simp add: replay_finished_def between_calls_def)
next
  case (Cons tx txs)
  let ?eh = "eh \<lparr> tx_execution_info := Some tx, tx_execution_info_iter := txs, call_iter := gen_call_iterator tx \<rparr>"
  have "replay_act (StartTx None) (eh, log) = Inr (?eh, log)"
    using Cons.prems Cons.hyps(2) [symmetric] by (simp add: start_tx_def Let_def)
  moreover have "can_reach (?eh, log') replay_finished" for log'
  proof (rule can_finish_calls)
    show "between_calls ?eh" using Cons.prems(1) by (simp add: between_calls_def)
    fix log
    let ?last = "eh \<lparr> tx_execution_info_iter := txs, call_iter := [], tx_info_ptr := None, tx_execution_info := None \<rparr>"
    have "replay_act EndTx (?eh \<lparr> call_iter := [] \<rparr>, log) = Inr (?last, log)"
      by (simp add: end_tx_def Let_def)
    moreover have "can_reach (?last, log) replay_finished"
      using Cons.prems(1) by (intro Cons.hyps(1)) (simp_all add: between_calls_def)
    ultimately show "can_reach (?eh \<lparr> call_iter := [] \<rparr>, log) replay_finished" by (rule can_reach_step)
  qed
  ultimately show ?case by (rule can_reach_step)
qed

text \<open>
  C14. A replay never gets stuck: from every state that a run of a new helper reaches, some continuation goes through all calls
  and transactions that are left without a failed assertion.
\<close>

theorem replay_completes:
  assumes "replays (ExecutionHelper_new bn k1 r1 storages txs bc inp old) s"
  shows "\<exists>as eh log. replay_acts as s = Inr (eh, log) \<and> replay_finished eh"
proof -
  obtain eh log where s: "s = (eh, log)" by (cases s)
  note inv = replays_inv [OF assms, unfolded s replay_inv_def, simplified]
  have tx: "can_reach (eh, log) replay_finished" if "between_calls eh" "tx_execution_info eh = None \<Longrightarrow> call_iter eh = [] \<and> tx_info_ptr eh = None"
    for eh :: "('a, 'b, 'c, 'd, 'e) execution_helper" and log
  proof (cases "tx_execution_info eh")
    case None
    with that show ?thesis by (intro can_finish_txs) simp_all
  next
    case (Some tx)
    show ?thesis
    proof (rule can_finish_calls [OF that(1)])
      fix log
      let ?last = "eh \<lparr> call_iter := [], tx_info_ptr := None, tx_execution_info := None \<rparr>"
      have "replay_act EndTx (eh \<lparr> call_iter := [] \<rparr>, log) = Inr (?last, log)"
        using Some by (simp add: end_tx_def Let_def)
      moreover have "can_reach (?last, log) replay_finished"
        using that(1) by (intro can_finish_txs) (simp_all add: between_calls_def)
      ultimately show "can_reach (eh \<lparr> call_iter := [] \<rparr>, log) replay_finished" by (rule can_reach_step)
    qed
  qed
  have "can_reach (eh, log) replay_finished"
  proof (cases "eh_call_info eh")
    case None
    with inv show ?thesis by (intro tx) (simp_all add: between_calls_def)
  next
    case (Some c)
    show ?thesis
      by (rule can_drain [OF Some], rule tx) (use inv in \<open>simp_all add: between_calls_def\<close>)
  qed
  then show ?thesis by (simp add: can_reach_def s)
qed

section \<open>Examples\<close>

lemma replays_acts:
  assumes "replays eh0 s" and "replay_acts as s = Inr s'"
  shows "replays eh0 s'"
  using assms
proof (induction as arbitrary: s)
  case (Cons a as)
  then obtain s1 where s1: "replay_act a s = Inr s1" "replay_acts as s1 = Inr s'"
    by (auto simp: bindR_eq_Inr_iff simp del: split_paired_Ex)
  show ?case by (rule Cons.IH [OF replays_step [OF Cons.prems(1) s1(1)] s1(2)])
qed simp

text \<open>A transaction whose only call reads a value and deploys a contract.\<close>

definition demo_inner :: call_info where
  "demo_inner = CallInfo Constructor 77 5 False [8, 9] 100 [] []"

definition demo_call :: call_info where
  "demo_call = CallInfo External 5 0 False [1] 700 [42] [demo_inner]"

definition demo_tx :: transaction_execution_info where
  "demo_tx = \<lparr> validate_call_info = None, execute_call_info = Some demo_call, fee_transfer_call_info = None \<rparr>"

definition demo_helper :: "(unit, nat, unit, unit, unit) execution_helper" where
  "demo_helper = ExecutionHelper_new id () () [] [demo_tx] 20 None (10, 66)"

lemmas demo_defs = demo_helper_def demo_tx_def demo_call_def demo_inner_def ExecutionHelper_new_def
  gen_call_iterator_def results_of_def deployed_of_def List.map_filter_def

definition demo_actions :: "replay_action list" where
  "demo_actions =
     [StartTx None, EnterCall (Some (rel 3 0)), NextRead, NextResult, NextDeployed, ExitCall, EnterCall None, ExitCall, EndTx]"

lemma demo_replay:
  "\<exists>eh. replays demo_helper (eh, \<lparr> entered = [demo_call, demo_inner],
     taken_results = [\<lparr> cr_failed = False, cr_retdata = [8, 9], cr_gas_consumed = 100 \<rparr>],
     taken_deployed = [77], taken_reads = [42] \<rparr>) \<and> replay_finished eh"
proof -
  let ?eh = "demo_helper \<lparr> tx_execution_info_iter := [] \<rparr>"
  have "replay_acts demo_actions (demo_helper, empty_log) = Inr (?eh, \<lparr> entered = [demo_call, demo_inner],
     taken_results = [\<lparr> cr_failed = False, cr_retdata = [8, 9], cr_gas_consumed = 100 \<rparr>],
     taken_deployed = [77], taken_reads = [42] \<rparr>)"
    by (simp add: demo_actions_def helper_defs demo_defs empty_log_def ok_or_def)
  moreover have "replay_finished ?eh"
    by (simp add: replay_finished_def demo_defs)
  ultimately show ?thesis using replays_acts [OF replays_start] by blast
qed

theorem replay_exact_witness:
  "\<exists>eh log. replays demo_helper (eh, log) \<and> replay_finished eh \<and> entered log = [demo_call, demo_inner] \<and>
     taken_reads log = [42] \<and> taken_deployed log = [77]"
proof -
  obtain eh log where r: "replays demo_helper (eh, log)" and f: "replay_finished eh"
    using demo_replay by blast
  show ?thesis
    using replay_exact [OF r [unfolded demo_helper_def] refl] r f
    by (intro exI [of _ eh] exI [of _ log]) (simp add: demo_defs opt_iter_def)
qed

theorem replay_completes_witness:
  "\<exists>as eh log. replay_acts as (demo_helper, empty_log) = Inr (eh, log) \<and> replay_finished eh"
  unfolding demo_helper_def by (rule replay_completes [OF replays_start])

section \<open>Contract storages\<close>

definition os_pcs_ops :: "('s, storage_leaf) tree_env \<Rightarrow> 's os_storage pcs_ops" where
  "os_pcs_ops e =
     \<lparr> pcs_compute_commitment = OsSingleStarknetStorage_compute_commitment e,
       pcs_read = OsSingleStarknetStorage_read e,
       pcs_write = OsSingleStarknetStorage_write \<rparr>"

text \<open>A sequence of accesses to the storages of several contracts, and what it does to a function from addresses and keys to values.\<close>

datatype access = ReadAt felt felt | WriteAt felt felt felt

fun run_accesses ::
  "'pcs pcs_ops \<Rightarrow> access list \<Rightarrow> ('pcs, 'bc, 'inp, 'k1, 'r1) execution_helper
   \<Rightarrow> (storage_error, felt list \<times> ('pcs, 'bc, 'inp, 'k1, 'r1) execution_helper) res" where
  "run_accesses ops [] eh = Inr ([], eh)"
| "run_accesses ops (ReadAt a k # xs) eh =
     bindR (read_storage_for_address ops a k eh) (\<lambda>(v, eh).
     bindR (run_accesses ops xs eh) (\<lambda>(vs, eh). Inr (v # vs, eh)))"
| "run_accesses ops (WriteAt a k v # xs) eh =
     bindR (write_storage_for_address ops a k v eh) (run_accesses ops xs)"

fun spec_accesses :: "access list \<Rightarrow> (felt \<Rightarrow> felt \<Rightarrow> felt) \<Rightarrow> felt list \<times> (felt \<Rightarrow> felt \<Rightarrow> felt)" where
  "spec_accesses [] m = ([], m)"
| "spec_accesses (ReadAt a k # xs) m = (m a k # fst (spec_accesses xs m), snd (spec_accesses xs m))"
| "spec_accesses (WriteAt a k v # xs) m = spec_accesses xs (m (a := (m a) (k := v)))"

fun access_ok :: "felt set \<Rightarrow> nat \<Rightarrow> access \<Rightarrow> bool" where
  "access_ok known bound (ReadAt a k) \<longleftrightarrow> a \<in> known \<and> k < bound"
| "access_ok known bound (WriteAt a k v) \<longleftrightarrow> a \<in> known \<and> k < bound \<and> felt_wf v"

definition helper_stands_for ::
  "('s, storage_leaf) tree_env \<Rightarrow> nat \<Rightarrow> ('s os_storage, 'bc, 'inp, 'k1, 'r1) execution_helper \<Rightarrow> (felt \<Rightarrow> felt \<Rightarrow> felt) \<Rightarrow> bool" where
  "helper_stands_for e h eh m \<longleftrightarrow> (\<forall>a c. map_of (storage_by_address eh) a = Some c \<longrightarrow> os_stands_for e h c (m a))"

lemma hm_insert_known: "map_of m a = Some c \<Longrightarrow> dom (map_of (hm_insert a c' m)) = dom (map_of m)"
  by (auto simp: hm_insert_def update_conv')

lemma helper_read:
  assumes "helper_stands_for e h eh m" and "map_of (storage_by_address eh) a = Some c" and "k < 2 ^ h"
  shows "\<exists>eh'. read_storage_for_address (os_pcs_ops e) a k eh = Inr (m a k, eh') \<and> helper_stands_for e h eh' m \<and>
    dom (map_of (storage_by_address eh')) = dom (map_of (storage_by_address eh))"
proof -
  have "os_stands_for e h c (m a)" using assms(1,2) by (simp add: helper_stands_for_def)
  from os_read_ok [OF this assms(3)] obtain c' where
    c': "OsSingleStarknetStorage_read e c k = (Inr (Some (m a k), c') :: (storage_error, _) res)" "os_stands_for e h c' (m a)"
    by blast
  then show ?thesis
    using assms hm_insert_known [OF assms(2)]
    by (auto simp: read_storage_for_address_def os_pcs_ops_def helper_stands_for_def ok_or_def hm_insert_def update_conv')
qed

lemma helper_write:
  assumes "helper_stands_for e h eh m" and "map_of (storage_by_address eh) a = Some c" and "k < 2 ^ h" and "felt_wf v"
  shows "\<exists>eh'. write_storage_for_address (os_pcs_ops e) a k v eh = Inr eh' \<and>
    helper_stands_for e h eh' (m (a := (m a) (k := v))) \<and>
    dom (map_of (storage_by_address eh')) = dom (map_of (storage_by_address eh))"
proof -
  have "os_stands_for e h (OsSingleStarknetStorage_write c k v) ((m a) (k := v))"
    using assms by (intro os_write_ok) (simp_all add: helper_stands_for_def)
  then show ?thesis
    using assms hm_insert_known [OF assms(2)]
    by (auto simp: write_storage_for_address_def os_pcs_ops_def helper_stands_for_def hm_insert_def update_conv')
qed

lemma run_accesses_refines:
  assumes "helper_stands_for e h eh m" and "\<forall>x\<in>set xs. access_ok (dom (map_of (storage_by_address eh))) (2 ^ h) x"
  shows "\<exists>eh'. run_accesses (os_pcs_ops e) xs eh = Inr (fst (spec_accesses xs m), eh') \<and>
    helper_stands_for e h eh' (snd (spec_accesses xs m))"
  using assms
proof (induction xs m arbitrary: eh rule: spec_accesses.induct)
  case (2 a k xs m)
  then obtain c where "map_of (storage_by_address eh) a = Some c" "k < 2 ^ h" by auto
  from helper_read [OF "2.prems"(1) this] obtain eh1 where
    eh1: "read_storage_for_address (os_pcs_ops e) a k eh = Inr (m a k, eh1)" "helper_stands_for e h eh1 m"
      "dom (map_of (storage_by_address eh1)) = dom (map_of (storage_by_address eh))"
    by blast
  then show ?case using "2.IH"(1) [OF eh1(2)] "2.prems"(2) by auto
next
  case (3 a k v xs m)
  then obtain c where "map_of (storage_by_address eh) a = Some c" "k < 2 ^ h" "felt_wf v" by auto
  from helper_write [OF "3.prems"(1) this] obtain eh1 where
    eh1: "write_storage_for_address (os_pcs_ops e) a k v eh = Inr eh1" "helper_stands_for e h eh1 (m (a := (m a) (k := v)))"
      "dom (map_of (storage_by_address eh1)) = dom (map_of (storage_by_address eh))"
    by blast
  then show ?case using "3.IH" [OF eh1(2)] "3.prems"(2) by (auto simp: fun_upd_def)
qed auto

text \<open>
  C15. The storages of the contracts that the helper knows, taken together, refine one function from addresses and keys to
  values: every sequence of reads and writes at known addresses succeeds and returns what the function returns. Reads
  and writes at any other address fail with \<open>ContentNotFound\<close>.
\<close>

theorem helper_storage_refines:
  assumes "helper_stands_for (storage_env ped) 251 eh m"
    and "\<forall>x\<in>set xs. access_ok (dom (map_of (storage_by_address eh))) (2 ^ 251) x"
    and "a \<notin> dom (map_of (storage_by_address eh))"
  shows "(\<exists>eh'. run_accesses (os_pcs_ops (storage_env ped)) xs eh = Inr (fst (spec_accesses xs m), eh') \<and>
      helper_stands_for (storage_env ped) 251 eh' (snd (spec_accesses xs m))) \<and>
    read_storage_for_address (os_pcs_ops (storage_env ped)) a k eh = Inl (Error ContentNotFound) \<and>
    write_storage_for_address (os_pcs_ops (storage_env ped)) a k v eh = Inl (Error ContentNotFound)"
  using run_accesses_refines [OF assms(1,2)] assms(3)
  by (simp add: read_storage_for_address_def write_storage_for_address_def domIff)

definition demo_storages :: "(dict_storage os_storage, nat, unit, unit, unit) execution_helper" where
  "demo_storages = ExecutionHelper_new id () () [(1, demo_os), (2, demo_os)] [] 20 None (10, 66)"

theorem helper_storage_refines_witness:
  "\<exists>eh'. run_accesses (os_pcs_ops (storage_env demo_ped)) [WriteAt 1 5 7, ReadAt 2 5, ReadAt 1 5, ReadAt 2 1000] demo_storages =
     Inr ([0, 7, 2000], eh')"
proof -
  have "helper_stands_for (storage_env demo_ped) 251 demo_storages (\<lambda>_. (\<lambda>_. 0) (1000 := 2000))"
    using demo_os_stands_for [of demo_ped] by (simp add: helper_stands_for_def demo_storages_def ExecutionHelper_new_def)
  from helper_storage_refines [OF this, of "[WriteAt 1 5 7, ReadAt 2 5, ReadAt 1 5, ReadAt 2 1000]" 3 0 0] show ?thesis
    by (auto simp: demo_storages_def ExecutionHelper_new_def felt_wf_def STARK_PRIME_def)
qed
end
