(* ===== verification/Syscall_Utils.thy ===== *)
theory Syscall_Utils
  imports Cairo_Types Execution_Helper
begin

text \<open>
  What the handlers of system calls share: \<open>execution/syscall_handler_utils.rs\<close> and the gas costs of
  \<open>execution/constants.rs\<close>. A handler reads its request from the machine at the system call pointer, executes it and writes a response after it;
  \<open>run_handler\<close> does so for every handler and accounts for the gas.

  A handler runs on the state \<open>sys\<close>: the machine, the execution helper, and the two variables that are passed by
  reference, the system call pointer and the remaining gas. The formatting of third-party values in messages is the
  parameter \<open>fmt\<close>.
\<close>

section \<open>Constants\<close>

definition BLOCK_HASH_CONTRACT_ADDRESS :: nat where
  "BLOCK_HASH_CONTRACT_ADDRESS = 1"

definition BITWISE_BUILTIN_GAS_COST :: nat where
  "BITWISE_BUILTIN_GAS_COST = 594"

definition STEP_GAS_COST :: nat where
  "STEP_GAS_COST = 100"

definition RANGE_CHECK_GAS_COST :: nat where
  "RANGE_CHECK_GAS_COST = 70"

definition MEMORY_HOLE_GAS_COST :: nat where
  "MEMORY_HOLE_GAS_COST = 10"

definition INITIAL_GAS_COST :: nat where
  "INITIAL_GAS_COST = 10 ^ 8 * STEP_GAS_COST"

definition ENTRY_POINT_INITIAL_BUDGET :: nat where
  "ENTRY_POINT_INITIAL_BUDGET = 100 * STEP_GAS_COST"

definition SYSCALL_BASE_GAS_COST :: nat where
  "SYSCALL_BASE_GAS_COST = 100 * STEP_GAS_COST"

definition ENTRY_POINT_GAS_COST :: nat where
  "ENTRY_POINT_GAS_COST = ENTRY_POINT_INITIAL_BUDGET + 500 * STEP_GAS_COST"

definition FEE_TRANSFER_GAS_COST :: nat where
  "FEE_TRANSFER_GAS_COST = ENTRY_POINT_GAS_COST + 100 * STEP_GAS_COST"

definition TRANSACTION_GAS_COST :: nat where
  "TRANSACTION_GAS_COST = (2 * ENTRY_POINT_GAS_COST) + FEE_TRANSFER_GAS_COST + (100 * STEP_GAS_COST)"

definition CALL_CONTRACT_GAS_COST :: nat where
  "CALL_CONTRACT_GAS_COST = SYSCALL_BASE_GAS_COST + 10 * STEP_GAS_COST + ENTRY_POINT_GAS_COST"

definition DEPLOY_GAS_COST :: nat where
  "DEPLOY_GAS_COST = SYSCALL_BASE_GAS_COST + 200 * STEP_GAS_COST + ENTRY_POINT_GAS_COST"

definition EMIT_EVENT_GAS_COST :: nat where
  "EMIT_EVENT_GAS_COST = SYSCALL_BASE_GAS_COST + 10 * STEP_GAS_COST"

definition GET_BLOCK_HASH_GAS_COST :: nat where
  "GET_BLOCK_HASH_GAS_COST = SYSCALL_BASE_GAS_COST + 50 * STEP_GAS_COST"

definition GET_EXECUTION_INFO_GAS_COST :: nat where
  "GET_EXECUTION_INFO_GAS_COST = SYSCALL_BASE_GAS_COST + 10 * STEP_GAS_COST"

definition KECCAK_GAS_COST :: nat where
  "KECCAK_GAS_COST = SYSCALL_BASE_GAS_COST"

definition KECCAK_ROUND_COST_GAS_COST :: nat where
  "KECCAK_ROUND_COST_GAS_COST = 180000"

definition LIBRARY_CALL_GAS_COST :: nat where
  "LIBRARY_CALL_GAS_COST = CALL_CONTRACT_GAS_COST"

definition REPLACE_CLASS_GAS_COST :: nat where
  "REPLACE_CLASS_GAS_COST = SYSCALL_BASE_GAS_COST + 50 * STEP_GAS_COST"

definition SHA256_PROCESS_BLOCK_GAS_COST :: nat where
  "SHA256_PROCESS_BLOCK_GAS_COST = 1115 * BITWISE_BUILTIN_GAS_COST + 65 * RANGE_CHECK_GAS_COST + 1852 * STEP_GAS_COST + SYSCALL_BASE_GAS_COST"

definition SECP256K1_ADD_GAS_COST :: nat where
  "SECP256K1_ADD_GAS_COST = 406 * STEP_GAS_COST + 29 * RANGE_CHECK_GAS_COST"

definition SECP256K1_GET_POINT_FROM_X_GAS_COST :: nat where
  "SECP256K1_GET_POINT_FROM_X_GAS_COST = 391 * STEP_GAS_COST + 30 * RANGE_CHECK_GAS_COST + 20 * MEMORY_HOLE_GAS_COST"

definition SECP256K1_GET_XY_GAS_COST :: nat where
  "SECP256K1_GET_XY_GAS_COST = 239 * STEP_GAS_COST + 11 * RANGE_CHECK_GAS_COST + 40 * MEMORY_HOLE_GAS_COST"

definition SECP256K1_MUL_GAS_COST :: nat where
  "SECP256K1_MUL_GAS_COST = 76501 * STEP_GAS_COST + 7045 * RANGE_CHECK_GAS_COST + 2 * MEMORY_HOLE_GAS_COST"

definition SECP256K1_NEW_GAS_COST :: nat where
  "SECP256K1_NEW_GAS_COST = 475 * STEP_GAS_COST + 35 * RANGE_CHECK_GAS_COST + 40 * MEMORY_HOLE_GAS_COST"

definition SECP256R1_ADD_GAS_COST :: nat where
  "SECP256R1_ADD_GAS_COST = 589 * STEP_GAS_COST + 57 * RANGE_CHECK_GAS_COST"

definition SECP256R1_GET_POINT_FROM_X_GAS_COST :: nat where
  "SECP256R1_GET_POINT_FROM_X_GAS_COST = 510 * STEP_GAS_COST + 44 * RANGE_CHECK_GAS_COST + 20 * MEMORY_HOLE_GAS_COST"

definition SECP256R1_GET_XY_GAS_COST :: nat where
  "SECP256R1_GET_XY_GAS_COST = 241 * STEP_GAS_COST + 11 * RANGE_CHECK_GAS_COST + 40 * MEMORY_HOLE_GAS_COST"

definition SECP256R1_MUL_GAS_COST :: nat where
  "SECP256R1_MUL_GAS_COST = 125340 * STEP_GAS_COST + 13961 * RANGE_CHECK_GAS_COST + 2 * MEMORY_HOLE_GAS_COST"

definition SECP256R1_NEW_GAS_COST :: nat where
  "SECP256R1_NEW_GAS_COST = 594 * STEP_GAS_COST + 49 * RANGE_CHECK_GAS_COST + 40 * MEMORY_HOLE_GAS_COST"

definition SEND_MESSAGE_TO_L1_GAS_COST :: nat where
  "SEND_MESSAGE_TO_L1_GAS_COST = SYSCALL_BASE_GAS_COST + 50 * STEP_GAS_COST"

definition STORAGE_READ_GAS_COST :: nat where
  "STORAGE_READ_GAS_COST = SYSCALL_BASE_GAS_COST + 50 * STEP_GAS_COST"

definition STORAGE_WRITE_GAS_COST :: nat where
  "STORAGE_WRITE_GAS_COST = SYSCALL_BASE_GAS_COST + 50 * STEP_GAS_COST"

lemmas gas_cost_defs =
  BITWISE_BUILTIN_GAS_COST_def STEP_GAS_COST_def RANGE_CHECK_GAS_COST_def MEMORY_HOLE_GAS_COST_def INITIAL_GAS_COST_def
  ENTRY_POINT_INITIAL_BUDGET_def SYSCALL_BASE_GAS_COST_def ENTRY_POINT_GAS_COST_def FEE_TRANSFER_GAS_COST_def
  TRANSACTION_GAS_COST_def CALL_CONTRACT_GAS_COST_def DEPLOY_GAS_COST_def EMIT_EVENT_GAS_COST_def GET_BLOCK_HASH_GAS_COST_def
  GET_EXECUTION_INFO_GAS_COST_def KECCAK_GAS_COST_def KECCAK_ROUND_COST_GAS_COST_def LIBRARY_CALL_GAS_COST_def
  REPLACE_CLASS_GAS_COST_def SHA256_PROCESS_BLOCK_GAS_COST_def SECP256K1_ADD_GAS_COST_def
  SECP256K1_GET_POINT_FROM_X_GAS_COST_def SECP256K1_GET_XY_GAS_COST_def SECP256K1_MUL_GAS_COST_def SECP256K1_NEW_GAS_COST_def
  SECP256R1_ADD_GAS_COST_def SECP256R1_GET_POINT_FROM_X_GAS_COST_def SECP256R1_GET_XY_GAS_COST_def SECP256R1_MUL_GAS_COST_def
  SECP256R1_NEW_GAS_COST_def SEND_MESSAGE_TO_L1_GAS_COST_def STORAGE_READ_GAS_COST_def STORAGE_WRITE_GAS_COST_def

definition KECCAK_FULL_RATE_IN_U64S :: nat where
  "KECCAK_FULL_RATE_IN_U64S = 17"

text \<open>"Invalid input length" and "Out of gas", in ASCII.\<close>

definition INVALID_INPUT_LENGTH_ERROR :: felt where
  "INVALID_INPUT_LENGTH_ERROR = 0x496e76616c696420696e707574206c656e677468"

definition OUT_OF_GAS_ERROR :: felt where
  "OUT_OF_GAS_ERROR = 0x4f7574206f6620676173"

section \<open>Errors\<close>

text \<open>The errors of the system calls of the blockifier; the code distinguishes one of them.\<close>

datatype 'b blockifier_error = BlockifierSyscallErrorData "felt list" | BlockifierOther 'b

datatype 'b syscall_execution_error =
    InternalError string
  | InvalidAddressDomain felt
  | InvalidSyscallInput felt string
  | SyscallError "felt list"
  | OutOfGas nat
  | BlockifierSyscallError "'b blockifier_error"

record ('x, 'b) fmt =
  felt_debug :: "felt \<Rightarrow> string"
  felt_display :: "felt \<Rightarrow> string"
  hint_display :: "'x hint_error \<Rightarrow> string"
  blockifier_display :: "'b blockifier_error \<Rightarrow> string"

fun SyscallExecutionError_display :: "('x, 'b) fmt \<Rightarrow> 'b syscall_execution_error \<Rightarrow> string" where
  "SyscallExecutionError_display f (InternalError m) = ''Internal Error: '' @ m"
| "SyscallExecutionError_display f (InvalidAddressDomain d) = ''Invalid address domain: '' @ felt_debug f d"
| "SyscallExecutionError_display f (InvalidSyscallInput x info) = ''Invalid syscall input: '' @ felt_debug f x @ ''; '' @ info"
| "SyscallExecutionError_display f (SyscallError data) = ''Syscall error.''"
| "SyscallExecutionError_display f (OutOfGas g) = ''Out of Gas in Syscall execution. Remaining gas is '' @ decimal g"
| "SyscallExecutionError_display f (BlockifierSyscallError b) = ''BlockifierSyscallError: '' @ blockifier_display f b"

text \<open>The conversions of the question mark operator, in the order of the source.\<close>

definition of_memory_error :: "('vm, 'x) vm_api \<Rightarrow> 'x \<Rightarrow> 'b syscall_execution_error" where
  "of_memory_error api x = InternalError (''Memory error: '' @ show_error api x)"

definition hint_of_syscall_error :: "('x, 'b) fmt \<Rightarrow> 'b syscall_execution_error \<Rightarrow> 'x hint_error" where
  "hint_of_syscall_error f e = CustomHint (''SyscallExecution error: '' @ SyscallExecutionError_display f e)"

definition of_hint_error :: "('x, 'b) fmt \<Rightarrow> 'x hint_error \<Rightarrow> 'b syscall_execution_error" where
  "of_hint_error f e = InternalError (''Hint error: '' @ hint_display f e)"

definition of_math_error :: "('vm, 'x) vm_api \<Rightarrow> 'x \<Rightarrow> 'b syscall_execution_error" where
  "of_math_error api x = InternalError (''MathError error: '' @ show_error api x)"

fun storage_error_display :: "storage_error \<Rightarrow> string" where
  "storage_error_display ContentNotFound = ''Content not found in storage''"
| "storage_error_display (StorageError_Deserialize (DeserializeError_Json m)) = m"
| "storage_error_display (StorageError_Deserialize (NoVariantWithLength n)) =
     ''Could not find a deserialization method that takes this number of bytes: '' @ decimal n"
| "storage_error_display (StorageError_Deserialize (LengthMismatch m n)) =
     ''Expected '' @ decimal m @ '' bytes but got '' @ decimal n"
| "storage_error_display (StorageError_Serialize (SerializeError_Json m)) = m"
| "storage_error_display (StorageError_Serialize (ValueTooLong n)) =
     ''Expected value to be at most '' @ decimal n @ '' bytes once serialized''"

definition of_storage_error :: "storage_error \<Rightarrow> 'b syscall_execution_error" where
  "of_storage_error e = InternalError (''StorageError error: '' @ storage_error_display e)"

fun of_blockifier_error :: "'b blockifier_error \<Rightarrow> 'b syscall_execution_error" where
  "of_blockifier_error (BlockifierSyscallErrorData data) = SyscallError (map felt_of_nat data)"
| "of_blockifier_error (BlockifierOther b) = BlockifierSyscallError (BlockifierOther b)"

section \<open>Selectors\<close>

datatype syscall_selector =
    CallContract | DelegateCall | DelegateL1Handler | Deploy
  | EmitEvent | GetBlockHash | GetBlockNumber | GetBlockTimestamp
  | GetCallerAddress | GetContractAddress | GetExecutionInfo | GetSequencerAddress
  | GetTxInfo | GetTxSignature | Keccak | LibraryCall
  | LibraryCallL1Handler | ReplaceClass | Sha256ProcessBlock | Secp256k1Add
  | Secp256k1GetPointFromX | Secp256k1GetXy | Secp256k1Mul | Secp256k1New
  | Secp256r1Add | Secp256r1GetPointFromX | Secp256r1GetXy | Secp256r1Mul
  | Secp256r1New | SendMessageToL1 | StorageRead | StorageWrite

text \<open>The derived \<open>Debug\<close>, which writes the name of the variant.\<close>

fun SyscallSelector_debug :: "syscall_selector \<Rightarrow> string" where
  "SyscallSelector_debug CallContract = ''CallContract''"
| "SyscallSelector_debug DelegateCall = ''DelegateCall''"
| "SyscallSelector_debug DelegateL1Handler = ''DelegateL1Handler''"
| "SyscallSelector_debug Deploy = ''Deploy''"
| "SyscallSelector_debug EmitEvent = ''EmitEvent''"
| "SyscallSelector_debug GetBlockHash = ''GetBlockHash''"
| "SyscallSelector_debug GetBlockNumber = ''GetBlockNumber''"
| "SyscallSelector_debug GetBlockTimestamp = ''GetBlockTimestamp''"
| "SyscallSelector_debug GetCallerAddress = ''GetCallerAddress''"
| "SyscallSelector_debug GetContractAddress = ''GetContractAddress''"
| "SyscallSelector_debug GetExecutionInfo = ''GetExecutionInfo''"
| "SyscallSelector_debug GetSequencerAddress = ''GetSequencerAddress''"
| "SyscallSelector_debug GetTxInfo = ''GetTxInfo''"
| "SyscallSelector_debug GetTxSignature = ''GetTxSignature''"
| "SyscallSelector_debug Keccak = ''Keccak''"
| "SyscallSelector_debug LibraryCall = ''LibraryCall''"
| "SyscallSelector_debug LibraryCallL1Handler = ''LibraryCallL1Handler''"
| "SyscallSelector_debug ReplaceClass = ''ReplaceClass''"
| "SyscallSelector_debug Sha256ProcessBlock = ''Sha256ProcessBlock''"
| "SyscallSelector_debug Secp256k1Add = ''Secp256k1Add''"
| "SyscallSelector_debug Secp256k1GetPointFromX = ''Secp256k1GetPointFromX''"
| "SyscallSelector_debug Secp256k1GetXy = ''Secp256k1GetXy''"
| "SyscallSelector_debug Secp256k1Mul = ''Secp256k1Mul''"
| "SyscallSelector_debug Secp256k1New = ''Secp256k1New''"
| "SyscallSelector_debug Secp256r1Add = ''Secp256r1Add''"
| "SyscallSelector_debug Secp256r1GetPointFromX = ''Secp256r1GetPointFromX''"
| "SyscallSelector_debug Secp256r1GetXy = ''Secp256r1GetXy''"
| "SyscallSelector_debug Secp256r1Mul = ''Secp256r1Mul''"
| "SyscallSelector_debug Secp256r1New = ''Secp256r1New''"
| "SyscallSelector_debug SendMessageToL1 = ''SendMessageToL1''"
| "SyscallSelector_debug StorageRead = ''StorageRead''"
| "SyscallSelector_debug StorageWrite = ''StorageWrite''"

text \<open>The arms of the match in \<open>try_from\<close>.\<close>

definition syscall_selectors :: "(string \<times> syscall_selector) list" where
  "syscall_selectors =
     [(''CallContract'', CallContract), (''DelegateCall'', DelegateCall),
      (''DelegateL1Handler'', DelegateL1Handler), (''Deploy'', Deploy),
      (''EmitEvent'', EmitEvent), (''GetBlockHash'', GetBlockHash),
      (''GetBlockNumber'', GetBlockNumber), (''GetBlockTimestamp'', GetBlockTimestamp),
      (''GetCallerAddress'', GetCallerAddress), (''GetContractAddress'', GetContractAddress),
      (''GetExecutionInfo'', GetExecutionInfo), (''GetSequencerAddress'', GetSequencerAddress),
      (''GetTxInfo'', GetTxInfo), (''GetTxSignature'', GetTxSignature),
      (''Keccak'', Keccak), (''LibraryCall'', LibraryCall),
      (''LibraryCallL1Handler'', LibraryCallL1Handler), (''ReplaceClass'', ReplaceClass),
      (''Sha256ProcessBlock'', Sha256ProcessBlock), (''Secp256k1Add'', Secp256k1Add),
      (''Secp256k1GetPointFromX'', Secp256k1GetPointFromX), (''Secp256k1GetXy'', Secp256k1GetXy),
      (''Secp256k1Mul'', Secp256k1Mul), (''Secp256k1New'', Secp256k1New),
      (''Secp256r1Add'', Secp256r1Add), (''Secp256r1GetPointFromX'', Secp256r1GetPointFromX),
      (''Secp256r1GetXy'', Secp256r1GetXy), (''Secp256r1Mul'', Secp256r1Mul),
      (''Secp256r1New'', Secp256r1New), (''SendMessageToL1'', SendMessageToL1),
      (''StorageRead'', StorageRead), (''StorageWrite'', StorageWrite)]"

definition SyscallSelector_try_from :: "('x, 'b) fmt \<Rightarrow> felt \<Rightarrow> ('x hint_error, syscall_selector) res" where
  "SyscallSelector_try_from f raw_selector =
     (case map_of (map (\<lambda>(name, s). (ascii name, s)) syscall_selectors)
        (dropWhile (\<lambda>byte. byte = 0) (felt_to_bytes_be raw_selector)) of
        Some s \<Rightarrow> Inr s
      | None \<Rightarrow> Inl (Error (CustomHint (''Unknown syscall selector: '' @ felt_display f raw_selector))))"

section \<open>Reading and writing at the pointer\<close>

record ('vm, 'h) sys =
  sys_vm :: 'vm
  sys_helper :: 'h
  sys_ptr :: relocatable
  sys_gas :: nat

definition readS :: "('s \<Rightarrow> ('e, 'a) res) \<Rightarrow> ('s, 'e, 'a) prog" where
  "readS f s = (f s, s)"

definition vmS :: "('vm, 'e, 'a) prog \<Rightarrow> (('vm, 'h) sys, 'e, 'a) prog" where
  "vmS = zoomS sys_vm (\<lambda>vm s. s \<lparr> sys_vm := vm \<rparr>)"

definition helperS :: "('h, 'e, 'a) prog \<Rightarrow> (('vm, 'h) sys, 'e, 'a) prog" where
  "helperS = zoomS sys_helper (\<lambda>h s. s \<lparr> sys_helper := h \<rparr>)"

text \<open>\<open>*ptr = ( *ptr + n)?\<close>\<close>

definition advance :: "('vm, 'x) vm_api \<Rightarrow> nat \<Rightarrow> (('vm, 'h) sys, 'x, unit) prog" where
  "advance api n s =
     (case rel_add api (sys_ptr s) n of
        Inl e \<Rightarrow> (Inl (Error e), s)
      | Inr p \<Rightarrow> (Inr (), s \<lparr> sys_ptr := p \<rparr>))"

definition felt_from_ptr :: "('vm, 'x) vm_api \<Rightarrow> (('vm, 'h) sys, 'x, felt) prog" where
  "felt_from_ptr api =
     bindS (readS (\<lambda>s. of_vm (get_integer api (sys_vm s) (sys_ptr s)))) (\<lambda>felt.
     bindS (map_errS (of_math api) (advance api 1)) (\<lambda>_. retS felt))"

definition ignore_felt :: "('vm, 'x) vm_api \<Rightarrow> (('vm, 'h) sys, 'b syscall_execution_error, unit) prog" where
  "ignore_felt api = map_errS (of_math_error api) (advance api 1)"

text \<open>\<open>vm.get_relocatable( *ptr)?\<close>, and then the step to the next cell.\<close>

definition relocatable_from_ptr ::
  "('vm, 'x) vm_api \<Rightarrow> (('vm, 'h) sys, 'b syscall_execution_error, relocatable) prog" where
  "relocatable_from_ptr api =
     bindS (map_errS (of_memory_error api) (readS (\<lambda>s. of_vm (get_relocatable api (sys_vm s) (sys_ptr s))))) (\<lambda>a.
     bindS (map_errS (of_math_error api) (advance api 1)) (\<lambda>_. retS a))"

definition integer_range ::
  "('vm, 'x) vm_api \<Rightarrow> relocatable \<Rightarrow> nat \<Rightarrow> (('vm, 'h) sys, 'b syscall_execution_error, felt list) prog" where
  "integer_range api a n = map_errS (of_memory_error api) (readS (\<lambda>s. of_vm (get_integer_range api (sys_vm s) a n)))"

definition read_felt_array :: "('vm, 'x) vm_api \<Rightarrow> (('vm, 'h) sys, 'b syscall_execution_error, felt list) prog" where
  "read_felt_array api =
     bindS (relocatable_from_ptr api) (\<lambda>array_data_start_ptr.
     bindS (relocatable_from_ptr api) (\<lambda>array_data_end_ptr.
     bindS (map_errS (of_math_error api) (liftS (of_vm (rel_sub api array_data_end_ptr array_data_start_ptr)))) (\<lambda>array_size.
       integer_range api array_data_start_ptr array_size)))"

definition ignore_felt_array :: "('vm, 'x) vm_api \<Rightarrow> (('vm, 'h) sys, 'b syscall_execution_error, unit) prog" where
  "ignore_felt_array api = map_errS (of_math_error api) (advance api 2)"

definition read_calldata :: "('vm, 'x) vm_api \<Rightarrow> (('vm, 'h) sys, 'b syscall_execution_error, felt list) prog" where
  "read_calldata api = read_felt_array api"

definition read_call_params :: "('vm, 'x) vm_api \<Rightarrow> (('vm, 'h) sys, 'b syscall_execution_error, felt \<times> felt list) prog" where
  "read_call_params api =
     bindS (map_errS (of_memory_error api) (felt_from_ptr api)) (\<lambda>function_selector.
     bindS (read_calldata api) (\<lambda>calldata. retS (function_selector, calldata)))"

definition write_maybe_relocatable :: "('vm, 'x) vm_api \<Rightarrow> maybe_relocatable \<Rightarrow> (('vm, 'h) sys, 'x, unit) prog" where
  "write_maybe_relocatable api value =
     bindS (readS (\<lambda>s. Inr (sys_ptr s))) (\<lambda>ptr.
     bindS (vmS (insertS api ptr value)) (\<lambda>_.
       map_errS (of_math api) (advance api 1)))"

definition write_felt :: "('vm, 'x) vm_api \<Rightarrow> felt \<Rightarrow> (('vm, 'h) sys, 'x, unit) prog" where
  "write_felt api felt = write_maybe_relocatable api (IntV felt)"

record read_only_segment =
  start_ptr :: relocatable
  seg_length :: nat

definition writeE :: "('vm, 'x) vm_api \<Rightarrow> maybe_relocatable \<Rightarrow> (('vm, 'h) sys, 'b syscall_execution_error, unit) prog" where
  "writeE api value = map_errS (of_memory_error api) (write_maybe_relocatable api value)"

definition write_segment ::
  "('vm, 'x) vm_api \<Rightarrow> read_only_segment \<Rightarrow> (('vm, 'h) sys, 'b syscall_execution_error, unit) prog" where
  "write_segment api segment =
     bindS (writeE api (RelocatableValue (start_ptr segment))) (\<lambda>_.
     bindS (map_errS (of_math_error api) (liftS (add_offset api (start_ptr segment) (seg_length segment)))) (\<lambda>segment_end_ptr.
       writeE api (RelocatableValue segment_end_ptr)))"

section \<open>Running a handler\<close>

record ('s, 'e, 'req, 'resp) syscall_handler =
  read_request :: "('s, 'e, 'req) prog"
  execute :: "'req \<Rightarrow> ('s, 'e, 'resp) prog"
  write_response :: "'resp \<Rightarrow> ('s, 'e, unit) prog"

definition write_failure ::
  "('vm, 'x) vm_api \<Rightarrow> nat \<Rightarrow> felt list \<Rightarrow> (('vm, 'h) sys, 'b syscall_execution_error, unit) prog" where
  "write_failure api gas_counter error_data =
     bindS (writeE api (IntV gas_counter)) (\<lambda>_.
     bindS (writeE api (IntV 1)) (\<lambda>_.
     bindS (vmS (segmentS api)) (\<lambda>revert_reason_start.
     bindS (map_errS (of_memory_error api) (vmS (loadS api revert_reason_start (map IntV error_data)))) (\<lambda>revert_reason_end.
     bindS (writeE api (RelocatableValue revert_reason_start)) (\<lambda>_.
       writeE api (RelocatableValue revert_reason_end))))))"

text \<open>A part of a handler that hands its result, error or not, to the code after it; a panic ends the run.\<close>

definition tryS :: "('s, 'e, 'a) prog \<Rightarrow> ('s, 'f, 'e + 'a) prog" where
  "tryS m s =
     (case m s of
        (Inr a, s') \<Rightarrow> (Inr (Inr a), s')
      | (Inl (Error e), s') \<Rightarrow> (Inr (Inl e), s')
      | (Inl (Panic p), s') \<Rightarrow> (Inl (Panic p), s'))"

definition set_gas :: "nat \<Rightarrow> (('vm, 'h) sys, 'e, unit) prog" where
  "set_gas g s = (Inr (), s \<lparr> sys_gas := g \<rparr>)"

text \<open>The result of the execution is written behind the request.\<close>

definition answer_syscall ::
  "('vm, 'x) vm_api \<Rightarrow> ('x, 'b) fmt \<Rightarrow> (('vm, 'h) sys, 'b syscall_execution_error, 'req, 'resp) syscall_handler
   \<Rightarrow> 'b syscall_execution_error + 'resp \<Rightarrow> (('vm, 'h) sys, 'x hint_error, unit) prog" where
  "answer_syscall api f sh syscall_result =
     (case syscall_result of
        Inr response \<Rightarrow>
          bindS (readS (\<lambda>s. Inr (sys_gas s))) (\<lambda>remaining_gas.
          bindS (map_errS MachineHint (write_felt api remaining_gas)) (\<lambda>_.
          bindS (map_errS MachineHint (write_felt api 0)) (\<lambda>_.
            map_errS (hint_of_syscall_error f) (write_response sh response))))
      | Inl (SyscallError data) \<Rightarrow>
          bindS (readS (\<lambda>s. Inr (sys_gas s))) (\<lambda>remaining_gas.
            map_errS (hint_of_syscall_error f) (write_failure api remaining_gas data))
      | Inl error \<Rightarrow> liftS (Inl (Error (hint_of_syscall_error f error))))"

definition run_handler ::
  "('vm, 'x) vm_api \<Rightarrow> ('x, 'b) fmt \<Rightarrow> (('vm, 'h) sys, 'b syscall_execution_error, 'req, 'resp) syscall_handler \<Rightarrow> nat
   \<Rightarrow> (('vm, 'h) sys, 'x hint_error, unit) prog" where
  "run_handler api f sh syscall_gas_cost =
     bindS (liftS (u64_sub syscall_gas_cost SYSCALL_BASE_GAS_COST)) (\<lambda>required_gas.
     bindS (map_errS MachineHint (felt_from_ptr api)) (\<lambda>gas_felt.
     bindS (map_errS (hint_of_syscall_error f)
              (liftS (ok_or (InvalidSyscallInput gas_felt ''Unexpected gas.'') (felt_to_u64 gas_felt)))) (\<lambda>gas_counter.
       if gas_counter < required_gas
       then map_errS (hint_of_syscall_error f) (write_failure api gas_counter [OUT_OF_GAS_ERROR])
       else
         bindS (map_errS (hint_of_syscall_error f) (read_request sh)) (\<lambda>request.
         bindS (liftS (u64_sub gas_counter required_gas)) (\<lambda>remaining_gas.
         bindS (set_gas remaining_gas) (\<lambda>_.
         bindS (tryS (execute sh request)) (answer_syscall api f sh)))))))"

end
