(* ===== verification/Syscall_Handlers.thy ===== *)
theory Syscall_Handlers
  imports Syscall_Utils Class_Facts
begin

text \<open>
  The handlers of the system calls of Cairo 1 contracts and their dispatcher (\<open>execution/syscall_handler.rs\<close> and
  \<open>execution/secp_handler.rs\<close>).

  The elliptic curve processors of the blockifier, the permutation of Keccak and the compression function of SHA-256 are
  third-party functions, fields of \<open>sys_env\<close>. The deploy handler looks at the classes of the
  input, whose once-cells it may fill.
\<close>

section \<open>Parameters\<close>

record ec_point_coordinates =
  ec_x :: nat
  ec_y :: nat

record ('p, 'b) secp_api =
  secp_new :: "ec_point_coordinates \<Rightarrow> 'p \<Rightarrow> ('b blockifier_error + nat option) \<times> 'p"
  secp_get_point_from_x :: "nat \<Rightarrow> bool \<Rightarrow> 'p \<Rightarrow> ('b blockifier_error + nat option) \<times> 'p"
  secp_mul :: "felt \<Rightarrow> nat \<Rightarrow> 'p \<Rightarrow> ('b blockifier_error + nat) \<times> 'p"
  secp_add :: "felt \<Rightarrow> felt \<Rightarrow> 'p \<Rightarrow> ('b blockifier_error + nat) \<times> 'p"
  secp_get_xy :: "felt \<Rightarrow> 'p \<Rightarrow> ('b blockifier_error + ec_point_coordinates) \<times> 'p"

text \<open>The part of the input that the handlers read.\<close>

record ('cl, 'cbl, 'sa, 'sc, 'dbl) starknet_os_input =
  deprecated_compiled_classes :: "(felt, ('sa, 'sc, 'dbl) deprecated_class) hash_map"
  compiled_classes :: "(felt, ('cl, 'cbl) casm_class) hash_map"
  contract_address_to_class_hash :: "(felt, felt) hash_map"
  class_hash_to_compiled_class_hash :: "(felt, felt) hash_map"

record ('vm, 'x, 'b, 'pcs, 'k1, 'r1, 'cl, 'cbl, 'sa, 'sc, 'dbl) sys_env =
  env_vm :: "('vm, 'x) vm_api"
  env_fmt :: "('x, 'b) fmt"
  env_pcs :: "'pcs pcs_ops"
  env_k1 :: "('k1, 'b) secp_api"
  env_r1 :: "('r1, 'b) secp_api"
  keccak_f1600 :: "64 word list \<Rightarrow> 64 word list"
  sha2_compress256 :: "32 word list \<Rightarrow> bytes \<Rightarrow> 32 word list"
  env_casm :: "('cl, 'cbl) casm_api"
  env_dep :: "('sa, 'sc, 'dbl) deprecated_api"
  casm_n_constructors :: "'cl \<Rightarrow> nat"
  dep_n_constructors :: "'sa \<Rightarrow> nat option"

section \<open>Handlers that replay recorded results\<close>

definition skip_request where
  "skip_request env ty = map_errS (of_math_error (env_vm env)) (advance (env_vm env) (cairo_size ty))"

text \<open>The item is taken from the iterator by \<open>next\<close>; \<open>ok_or\<close> makes an exhausted iterator an error.\<close>

definition nextS :: "('h \<Rightarrow> ('a \<times> 'h) option) \<Rightarrow> 'e \<Rightarrow> ('h, 'e, 'a) prog" where
  "nextS nxt e h = (case nxt h of None \<Rightarrow> (Inl (Error e), h) | Some (a, h') \<Rightarrow> (Inr a, h'))"

definition charge_gas :: "nat \<Rightarrow> (('vm, 'h) sys, 'e, unit) prog" where
  "charge_gas cost =
     bindS (readS (\<lambda>s. u64_sub (sys_gas s) cost)) set_gas"

text \<open>The common part of the call, library call and deploy handlers: the result of an inner call, as a new segment.\<close>

definition replay_result where
  "replay_result env =
     bindS (helperS (nextS next_result (InternalError ''No result left in the result iterator.''))) (\<lambda>result.
     bindS (charge_gas (cr_gas_consumed result)) (\<lambda>_.
       let retdata = cr_retdata result in
       if cr_failed result then liftS (Inl (Error (SyscallError retdata)))
       else
         bindS (vmS (temp_segmentS (env_vm env))) (\<lambda>start.
         bindS (map_errS (of_memory_error (env_vm env)) (vmS (loadS (env_vm env) start (map IntV retdata)))) (\<lambda>_.
           retS \<lparr> start_ptr = start, seg_length = length retdata \<rparr>))))"

definition CallContractHandler where
  "CallContractHandler env =
     \<lparr> read_request = skip_request env new_CallContractRequest_layout,
       execute = (\<lambda>_. replay_result env),
       write_response = write_segment (env_vm env) \<rparr>"

definition LibraryCallHandler where
  "LibraryCallHandler env =
     \<lparr> read_request = skip_request env new_LibraryCallRequest_layout,
       execute = (\<lambda>_. replay_result env),
       write_response = write_segment (env_vm env) \<rparr>"

record deploy_response =
  dr_contract_address :: felt
  constructor_retdata :: read_only_segment
  need_retdata_hack :: bool

text \<open>The number of constructors of the class of a contract; the class may fill its once-cell.\<close>

definition num_constructors where
  "num_constructors env contract_address =
     bindS (readS (\<lambda>os_input. unwrap ''No class_hash for contract_address''
              (map_of (contract_address_to_class_hash os_input) contract_address))) (\<lambda>class_hash os_input.
       case map_of (class_hash_to_compiled_class_hash os_input) class_hash of
         Some cc_hash \<Rightarrow>
           bindS (readS (\<lambda>os_input. unwrap ''No CASM'' (map_of (compiled_classes os_input) cc_hash))) (\<lambda>casm os_input.
             case expectL ''couldn't get cairo lang class'' (casm_get_cairo_lang_contract_class (env_casm env)) casm of
               (r, casm') \<Rightarrow>
                 (bindR r (\<lambda>c. Inr (casm_n_constructors env c)),
                  os_input \<lparr> compiled_classes := hm_insert cc_hash casm' (compiled_classes os_input) \<rparr>)) os_input
       | None \<Rightarrow>
           bindS (readS (\<lambda>os_input. unwrap ''no deprecated CC'' (map_of (deprecated_compiled_classes os_input) class_hash))) (\<lambda>cc os_input.
             case expectL ''couldn't get starknet api class'' (dep_get_starknet_api_contract_class (env_dep env)) cc of
               (r, cc') \<Rightarrow>
                 (bindR r (\<lambda>c.
                    unwrap ''should have constructor list'' (dep_n_constructors env c)),
                  os_input \<lparr> deprecated_compiled_classes := hm_insert class_hash cc' (deprecated_compiled_classes os_input) \<rparr>)) os_input)"

definition on_os_input where
  "on_os_input m eh =
     (case eh_os_input eh of
        None \<Rightarrow> (Inr None, eh)
      | Some os_input \<Rightarrow>
          (case m os_input of (r, os_input') \<Rightarrow> (bindR r (\<lambda>a. Inr (Some a)), eh \<lparr> eh_os_input := Some os_input' \<rparr>)))"

definition Deploy_execute where
  "Deploy_execute env =
     bindS (replay_result env) (\<lambda>retdata.
     bindS (helperS (nextS next_deployed
              (of_hint_error (env_fmt env) (SyscallErrorHint ''No more deployed contracts available to replay'')))) (\<lambda>contract_address.
     bindS (helperS (on_os_input (num_constructors env contract_address))) (\<lambda>n.
       retS \<lparr> dr_contract_address = contract_address, constructor_retdata = retdata, need_retdata_hack = (n = Some 0) \<rparr>)))"

definition Deploy_write_response where
  "Deploy_write_response env response =
     bindS (writeE (env_vm env) (IntV (dr_contract_address response))) (\<lambda>_.
       if need_retdata_hack response
       then bindS (writeE (env_vm env) (IntV 0)) (\<lambda>_. writeE (env_vm env) (IntV 0))
       else write_segment (env_vm env) (constructor_retdata response))"

definition DeployHandler where
  "DeployHandler env =
     \<lparr> read_request = skip_request env new_DeployRequest_layout,
       execute = (\<lambda>_. Deploy_execute env),
       write_response = Deploy_write_response env \<rparr>"

section \<open>Handlers without effect\<close>

text \<open>Events, messages, class replacements and storage writes are the business of the Cairo program.\<close>

definition EmitEventHandler where
  "EmitEventHandler env =
     \<lparr> read_request = skip_request env new_EmitEventRequest_layout, execute = (\<lambda>_. retS ()), write_response = (\<lambda>_. retS ()) \<rparr>"

definition ReplaceClassHandler where
  "ReplaceClassHandler env =
     \<lparr> read_request = skip_request env new_ReplaceClassRequest_layout, execute = (\<lambda>_. retS ()), write_response = (\<lambda>_. retS ()) \<rparr>"

definition SendMessageToL1Handler where
  "SendMessageToL1Handler env =
     \<lparr> read_request = skip_request env new_SendMessageToL1Request_layout, execute = (\<lambda>_. retS ()), write_response = (\<lambda>_. retS ()) \<rparr>"

text \<open>\<open>vm.get_integer( *ptr)?\<close>\<close>

definition integer_at_ptr where
  "integer_at_ptr env =
     map_errS (of_memory_error (env_vm env)) (readS (\<lambda>s. of_vm (get_integer (env_vm env) (sys_vm s) (sys_ptr s))))"

definition storage_request where
  "storage_request env ty =
     bindS (integer_at_ptr env) (\<lambda>address_domain.
       if address_domain \<noteq> 0 then liftS (Inl (Error (InvalidAddressDomain address_domain)))
       else skip_request env ty)"

definition StorageWriteHandler where
  "StorageWriteHandler env =
     \<lparr> read_request = storage_request env new_StorageWriteRequest_layout, execute = (\<lambda>_. retS ()), write_response = (\<lambda>_. retS ()) \<rparr>"

section \<open>Handlers that read\<close>

definition StorageReadHandler where
  "StorageReadHandler env =
     \<lparr> read_request = storage_request env new_StorageReadRequest_layout,
       execute = (\<lambda>_. helperS (nextS next_read
         (of_hint_error (env_fmt env) (SyscallErrorHint ''n: No more storage reads available to replay'')))),
       write_response = (\<lambda>value. writeE (env_vm env) (IntV value)) \<rparr>"

definition GetBlockHash_read_request where
  "GetBlockHash_read_request env =
     bindS (integer_at_ptr env) (\<lambda>block_number.
     bindS (skip_request env new_GetBlockHashRequest_layout) (\<lambda>_. retS block_number))"

definition GetBlockHash_execute where
  "GetBlockHash_execute env block_number s =
     (case map_err of_storage_error
        (read_storage_for_address (env_pcs env) BLOCK_HASH_CONTRACT_ADDRESS block_number (sys_helper s)) of
        Inl e \<Rightarrow> (Inl e, s)
      | Inr (block_hash, eh) \<Rightarrow> (Inr block_hash, s \<lparr> sys_helper := eh \<rparr>))"

definition GetBlockHashHandler where
  "GetBlockHashHandler env =
     \<lparr> read_request = GetBlockHash_read_request env,
       execute = GetBlockHash_execute env,
       write_response = (\<lambda>block_hash. writeE (env_vm env) (IntV block_hash)) \<rparr>"

definition GetExecutionInfoHandler where
  "GetExecutionInfoHandler env =
     \<lparr> read_request = retS (),
       execute = (\<lambda>_. readS (\<lambda>s. unwrap ''called unwrap on a None value'' (call_execution_info_ptr (sys_helper s)))),
       write_response = (\<lambda>ptr. writeE (env_vm env) (RelocatableValue ptr)) \<rparr>"

section \<open>Hash functions\<close>

definition two_pointers where
  "two_pointers env =
     bindS (relocatable_from_ptr (env_vm env)) (\<lambda>a.
     bindS (relocatable_from_ptr (env_vm env)) (\<lambda>b. retS (a, b)))"

text \<open>One block is added to the state, word by word, and the state is permuted.\<close>

fun keccak_absorb :: "nat \<Rightarrow> felt list \<Rightarrow> 64 word list \<Rightarrow> ('b syscall_execution_error, 64 word list) res" where
  "keccak_absorb i [] state = Inr state"
| "keccak_absorb i (val # vals) state =
     bindR (ok_or (InvalidSyscallInput val ''Invalid input for the keccak syscall.'') (felt_to_u64 val)) (\<lambda>v.
     bindR (vec_index state i) (\<lambda>w.
       keccak_absorb (i + 1) vals (state[i := xor w (word_of_nat v)])))"

definition keccak_state where
  "keccak_state env input =
     foldR (\<lambda>state chunk. bindR (keccak_absorb 0 chunk state) (\<lambda>state. Inr (keccak_f1600 env state)))
       (replicate 25 0) (chunks KECCAK_FULL_RATE_IN_U64S input)"

definition two_words :: "64 word \<Rightarrow> 64 word \<Rightarrow> felt" where
  "two_words high low = felt_of_nat (unat high * 2 ^ 64 + unat low)"

definition Keccak_execute where
  "Keccak_execute env = (\<lambda>(input_start, input_end).
     bindS (map_errS (of_math_error (env_vm env)) (liftS (of_vm (rel_sub (env_vm env) input_end input_start)))) (\<lambda>input_len.
       let n_rounds = input_len div KECCAK_FULL_RATE_IN_U64S; remainder = input_len mod KECCAK_FULL_RATE_IN_U64S in
       if remainder \<noteq> 0 then liftS (Inl (Error (SyscallError [INVALID_INPUT_LENGTH_ERROR])))
       else
         bindS (liftS (u64_mul n_rounds KECCAK_ROUND_COST_GAS_COST)) (\<lambda>gas_cost.
         bindS (readS (\<lambda>s. if gas_cost > sys_gas s then Inl (Error (OutOfGas (sys_gas s))) else Inr ())) (\<lambda>_.
         bindS (charge_gas gas_cost) (\<lambda>_.
         bindS (integer_range (env_vm env) input_start input_len) (\<lambda>input_felt_array.
         bindS (liftS (keccak_state env input_felt_array)) (\<lambda>state.
         bindS (liftS (vec_index state 0)) (\<lambda>s0.
         bindS (liftS (vec_index state 1)) (\<lambda>s1.
         bindS (liftS (vec_index state 2)) (\<lambda>s2.
         bindS (liftS (vec_index state 3)) (\<lambda>s3.
           retS (two_words s1 s0, two_words s3 s2))))))))))))"

definition KeccakHandler where
  "KeccakHandler env =
     \<lparr> read_request = two_pointers env,
       execute = Keccak_execute env,
       write_response = (\<lambda>(low, high).
         bindS (writeE (env_vm env) (IntV low)) (\<lambda>_. writeE (env_vm env) (IntV high))) \<rparr>"

definition felt_to_u32 :: "felt \<Rightarrow> 32 word option" where
  "felt_to_u32 x = (if x < 2 ^ 32 then Some (word_of_nat x) else None)"

definition u32_to_be_bytes :: "32 word \<Rightarrow> bytes" where
  "u32_to_be_bytes w = fixed_be 4 (unat w)"

definition SHA256_BLOCK_SIZE :: nat where
  "SHA256_BLOCK_SIZE = 16"

definition SHA256_STATE_SIZE :: nat where
  "SHA256_STATE_SIZE = 8"

definition Sha256_execute where
  "Sha256_execute env = (\<lambda>(state_ptr, input_start).
     bindS (integer_range (env_vm env) input_start SHA256_BLOCK_SIZE) (\<lambda>data.
     bindS (integer_range (env_vm env) state_ptr SHA256_STATE_SIZE) (\<lambda>prev_state.
     bindS (liftS (mapR (\<lambda>felt. unwrap ''libfunc should ensure the input is an [u32; 16].'' (felt_to_u32 felt)) data)) (\<lambda>words.
       let data_as_bytes = concat (map u32_to_be_bytes words) in
     bindS (liftS (assert_that ''u32.to_be_bytes() returns 4 bytes, and data.len() == 16. So data contains 64 bytes.''
              (length data_as_bytes = 64))) (\<lambda>_.
     bindS (liftS (mapR (\<lambda>i. bindR (vec_index prev_state i) (\<lambda>felt.
              unwrap ''libfunc only accepts SHA256StateHandle which can only be created from an Array<u32>.'' (felt_to_u32 felt)))
              [0..<SHA256_STATE_SIZE])) (\<lambda>state.
       let state_as_words = sha2_compress256 env state data_as_bytes in
       bindS (vmS (segmentS (env_vm env))) (\<lambda>new_segment.
       bindS (readS (\<lambda>s. Inr (case sha256_segment (sys_helper s) of Some a \<Rightarrow> a | None \<Rightarrow> new_segment))) (\<lambda>segment.
       bindS (map_errS (of_math_error (env_vm env)) (liftS (add_offset (env_vm env) segment 24))) (\<lambda>response.
       bindS (map_errS (of_memory_error (env_vm env))
                (vmS (loadS (env_vm env) response (map (\<lambda>w. IntV (unat w)) state_as_words)))) (\<lambda>next_segment.
       bindS (helperS (\<lambda>eh. (Inr (), eh \<lparr> sha256_segment := Some next_segment \<rparr>))) (\<lambda>_.
         retS response)))))))))))"

definition Sha256ProcessBlockHandler where
  "Sha256ProcessBlockHandler env =
     \<lparr> read_request = two_pointers env,
       execute = Sha256_execute env,
       write_response = (\<lambda>ptr. writeE (env_vm env) (RelocatableValue ptr)) \<rparr>"

section \<open>Elliptic curves\<close>

text \<open>\<open>get_secp_handler\<close>: the processor of a curve is a part of the helper.\<close>

record ('p, 'h, 'b) secp_curve =
  curve_api :: "('p, 'b) secp_api"
  get_secp_handler :: "'h \<Rightarrow> 'p secp_syscall_processor"
  put_secp_handler :: "'p secp_syscall_processor \<Rightarrow> 'h \<Rightarrow> 'h"

definition secp256k1 where
  "secp256k1 env =
     \<lparr> curve_api = env_k1 env,
       get_secp_handler = secp256k1_syscall_processor,
       put_secp_handler = (\<lambda>p eh. eh \<lparr> secp256k1_syscall_processor := p \<rparr>) \<rparr>"

definition secp256r1 where
  "secp256r1 env =
     \<lparr> curve_api = env_r1 env,
       get_secp_handler = secp256r1_syscall_processor,
       put_secp_handler = (\<lambda>p eh. eh \<lparr> secp256r1_syscall_processor := p \<rparr>) \<rparr>"

definition pack :: "felt \<Rightarrow> felt \<Rightarrow> nat" where
  "pack low high = high * 2 ^ 128 + low"

text \<open>A call of the processor, with its errors converted.\<close>

definition processS :: "('p, 'h, 'b) secp_curve \<Rightarrow> ('p \<Rightarrow> ('b blockifier_error + 'a) \<times> 'p)
    \<Rightarrow> (('vm, 'h) sys, 'b syscall_execution_error, 'a) prog" where
  "processS c f =
     helperS (\<lambda>h. case f (processor (get_secp_handler c h)) of
       (r, p) \<Rightarrow> ((case r of Inl e \<Rightarrow> Inl (Error (of_blockifier_error e)) | Inr a \<Rightarrow> Inr a),
                  put_secp_handler c ((get_secp_handler c h) \<lparr> processor := p \<rparr>) h))"

text \<open>\<open>segment.get_or_init(|| vm.add_memory_segment())\<close> and \<open>segment.get().unwrap()\<close>\<close>

definition secp_segment_or_init :: "('vm, 'x) vm_api \<Rightarrow> ('p, 'h, 'b) secp_curve \<Rightarrow> (('vm, 'h) sys, 'e, relocatable) prog" where
  "secp_segment_or_init api c s =
     (case secp_segment (get_secp_handler c (sys_helper s)) of
        Some a \<Rightarrow> (Inr a, s)
      | None \<Rightarrow>
          bindS (vmS (segmentS api)) (\<lambda>a.
          bindS (helperS (\<lambda>h. (Inr (), put_secp_handler c ((get_secp_handler c h) \<lparr> secp_segment := Some a \<rparr>) h))) (\<lambda>_.
            retS a)) s)"

definition secp_segment_get :: "('p, 'h, 'b) secp_curve \<Rightarrow> (('vm, 'h) sys, 'e, relocatable) prog" where
  "secp_segment_get c =
     readS (\<lambda>s. unwrap ''called unwrap on a None value'' (secp_segment (get_secp_handler c (sys_helper s))))"

text \<open>A point is the address of its coordinates in the segment of the curve.\<close>

definition point_address :: "('vm, 'x) vm_api \<Rightarrow> relocatable \<Rightarrow> nat \<Rightarrow> (('vm, 'h) sys, 'b syscall_execution_error, relocatable) prog" where
  "point_address api segment ec_point =
     bindS (liftS (u64_mul ec_point (cairo_size EcCoordinate_layout))) (\<lambda>n.
       map_errS (of_math_error api) (liftS (add_offset api segment n)))"

definition point_id :: "relocatable \<Rightarrow> felt" where
  "point_id a = felt_of_nat (offset a div cairo_size EcCoordinate_layout)"

definition read_felt :: "('vm, 'x) vm_api \<Rightarrow> (('vm, 'h) sys, 'b syscall_execution_error, felt) prog" where
  "read_felt api = map_errS (of_memory_error api) (felt_from_ptr api)"

definition read_u256 :: "('vm, 'x) vm_api \<Rightarrow> (('vm, 'h) sys, 'b syscall_execution_error, nat) prog" where
  "read_u256 api = bindS (read_felt api) (\<lambda>low. bindS (read_felt api) (\<lambda>high. retS (pack low high)))"

definition secp_optional_point where
  "secp_optional_point api c m =
     bindS (processS c m) (\<lambda>res.
       case res of
         Some ec_point \<Rightarrow>
           bindS (secp_segment_or_init api c) (\<lambda>segment.
           bindS (point_address api segment ec_point) (\<lambda>point. retS (Some point)))
       | None \<Rightarrow> retS None)"

definition write_optional_point where
  "write_optional_point api response =
     (case response of
        Some point \<Rightarrow> bindS (writeE api (IntV 0)) (\<lambda>_. writeE api (RelocatableValue point))
      | None \<Rightarrow> bindS (writeE api (IntV 1)) (\<lambda>_. writeE api (IntV 0)))"

definition SecpNewHandler where
  "SecpNewHandler api c =
     \<lparr> read_request =
         bindS (read_u256 api) (\<lambda>x. bindS (read_u256 api) (\<lambda>y. retS \<lparr> ec_x = x, ec_y = y \<rparr>)),
       execute = (\<lambda>request. secp_optional_point api c (secp_new (curve_api c) request)),
       write_response = write_optional_point api \<rparr>"

definition felt_to_bool :: "felt \<Rightarrow> string \<Rightarrow> ('b syscall_execution_error, bool) res" where
  "felt_to_bool felt error_info =
     (if felt = 0 then Inr False
      else if felt = 1 then Inr True
      else Inl (Error (InvalidSyscallInput felt error_info)))"

definition SecpGetPointFromXHandler where
  "SecpGetPointFromXHandler api c =
     \<lparr> read_request =
         bindS (read_u256 api) (\<lambda>x.
         bindS (read_felt api) (\<lambda>felt.
         bindS (liftS (felt_to_bool felt ''Invalid y parity'')) (\<lambda>y_parity. retS (x, y_parity)))),
       execute = (\<lambda>(x, y_parity). secp_optional_point api c (secp_get_point_from_x (curve_api c) x y_parity)),
       write_response = write_optional_point api \<rparr>"

definition SecpMulHandler where
  "SecpMulHandler api c =
     \<lparr> read_request =
         bindS (relocatable_from_ptr api) (\<lambda>ec_point_id.
         bindS (read_u256 api) (\<lambda>multiplier. retS (ec_point_id, multiplier))),
       execute = (\<lambda>(ec_point_id, multiplier).
         bindS (secp_segment_get c) (\<lambda>segment.
         bindS (processS c (secp_mul (curve_api c) (point_id ec_point_id) multiplier)) (\<lambda>res.
           point_address api segment res))),
       write_response = (\<lambda>point. writeE api (RelocatableValue point)) \<rparr>"

definition SecpAddHandler where
  "SecpAddHandler api c =
     \<lparr> read_request =
         bindS (relocatable_from_ptr api) (\<lambda>lhs_id.
         bindS (relocatable_from_ptr api) (\<lambda>rhs_id. retS (lhs_id, rhs_id))),
       execute = (\<lambda>(lhs_id, rhs_id).
         bindS (processS c (secp_add (curve_api c) (point_id lhs_id) (point_id rhs_id))) (\<lambda>res.
         bindS (secp_segment_get c) (\<lambda>segment.
           point_address api segment res))),
       write_response = (\<lambda>point. writeE api (RelocatableValue point)) \<rparr>"

definition write_u256 where
  "write_u256 api value =
     bindS (writeE api (IntV (felt_of_nat (value mod 2 ^ 128)))) (\<lambda>_.
       writeE api (IntV (felt_of_nat (value div 2 ^ 128))))"

definition SecpGetXyHandler where
  "SecpGetXyHandler api c =
     \<lparr> read_request = relocatable_from_ptr api,
       execute = (\<lambda>ec_point_id.
         bindS (secp_segment_get c) (\<lambda>_.
           processS c (secp_get_xy (curve_api c) (point_id ec_point_id)))),
       write_response = (\<lambda>response. bindS (write_u256 api (ec_x response)) (\<lambda>_. write_u256 api (ec_y response))) \<rparr>"

section \<open>The dispatcher\<close>

definition dispatch where
  "dispatch env selector =
     (let api = env_vm env; f = env_fmt env; k1 = secp256k1 env; r1 = secp256r1 env in
      case selector of
        CallContract \<Rightarrow> run_handler api f (CallContractHandler env) CALL_CONTRACT_GAS_COST
      | Deploy \<Rightarrow> run_handler api f (DeployHandler env) DEPLOY_GAS_COST
      | EmitEvent \<Rightarrow> run_handler api f (EmitEventHandler env) EMIT_EVENT_GAS_COST
      | GetBlockHash \<Rightarrow> run_handler api f (GetBlockHashHandler env) GET_BLOCK_HASH_GAS_COST
      | LibraryCall \<Rightarrow> run_handler api f (LibraryCallHandler env) LIBRARY_CALL_GAS_COST
      | GetExecutionInfo \<Rightarrow> run_handler api f (GetExecutionInfoHandler env) GET_EXECUTION_INFO_GAS_COST
      | StorageRead \<Rightarrow> run_handler api f (StorageReadHandler env) STORAGE_READ_GAS_COST
      | StorageWrite \<Rightarrow> run_handler api f (StorageWriteHandler env) STORAGE_WRITE_GAS_COST
      | SendMessageToL1 \<Rightarrow> run_handler api f (SendMessageToL1Handler env) SEND_MESSAGE_TO_L1_GAS_COST
      | ReplaceClass \<Rightarrow> run_handler api f (ReplaceClassHandler env) REPLACE_CLASS_GAS_COST
      | LibraryCallL1Handler \<Rightarrow> run_handler api f (LibraryCallHandler env) LIBRARY_CALL_GAS_COST
      | Keccak \<Rightarrow> run_handler api f (KeccakHandler env) KECCAK_GAS_COST
      | Secp256k1New \<Rightarrow> run_handler api f (SecpNewHandler api k1) SECP256K1_NEW_GAS_COST
      | Secp256k1GetXy \<Rightarrow> run_handler api f (SecpGetXyHandler api k1) SECP256K1_GET_XY_GAS_COST
      | Secp256k1GetPointFromX \<Rightarrow> run_handler api f (SecpGetPointFromXHandler api k1) SECP256K1_GET_POINT_FROM_X_GAS_COST
      | Secp256k1Mul \<Rightarrow> run_handler api f (SecpMulHandler api k1) SECP256K1_MUL_GAS_COST
      | Secp256k1Add \<Rightarrow> run_handler api f (SecpAddHandler api k1) SECP256K1_ADD_GAS_COST
      | Secp256r1New \<Rightarrow> run_handler api f (SecpNewHandler api r1) SECP256R1_NEW_GAS_COST
      | Secp256r1GetXy \<Rightarrow> run_handler api f (SecpGetXyHandler api r1) SECP256R1_GET_XY_GAS_COST
      | Secp256r1GetPointFromX \<Rightarrow> run_handler api f (SecpGetPointFromXHandler api r1) SECP256R1_GET_POINT_FROM_X_GAS_COST
      | Secp256r1Mul \<Rightarrow> run_handler api f (SecpMulHandler api r1) SECP256R1_MUL_GAS_COST
      | Secp256r1Add \<Rightarrow> run_handler api f (SecpAddHandler api r1) SECP256R1_ADD_GAS_COST
      | Sha256ProcessBlock \<Rightarrow> run_handler api f (Sha256ProcessBlockHandler env) SHA256_PROCESS_BLOCK_GAS_COST
      | _ \<Rightarrow> liftS (Inl (Error (CustomHint (''Unknown syscall selector: '' @ SyscallSelector_debug selector)))))"

record 'h os_syscall_handler =
  osh_exec_wrapper :: 'h
  osh_syscall_ptr :: "relocatable option"

definition OsSyscallHandlerWrapper_new :: "'h \<Rightarrow> 'h os_syscall_handler" where
  "OsSyscallHandlerWrapper_new eh = \<lparr> osh_exec_wrapper = eh, osh_syscall_ptr = None \<rparr>"

definition set_syscall_ptr :: "relocatable \<Rightarrow> 'h os_syscall_handler \<Rightarrow> 'h os_syscall_handler" where
  "set_syscall_ptr ptr h = h \<lparr> osh_syscall_ptr := Some ptr \<rparr>"

definition set_sha256_segment where
  "set_sha256_segment segment h = h \<lparr> osh_exec_wrapper := (osh_exec_wrapper h) \<lparr> sha256_segment := Some segment \<rparr> \<rparr>"

definition validate_and_discard_syscall_ptr ::
  "relocatable \<Rightarrow> 'h os_syscall_handler \<Rightarrow> ('x hint_error, 'h os_syscall_handler) res" where
  "validate_and_discard_syscall_ptr syscall_ptr_end h =
     bindR (ok_or (CustomHint ''syscall_ptr is None'') (osh_syscall_ptr h)) (\<lambda>syscall_ptr.
     bindR (assert_that ''Bad syscall_ptr_end.'' (syscall_ptr = syscall_ptr_end)) (\<lambda>_.
       Inr (h \<lparr> osh_syscall_ptr := None \<rparr>)))"

text \<open>
  The handler works on a copy of the pointer and stores it back only when the call
  succeeds. Changes of the machine and of the helper stay also when it fails.
\<close>

definition execute_syscall where
  "execute_syscall env syscall_ptr = (\<lambda>(vm, h).
     case bindR (ok_or (CustomHint ''syscall_ptr is None'') (osh_syscall_ptr h)) (\<lambda>ptr.
            bindR (assert_that ''assertion failed: ptr == syscall_ptr'' (ptr = syscall_ptr)) (\<lambda>_. Inr ptr)) of
       Inl e \<Rightarrow> (Inl e, vm, h)
     | Inr ptr \<Rightarrow>
         (case bindS (map_errS MachineHint (felt_from_ptr (env_vm env))) (\<lambda>felt.
               bindS (liftS (SyscallSelector_try_from (env_fmt env) felt)) (dispatch env))
               \<lparr> sys_vm = vm, sys_helper = osh_exec_wrapper h, sys_ptr = ptr, sys_gas = 0 \<rparr> of
            (Inl e, s) \<Rightarrow> (Inl e, sys_vm s, h \<lparr> osh_exec_wrapper := sys_helper s \<rparr>)
          | (Inr _, s) \<Rightarrow>
              (Inr (), sys_vm s, h \<lparr> osh_exec_wrapper := sys_helper s, osh_syscall_ptr := Some (sys_ptr s) \<rparr>)))"

end
