(* ===== verification/Syscall_Contract.thy ===== *)
theory Syscall_Contract
  imports Syscall_Handlers
begin

text \<open>
  The contract of the trait \<open>SyscallHandler\<close>. A handler has a number of request cells and a number of response cells. Reading the
  request moves the system call pointer past the request and does nothing else; executing it leaves the pointer where it is,
  never gives gas back and overwrites no memory; writing the response fills the response cells.
  The locale \<open>syscall_contract\<close> collects these laws and derives from them what \<open>run_handler\<close> leaves in the memory.
  It is interpreted on every handler.

  The laws are proved by rules that follow the structure of programs: \<open>reads\<close>, \<open>keeps\<close> and \<open>writes\<close> say what a part of a
  handler may do, and the collection \<open>prog_rules\<close> derives them for a composition from its parts.
\<close>

named_theorems prog_rules

section \<open>Inversion of programs\<close>

lemma bindS_InrE:
  assumes "bindS m k s = (Inr b, s'')"
  obtains a s' where "m s = (Inr a, s')" and "k a s' = (Inr b, s'')"
  using assms by (auto simp: bindS_def split: prod.splits sum.splits)

lemma bindS_InlE:
  assumes "bindS m k s = (Inl e, s'')"
  obtains "m s = (Inl e, s'')" | a s' where "m s = (Inr a, s')" and "k a s' = (Inl e, s'')"
  using assms by (auto simp: bindS_def split: prod.splits sum.splits)

lemma map_errS_InrD: "map_errS f m s = (Inr a, s') \<Longrightarrow> m s = (Inr a, s')"
  by (auto simp: map_errS_def map_err_def split: prod.splits sum.splits exn.splits)

lemma map_errS_InlD:
  "map_errS f m s = (Inl (Error d), s') \<Longrightarrow> \<exists>e. m s = (Inl (Error e), s') \<and> d = f e"
  by (auto simp: map_errS_def map_err_def split: prod.splits sum.splits exn.splits)

lemma readS_iff: "readS f s = (r, s') \<longleftrightarrow> f s = r \<and> s' = s"
  by (auto simp: readS_def)

lemma of_vm_Inr_iff: "of_vm r = Inr a \<longleftrightarrow> r = Inr a"
  by (simp add: of_vm_def split: sum.splits)

section \<open>What a part of a handler may do\<close>

text \<open>It reads \<open>n\<close> cells: only the pointer moves.\<close>

definition reads :: "nat \<Rightarrow> (('vm, 'h) sys, 'e, 'a) prog \<Rightarrow> bool" where
  "reads n m \<longleftrightarrow> (\<forall>s a s'. m s = (Inr a, s') \<longrightarrow> s' = s \<lparr> sys_ptr := shift (sys_ptr s) n \<rparr>)"

text \<open>It keeps the pointer, the gas bound and the memory. This is also needed when it ends with a failure of the system call.\<close>

definition ran :: "('vm \<Rightarrow> memory) \<Rightarrow> ('vm, 'h) sys \<Rightarrow> ('vm, 'h) sys \<Rightarrow> bool" where
  "ran cells s s' \<longleftrightarrow>
     sys_ptr s' = sys_ptr s \<and> sys_gas s' \<le> sys_gas s \<and> cells (sys_vm s) \<subseteq>\<^sub>m cells (sys_vm s')"

definition answered :: "('b syscall_execution_error, 'a) res \<Rightarrow> bool" where
  "answered r \<longleftrightarrow> (case r of Inr _ \<Rightarrow> True | Inl (Error (SyscallError _)) \<Rightarrow> True | _ \<Rightarrow> False)"

definition keeps ::
  "('vm \<Rightarrow> memory) \<Rightarrow> (('vm, 'h) sys, 'b syscall_execution_error, 'a) prog \<Rightarrow> bool" where
  "keeps cells m \<longleftrightarrow> (\<forall>s r s'. m s = (r, s') \<and> answered r \<longrightarrow> ran cells s s')"

text \<open>It writes \<open>n\<close> cells at the pointer and moves the pointer past them.\<close>

definition wrote :: "('vm \<Rightarrow> memory) \<Rightarrow> maybe_relocatable list \<Rightarrow> ('vm, 'h) sys \<Rightarrow> ('vm, 'h) sys \<Rightarrow> bool" where
  "wrote cells vs s s' \<longleftrightarrow>
     sys_ptr s' = shift (sys_ptr s) (length vs) \<and> sys_helper s' = sys_helper s \<and> sys_gas s' = sys_gas s \<and>
     cells (sys_vm s) \<subseteq>\<^sub>m cells (sys_vm s') \<and>
     (\<forall>i < length vs. cells (sys_vm s') (shift (sys_ptr s) i) = Some (vs ! i))"

definition writes :: "('vm \<Rightarrow> memory) \<Rightarrow> nat \<Rightarrow> (('vm, 'h) sys, 'e, 'a) prog \<Rightarrow> bool" where
  "writes cells n m \<longleftrightarrow> (\<forall>s a s'. m s = (Inr a, s') \<longrightarrow> (\<exists>vs. length vs = n \<and> wrote cells vs s s'))"

lemma answered_simps [simp]:
  "answered (Inr a)" "answered (Inl (Error (SyscallError d)))" "\<not> answered (Inl (Panic p))"
  "\<not> answered (Inl (Error (InternalError msg)))" "\<not> answered (Inl (Error (OutOfGas g)))"
  "\<not> answered (Inl (Error (InvalidSyscallInput x i)))"
  by (simp_all add: answered_def)

lemma answered_Inl: "answered (Inl e :: ('b syscall_execution_error, 'a) res) \<longleftrightarrow> (\<exists>d. e = Error (SyscallError d))"
  by (auto simp: answered_def split: exn.splits syscall_execution_error.splits)

lemma ran_refl [simp]: "ran cells s s"
  by (simp add: ran_def)

lemma ran_trans: "ran cells s s' \<Longrightarrow> ran cells s' s'' \<Longrightarrow> ran cells s s''"
  unfolding ran_def by (metis map_le_trans order_trans)

lemma ran_helper [simp]: "ran cells s (s \<lparr> sys_helper := h \<rparr>)"
  by (simp add: ran_def)

lemma wrote_append:
  assumes "wrote cells vs s s'" and "wrote cells ws s' s''"
  shows "wrote cells (vs @ ws) s s''"
proof -
  have "cells (sys_vm s'') (shift (sys_ptr s) i) = Some ((vs @ ws) ! i)" if i: "i < length (vs @ ws)" for i
  proof (cases "i < length vs")
    case True
    with assms show ?thesis
      by (auto simp: wrote_def nth_append map_le_def dom_def)
  next
    case False
    then have "cells (sys_vm s'') (shift (sys_ptr s') (i - length vs)) = Some (ws ! (i - length vs))"
      using assms(2) i by (simp add: wrote_def)
    with False assms(1) show ?thesis by (simp add: wrote_def nth_append)
  qed
  moreover have "cells (sys_vm s) \<subseteq>\<^sub>m cells (sys_vm s'')"
    using assms unfolding wrote_def by (metis map_le_trans)
  ultimately show ?thesis using assms by (simp add: wrote_def)
qed

section \<open>Rules for programs\<close>

lemma reads_retS [prog_rules]: "reads 0 (retS a)"
  by (simp add: reads_def)

lemma reads_liftS [prog_rules]: "reads 0 (liftS r)"
  by (simp add: reads_def)

lemma reads_readS [prog_rules]: "reads 0 (readS f)"
  by (simp add: reads_def readS_iff)

lemma reads_map_errS [prog_rules]: "reads n m \<Longrightarrow> reads n (map_errS f m)"
  by (auto simp: reads_def dest!: map_errS_InrD)

lemma reads_bindS [prog_rules]:
  assumes "reads m p" and "\<And>a. reads n (q a)" and "m + n = k"
  shows "reads k (bindS p q)"
  using assms unfolding reads_def by (fastforce elim!: bindS_InrE)

lemma reads_if [prog_rules]: "reads n p \<Longrightarrow> reads n q \<Longrightarrow> reads n (if b then p else q)"
  by simp

lemma reads_fail [prog_rules]: "reads n (liftS (Inl e))"
  by (simp add: reads_def)

lemma keepsD: "keeps cells m \<Longrightarrow> m s = (r, s') \<Longrightarrow> answered r \<Longrightarrow> ran cells s s'"
  unfolding keeps_def by blast

lemma keeps_retS [prog_rules]: "keeps cells (retS a)"
  by (simp add: keeps_def)

lemma keeps_liftS [prog_rules]: "keeps cells (liftS r)"
  by (simp add: keeps_def)

lemma keeps_readS [prog_rules]: "keeps cells (readS f)"
  by (simp add: keeps_def readS_iff)

lemma keeps_helperS [prog_rules]: "keeps cells (helperS m)"
  by (auto simp: keeps_def helperS_def zoomS_def split: prod.splits)

lemma keeps_bindS [prog_rules]:
  assumes "keeps cells p" and "\<And>a. keeps cells (q a)"
  shows "keeps cells (bindS p q)"
  unfolding keeps_def
proof (intro allI impI, elim conjE)
  fix s r s'' assume run: "bindS p q s = (r, s'')" and r: "answered r"
  show "ran cells s s''"
  proof (cases "p s")
    case (Pair r1 s1)
    show ?thesis
    proof (cases r1)
      case (Inl e)
      with run r Pair have "answered r1" "s1 = s''" by (auto simp: answered_Inl bindS_def)
      with keepsD [OF assms(1) Pair] show ?thesis by simp
    next
      case (Inr a)
      with run Pair have "q a s1 = (r, s'')" by (simp add: bindS_def)
      then have "ran cells s1 s''" using r by (rule keepsD [OF assms(2)])
      moreover from keepsD [OF assms(1) Pair] Inr have "ran cells s s1" by simp
      ultimately show ?thesis by (blast intro: ran_trans)
    qed
  qed
qed

lemma keeps_if [prog_rules]: "keeps cells p \<Longrightarrow> keeps cells q \<Longrightarrow> keeps cells (if b then p else q)"
  by simp

lemma keeps_let [prog_rules]: "(\<And>a. keeps cells (f a)) \<Longrightarrow> keeps cells (let a = b in f a)"
  by simp

lemma keeps_case_prod [prog_rules]: "(\<And>a b. keeps cells (f a b)) \<Longrightarrow> keeps cells (case x of (a, b) \<Rightarrow> f a b)"
  by (cases x) simp

lemma keeps_case_option [prog_rules]:
  "keeps cells p \<Longrightarrow> (\<And>a. keeps cells (q a)) \<Longrightarrow> keeps cells (case x of None \<Rightarrow> p | Some a \<Rightarrow> q a)"
  by (cases x) simp_all

lemma keeps_set_gas: "g \<le> sys_gas s \<Longrightarrow> set_gas g s = (r, s') \<Longrightarrow> ran cells s s'"
  by (auto simp: set_gas_def ran_def)

lemma keeps_charge_gas [prog_rules]: "keeps cells (charge_gas cost)"
  by (auto simp: keeps_def charge_gas_def bindS_def readS_def u64_sub_def set_gas_def ran_def split: if_splits)

lemma writes_bindS [prog_rules]:
  assumes "writes cells m p" and "\<And>a. writes cells n (q a)" and "m + n = k"
  shows "writes cells k (bindS p q)"
  unfolding writes_def
proof (intro allI impI)
  fix s b s'' assume "bindS p q s = (Inr b, s'')"
  then obtain a s' where p: "p s = (Inr a, s')" and q: "q a s' = (Inr b, s'')" by (elim bindS_InrE)
  from assms(1) p obtain vs where "length vs = m" "wrote cells vs s s'" unfolding writes_def by blast
  moreover from assms(2) q obtain ws where "length ws = n" "wrote cells ws s' s''" unfolding writes_def by blast
  ultimately show "\<exists>vs. length vs = k \<and> wrote cells vs s s''"
    using wrote_append [of cells vs s s' ws s''] assms(3) by (intro exI [of _ "vs @ ws"]) simp
qed

lemma writes_retS [prog_rules]: "writes cells 0 (retS a)"
  by (simp add: writes_def wrote_def)

lemma writes_liftS [prog_rules]: "writes cells 0 (liftS r)"
  by (simp add: writes_def wrote_def)

lemma writes_map_errS [prog_rules]: "writes cells n m \<Longrightarrow> writes cells n (map_errS f m)"
  by (auto simp: writes_def dest!: map_errS_InrD)

lemma writes_if [prog_rules]:
  "writes cells m p \<Longrightarrow> m = k \<Longrightarrow> writes cells n q \<Longrightarrow> n = k \<Longrightarrow> writes cells k (if b then p else q)"
  by simp

lemma writes_case_option [prog_rules]:
  "writes cells n p \<Longrightarrow> (\<And>a. writes cells n (q a)) \<Longrightarrow> writes cells n (case x of None \<Rightarrow> p | Some a \<Rightarrow> q a)"
  by (cases x) simp_all

lemma writes_case_prod [prog_rules]: "(\<And>a b. writes cells n (f a b)) \<Longrightarrow> writes cells n (case x of (a, b) \<Rightarrow> f a b)"
  by (cases x) simp

section \<open>Rules for the machine\<close>

lemma advance_Inr:
  "vm_laws api cells segs \<Longrightarrow> advance api n s = (Inr u, s') \<Longrightarrow> s' = s \<lparr> sys_ptr := shift (sys_ptr s) n \<rparr>"
  by (auto simp: advance_def dest: vm_rel_add_Inr split: sum.splits)

lemma reads_advance [prog_rules]: "vm_laws api cells segs \<Longrightarrow> reads n (advance api n)"
  unfolding reads_def by (blast dest: advance_Inr)

lemma felt_from_ptr_Inr:
  assumes "vm_laws api cells segs" and "felt_from_ptr api s = (Inr x, s')"
  shows "cells (sys_vm s) (sys_ptr s) = Some (IntV x) \<and> s' = s \<lparr> sys_ptr := shift (sys_ptr s) 1 \<rparr>"
  using assms
  by (auto simp: felt_from_ptr_def readS_iff of_vm_Inr_iff vm_get_integer elim!: bindS_InrE
    dest!: map_errS_InrD advance_Inr [OF assms(1)])

lemma reads_felt_from_ptr [prog_rules]: "vm_laws api cells segs \<Longrightarrow> reads 1 (felt_from_ptr api)"
  by (auto simp: reads_def dest: felt_from_ptr_Inr)

lemma reads_relocatable_from_ptr [prog_rules]: "vm_laws api cells segs \<Longrightarrow> reads 1 (relocatable_from_ptr api)"
  unfolding relocatable_from_ptr_def by (rule prog_rules | assumption | simp)+

lemma segment_kept [prog_rules]:
  assumes "vm_laws api cells segs"
  shows "keeps cells (vmS (segmentS api))" "keeps cells (vmS (temp_segmentS api))"
proof -
  show "keeps cells (vmS (segmentS api))"
    unfolding keeps_def vmS_def zoomS_def segmentS_def ran_def
    using vm_add_memory_segment [OF assms] by (auto split: prod.splits) (metis map_le_refl prod.inject)
  show "keeps cells (vmS (temp_segmentS api))"
    unfolding keeps_def vmS_def zoomS_def temp_segmentS_def ran_def
    using vm_add_temporary_segment [OF assms] by (auto split: prod.splits) (metis map_le_refl prod.inject)
qed

lemma write_all_extends:
  assumes "\<forall>i < length vs. m (shift a i) \<in> {None, Some (vs ! i)}"
  shows "m \<subseteq>\<^sub>m write_all a vs m"
proof (unfold map_le_def, intro ballI)
  fix b assume b: "b \<in> dom m"
  show "m b = write_all a vs m b"
  proof (cases "\<exists>i < length vs. b = shift a i")
    case True
    then obtain i where "i < length vs" "b = shift a i" by blast
    with assms b write_all_at [of i vs a m] show ?thesis by auto
  qed (simp add: write_all_other)
qed

lemma loadS_Inr:
  assumes "vm_laws api cells segs" and "vmS (loadS api a vs) s = (Inr b, s')"
  shows "b = shift a (length vs) \<and> ran cells s s' \<and> sys_helper s' = sys_helper s \<and>
    sys_gas s' = sys_gas s \<and> cells (sys_vm s') = write_all a vs (cells (sys_vm s))"
proof -
  obtain vm' where "load_data api a vs (sys_vm s) = (Inr b, vm')" and "s' = s \<lparr> sys_vm := vm' \<rparr>"
    using assms(2) by (auto simp: vmS_def zoomS_def loadS_def of_vm_Inr_iff split: prod.splits)
  with vm_load_data_Inr [OF assms(1)] write_all_extends [of vs "cells (sys_vm s)" a] show ?thesis
    by (auto simp: ran_def)
qed

lemma keeps_internal:
  assumes "\<And>s a s'. m s = (Inr a, s') \<Longrightarrow> ran cells s s'" and "\<And>e d. f e \<noteq> SyscallError d"
  shows "keeps cells (map_errS f m)"
  unfolding keeps_def
proof (intro allI impI, elim conjE)
  fix s r s' assume run: "map_errS f m s = (r, s')" and r: "answered r"
  show "ran cells s s'"
  proof (cases r)
    case (Inl e)
    with r obtain d where "e = Error (SyscallError d)" by (auto simp: answered_Inl)
    with run Inl have "map_errS f m s = (Inl (Error (SyscallError d)), s')" by (simp only:)
    from map_errS_InlD [OF this] have "\<exists>x. SyscallError d = f x" by blast
    with assms(2) show ?thesis by metis
  next
    case (Inr a)
    from run have "m s = (Inr a, s')" unfolding Inr by (rule map_errS_InrD)
    then show ?thesis by (rule assms(1))
  qed
qed

lemma keeps_load [prog_rules]:
  "vm_laws api cells segs \<Longrightarrow> keeps cells (map_errS (of_memory_error api) (vmS (loadS api a vs)))"
  by (rule keeps_internal) (auto simp: of_memory_error_def dest: loadS_Inr)

lemma keeps_math [prog_rules]: "keeps cells (map_errS (of_math_error api) (liftS r))"
  by (rule keeps_internal) (auto simp: of_math_error_def)

lemma keeps_integer_range [prog_rules]: "keeps cells (integer_range api a n)"
  unfolding integer_range_def by (rule keeps_internal) (auto simp: of_memory_error_def readS_iff)

lemma write_maybe_relocatable_Inr:
  assumes "vm_laws api cells segs" and "write_maybe_relocatable api v s = (Inr u, s')"
  shows "wrote cells [v] s s' \<and> cells (sys_vm s) (sys_ptr s) \<in> {None, Some v}"
proof -
  obtain vm' where vm': "insert_value api (sys_ptr s) v (sys_vm s) = (Inr (), vm')"
    and s': "s' = s \<lparr> sys_vm := vm', sys_ptr := shift (sys_ptr s) 1 \<rparr>"
    using assms(2)
    by (auto simp: write_maybe_relocatable_def readS_iff vmS_def zoomS_def insertS_def of_vm_Inr_iff
      elim!: bindS_InrE dest!: map_errS_InrD advance_Inr [OF assms(1)] split: prod.splits)
  from vm_insert_value_Inr [OF assms(1) vm'] show ?thesis
    by (auto simp: s' wrote_def map_le_def)
qed

lemma writes_maybe_relocatable [prog_rules]: "vm_laws api cells segs \<Longrightarrow> writes cells 1 (write_maybe_relocatable api v)"
  unfolding writes_def by (intro allI impI exI [of _ "[v]"]) (auto dest: write_maybe_relocatable_Inr)

lemma writes_writeE [prog_rules]: "vm_laws api cells segs \<Longrightarrow> writes cells 1 (writeE api v)"
  unfolding writeE_def by (rule prog_rules | assumption)+

lemma writes_segment [prog_rules]: "vm_laws api cells segs \<Longrightarrow> writes cells 2 (write_segment api seg)"
  unfolding write_segment_def by (rule prog_rules | assumption | simp)+

section \<open>Running a handler\<close>

text \<open>What a response looks like in memory, from the address \<open>a\<close> on.\<close>

definition success_at :: "memory \<Rightarrow> relocatable \<Rightarrow> nat \<Rightarrow> bool" where
  "success_at mem a gas \<longleftrightarrow> mem a = Some (IntV gas) \<and> mem (shift a 1) = Some (IntV 0)"

definition failure_at :: "memory \<Rightarrow> relocatable \<Rightarrow> nat \<Rightarrow> felt list \<Rightarrow> bool" where
  "failure_at mem a gas data \<longleftrightarrow>
     mem a = Some (IntV gas) \<and> mem (shift a 1) = Some (IntV 1) \<and>
     (\<exists>start. mem (shift a 2) = Some (RelocatableValue start) \<and>
        mem (shift a 3) = Some (RelocatableValue (shift start (length data))) \<and>
        (\<forall>i < length data. mem (shift start i) = Some (IntV (data ! i))))"

lemma failure_at_mono:
  assumes "failure_at m a gas data" and "m \<subseteq>\<^sub>m m'"
  shows "failure_at m' a gas data"
proof -
  have "m' b = Some v" if "m b = Some v" for b v
    using assms(2) that by (auto simp: map_le_def dom_def)
  with assms(1) show ?thesis unfolding failure_at_def by blast
qed

text \<open>
  What \<open>run_handler\<close> promises, for a system call that costs \<open>cost\<close> and has \<open>req\<close> request cells and \<open>resp\<close> response cells: the
  cell at the pointer holds the gas counter. Too little gas is answered with a failure at once. Otherwise the answer stands
  after the request; it is a success with its response, or a failure with a reason.
\<close>

definition handled :: "('vm \<Rightarrow> memory) \<Rightarrow> nat \<Rightarrow> nat \<Rightarrow> nat \<Rightarrow> ('vm, 'h) sys \<Rightarrow> ('vm, 'h) sys \<Rightarrow> bool" where
  "handled cells cost req resp s s' \<longleftrightarrow>
     (let mem = cells (sys_vm s); mem' = cells (sys_vm s'); ptr = sys_ptr s; required = cost - SYSCALL_BASE_GAS_COST in
      \<exists>gas < u64_bound. mem ptr = Some (IntV gas) \<and> mem \<subseteq>\<^sub>m mem' \<and>
        (if gas < required
         then sys_ptr s' = shift ptr 5 \<and> sys_helper s' = sys_helper s \<and>
              failure_at mem' (shift ptr 1) gas [OUT_OF_GAS_ERROR]
         else \<exists>left \<le> gas - required.
                sys_ptr s' = shift ptr (3 + req + resp) \<and> success_at mem' (shift ptr (1 + req)) left \<or>
                sys_ptr s' = shift ptr (5 + req) \<and> (\<exists>data. failure_at mem' (shift ptr (1 + req)) left data)))"

lemma ran_map_le: "ran cells s s' \<Longrightarrow> cells (sys_vm s) \<subseteq>\<^sub>m cells (sys_vm s')"
  by (simp add: ran_def)

lemma wrote_map_le: "wrote cells vs s s' \<Longrightarrow> cells (sys_vm s) \<subseteq>\<^sub>m cells (sys_vm s')"
  by (simp add: wrote_def)

lemma segmentS_Inr:
  fixes r :: "('b syscall_execution_error, relocatable) res"
  assumes "vm_laws api cells segs" and "vmS (segmentS api) s = (r, s')"
  shows "ran cells s s' \<and> sys_helper s' = sys_helper s \<and> sys_gas s' = sys_gas s"
proof -
  have "ran cells s s'" if "answered r"
    using keepsD [OF segment_kept(1) [OF assms(1)] assms(2)] that by simp
  moreover have "answered r" using assms(2) by (auto simp: vmS_def zoomS_def segmentS_def split: prod.splits)
  ultimately show ?thesis using assms(2) by (auto simp: vmS_def zoomS_def segmentS_def split: prod.splits)
qed

lemma write_failure_Inr:
  assumes laws: "vm_laws api cells segs" and run: "write_failure api gas data s = (Inr u :: ('b syscall_execution_error, unit) res, s')"
  shows "sys_ptr s' = shift (sys_ptr s) 4 \<and> sys_helper s' = sys_helper s \<and>
    cells (sys_vm s) \<subseteq>\<^sub>m cells (sys_vm s') \<and> failure_at (cells (sys_vm s')) (sys_ptr s) gas data"
proof -
  obtain s1 s2 s3 s4 s5 start last u1 u2 u3 where
    w1: "write_maybe_relocatable api (IntV gas) s = (Inr u1, s1)" and
    w2: "write_maybe_relocatable api (IntV 1) s1 = (Inr u2, s2)" and
    seg: "vmS (segmentS api) s2 = (Inr start :: ('b syscall_execution_error, relocatable) res, s3)" and
    load: "vmS (loadS api start (map IntV data)) s3 = (Inr last, s4)" and
    w3: "write_maybe_relocatable api (RelocatableValue start) s4 = (Inr u3, s5)" and
    w4: "write_maybe_relocatable api (RelocatableValue last) s5 = (Inr u, s')"
    using run unfolding write_failure_def writeE_def by (elim bindS_InrE) (blast dest!: map_errS_InrD)
  have a: "wrote cells [IntV gas, IntV 1] s s2"
    using wrote_append [of cells "[IntV gas]" s s1 "[IntV 1]" s2] write_maybe_relocatable_Inr [OF laws w1]
      write_maybe_relocatable_Inr [OF laws w2] by simp
  note b = segmentS_Inr [OF laws seg] and c = loadS_Inr [OF laws load]
  have d: "wrote cells [RelocatableValue start, RelocatableValue last] s4 s'"
    using wrote_append [of cells "[RelocatableValue start]" s4 s5 "[RelocatableValue last]" s']
      write_maybe_relocatable_Inr [OF laws w3] write_maybe_relocatable_Inr [OF laws w4] by simp
  have ptr: "sys_ptr s4 = shift (sys_ptr s) 2" using a b c by (simp add: wrote_def ran_def)
  have le: "cells (sys_vm s2) \<subseteq>\<^sub>m cells (sys_vm s')" "cells (sys_vm s4) \<subseteq>\<^sub>m cells (sys_vm s')"
    using b c wrote_map_le [OF d] by (metis map_le_trans ran_map_le)+
  have keep2: "cells (sys_vm s') x = Some v" if "cells (sys_vm s2) x = Some v" for x v
    using le(1) that by (auto simp: map_le_def dom_def)
  have keep4: "cells (sys_vm s') x = Some v" if "cells (sys_vm s4) x = Some v" for x v
    using le(2) that by (auto simp: map_le_def dom_def)
  have "cells (sys_vm s2) (shift (sys_ptr s) i) = Some ([IntV gas, IntV 1] ! i)" if "i < 2" for i
    using a that by (simp add: wrote_def)
  from this [of 0] this [of 1]
  have "cells (sys_vm s') (sys_ptr s) = Some (IntV gas)" "cells (sys_vm s') (shift (sys_ptr s) 1) = Some (IntV 1)"
    by (auto intro: keep2)
  moreover have "cells (sys_vm s') (shift (sys_ptr s4) i) = Some ([RelocatableValue start, RelocatableValue last] ! i)" if "i < 2" for i
    using d that by (simp add: wrote_def)
  from this [of 0] this [of 1]
  have "cells (sys_vm s') (shift (sys_ptr s) 2) = Some (RelocatableValue start)"
    "cells (sys_vm s') (shift (sys_ptr s) 3) = Some (RelocatableValue (shift start (length data)))"
    using c by (simp_all add: ptr)
  moreover have "cells (sys_vm s') (shift start i) = Some (IntV (data ! i))" if "i < length data" for i
    using c write_all_at [of i "map IntV data" start "cells (sys_vm s3)"] that by (intro keep4) simp
  moreover have "cells (sys_vm s) \<subseteq>\<^sub>m cells (sys_vm s')"
    using wrote_map_le [OF a] le(1) by (rule map_le_trans)
  ultimately show ?thesis
    using a b c d by (auto simp: failure_at_def wrote_def ran_def)
qed

lemma tryS_Inr:
  assumes "tryS m s = (Inr r, s')"
  shows "m s = ((case r of Inl e \<Rightarrow> Inl (Error e) | Inr a \<Rightarrow> Inr a), s')"
  using assms by (auto simp: tryS_def split: prod.splits sum.splits exn.splits)

locale syscall_contract =
  fixes sh :: "('vm, 'x, 'b, 'pcs, 'k1, 'r1, 'cl, 'cbl, 'sa, 'sc, 'dbl) sys_env
      \<Rightarrow> (('vm, 'h) sys, 'b syscall_execution_error, 'req, 'resp) syscall_handler"
    and req resp :: nat
  assumes reads_request: "vm_laws (env_vm env) cells segs \<Longrightarrow> reads req (read_request (sh env))"
    and keeps_execute: "vm_laws (env_vm env) cells segs \<Longrightarrow> keeps cells (execute (sh env) q)"
    and writes_response: "vm_laws (env_vm env) cells segs \<Longrightarrow> writes cells resp (write_response (sh env) r)"
begin

text \<open>The part of \<open>run_handler\<close> after a successful execution.\<close>

lemma success_response:
  assumes laws: "vm_laws (env_vm env) cells segs"
    and run: "bindS (map_errS MachineHint (write_felt (env_vm env) left)) (\<lambda>_.
        bindS (map_errS MachineHint (write_felt (env_vm env) 0)) (\<lambda>_.
          map_errS g (write_response (sh env) r))) s = (Inr u, s')"
  shows "sys_ptr s' = shift (sys_ptr s) (2 + resp) \<and> cells (sys_vm s) \<subseteq>\<^sub>m cells (sys_vm s') \<and>
    success_at (cells (sys_vm s')) (sys_ptr s) left"
proof -
  obtain u1 s1 u2 s2 where
    w1: "write_maybe_relocatable (env_vm env) (IntV left) s = (Inr u1, s1)" and
    w2: "write_maybe_relocatable (env_vm env) (IntV 0) s1 = (Inr u2, s2)" and
    w3: "write_response (sh env) r s2 = (Inr u, s')"
    using run unfolding write_felt_def by (elim bindS_InrE) (blast dest!: map_errS_InrD)
  from writes_response [OF laws] w3 obtain vs where vs: "length vs = resp" "wrote cells vs s2 s'"
    unfolding writes_def by blast
  have "wrote cells ([IntV left] @ [IntV 0] @ vs) s s'"
    using write_maybe_relocatable_Inr [OF laws w1] write_maybe_relocatable_Inr [OF laws w2] vs(2)
    by (blast intro: wrote_append)
  then have w: "wrote cells (IntV left # IntV 0 # vs) s s'" by simp
  then have "cells (sys_vm s') (shift (sys_ptr s) i) = Some ((IntV left # IntV 0 # vs) ! i)" if "i < 2 + length vs" for i
    using that by (simp add: wrote_def)
  from this [of 0] this [of 1] w vs(1) show ?thesis
    by (simp add: wrote_def success_at_def)
qed

lemma answer_syscall_Inr:
  assumes laws: "vm_laws (env_vm env) cells segs"
    and run: "answer_syscall (env_vm env) f (sh env) result s = (Inr u, s')"
  shows "answered (case result of Inl e \<Rightarrow> Inl (Error e) | Inr a \<Rightarrow> Inr a) \<and>
    cells (sys_vm s) \<subseteq>\<^sub>m cells (sys_vm s') \<and>
    (sys_ptr s' = shift (sys_ptr s) (2 + resp) \<and> success_at (cells (sys_vm s')) (sys_ptr s) (sys_gas s) \<or>
     sys_ptr s' = shift (sys_ptr s) 4 \<and> (\<exists>data. failure_at (cells (sys_vm s')) (sys_ptr s) (sys_gas s) data))"
proof (cases result)
  case (Inr response)
  with run have "bindS (map_errS MachineHint (write_felt (env_vm env) (sys_gas s))) (\<lambda>_.
      bindS (map_errS MachineHint (write_felt (env_vm env) 0)) (\<lambda>_.
        map_errS (hint_of_syscall_error f) (write_response (sh env) response))) s = (Inr u, s')"
    by (simp add: answer_syscall_def bindS_def [of "readS g" for g] readS_def)
  from success_response [OF laws this] Inr show ?thesis by simp
next
  case (Inl e)
  with run obtain data where e: "e = SyscallError data"
    by (cases e) (simp_all add: answer_syscall_def)
  with run Inl have "map_errS (hint_of_syscall_error f) (write_failure (env_vm env) (sys_gas s) data) s = (Inr u, s')"
    by (simp add: answer_syscall_def bindS_def [of "readS g" for g] readS_def)
  from write_failure_Inr [OF laws map_errS_InrD [OF this]] Inl e show ?thesis by auto
qed

text \<open>The part of \<open>run_handler\<close> after the check of the gas.\<close>

lemma execute_and_answer_Inr:
  assumes laws: "vm_laws (env_vm env) cells segs"
    and rd: "read_request (sh env) s = (Inr request, s1)"
    and ex: "tryS (execute (sh env) request) (s1 \<lparr> sys_gas := gas \<rparr>) = (Inr result, s2)"
    and wr: "answer_syscall (env_vm env) f (sh env) result s2 = (Inr u, s')"
  shows "\<exists>left \<le> gas. cells (sys_vm s) \<subseteq>\<^sub>m cells (sys_vm s') \<and>
    (sys_ptr s' = shift (sys_ptr s) (2 + req + resp) \<and> success_at (cells (sys_vm s')) (shift (sys_ptr s) req) left \<or>
     sys_ptr s' = shift (sys_ptr s) (4 + req) \<and> (\<exists>data. failure_at (cells (sys_vm s')) (shift (sys_ptr s) req) left data))"
proof -
  have s1: "s1 = s \<lparr> sys_ptr := shift (sys_ptr s) req \<rparr>"
    using reads_request [OF laws] rd unfolding reads_def by blast
  note answer = answer_syscall_Inr [OF laws wr]
  have "ran cells (s1 \<lparr> sys_gas := gas \<rparr>) s2"
    using keepsD [OF keeps_execute [OF laws] tryS_Inr [OF ex]] answer by blast
  then have "sys_ptr s2 = shift (sys_ptr s) req" "sys_gas s2 \<le> gas" "cells (sys_vm s) \<subseteq>\<^sub>m cells (sys_vm s2)"
    by (simp_all add: ran_def s1)
  with answer show ?thesis
    by (intro exI [of _ "sys_gas s2"]) (auto simp: add.assoc add.left_commute intro: map_le_trans)
qed

lemma run_handler_Inr:
  assumes laws: "vm_laws (env_vm env) cells segs"
    and run: "run_handler (env_vm env) f (sh env) cost s = (Inr u, s')"
  shows "handled cells cost req resp s s'"
proof -
  define required where "required = cost - SYSCALL_BASE_GAS_COST"
  from run obtain s1 gas where
    get: "felt_from_ptr (env_vm env) s = (Inr gas, s1)" and gas: "gas < u64_bound" and
    rest: "(if gas < required
       then map_errS (hint_of_syscall_error f) (write_failure (env_vm env) gas [OUT_OF_GAS_ERROR])
       else
         bindS (map_errS (hint_of_syscall_error f) (read_request (sh env))) (\<lambda>request.
         bindS (liftS (u64_sub gas required)) (\<lambda>remaining_gas.
         bindS (set_gas remaining_gas) (\<lambda>_.
         bindS (tryS (execute (sh env) request)) (answer_syscall (env_vm env) f (sh env)))))) s1 = (Inr u, s')"
    unfolding run_handler_def required_def
    by (elim bindS_InrE) (auto simp: u64_sub_def felt_to_u64_def ok_or_def dest!: map_errS_InrD split: if_splits)
  note first = felt_from_ptr_Inr [OF laws get]
  show ?thesis
  proof (cases "gas < required")
    case True
    with rest have "map_errS (hint_of_syscall_error f) (write_failure (env_vm env) gas [OUT_OF_GAS_ERROR]) s1 = (Inr u, s')"
      by simp
    from write_failure_Inr [OF laws map_errS_InrD [OF this]] first gas True show ?thesis
      by (auto simp: handled_def Let_def required_def)
  next
    case False
    with rest obtain request s2 s3 result where
      "read_request (sh env) s1 = (Inr request, s2)" and
      "tryS (execute (sh env) request) (s2 \<lparr> sys_gas := gas - required \<rparr>) =
        (Inr result :: ('x hint_error, 'b syscall_execution_error + 'resp) res, s3)" and
      "answer_syscall (env_vm env) f (sh env) result s3 = (Inr u, s')"
      by (auto simp: set_gas_def elim!: bindS_InrE dest!: map_errS_InrD)
    from execute_and_answer_Inr [OF laws this] first gas False show ?thesis
      by (auto simp: handled_def Let_def required_def)
  qed
qed

end

section \<open>The handlers keep the contract\<close>

lemma keeps_processS [prog_rules]: "keeps cells (processS c m)"
  unfolding processS_def by (rule keeps_helperS)

lemma keeps_GetBlockHash [prog_rules]: "keeps cells (GetBlockHash_execute env n)"
  by (auto simp: keeps_def GetBlockHash_execute_def split: sum.splits)

lemma keeps_segment_or_init [prog_rules]:
  assumes "vm_laws api cells segs"
  shows "keeps cells (secp_segment_or_init api c)"
proof -
  have "keeps cells (bindS (vmS (segmentS api)) (\<lambda>a.
      bindS (helperS (\<lambda>h. (Inr (), put_secp_handler c ((get_secp_handler c h) \<lparr> secp_segment := Some a \<rparr>) h))) (\<lambda>_. retS a)))"
    by (rule prog_rules assms)+
  then show ?thesis
    by (auto simp: keeps_def secp_segment_or_init_def split: option.splits)
qed

lemma reads_skip_request [prog_rules]:
  "vm_laws (env_vm env) cells segs \<Longrightarrow> cairo_size ty = n \<Longrightarrow> reads n (skip_request env ty)"
  unfolding skip_request_def by (blast intro: prog_rules)

lemmas handler_defs = storage_request_def integer_at_ptr_def two_pointers_def replay_result_def
  Deploy_execute_def Deploy_write_response_def GetBlockHash_read_request_def Keccak_execute_def Sha256_execute_def
  secp_segment_get_def point_address_def read_felt_def read_u256_def secp_optional_point_def write_optional_point_def write_u256_def

lemmas request_sizes = new_CallContractRequest_layout_def new_LibraryCallRequest_layout_def new_DeployRequest_layout_def
  new_EmitEventRequest_layout_def new_ReplaceClassRequest_layout_def new_SendMessageToL1Request_layout_def
  new_StorageReadRequest_layout_def new_StorageWriteRequest_layout_def new_GetBlockHashRequest_layout_def

interpretation call: syscall_contract CallContractHandler 4 2
  by (unfold_locales; unfold CallContractHandler_def handler_defs syscall_handler.simps;
      (rule prog_rules | assumption | simp add: request_sizes)+)

interpretation library: syscall_contract LibraryCallHandler 4 2
  by (unfold_locales; unfold LibraryCallHandler_def handler_defs syscall_handler.simps;
      (rule prog_rules | assumption | simp add: request_sizes)+)

interpretation deploy: syscall_contract DeployHandler 5 3
  by (unfold_locales; unfold DeployHandler_def handler_defs syscall_handler.simps;
      (rule prog_rules | assumption | simp add: request_sizes)+)

interpretation emit: syscall_contract EmitEventHandler 4 0
  by (unfold_locales; unfold EmitEventHandler_def handler_defs syscall_handler.simps;
      (rule prog_rules | assumption | simp add: request_sizes)+)

interpretation replace: syscall_contract ReplaceClassHandler 1 0
  by (unfold_locales; unfold ReplaceClassHandler_def handler_defs syscall_handler.simps;
      (rule prog_rules | assumption | simp add: request_sizes)+)

interpretation message: syscall_contract SendMessageToL1Handler 3 0
  by (unfold_locales; unfold SendMessageToL1Handler_def handler_defs syscall_handler.simps;
      (rule prog_rules | assumption | simp add: request_sizes)+)

interpretation sread: syscall_contract StorageReadHandler 2 1
  by (unfold_locales; unfold StorageReadHandler_def handler_defs syscall_handler.simps;
      (rule prog_rules | assumption | simp add: request_sizes)+)

interpretation swrite: syscall_contract StorageWriteHandler 3 0
  by (unfold_locales; unfold StorageWriteHandler_def handler_defs syscall_handler.simps;
      (rule prog_rules | assumption | simp add: request_sizes)+)

interpretation bhash: syscall_contract GetBlockHashHandler 1 1
  by (unfold_locales; unfold GetBlockHashHandler_def handler_defs syscall_handler.simps;
      (rule prog_rules | assumption | simp add: request_sizes)+)

interpretation info: syscall_contract GetExecutionInfoHandler 0 1
  by (unfold_locales; unfold GetExecutionInfoHandler_def handler_defs syscall_handler.simps;
      (rule prog_rules | assumption | simp add: request_sizes)+)

interpretation keccak: syscall_contract KeccakHandler 2 2
  by (unfold_locales; unfold KeccakHandler_def handler_defs syscall_handler.simps;
      (rule prog_rules | assumption | simp add: request_sizes)+)

interpretation sha: syscall_contract Sha256ProcessBlockHandler 2 1
  by (unfold_locales; unfold Sha256ProcessBlockHandler_def handler_defs syscall_handler.simps;
      (rule prog_rules | assumption | simp add: request_sizes)+)

interpretation k1_new: syscall_contract "\<lambda>env. SecpNewHandler (env_vm env) (secp256k1 env)" 4 2
  by (unfold_locales; unfold SecpNewHandler_def handler_defs syscall_handler.simps;
      (rule prog_rules | assumption | simp)+)

interpretation k1_from_x: syscall_contract "\<lambda>env. SecpGetPointFromXHandler (env_vm env) (secp256k1 env)" 3 2
  by (unfold_locales; unfold SecpGetPointFromXHandler_def handler_defs syscall_handler.simps;
      (rule prog_rules | assumption | simp)+)

interpretation k1_mul: syscall_contract "\<lambda>env. SecpMulHandler (env_vm env) (secp256k1 env)" 3 1
  by (unfold_locales; unfold SecpMulHandler_def handler_defs syscall_handler.simps;
      (rule prog_rules | assumption | simp)+)

interpretation k1_add: syscall_contract "\<lambda>env. SecpAddHandler (env_vm env) (secp256k1 env)" 2 1
  by (unfold_locales; unfold SecpAddHandler_def handler_defs syscall_handler.simps;
      (rule prog_rules | assumption | simp)+)

interpretation k1_get_xy: syscall_contract "\<lambda>env. SecpGetXyHandler (env_vm env) (secp256k1 env)" 1 4
  by (unfold_locales; unfold SecpGetXyHandler_def handler_defs syscall_handler.simps;
      (rule prog_rules | assumption | simp)+)

interpretation r1_new: syscall_contract "\<lambda>env. SecpNewHandler (env_vm env) (secp256r1 env)" 4 2
  by (unfold_locales; unfold SecpNewHandler_def handler_defs syscall_handler.simps;
      (rule prog_rules | assumption | simp)+)

interpretation r1_from_x: syscall_contract "\<lambda>env. SecpGetPointFromXHandler (env_vm env) (secp256r1 env)" 3 2
  by (unfold_locales; unfold SecpGetPointFromXHandler_def handler_defs syscall_handler.simps;
      (rule prog_rules | assumption | simp)+)

interpretation r1_mul: syscall_contract "\<lambda>env. SecpMulHandler (env_vm env) (secp256r1 env)" 3 1
  by (unfold_locales; unfold SecpMulHandler_def handler_defs syscall_handler.simps;
      (rule prog_rules | assumption | simp)+)

interpretation r1_add: syscall_contract "\<lambda>env. SecpAddHandler (env_vm env) (secp256r1 env)" 2 1
  by (unfold_locales; unfold SecpAddHandler_def handler_defs syscall_handler.simps;
      (rule prog_rules | assumption | simp)+)

interpretation r1_get_xy: syscall_contract "\<lambda>env. SecpGetXyHandler (env_vm env) (secp256r1 env)" 1 4
  by (unfold_locales; unfold SecpGetXyHandler_def handler_defs syscall_handler.simps;
      (rule prog_rules | assumption | simp)+)

end
