(* ===== verification/Syscall_Properties.thy ===== *)
theory Syscall_Properties
  imports Syscall_Contract
begin

text \<open>
  Properties of the dispatcher of system calls: which field elements are selectors, what every successful system call leaves in
  memory, and what happens when a contract has too little gas for a system call.
\<close>

section \<open>Selectors\<close>

lemma word_of_char_inject: "(word_of_nat (of_char c) :: 8 word) = word_of_nat (of_char d) \<longleftrightarrow> c = d"
proof
  assume "(word_of_nat (of_char c) :: 8 word) = word_of_nat (of_char d)"
  then have "(of_char c :: nat) mod 256 = of_char d mod 256"
    by (metis unat_byte_of_nat)
  then show "c = d" by simp
qed simp

lemma ascii_inject: "ascii s = ascii t \<longleftrightarrow> s = t"
proof
  have "inj (\<lambda>c. word_of_nat (of_char c) :: 8 word)" by (intro injI) (simp add: word_of_char_inject)
  moreover assume "ascii s = ascii t"
  ultimately show "s = t" by (auto simp: ascii_def dest: map_injective)
qed simp

lemma leading_zeros:
  assumes "bs = [] \<or> hd bs \<noteq> 0" and "length bs < 32" and "felt_wf x"
  shows "dropWhile (\<lambda>byte. byte = 0) (felt_to_bytes_be x) = bs \<longleftrightarrow> x = nat_of_bytes_be bs"
proof
  let ?bs = "felt_to_bytes_be x"
  have zeros: "nat_of_bytes_be (replicate k 0 @ cs) = nat_of_bytes_be cs" for k cs
    by (simp add: nat_of_bytes_be_le)
  assume "dropWhile (\<lambda>byte. byte = 0) ?bs = bs"
  then have "takeWhile (\<lambda>byte. byte = 0) ?bs @ bs = ?bs" by auto
  moreover have "takeWhile (\<lambda>byte. byte = 0) ?bs = replicate (length (takeWhile (\<lambda>byte. byte = 0) ?bs)) 0"
    by (metis (mono_tags, lifting) replicate_eqI set_takeWhileD)
  ultimately have "nat_of_bytes_be ?bs = nat_of_bytes_be bs" using zeros by metis
  with assms(3) show "x = nat_of_bytes_be bs" by simp
next
  assume x: "x = nat_of_bytes_be bs"
  have "nat_of_bytes_be (replicate (32 - length bs) 0 @ bs) = x"
    by (simp add: x nat_of_bytes_be_le)
  then have "felt_to_bytes_be x = replicate (32 - length bs) 0 @ bs"
    using assms(2) fixed_be_nat_of_bytes' [of "replicate (32 - length bs) 0 @ bs" 32] by (simp add: felt_to_bytes_be_def)
  moreover have "dropWhile (\<lambda>byte. byte = 0) (replicate k 0 @ bs) = bs" for k :: nat
    using assms(1) by (induction k) (cases bs; simp)+
  ultimately show "dropWhile (\<lambda>byte. byte = 0) (felt_to_bytes_be x) = bs" by simp
qed

lemma selector_names:
  "distinct (map fst syscall_selectors)"
  "\<forall>(name, s) \<in> set syscall_selectors. ascii name \<noteq> [] \<and> hd (ascii name) \<noteq> 0 \<and> length (ascii name) < 32"
  by code_simp+

lemma map_of_selectors:
  "map_of (map (\<lambda>(name, s). (ascii name, s)) syscall_selectors) bs = Some s \<longleftrightarrow>
     (\<exists>name. (name, s) \<in> set syscall_selectors \<and> bs = ascii name)"
proof -
  have "distinct (map fst (map (\<lambda>(name, s). (ascii name, s)) syscall_selectors))"
  proof -
    have "map fst (map (\<lambda>(name, s). (ascii name, s)) syscall_selectors) = map ascii (map fst syscall_selectors)"
      by (simp add: comp_def case_prod_beta)
    moreover have "inj_on ascii (set (map fst syscall_selectors))" by (simp add: inj_on_def ascii_inject)
    ultimately show ?thesis using selector_names(1) distinct_map by metis
  qed
  then show ?thesis by (auto simp: map_of_eq_Some_iff)
qed

lemma selector_arms: "(name, s) \<in> set syscall_selectors \<longleftrightarrow> name = SyscallSelector_debug s"
proof
  have "list_all (\<lambda>(name, s). name = SyscallSelector_debug s) syscall_selectors" by code_simp
  then show "(name, s) \<in> set syscall_selectors \<Longrightarrow> name = SyscallSelector_debug s" by (auto simp: list_all_iff)
  have "(SyscallSelector_debug s, s) \<in> set syscall_selectors"
    by (cases s) (simp_all add: syscall_selectors_def)
  then show "name = SyscallSelector_debug s \<Longrightarrow> (name, s) \<in> set syscall_selectors" by simp
qed

lemma selector_lookup:
  assumes "felt_wf x"
  shows "map_of (map (\<lambda>(name, s). (ascii name, s)) syscall_selectors) (dropWhile (\<lambda>byte. byte = 0) (felt_to_bytes_be x)) = Some s \<longleftrightarrow>
    x = nat_of_bytes_be (ascii (SyscallSelector_debug s))"
proof -
  have "(SyscallSelector_debug s, s) \<in> set syscall_selectors" by (simp add: selector_arms)
  then have "dropWhile (\<lambda>byte. byte = 0) (felt_to_bytes_be x) = ascii (SyscallSelector_debug s) \<longleftrightarrow>
      x = nat_of_bytes_be (ascii (SyscallSelector_debug s))"
    using selector_names(2) assms by (intro leading_zeros) auto
  then show ?thesis unfolding map_of_selectors selector_arms by blast
qed

text \<open>
  C40. A field element is accepted as the selector of a system call exactly when it is the big-endian number of the
  ASCII letters of the name of that variant, the one that its \<open>Debug\<close> form has; every other field element is refused with an error. So each
  arm of the match belongs to the variant of its name, no variant is missing, and distinct system calls have distinct selectors.
\<close>

theorem selector_roundtrip:
  assumes "felt_wf x"
  shows "(SyscallSelector_try_from f x = Inr s \<longleftrightarrow> x = nat_of_bytes_be (ascii (SyscallSelector_debug s))) \<and>
    ((\<forall>s. x \<noteq> nat_of_bytes_be (ascii (SyscallSelector_debug s))) \<longleftrightarrow>
      SyscallSelector_try_from f x = Inl (Error (CustomHint (''Unknown syscall selector: '' @ felt_display f x))))"
  unfolding SyscallSelector_try_from_def selector_lookup [OF assms, symmetric] by (auto split: option.split)

lemma StorageRead_number: "nat_of_bytes_be (ascii ''StorageRead'') = 0x53746f7261676552656164"
  by (simp add: ascii_def nat_of_bytes_be_def)

theorem selector_roundtrip_witness:
  "\<forall>f :: (string, unit) fmt.
     SyscallSelector_try_from f 0x53746f7261676552656164 = Inr StorageRead \<and> SyscallSelector_try_from f 7 \<noteq> Inr StorageRead"
proof (intro allI conjI)
  fix f :: "(string, unit) fmt"
  have wf: "felt_wf 0x53746f7261676552656164" "felt_wf 7" by (simp_all add: felt_wf_def STARK_PRIME_def)
  show "SyscallSelector_try_from f 0x53746f7261676552656164 = Inr StorageRead"
    using selector_roundtrip [OF wf(1), of f StorageRead] by (simp add: StorageRead_number)
  show "SyscallSelector_try_from f 7 \<noteq> Inr StorageRead"
    using selector_roundtrip [OF wf(2), of f StorageRead] by (simp add: StorageRead_number)
qed

section \<open>Responses\<close>

text \<open>The gas cost, the number of request cells and the number of response cells of the system calls that are implemented.\<close>

fun syscall_spec :: "syscall_selector \<Rightarrow> (nat \<times> nat \<times> nat) option" where
  "syscall_spec CallContract = Some (CALL_CONTRACT_GAS_COST, 4, 2)"
| "syscall_spec LibraryCall = Some (LIBRARY_CALL_GAS_COST, 4, 2)"
| "syscall_spec LibraryCallL1Handler = Some (LIBRARY_CALL_GAS_COST, 4, 2)"
| "syscall_spec Deploy = Some (DEPLOY_GAS_COST, 5, 3)"
| "syscall_spec EmitEvent = Some (EMIT_EVENT_GAS_COST, 4, 0)"
| "syscall_spec SendMessageToL1 = Some (SEND_MESSAGE_TO_L1_GAS_COST, 3, 0)"
| "syscall_spec ReplaceClass = Some (REPLACE_CLASS_GAS_COST, 1, 0)"
| "syscall_spec StorageRead = Some (STORAGE_READ_GAS_COST, 2, 1)"
| "syscall_spec StorageWrite = Some (STORAGE_WRITE_GAS_COST, 3, 0)"
| "syscall_spec GetBlockHash = Some (GET_BLOCK_HASH_GAS_COST, 1, 1)"
| "syscall_spec GetExecutionInfo = Some (GET_EXECUTION_INFO_GAS_COST, 0, 1)"
| "syscall_spec Keccak = Some (KECCAK_GAS_COST, 2, 2)"
| "syscall_spec Sha256ProcessBlock = Some (SHA256_PROCESS_BLOCK_GAS_COST, 2, 1)"
| "syscall_spec Secp256k1New = Some (SECP256K1_NEW_GAS_COST, 4, 2)"
| "syscall_spec Secp256k1GetPointFromX = Some (SECP256K1_GET_POINT_FROM_X_GAS_COST, 3, 2)"
| "syscall_spec Secp256k1Mul = Some (SECP256K1_MUL_GAS_COST, 3, 1)"
| "syscall_spec Secp256k1Add = Some (SECP256K1_ADD_GAS_COST, 2, 1)"
| "syscall_spec Secp256k1GetXy = Some (SECP256K1_GET_XY_GAS_COST, 1, 4)"
| "syscall_spec Secp256r1New = Some (SECP256R1_NEW_GAS_COST, 4, 2)"
| "syscall_spec Secp256r1GetPointFromX = Some (SECP256R1_GET_POINT_FROM_X_GAS_COST, 3, 2)"
| "syscall_spec Secp256r1Mul = Some (SECP256R1_MUL_GAS_COST, 3, 1)"
| "syscall_spec Secp256r1Add = Some (SECP256R1_ADD_GAS_COST, 2, 1)"
| "syscall_spec Secp256r1GetXy = Some (SECP256R1_GET_XY_GAS_COST, 1, 4)"
| "syscall_spec _ = None"

lemmas handlers_Inr = call.run_handler_Inr library.run_handler_Inr deploy.run_handler_Inr emit.run_handler_Inr
  replace.run_handler_Inr message.run_handler_Inr sread.run_handler_Inr swrite.run_handler_Inr bhash.run_handler_Inr
  info.run_handler_Inr keccak.run_handler_Inr sha.run_handler_Inr
  k1_new.run_handler_Inr k1_from_x.run_handler_Inr k1_mul.run_handler_Inr k1_add.run_handler_Inr k1_get_xy.run_handler_Inr
  r1_new.run_handler_Inr r1_from_x.run_handler_Inr r1_mul.run_handler_Inr r1_add.run_handler_Inr r1_get_xy.run_handler_Inr

lemma dispatch_Inr:
  fixes env :: "('vm, 'x, 'b, 'pcs, 'k1, 'r1, 'cl, 'cbl, 'sa, 'sc, 'dbl) sys_env"
  assumes "vm_laws (env_vm env) cells segs" and "dispatch env selector s = (Inr u, s')"
  shows "\<exists>cost req resp. syscall_spec selector = Some (cost, req, resp) \<and> handled cells cost req resp s s'"
  using assms(2) by (cases selector) (simp_all add: dispatch_def Let_def handlers_Inr [OF assms(1)] del: One_nat_def)

lemma execute_syscall_Inr:
  assumes "execute_syscall env ptr (vm, h) = (Inr u, vm', h')"
  obtains x selector s1 s' where
    "felt_from_ptr (env_vm env) \<lparr> sys_vm = vm, sys_helper = osh_exec_wrapper h, sys_ptr = ptr, sys_gas = 0 \<rparr> = (Inr x, s1)"
    "SyscallSelector_try_from (env_fmt env) x = Inr selector" "dispatch env selector s1 = (Inr u, s')"
    "osh_syscall_ptr h = Some ptr" "vm' = sys_vm s'"
    "h' = h \<lparr> osh_exec_wrapper := sys_helper s', osh_syscall_ptr := Some (sys_ptr s') \<rparr>"
proof -
  let ?s = "\<lparr> sys_vm = vm, sys_helper = osh_exec_wrapper h, sys_ptr = ptr, sys_gas = 0 \<rparr>"
  have ptr: "osh_syscall_ptr h = Some ptr"
    using assms by (auto simp: execute_syscall_def bindR_def ok_or_def assert_that_def split: sum.splits option.splits if_splits)
  then obtain s' where "bindS (map_errS MachineHint (felt_from_ptr (env_vm env))) (\<lambda>felt.
        bindS (liftS (SyscallSelector_try_from (env_fmt env) felt)) (dispatch env)) ?s = (Inr u, s')"
    and vm': "vm' = sys_vm s'" and h': "h' = h \<lparr> osh_exec_wrapper := sys_helper s', osh_syscall_ptr := Some (sys_ptr s') \<rparr>"
    using assms by (auto simp: execute_syscall_def ok_or_def assert_that_def split: prod.splits sum.splits)
  then obtain x s1 selector where "felt_from_ptr (env_vm env) ?s = (Inr x, s1)"
    and "SyscallSelector_try_from (env_fmt env) x = Inr selector" and "dispatch env selector s1 = (Inr u, s')"
    by (elim bindS_InrE) (auto dest!: map_errS_InrD)
  with ptr vm' h' show ?thesis by (rule_tac that)
qed

lemma execute_syscall_handled:
  fixes env :: "('vm, 'x, 'b, 'pcs, 'k1, 'r1, 'cl, 'cbl, 'sa, 'sc, 'dbl) sys_env"
  assumes laws: "vm_laws (env_vm env) cells segs"
    and run: "execute_syscall env ptr (vm, h) = (Inr (), vm', h')"
  obtains x selector cost req resp s1 s' where
    "cells vm ptr = Some (IntV x)" "SyscallSelector_try_from (env_fmt env) x = Inr selector"
    "syscall_spec selector = Some (cost, req, resp)" "handled cells cost req resp s1 s'"
    "sys_vm s1 = vm" "sys_ptr s1 = shift ptr 1" "sys_helper s1 = osh_exec_wrapper h"
    "sys_vm s' = vm'" "osh_exec_wrapper h' = sys_helper s'" "osh_syscall_ptr h' = Some (sys_ptr s')"
proof -
  from run obtain x selector s1 s' where
    get: "felt_from_ptr (env_vm env) \<lparr> sys_vm = vm, sys_helper = osh_exec_wrapper h, sys_ptr = ptr, sys_gas = 0 \<rparr> = (Inr x, s1)" and
    sel: "SyscallSelector_try_from (env_fmt env) x = Inr selector" and
    disp: "dispatch env selector s1 = (Inr (), s')" and
    vm': "vm' = sys_vm s'" and h': "h' = h \<lparr> osh_exec_wrapper := sys_helper s', osh_syscall_ptr := Some (sys_ptr s') \<rparr>"
    by (rule execute_syscall_Inr)
  obtain cost req resp where "syscall_spec selector = Some (cost, req, resp)" and "handled cells cost req resp s1 s'"
    using dispatch_Inr [OF laws disp] by blast
  with felt_from_ptr_Inr [OF laws get] sel show ?thesis
    by (intro that [of x selector cost req resp s1 s']) (simp_all add: vm' h')
qed

text \<open>
  C4. What a successful system call leaves in memory, for every implemented system call. The first cell at the system call pointer
  holds a selector, the second the gas counter, and no cell that had a value is changed. With too little gas the answer is a
  failure with the reason "Out of gas", and the helper is as before. Otherwise the answer follows the request: the gas that is left,
  never more than the gas counter minus the cost of the call, and either a zero and the response cells, or a one
  and the bounds of a segment with the reason. The system call pointer is moved exactly behind the answer.
\<close>

theorem execute_syscall_response:
  fixes env :: "('vm, 'x, 'b, 'pcs, 'k1, 'r1, 'cl, 'cbl, 'sa, 'sc, 'dbl) sys_env"
  assumes laws: "vm_laws (env_vm env) cells segs"
    and run: "execute_syscall env ptr (vm, h) = (Inr (), vm', h')"
  shows "\<exists>x selector cost req resp gas.
    cells vm ptr = Some (IntV x) \<and> SyscallSelector_try_from (env_fmt env) x = Inr selector \<and>
    syscall_spec selector = Some (cost, req, resp) \<and>
    cells vm (shift ptr 1) = Some (IntV gas) \<and> gas < u64_bound \<and> cells vm \<subseteq>\<^sub>m cells vm' \<and>
    (if gas < cost - SYSCALL_BASE_GAS_COST
     then osh_syscall_ptr h' = Some (shift ptr 6) \<and> osh_exec_wrapper h' = osh_exec_wrapper h \<and>
          failure_at (cells vm') (shift ptr 2) gas [OUT_OF_GAS_ERROR]
     else \<exists>left \<le> gas - (cost - SYSCALL_BASE_GAS_COST).
            osh_syscall_ptr h' = Some (shift ptr (4 + req + resp)) \<and> success_at (cells vm') (shift ptr (2 + req)) left \<or>
            osh_syscall_ptr h' = Some (shift ptr (6 + req)) \<and> (\<exists>data. failure_at (cells vm') (shift ptr (2 + req)) left data))"
proof -
  from laws run obtain x selector cost req resp s1 s' where
    sel: "cells vm ptr = Some (IntV x)" "SyscallSelector_try_from (env_fmt env) x = Inr selector"
      "syscall_spec selector = Some (cost, req, resp)" and fin: "handled cells cost req resp s1 s'" and
    s: "sys_vm s1 = vm" "sys_ptr s1 = shift ptr 1" "sys_helper s1 = osh_exec_wrapper h"
      "sys_vm s' = vm'" "osh_exec_wrapper h' = sys_helper s'" "osh_syscall_ptr h' = Some (sys_ptr s')"
    by (rule execute_syscall_handled)
  have "shift (shift ptr 1) 1 = shift ptr 2" "shift (shift ptr 1) 5 = shift ptr 6"
    "shift (shift ptr 1) (3 + req + resp) = shift ptr (4 + req + resp)"
    "shift (shift ptr 1) (1 + req) = shift ptr (2 + req)" "shift (shift ptr 1) (5 + req) = shift ptr (6 + req)"
    by simp_all
  note fin [unfolded handled_def Let_def s this]
  then obtain gas where "gas < u64_bound" "cells vm (shift ptr 1) = Some (IntV gas)" "cells vm \<subseteq>\<^sub>m cells vm'"
    and "if gas < cost - SYSCALL_BASE_GAS_COST
         then sys_ptr s' = shift ptr 6 \<and> sys_helper s' = osh_exec_wrapper h \<and> failure_at (cells vm') (shift ptr 2) gas [OUT_OF_GAS_ERROR]
         else \<exists>left \<le> gas - (cost - SYSCALL_BASE_GAS_COST).
            sys_ptr s' = shift ptr (4 + req + resp) \<and> success_at (cells vm') (shift ptr (2 + req)) left \<or>
            sys_ptr s' = shift ptr (6 + req) \<and> (\<exists>data. failure_at (cells vm') (shift ptr (2 + req)) left data)"
    by blast
  with sel show ?thesis unfolding s(5,6) option.inject by (intro exI conjI)
qed

section \<open>Successful steps\<close>

lemma advance_ok:
  "vm_laws api cells segs \<Longrightarrow> offset (sys_ptr s) + n < u64_bound \<Longrightarrow>
   advance api n s = (Inr (), s \<lparr> sys_ptr := shift (sys_ptr s) n \<rparr>)"
  by (simp add: advance_def vm_rel_add)

lemma felt_from_ptr_ok:
  assumes "vm_laws api cells segs" and "cells (sys_vm s) (sys_ptr s) = Some (IntV x)" and "offset (sys_ptr s) + 1 < u64_bound"
  shows "felt_from_ptr api s = (Inr x, s \<lparr> sys_ptr := shift (sys_ptr s) 1 \<rparr>)"
proof -
  have "get_integer api (sys_vm s) (sys_ptr s) = Inr x" using assms(1,2) by (simp add: vm_get_integer)
  with advance_ok [OF assms(1,3)] show ?thesis by (simp add: felt_from_ptr_def readS_def of_vm_def)
qed

section \<open>Too little gas\<close>

lemma syscall_cost_small: "syscall_spec selector = Some (cost, req, resp) \<Longrightarrow> cost < u64_bound"
  by (cases selector) (auto simp: gas_cost_defs u64_bound_def)

text \<open>A cell that has another value refuses the gas counter, and the handler stops there.\<close>

lemma run_handler_refused:
  fixes sh :: "(('vm, 'h) sys, 'b syscall_execution_error, 'req, 'resp) syscall_handler"
  assumes laws: "vm_laws api cells segs" and bound: "offset (sys_ptr s) + 1 < u64_bound" and cost: "cost < u64_bound"
    and gas: "cells (sys_vm s) (sys_ptr s) = Some (IntV gas)" "gas < cost - SYSCALL_BASE_GAS_COST"
    and refused: "insert_value api (shift (sys_ptr s) 1) (IntV gas) (sys_vm s) = (Inl x, vm')"
  shows "run_handler api f sh cost s =
    (Inl (Error (hint_of_syscall_error f (of_memory_error api x))), s \<lparr> sys_vm := vm', sys_ptr := shift (sys_ptr s) 1 \<rparr>)"
proof -
  let ?s = "s \<lparr> sys_ptr := shift (sys_ptr s) 1 \<rparr>" and ?t = "s \<lparr> sys_vm := vm', sys_ptr := shift (sys_ptr s) 1 \<rparr>"
  have "vmS (insertS api (shift (sys_ptr s) 1) (IntV gas)) ?s = (Inl (Error x), ?t)"
    by (simp add: vmS_def zoomS_def insertS_def refused of_vm_def del: One_nat_def)
  then have "write_maybe_relocatable api (IntV gas) ?s = (Inl (Error x), ?t)"
    by (simp add: write_maybe_relocatable_def readS_def)
  then have "writeE api (IntV gas) ?s = (Inl (Error (of_memory_error api x)) :: ('b syscall_execution_error, unit) res, ?t)"
    by (simp add: writeE_def map_errS_def map_err_def)
  then have w: "write_failure api gas data ?s = (Inl (Error (of_memory_error api x)) :: ('b syscall_execution_error, unit) res, ?t)" for data
    by (simp add: write_failure_def)
  have "u64_sub cost SYSCALL_BASE_GAS_COST = (Inr (cost - SYSCALL_BASE_GAS_COST) :: ('x hint_error, nat) res)"
    using gas(2) by (simp add: u64_sub_def)
  moreover have "gas < u64_bound" using gas(2) cost by simp
  ultimately show ?thesis
    using felt_from_ptr_ok [OF laws gas(1) bound] gas(2)
    by (simp add: run_handler_def felt_to_u64_def ok_or_def map_errS_def [of _ "write_failure _ _ _"] w map_err_def
        del: One_nat_def)
qed

lemma dispatch_refused:
  fixes env :: "('vm, 'x, 'b, 'pcs, 'k1, 'r1, 'cl, 'cbl, 'sa, 'sc, 'dbl) sys_env"
  assumes laws: "vm_laws (env_vm env) cells segs" and "offset (sys_ptr s) + 1 < u64_bound"
    and spec: "syscall_spec selector = Some (cost, req, resp)"
    and "cells (sys_vm s) (sys_ptr s) = Some (IntV gas)" and "gas < cost - SYSCALL_BASE_GAS_COST"
    and "insert_value (env_vm env) (shift (sys_ptr s) 1) (IntV gas) (sys_vm s) = (Inl x, vm')"
  shows "dispatch env selector s =
    (Inl (Error (hint_of_syscall_error (env_fmt env) (of_memory_error (env_vm env) x))),
     s \<lparr> sys_vm := vm', sys_ptr := shift (sys_ptr s) 1 \<rparr>)"
  using spec syscall_cost_small [OF spec] assms(5)
  by (cases selector)
     (auto simp: dispatch_def Let_def run_handler_refused [OF laws assms(2) _ assms(4) _ assms(6)] simp del: One_nat_def)

text \<open>
  C22. A contract that runs out of gas in a system call stops the whole run when the next cell, the first one of the request, has a value other than
  the gas counter. The failure is written from there on, because the request was not read yet: the machine refuses the second value of
  the cell, and the hint returns exactly this memory error as its own, an error and not a panic, instead of reporting a failed system call to the
  contract. The handler is left as it was, its pointer included.
\<close>

theorem out_of_gas_aborts:
  fixes env :: "('vm, 'x, 'b, 'pcs, 'k1, 'r1, 'cl, 'cbl, 'sa, 'sc, 'dbl) sys_env"
  assumes laws: "vm_laws (env_vm env) cells segs"
    and ptr: "osh_syscall_ptr h = Some ptr" and bound: "offset ptr + 2 < u64_bound"
    and sel: "cells vm ptr = Some (IntV x)" "SyscallSelector_try_from (env_fmt env) x = Inr selector"
    and spec: "syscall_spec selector = Some (cost, req, resp)"
    and gas: "cells vm (shift ptr 1) = Some (IntV gas)" "gas < cost - SYSCALL_BASE_GAS_COST"
    and v: "cells vm (shift ptr 2) = Some v" "v \<noteq> IntV gas"
  shows "\<exists>y vm'. insert_value (env_vm env) (shift ptr 2) (IntV gas) vm = (Inl y, vm') \<and>
    execute_syscall env ptr (vm, h) =
      (Inl (Error (hint_of_syscall_error (env_fmt env) (of_memory_error (env_vm env) y))), vm', h)"
proof -
  obtain r vm' where r: "insert_value (env_vm env) (shift ptr 2) (IntV gas) vm = (r, vm')" by (rule prod.exhaust)
  then obtain y where ins: "insert_value (env_vm env) (shift ptr 2) (IntV gas) vm = (Inl y, vm')"
    using vm_insert_value_Inr [OF laws, of "shift ptr 2" "IntV gas" vm vm'] v by (cases r) auto
  let ?s = "\<lambda>n. \<lparr> sys_vm = vm, sys_helper = osh_exec_wrapper h, sys_ptr = shift ptr n, sys_gas = 0 \<rparr>"
  have "felt_from_ptr (env_vm env) (?s 0) = (Inr x, ?s 1)"
    using felt_from_ptr_ok [OF laws, of "?s 0" x] sel(1) bound by simp
  moreover have "dispatch env selector (?s 1) =
      (Inl (Error (hint_of_syscall_error (env_fmt env) (of_memory_error (env_vm env) y))), ?s 2 \<lparr> sys_vm := vm' \<rparr>)"
    using dispatch_refused [OF laws, of "?s 1" selector cost req resp gas y vm'] bound spec gas ins
    by (simp add: numeral_2_eq_2)
  ultimately have "execute_syscall env ptr (vm, h) =
      (Inl (Error (hint_of_syscall_error (env_fmt env) (of_memory_error (env_vm env) y))), vm', h)"
    using ptr sel(2) by (simp add: execute_syscall_def ok_or_def assert_that_def)
  with ins show ?thesis by blast
qed

section \<open>A storage read\<close>

lemma write_maybe_relocatable_ok:
  assumes laws: "vm_laws api cells segs" and "segment_index (sys_ptr s) \<in> segs (sys_vm s)"
    and "cells (sys_vm s) (sys_ptr s) = None" and bound: "offset (sys_ptr s) + 1 \<le> segment_capacity api"
  shows "\<exists>vm'. write_maybe_relocatable api v s = (Inr (), s \<lparr> sys_vm := vm', sys_ptr := shift (sys_ptr s) 1 \<rparr>) \<and>
    cells vm' = (cells (sys_vm s))(sys_ptr s \<mapsto> v) \<and> segs vm' = segs (sys_vm s)"
proof -
  obtain vm' where vm': "insert_value api (sys_ptr s) v (sys_vm s) = (Inr (), vm')"
    "cells vm' = (cells (sys_vm s))(sys_ptr s \<mapsto> v)" "segs vm' = segs (sys_vm s)"
    using vm_insert_value [OF laws assms(2), of v] assms(3) bound by auto
  have "vmS (insertS api (sys_ptr s) v) s = (Inr (), s \<lparr> sys_vm := vm' \<rparr>)"
    by (simp add: vmS_def zoomS_def insertS_def vm'(1) of_vm_def)
  then show ?thesis
    using vm'(2,3) advance_ok [OF laws, of "s \<lparr> sys_vm := vm' \<rparr>" 1] bound vm_capacity [OF laws]
    by (intro exI [of _ vm']) (simp add: write_maybe_relocatable_def readS_def)
qed

lemma storage_request_ok:
  assumes laws: "vm_laws (env_vm env) cells segs" and "cells (sys_vm s) (sys_ptr s) = Some (IntV 0)"
    and "offset (sys_ptr s) + 2 < u64_bound"
  shows "read_request (StorageReadHandler env) s = (Inr (), s \<lparr> sys_ptr := shift (sys_ptr s) 2 \<rparr>)"
proof -
  have "get_integer (env_vm env) (sys_vm s) (sys_ptr s) = Inr 0" using laws assms(2) by (simp add: vm_get_integer)
  moreover have "cairo_size new_StorageReadRequest_layout = 2" by (simp add: new_StorageReadRequest_layout_def)
  ultimately show ?thesis
    using advance_ok [OF laws assms(3)]
    by (simp add: StorageReadHandler_def storage_request_def integer_at_ptr_def skip_request_def readS_def of_vm_def)
qed

lemma next_read_ok:
  assumes "execute_code_read_iter (sys_helper s) = v # vs"
  shows "tryS (execute (StorageReadHandler env) q) s =
    (Inr (Inr v), s \<lparr> sys_helper := (sys_helper s) \<lparr> execute_code_read_iter := vs \<rparr> \<rparr>)"
  using assms by (simp add: StorageReadHandler_def tryS_def helperS_def zoomS_def nextS_def next_read_def)

lemma storage_answer_ok:
  assumes laws: "vm_laws (env_vm env) cells segs" and seg: "segment_index (sys_ptr s) \<in> segs (sys_vm s)"
    and free: "\<forall>i < 3. cells (sys_vm s) (shift (sys_ptr s) i) = None" and bound: "offset (sys_ptr s) + 3 \<le> segment_capacity (env_vm env)"
  shows "\<exists>vm'. answer_syscall (env_vm env) f (StorageReadHandler env) (Inr v) s =
      (Inr (), s \<lparr> sys_vm := vm', sys_ptr := shift (sys_ptr s) 3 \<rparr>) \<and>
    cells vm' = write_all (sys_ptr s) [IntV (sys_gas s), IntV 0, IntV v] (cells (sys_vm s))"
proof -
  let ?p = "sys_ptr s" and ?api = "env_vm env"
  have free: "cells (sys_vm s) ?p = None" "cells (sys_vm s) (shift ?p 1) = None" "cells (sys_vm s) (shift ?p 2) = None"
    using free [rule_format, of 0] free [rule_format, of 1] free [rule_format, of 2] by simp_all
  have other: "shift ?p 1 \<noteq> ?p" "shift ?p 2 \<noteq> ?p" "shift ?p 2 \<noteq> shift ?p 1"
    using shift_simps(5) [of ?p 1 0] shift_simps(5) [of ?p 2 0] by simp_all
  obtain v1 where w1: "write_maybe_relocatable ?api (IntV (sys_gas s)) s = (Inr (), s \<lparr> sys_vm := v1, sys_ptr := shift ?p 1 \<rparr>)"
    and c1: "cells v1 = (cells (sys_vm s))(?p \<mapsto> IntV (sys_gas s))" "segs v1 = segs (sys_vm s)"
    using write_maybe_relocatable_ok [OF laws seg free(1), of "IntV (sys_gas s)"] bound by auto
  obtain v2 where w2: "write_maybe_relocatable ?api (IntV 0) (s \<lparr> sys_vm := v1, sys_ptr := shift ?p 1 \<rparr>) =
      (Inr (), s \<lparr> sys_vm := v2, sys_ptr := shift ?p 2 \<rparr>)"
    and c2: "cells v2 = (cells v1)(shift ?p 1 \<mapsto> IntV 0)" "segs v2 = segs v1"
    using write_maybe_relocatable_ok [OF laws, of "s \<lparr> sys_vm := v1, sys_ptr := shift ?p 1 \<rparr>" "IntV 0"]
      seg c1 free other bound by (auto simp: numeral_2_eq_2)
  obtain v3 where w3: "write_maybe_relocatable ?api (IntV v) (s \<lparr> sys_vm := v2, sys_ptr := shift ?p 2 \<rparr>) =
      (Inr (), s \<lparr> sys_vm := v3, sys_ptr := shift ?p 3 \<rparr>)"
    and c3: "cells v3 = (cells v2)(shift ?p 2 \<mapsto> IntV v)"
    using write_maybe_relocatable_ok [OF laws, of "s \<lparr> sys_vm := v2, sys_ptr := shift ?p 2 \<rparr>" "IntV v"]
      seg c1 c2 free other bound by auto
  have "answer_syscall ?api f (StorageReadHandler env) (Inr v) s = (Inr (), s \<lparr> sys_vm := v3, sys_ptr := shift ?p 3 \<rparr>)"
    using w1 w2 w3 by (simp add: answer_syscall_def readS_def write_felt_def writeE_def StorageReadHandler_def)
  moreover have "cells v3 = write_all ?p [IntV (sys_gas s), IntV 0, IntV v] (cells (sys_vm s))"
    by (simp add: c1 c2 c3 numeral_2_eq_2)
  ultimately show ?thesis by blast
qed

lemma storage_read_ok:
  fixes env :: "('vm, 'x, 'b, 'pcs, 'k1, 'r1, 'cl, 'cbl, 'sa, 'sc, 'dbl) sys_env"
  assumes laws: "vm_laws (env_vm env) cells segs" and seg: "segment_index ptr \<in> segs vm"
    and room: "offset ptr + 7 \<le> segment_capacity (env_vm env)"
    and gas: "cells vm (shift ptr 1) = Some (IntV gas)" "gas < u64_bound" "STORAGE_READ_GAS_COST - SYSCALL_BASE_GAS_COST \<le> gas"
    and domain: "cells vm (shift ptr 2) = Some (IntV 0)"
    and free: "\<forall>i < 3. cells vm (shift ptr (4 + i)) = None"
    and iter: "execute_code_read_iter eh = v # vs"
  shows "\<exists>vm' g. dispatch env StorageRead \<lparr> sys_vm = vm, sys_helper = eh, sys_ptr = shift ptr 1, sys_gas = 0 \<rparr> =
      (Inr (), \<lparr> sys_vm = vm', sys_helper = eh \<lparr> execute_code_read_iter := vs \<rparr>, sys_ptr = shift ptr 7, sys_gas = g \<rparr>) \<and>
    cells vm' = write_all (shift ptr 4)
      [IntV (gas - (STORAGE_READ_GAS_COST - SYSCALL_BASE_GAS_COST)), IntV 0, IntV v] (cells vm)"
proof -
  let ?cost = "STORAGE_READ_GAS_COST - SYSCALL_BASE_GAS_COST" and ?api = "env_vm env"
  let ?s = "\<lambda>n. \<lparr> sys_vm = vm, sys_helper = eh, sys_ptr = shift ptr n, sys_gas = 0 \<rparr>"
  let ?t = "\<lparr> sys_vm = vm, sys_helper = eh \<lparr> execute_code_read_iter := vs \<rparr>, sys_ptr = shift ptr 4, sys_gas = gas - ?cost \<rparr>"
  have bound: "offset ptr + 7 < u64_bound" using room vm_capacity [OF laws] by simp
  have step1: "felt_from_ptr ?api (?s 1) = (Inr gas, ?s 2)"
    using felt_from_ptr_ok [OF laws, of "?s 1" gas] gas bound by (simp add: numeral_2_eq_2)
  have step2: "read_request (StorageReadHandler env) (?s 2) = (Inr (), ?s 4)"
    using storage_request_ok [OF laws, of "?s 2"] domain bound by simp
  have step3: "tryS (execute (StorageReadHandler env) ()) ((?s 4) \<lparr> sys_gas := gas - ?cost \<rparr>) =
      (Inr (Inr v) :: ('x hint_error, 'b syscall_execution_error + felt) res, ?t)"
    using next_read_ok [of "(?s 4) \<lparr> sys_gas := gas - ?cost \<rparr>" v vs env "()"] iter by simp
  obtain vm' where step4: "answer_syscall ?api (env_fmt env) (StorageReadHandler env) (Inr v) ?t =
      (Inr (), ?t \<lparr> sys_vm := vm', sys_ptr := shift ptr 7 \<rparr>)"
    and cells: "cells vm' = write_all (shift ptr 4) [IntV (gas - ?cost), IntV 0, IntV v] (cells vm)"
    using storage_answer_ok [OF laws, of ?t "env_fmt env" v] free seg room by auto
  have "u64_sub STORAGE_READ_GAS_COST SYSCALL_BASE_GAS_COST = (Inr ?cost :: ('x hint_error, nat) res)"
    by (simp add: u64_sub_def STORAGE_READ_GAS_COST_def)
  with step1 step2 step3 step4 gas
  have "run_handler ?api (env_fmt env) (StorageReadHandler env) STORAGE_READ_GAS_COST (?s 1) =
      (Inr (), ?t \<lparr> sys_vm := vm', sys_ptr := shift ptr 7 \<rparr>)"
    by (simp add: run_handler_def set_gas_def felt_to_u64_def ok_or_def)
  with cells show ?thesis by (intro exI [of _ vm'] exI [of _ "gas - ?cost"]) (simp add: dispatch_def)
qed

lemma execute_syscall_ok:
  assumes "vm_laws (env_vm env) cells segs" and "osh_syscall_ptr h = Some ptr" and "offset ptr + 1 < u64_bound"
    and "cells vm ptr = Some (IntV x)" and "SyscallSelector_try_from (env_fmt env) x = Inr selector"
    and "dispatch env selector \<lparr> sys_vm = vm, sys_helper = osh_exec_wrapper h, sys_ptr = shift ptr 1, sys_gas = 0 \<rparr> = (Inr (), s')"
  shows "execute_syscall env ptr (vm, h) =
    (Inr (), sys_vm s', h \<lparr> osh_exec_wrapper := sys_helper s', osh_syscall_ptr := Some (sys_ptr s') \<rparr>)"
  using felt_from_ptr_ok [OF assms(1), of "\<lparr> sys_vm = vm, sys_helper = osh_exec_wrapper h, sys_ptr = ptr, sys_gas = 0 \<rparr>" x] assms
  by (simp add: execute_syscall_def ok_or_def assert_that_def)

text \<open>
  C16. A storage read that has its request in memory, enough gas and free cells behind the request, in a segment that has no validation
  rules and is large enough, succeeds: it answers with the
  next value that was recorded for the running call, takes that value from the recorded reads, charges exactly the cost of the call, changes
  no other cell, and moves the system call pointer behind the answer.
\<close>

theorem storage_read_replays:
  fixes env :: "('vm, 'x, 'b, 'pcs, 'k1, 'r1, 'cl, 'cbl, 'sa, 'sc, 'dbl) sys_env"
  assumes laws: "vm_laws (env_vm env) cells segs" and ptr: "osh_syscall_ptr h = Some ptr"
    and seg: "segment_index ptr \<in> segs vm" and room: "offset ptr + 7 \<le> segment_capacity (env_vm env)"
    and sel: "cells vm ptr = Some (IntV x)" "SyscallSelector_try_from (env_fmt env) x = Inr StorageRead"
    and gas: "cells vm (shift ptr 1) = Some (IntV gas)" "gas < u64_bound" "STORAGE_READ_GAS_COST - SYSCALL_BASE_GAS_COST \<le> gas"
    and domain: "cells vm (shift ptr 2) = Some (IntV 0)"
    and free: "\<forall>i < 3. cells vm (shift ptr (4 + i)) = None"
    and iter: "execute_code_read_iter (osh_exec_wrapper h) = v # vs"
  shows "\<exists>vm'. execute_syscall env ptr (vm, h) =
      (Inr (), vm', h \<lparr> osh_exec_wrapper := (osh_exec_wrapper h) \<lparr> execute_code_read_iter := vs \<rparr>,
                       osh_syscall_ptr := Some (shift ptr 7) \<rparr>) \<and>
    cells vm' = write_all (shift ptr 4)
      [IntV (gas - (STORAGE_READ_GAS_COST - SYSCALL_BASE_GAS_COST)), IntV 0, IntV v] (cells vm)"
proof -
  obtain vm' g where "dispatch env StorageRead \<lparr> sys_vm = vm, sys_helper = osh_exec_wrapper h, sys_ptr = shift ptr 1, sys_gas = 0 \<rparr> =
      (Inr (), \<lparr> sys_vm = vm', sys_helper = (osh_exec_wrapper h) \<lparr> execute_code_read_iter := vs \<rparr>, sys_ptr = shift ptr 7, sys_gas = g \<rparr>)"
    and cells: "cells vm' = write_all (shift ptr 4)
      [IntV (gas - (STORAGE_READ_GAS_COST - SYSCALL_BASE_GAS_COST)), IntV 0, IntV v] (cells vm)"
    using storage_read_ok [OF laws seg room gas domain free iter] by blast
  from execute_syscall_ok [OF laws ptr _ sel this(1)] room vm_capacity [OF laws] cells show ?thesis by auto
qed

section \<open>Examples\<close>

text \<open>An environment on the concrete machine, and a contract that reads its storage.\<close>

definition demo_secp :: "(unit, unit) secp_api" where
  "demo_secp =
     \<lparr> secp_new = (\<lambda>_ p. (Inr None, p)), secp_get_point_from_x = (\<lambda>_ _ p. (Inr None, p)),
       secp_mul = (\<lambda>_ _ p. (Inl (BlockifierOther ()), p)), secp_add = (\<lambda>_ _ p. (Inl (BlockifierOther ()), p)),
       secp_get_xy = (\<lambda>_ p. (Inl (BlockifierOther ()), p)) \<rparr>"

definition demo_fmt :: "(string, unit) fmt" where
  "demo_fmt =
     \<lparr> felt_debug = decimal, felt_display = decimal, hint_display = (\<lambda>_. ''hint''), blockifier_display = (\<lambda>_. ''error'') \<rparr>"

definition demo_pcs :: "unit pcs_ops" where
  "demo_pcs =
     \<lparr> pcs_compute_commitment = (\<lambda>_. Inl (Panic ''unused'')), pcs_read = (\<lambda>s _. Inr (None, s)), pcs_write = (\<lambda>s _ _. s) \<rparr>"

definition demo_sys_env :: "(toy_vm, string, unit, unit, unit, unit, unit, unit, unit, unit, unit) sys_env" where
  "demo_sys_env =
     \<lparr> env_vm = toy_api, env_fmt = demo_fmt, env_pcs = demo_pcs, env_k1 = demo_secp, env_r1 = demo_secp,
       keccak_f1600 = id, sha2_compress256 = (\<lambda>s _. s),
       env_casm = \<lparr> casm_of_json = (\<lambda>_. Inr ()), casm_to_json = (\<lambda>_. Inr []), casm_to_blockifier = (\<lambda>_. Inr ()), casm_class_hash = (\<lambda>_. 0) \<rparr>,
       env_dep = \<lparr> dep_api_of_json = (\<lambda>_. Inr ()), dep_api_to_json = (\<lambda>_. Inr []), dep_core_to_json = (\<lambda>_. Inr []),
         dep_blockifier_of_json = (\<lambda>_. Inr ()), dep_compute_hash = (\<lambda>_. Inr 0) \<rparr>,
       casm_n_constructors = (\<lambda>_. 0), dep_n_constructors = (\<lambda>_. None) \<rparr>"

definition demo_sys_helper ::
  "(unit, nat, (unit, unit, unit, unit, unit) starknet_os_input, unit, unit) execution_helper" where
  "demo_sys_helper = (ExecutionHelper_new id () () [] [] 20 None (10, 66)) \<lparr> execute_code_read_iter := [42] \<rparr>"

definition demo_sys_handler ::
  "(unit, nat, (unit, unit, unit, unit, unit) starknet_os_input, unit, unit) execution_helper os_syscall_handler" where
  "demo_sys_handler = set_syscall_ptr (rel 0 0) (OsSyscallHandlerWrapper_new demo_sys_helper)"

definition demo_request :: "nat \<Rightarrow> toy_vm" where
  "demo_request gas =
     \<lparr> toy_cells = [rel 0 0 \<mapsto> IntV 0x53746f7261676552656164, rel 0 1 \<mapsto> IntV gas, rel 0 2 \<mapsto> IntV 0, rel 0 3 \<mapsto> IntV 77],
       toy_next = 1, toy_temp = 0 \<rparr>"

lemma StorageRead_accepted: "SyscallSelector_try_from f 0x53746f7261676552656164 = Inr StorageRead"
proof -
  have "felt_wf 0x53746f7261676552656164" by (simp add: felt_wf_def STARK_PRIME_def)
  from selector_lookup [OF this, of StorageRead] show ?thesis
    by (simp add: SyscallSelector_try_from_def StorageRead_number)
qed

lemma demo_cells:
  "toy_mem (demo_request gas) (rel 0 0) = Some (IntV 0x53746f7261676552656164)"
  "toy_mem (demo_request gas) (shift (rel 0 0) 1) = Some (IntV gas)"
  "toy_mem (demo_request gas) (shift (rel 0 0) 2) = Some (IntV 0)"
  by (simp_all add: toy_mem_def toy_segs_def demo_request_def rel_def shift_def)

lemma demo_laws: "vm_laws (env_vm demo_sys_env) toy_mem toy_segs"
  by (simp add: demo_sys_env_def toy_laws)

lemma demo_free: "\<forall>i < 3. toy_mem (demo_request gas) (shift (rel 0 0) (4 + i)) = None"
  by (simp add: toy_mem_def toy_segs_def demo_request_def rel_def shift_def)

lemma demo_handler:
  "osh_syscall_ptr demo_sys_handler = Some (rel 0 0)" "osh_exec_wrapper demo_sys_handler = demo_sys_helper"
  "execute_code_read_iter demo_sys_helper = 42 # []"
  by (simp_all add: demo_sys_handler_def set_syscall_ptr_def OsSyscallHandlerWrapper_new_def demo_sys_helper_def)

theorem out_of_gas_aborts_witness:
  "\<exists>y vm'. insert_value toy_api (shift (rel 0 0) 2) (IntV 4999) (demo_request 4999) = (Inl y, vm') \<and>
    execute_syscall demo_sys_env (rel 0 0) (demo_request 4999, demo_sys_handler) =
      (Inl (Error (hint_of_syscall_error demo_fmt (of_memory_error toy_api y))), vm', demo_sys_handler)"
proof -
  have env: "env_vm demo_sys_env = toy_api" "env_fmt demo_sys_env = demo_fmt" by (simp_all add: demo_sys_env_def)
  have spec: "syscall_spec StorageRead = Some (STORAGE_READ_GAS_COST, 2, 1)" "4999 < STORAGE_READ_GAS_COST - SYSCALL_BASE_GAS_COST"
    and bound: "offset (rel 0 0) + 2 < u64_bound" and v: "IntV 0 \<noteq> IntV 4999"
    by (simp_all add: gas_cost_defs u64_bound_def)
  show ?thesis
    using out_of_gas_aborts [OF demo_laws demo_handler(1) bound demo_cells(1) StorageRead_accepted spec(1)
      demo_cells(2) spec(2) demo_cells(3) v] by (simp only: env)
qed

lemma demo_gas: "50000 < u64_bound" "STORAGE_READ_GAS_COST - SYSCALL_BASE_GAS_COST \<le> 50000"
  by (simp_all add: u64_bound_def STORAGE_READ_GAS_COST_def SYSCALL_BASE_GAS_COST_def STEP_GAS_COST_def)

lemma demo_room:
  "segment_index (rel 0 0) \<in> toy_segs (demo_request gas)" "offset (rel 0 0) + 7 \<le> segment_capacity (env_vm demo_sys_env)"
  by (simp_all add: toy_segs_def demo_request_def demo_sys_env_def toy_api_def toy_capacity_def)

theorem storage_read_replays_witness:
  "\<exists>vm'. execute_syscall demo_sys_env (rel 0 0) (demo_request 50000, demo_sys_handler) =
      (Inr (), vm', demo_sys_handler \<lparr> osh_exec_wrapper := demo_sys_helper \<lparr> execute_code_read_iter := [] \<rparr>,
        osh_syscall_ptr := Some (shift (rel 0 0) 7) \<rparr>) \<and>
    toy_mem vm' = write_all (shift (rel 0 0) 4)
      [IntV (50000 - (STORAGE_READ_GAS_COST - SYSCALL_BASE_GAS_COST)), IntV 0, IntV 42] (toy_mem (demo_request 50000))"
  using storage_read_replays [OF demo_laws demo_handler(1) demo_room demo_cells(1) StorageRead_accepted
    demo_cells(2) demo_gas(1,2) demo_cells(3) demo_free, of 42 "[]"]
  by (simp only: demo_handler)

lemma demo_response:
  "\<exists>vm' h'. execute_syscall demo_sys_env (rel 0 0) (demo_request 50000, demo_sys_handler) = (Inr (), vm', h')"
proof -
  obtain s' where "dispatch demo_sys_env StorageRead
      \<lparr> sys_vm = demo_request 50000, sys_helper = osh_exec_wrapper demo_sys_handler, sys_ptr = shift (rel 0 0) 1, sys_gas = 0 \<rparr> = (Inr (), s')"
    using storage_read_ok [OF demo_laws demo_room demo_cells(2) demo_gas(1,2)
      demo_cells(3) demo_free demo_handler(3)] unfolding demo_handler(2) by blast
  from execute_syscall_ok [OF demo_laws demo_handler(1) _ demo_cells(1) StorageRead_accepted this]
  show ?thesis by (simp add: u64_bound_def)
qed

theorem execute_syscall_response_witness:
  "\<exists>vm' h' x selector cost req resp gas.
    execute_syscall demo_sys_env (rel 0 0) (demo_request 50000, demo_sys_handler) = (Inr (), vm', h') \<and>
    toy_mem (demo_request 50000) (rel 0 0) = Some (IntV x) \<and> SyscallSelector_try_from demo_fmt x = Inr selector \<and>
    syscall_spec selector = Some (cost, req, resp) \<and> toy_mem (demo_request 50000) (shift (rel 0 0) 1) = Some (IntV gas) \<and>
    toy_mem (demo_request 50000) \<subseteq>\<^sub>m toy_mem vm'"
proof -
  obtain vm' h' where run: "execute_syscall demo_sys_env (rel 0 0) (demo_request 50000, demo_sys_handler) = (Inr (), vm', h')"
    using demo_response by blast
  have "env_fmt demo_sys_env = demo_fmt" by (simp add: demo_sys_env_def)
  with run execute_syscall_response [OF demo_laws run] show ?thesis by metis
qed

end
