(* ===== verification/Deprecated_Syscalls.thy ===== *)
theory Deprecated_Syscalls
  imports Syscall_Handlers
begin

text \<open>
  The system calls of Cairo 0 contracts (\<open>execution/deprecated_syscall_handler.rs\<close>). A handler gets the address of the request and
  writes its response into the response part of the same structure; there is no gas and no failure response. The
  lemmas show the memory after a call and after a storage read, on a machine that keeps the laws.
\<close>

section \<open>The handler\<close>

text \<open>Of the information on the block, the handler uses the address of the sequencer.\<close>

record 'h deprecated_os_syscall_handler =
  dsh_exec_wrapper :: 'h
  dsh_syscall_ptr :: relocatable
  dsh_sequencer_address :: felt

record ('vm, 'h) dsys =
  dsys_vm :: 'vm
  dsys_handler :: "'h deprecated_os_syscall_handler"

definition DeprecatedOsSyscallHandlerWrapper_new :: "'h \<Rightarrow> relocatable \<Rightarrow> felt \<Rightarrow> 'h deprecated_os_syscall_handler" where
  "DeprecatedOsSyscallHandlerWrapper_new eh ptr sequencer_address =
     \<lparr> dsh_exec_wrapper = eh, dsh_syscall_ptr = ptr, dsh_sequencer_address = sequencer_address \<rparr>"

definition dep_set_syscall_ptr :: "relocatable \<Rightarrow> 'h deprecated_os_syscall_handler \<Rightarrow> 'h deprecated_os_syscall_handler" where
  "dep_set_syscall_ptr ptr h = h \<lparr> dsh_syscall_ptr := ptr \<rparr>"

definition dvmS :: "('vm, 'e, 'a) prog \<Rightarrow> (('vm, 'h) dsys, 'e, 'a) prog" where
  "dvmS = zoomS dsys_vm (\<lambda>vm s. s \<lparr> dsys_vm := vm \<rparr>)"

definition dhelperS :: "('h, 'e, 'a) prog \<Rightarrow> (('vm, 'h) dsys, 'e, 'a) prog" where
  "dhelperS = zoomS (\<lambda>s. dsh_exec_wrapper (dsys_handler s))
     (\<lambda>h s. s \<lparr> dsys_handler := (dsys_handler s) \<lparr> dsh_exec_wrapper := h \<rparr> \<rparr>)"

text \<open>The generated getters of offsets. Every name that is used below is a field of its structure.\<close>

definition off :: "cairo_type \<Rightarrow> string \<Rightarrow> nat" where
  "off ty name = (case field_offset ty name of Some n \<Rightarrow> n | None \<Rightarrow> 0)"

text \<open>\<open>vm.insert_value((syscall_ptr + n)?, value)?\<close>, and reading at such an address\<close>

definition insert_at :: "('vm, 'x) vm_api \<Rightarrow> relocatable \<Rightarrow> nat \<Rightarrow> maybe_relocatable \<Rightarrow> (('vm, 'h) dsys, 'x hint_error, unit) prog" where
  "insert_at api ptr n value =
     map_errS MachineHint (bindS (liftS (add_offset api ptr n)) (\<lambda>a. dvmS (insertS api a value)))"

definition integer_at :: "('vm, 'x) vm_api \<Rightarrow> relocatable \<Rightarrow> nat \<Rightarrow> (('vm, 'h) dsys, 'x hint_error, felt) prog" where
  "integer_at api ptr n =
     map_errS MachineHint (bindS (liftS (add_offset api ptr n)) (\<lambda>a. readS (\<lambda>s. of_vm (get_integer api (dsys_vm s) a))))"

definition relocatable_at :: "('vm, 'x) vm_api \<Rightarrow> relocatable \<Rightarrow> nat \<Rightarrow> (('vm, 'h) dsys, 'x hint_error, relocatable) prog" where
  "relocatable_at api ptr n =
     map_errS MachineHint (bindS (liftS (add_offset api ptr n)) (\<lambda>a. readS (\<lambda>s. of_vm (get_relocatable api (dsys_vm s) a))))"

definition of_helper where
  "of_helper f msg = readS (\<lambda>s. ok_or (SyscallErrorHint msg) (f (dsh_exec_wrapper (dsys_handler s))))"

section \<open>Calls\<close>

definition call_contract_and_write_response where
  "call_contract_and_write_response api syscall_ptr response_offset =
     bindS (dhelperS (nextS next_result (SyscallErrorHint ''Expected a result when calling contract''))) (\<lambda>result.
       let retdata_size_offset = response_offset + off CallContractResponse_layout ''retdata_size'';
           retdata_offset = response_offset + off CallContractResponse_layout ''retdata'' in
       bindS (insert_at api syscall_ptr retdata_size_offset (IntV (length (cr_retdata result)))) (\<lambda>_.
       bindS (dvmS (temp_segmentS api)) (\<lambda>new_segment.
       bindS (map_errS MachineHint (dvmS (loadS api new_segment (map IntV (cr_retdata result))))) (\<lambda>_.
         insert_at api syscall_ptr retdata_offset (RelocatableValue new_segment)))))"

definition dep_call_contract where
  "dep_call_contract api syscall_ptr = call_contract_and_write_response api syscall_ptr (off CallContract_layout ''response'')"

definition dep_delegate_call where
  "dep_delegate_call api syscall_ptr = call_contract_and_write_response api syscall_ptr (off CallContract_layout ''response'')"

definition dep_delegate_l1_handler where
  "dep_delegate_l1_handler api syscall_ptr = call_contract_and_write_response api syscall_ptr (off CallContract_layout ''response'')"

definition dep_library_call where
  "dep_library_call api syscall_ptr = call_contract_and_write_response api syscall_ptr (off LibraryCall_layout ''response'')"

definition dep_library_call_l1_handler where
  "dep_library_call_l1_handler api syscall_ptr =
     call_contract_and_write_response api syscall_ptr (off LibraryCall_layout ''response'')"

definition dep_deploy where
  "dep_deploy api syscall_ptr =
     bindS (dhelperS (nextS next_result (SyscallErrorHint ''No matching result for deploy syscall''))) (\<lambda>_.
     bindS (dhelperS (nextS next_deployed (SyscallErrorHint ''Could not find matching deployed contract''))) (\<lambda>contract_address.
       let response = off Deploy_layout ''response'' in
       bindS (insert_at api syscall_ptr (response + off DeployResponse_layout ''contract_address'') (IntV contract_address)) (\<lambda>_.
       bindS (insert_at api syscall_ptr (response + off DeployResponse_layout ''constructor_retdata_size'') (IntV 0)) (\<lambda>_.
         insert_at api syscall_ptr (response + off DeployResponse_layout ''constructor_retdata'') (IntV 0)))))"

section \<open>Information on the block, the call and the transaction\<close>

definition dep_get_block_number where
  "dep_get_block_number api syscall_ptr =
     bindS (of_helper call_execution_info_ptr ''Execution info pointer not set'') (\<lambda>execution_info_ptr.
     bindS (relocatable_at api execution_info_ptr (off new_ExecutionInfo_layout ''block_info'')) (\<lambda>block_info_ptr.
     bindS (integer_at api block_info_ptr (off new_BlockInfo_layout ''block_number'')) (\<lambda>block_number.
       insert_at api syscall_ptr
         (off GetBlockNumber_layout ''response'' + off GetBlockNumberResponse_layout ''block_number'') (IntV block_number))))"

definition dep_get_block_timestamp where
  "dep_get_block_timestamp api syscall_ptr =
     bindS (of_helper call_execution_info_ptr ''Execution info pointer not set'') (\<lambda>execution_info_ptr.
     bindS (relocatable_at api execution_info_ptr (off new_ExecutionInfo_layout ''block_info'')) (\<lambda>block_info_ptr.
     bindS (integer_at api block_info_ptr (off new_BlockInfo_layout ''block_timestamp'')) (\<lambda>block_timestamp.
       insert_at api syscall_ptr
         (off GetBlockTimestamp_layout ''response'' + off GetBlockTimestampResponse_layout ''block_timestamp'')
         (IntV block_timestamp))))"

text \<open>This handler returns nothing: every error is unwrapped and panics.\<close>

definition dep_get_caller_address where
  "dep_get_caller_address api syscall_ptr s =
     bindS (readS (\<lambda>s. unwrap ''A call should have some call info''
              (map_option ci_caller_address (eh_call_info (dsh_exec_wrapper (dsys_handler s)))))) (\<lambda>caller_address s.
       case insert_at api syscall_ptr 1 (IntV caller_address) s of
         (Inr u, s') \<Rightarrow> (Inr u, s')
       | (Inl (Error _), s') \<Rightarrow> (Inl (Panic ''called unwrap on an Err value''), s')
       | (Inl (Panic msg), s') \<Rightarrow> (Inl (Panic msg), s')) s"

definition dep_get_contract_address where
  "dep_get_contract_address api syscall_ptr =
     bindS (of_helper (\<lambda>eh. map_option ci_storage_address (eh_call_info eh)) ''Missing storage address from call info'') (\<lambda>contract_address.
       insert_at api syscall_ptr
         (off GetContractAddress_layout ''response'' + off GetContractAddressResponse_layout ''contract_address'')
         (IntV contract_address))"

definition dep_get_sequencer_address where
  "dep_get_sequencer_address api syscall_ptr =
     bindS (readS (\<lambda>s. Inr (dsh_sequencer_address (dsys_handler s)))) (\<lambda>sequencer_address.
       insert_at api syscall_ptr
         (off GetSequencerAddress_layout ''response'' + off GetSequencerAddressResponse_layout ''sequencer_address'')
         (IntV sequencer_address))"

definition dep_get_tx_info where
  "dep_get_tx_info api syscall_ptr =
     bindS (of_helper tx_info_ptr ''Tx info pointer not set'') (\<lambda>ptr.
       insert_at api syscall_ptr (off GetTxInfo_layout ''response'' + off GetTxInfoResponse_layout ''tx_info'') (RelocatableValue ptr))"

definition dep_get_tx_signature where
  "dep_get_tx_signature api syscall_ptr =
     bindS (of_helper tx_info_ptr ''Tx info pointer not set'') (\<lambda>ptr.
     bindS (integer_at api ptr (off TxInfo_layout ''signature_len'')) (\<lambda>signature_len.
     bindS (relocatable_at api ptr (off TxInfo_layout ''signature'')) (\<lambda>signature.
       let response = off GetTxSignature_layout ''response'' in
       bindS (insert_at api syscall_ptr (response + off GetTxSignatureResponse_layout ''signature_len'') (IntV signature_len)) (\<lambda>_.
         insert_at api syscall_ptr (response + off GetTxSignatureResponse_layout ''signature'') (RelocatableValue signature)))))"

section \<open>Storage\<close>

definition dep_storage_read where
  "dep_storage_read api syscall_ptr =
     bindS (dhelperS (nextS next_read (SyscallErrorHint ''No more storage reads available to replay''))) (\<lambda>value.
       insert_at api syscall_ptr 2 (IntV value))"

definition dep_storage_write :: "relocatable \<Rightarrow> (('vm, 'h) dsys, 'e, unit) prog" where
  "dep_storage_write syscall_ptr = retS ()"

section \<open>Behaviour\<close>

lemma insert_at_ok:
  assumes laws: "vm_laws api cells segs" and "segment_index ptr \<in> segs (dsys_vm s)"
    and "cells (dsys_vm s) (shift ptr n) \<in> {None, Some v}" and "offset ptr + n < segment_capacity api"
  shows "\<exists>vm'. insert_at api ptr n v s = (Inr (), s \<lparr> dsys_vm := vm' \<rparr>) \<and>
    cells vm' = (cells (dsys_vm s))(shift ptr n \<mapsto> v) \<and> segs vm' = segs (dsys_vm s)"
proof -
  obtain vm' where "insert_value api (shift ptr n) v (dsys_vm s) = (Inr (), vm')"
    "cells vm' = (cells (dsys_vm s))(shift ptr n \<mapsto> v)" "segs vm' = segs (dsys_vm s)"
    using vm_insert_value [OF laws, of "shift ptr n" "dsys_vm s" v] assms(2-4) by auto
  then show ?thesis
    using vm_rel_add [OF laws less_trans [OF assms(4) vm_capacity [OF laws]]]
    by (intro exI [of _ vm'])
       (simp add: insert_at_def add_offset_def of_vm_def map_errS_def map_err_def dvmS_def zoomS_def insertS_def)
qed

text \<open>A storage read answers with the next recorded read in the third cell.\<close>

lemma dep_storage_read_ok:
  assumes laws: "vm_laws api cells segs" and "segment_index ptr \<in> segs (dsys_vm s)"
    and "cells (dsys_vm s) (shift ptr 2) = None" and "offset ptr + 2 < segment_capacity api"
    and "execute_code_read_iter (dsh_exec_wrapper (dsys_handler s)) = v # vs"
  shows "\<exists>s'. dep_storage_read api ptr s = (Inr (), s') \<and>
    cells (dsys_vm s') = (cells (dsys_vm s))(shift ptr 2 \<mapsto> IntV v) \<and>
    execute_code_read_iter (dsh_exec_wrapper (dsys_handler s')) = vs"
proof -
  let ?s = "s \<lparr> dsys_handler := (dsys_handler s)
    \<lparr> dsh_exec_wrapper := (dsh_exec_wrapper (dsys_handler s)) \<lparr> execute_code_read_iter := vs \<rparr> \<rparr> \<rparr>"
  obtain vm' where "insert_at api ptr 2 (IntV v) ?s = (Inr (), ?s \<lparr> dsys_vm := vm' \<rparr>)"
    and "cells vm' = (cells (dsys_vm s))(shift ptr 2 \<mapsto> IntV v)"
    using insert_at_ok [OF laws, of ptr ?s 2 "IntV v"] assms(2-4) by auto
  then show ?thesis
    using assms(5)
    by (intro exI [of _ "?s \<lparr> dsys_vm := vm' \<rparr>"])
       (simp add: dep_storage_read_def dhelperS_def zoomS_def nextS_def next_read_def bindS_def)
qed

lemma fresh_segment_load:
  assumes laws: "vm_laws api cells segs" and "length data \<le> segment_capacity api"
  shows "\<exists>seg vm1 vm'. add_temporary_segment api vm = (rel seg 0, vm1) \<and>
    load_data api (rel seg 0) (map IntV data) vm1 = (Inr (rel seg (length data)), vm') \<and>
    seg \<notin> segs vm \<and> cells vm' = write_all (rel seg 0) (map IntV data) (cells vm) \<and> segs vm' = insert seg (segs vm)"
proof -
  obtain seg vm1 where seg: "add_temporary_segment api vm = (rel seg 0, vm1)" "seg \<notin> segs vm" "cells vm1 = cells vm"
    "segs vm1 = insert seg (segs vm)" and free: "\<forall>n. cells vm (rel seg n) = None"
    using vm_add_temporary_segment [OF laws] by blast
  have "cells vm1 (shift (rel seg 0) i) = None" for i using free seg(3) by simp
  then obtain vm' where "load_data api (rel seg 0) (map IntV data) vm1 = (Inr (shift (rel seg 0) (length data)), vm')"
    "cells vm' = write_all (rel seg 0) (map IntV data) (cells vm1)" "segs vm' = segs vm1"
    using vm_load_data [OF laws, of "rel seg 0" vm1 "map IntV data"] seg(4) assms(2) by auto
  with seg show ?thesis by (intro exI [of _ seg] exI [of _ vm1] exI [of _ vm']) simp
qed

text \<open>
  A call answers with the length of the recorded result and the address of a new segment that holds it; no other cell of a segment
  that was there before changes.
\<close>

lemma call_contract_and_write_response_ok:
  assumes laws: "vm_laws api cells segs" and seg: "segment_index ptr \<in> segs (dsys_vm s)"
    and free: "cells (dsys_vm s) (shift ptr n) = None" "cells (dsys_vm s) (shift ptr (n + 1)) = None"
    and bound: "offset ptr + n + 1 < segment_capacity api" "length (cr_retdata result) \<le> segment_capacity api"
    and iter: "result_iter (dsh_exec_wrapper (dsys_handler s)) = result # results"
  shows "\<exists>s' new. call_contract_and_write_response api ptr n s = (Inr (), s') \<and> new \<notin> segs (dsys_vm s) \<and>
    result_iter (dsh_exec_wrapper (dsys_handler s')) = results \<and>
    cells (dsys_vm s') = (write_all (rel new 0) (map IntV (cr_retdata result))
      ((cells (dsys_vm s))(shift ptr n \<mapsto> IntV (length (cr_retdata result)))))(shift ptr (n + 1) \<mapsto> RelocatableValue (rel new 0))"
proof -
  let ?data = "cr_retdata result"
  let ?s = "s \<lparr> dsys_handler := (dsys_handler s)
    \<lparr> dsh_exec_wrapper := (dsh_exec_wrapper (dsys_handler s)) \<lparr> result_iter := results \<rparr> \<rparr> \<rparr>"
  obtain v1 where w1: "insert_at api ptr n (IntV (length ?data)) ?s = (Inr (), ?s \<lparr> dsys_vm := v1 \<rparr>)"
    and c1: "cells v1 = (cells (dsys_vm s))(shift ptr n \<mapsto> IntV (length ?data))" "segs v1 = segs (dsys_vm s)"
    using insert_at_ok [OF laws, of ptr ?s n "IntV (length ?data)"] seg free(1) bound(1) by auto
  obtain new v2 v3 where fresh: "add_temporary_segment api v1 = (rel new 0, v2)"
      "load_data api (rel new 0) (map IntV ?data) v2 = (Inr (rel new (length ?data)), v3)" "new \<notin> segs v1"
    and c3: "cells v3 = write_all (rel new 0) (map IntV ?data) (cells v1)" "segs v3 = insert new (segs v1)"
    using fresh_segment_load [OF laws bound(2)] by blast
  have "cells v3 (shift ptr (n + 1)) = cells v1 (shift ptr (n + 1))"
    unfolding c3(1) using fresh(3) seg c1(2)
    by (intro write_all_other) (metis shift_simps(1,6,8))
  then have "cells v3 (shift ptr (n + 1)) = None" using c1(1) free(2) by simp
  then obtain v4 where w4: "insert_at api ptr (n + 1) (RelocatableValue (rel new 0)) (?s \<lparr> dsys_vm := v3 \<rparr>) =
      (Inr (), ?s \<lparr> dsys_vm := v4 \<rparr>)" and c4: "cells v4 = (cells v3)(shift ptr (n + 1) \<mapsto> RelocatableValue (rel new 0))"
    using insert_at_ok [OF laws, of ptr "?s \<lparr> dsys_vm := v3 \<rparr>" "n + 1" "RelocatableValue (rel new 0)"] seg c1(2) c3(2) bound(1)
    by (auto simp: add.assoc)
  have offs: "off CallContractResponse_layout ''retdata_size'' = 0" "off CallContractResponse_layout ''retdata'' = 1"
    by (simp_all add: off_def field_offset_def CallContractResponse_layout_def)
  have "call_contract_and_write_response api ptr n s = (Inr (), ?s \<lparr> dsys_vm := v4 \<rparr>)"
    using w1 w4 fresh iter
    by (simp add: call_contract_and_write_response_def offs bindS_def dhelperS_def dvmS_def zoomS_def nextS_def next_result_def
      temp_segmentS_def loadS_def of_vm_def map_errS_def map_err_def)
  with c1 c3(1) c4 fresh(3) show ?thesis
    by (intro exI [of _ "?s \<lparr> dsys_vm := v4 \<rparr>"] exI [of _ new]) simp
qed

end
