(* ===== verification/Spec2Isabelle.thy ===== *)
theory Spec2Isabelle
  imports State_Properties Class_Facts Descents_Correct Trie_Proofs Kzg Os_Output Syscall_Properties Deprecated_Syscalls
begin

text \<open>
  A verification development of the Starknet OS in Rust. All paths are under \<open>src/crates/\<close>; where no crate is named, the
  file is under \<open>starknet-os/src/\<close>.

  \<^bold>\<open>The program.\<close> The program runs the Cairo program of the Starknet operating system on a block that was executed before,
  and so produces the trace to be proved. It keeps the state of the chain in Patricia trees over a key-value storage, replays
  the recorded results of the transactions to the Cairo program through system calls, computes the commitments of the storages of contracts,
  finds the descents that the Cairo program needs to walk the trees, encodes the data of the block as a blob, and parses the output.

  \<^bold>\<open>Conventions.\<close> \<open>Prelude\<close> has the result type \<open>res\<close>: a value, an error of the function's error type, or a panic. Overflow
  of \<open>u64\<close> and \<open>usize\<close> is a panic, as in the development profile; a theorem that a function returns a value thus also shows
  that nothing overflows. A \<open>HashMap\<close> is an association list, a field element a natural number below the
  prime (\<open>felt_wf\<close>), a byte string a list of 8-bit words (\<open>Bytes\<close>). Asynchronous functions and locks are sequential code. Methods that change
  their object return the new object. Third-party code is a parameter: the hash functions (\<open>Crypto\<close>),
  JSON codecs and class conversions (\<open>Class_Cells\<close>, \<open>Deprecated_Classes\<close>), the Cairo virtual machine (\<open>Vm\<close>), the curve
  processors, Keccak and SHA-256 (\<open>Syscall_Handlers\<close>).

  \<^bold>\<open>Theories, sources and results.\<close>

  \<^item> Storages. \<open>Storage\<close> models \<open>storage/\<close>: the storage traits, the dictionary, composite and cached storages, and the
    encoding of objects; the locale of its laws is interpreted on these storages.

  \<^item> Patricia trees. \<open>Patricia_Nodes\<close>, \<open>Traverse\<close>, \<open>Tree_Node\<close>, \<open>Calculation\<close>, \<open>Update_Tree\<close> and \<open>Patricia_Tree\<close> model
    \<open>starkware_utils/commitment_tree/\<close>, one definition per function. \<open>Patricia_Spec\<close> is the abstract tree, a function
    from indices to leaves with its reference root. \<open>Patricia_Read\<close>, \<open>Patricia_Calc\<close>, \<open>Tree_Cut\<close>, \<open>Patricia_Update\<close> and
    \<open>Patricia_Correct\<close> prove reading and updating against it, once for all leaf types; \<open>Storage_Trees\<close> states the results for
    storage trees and \<open>Fact_Dict\<close> shows that the collected facts are preimages of their hashes. \<open>Ideal_Database\<close> treats several trees in
    one storage; that no two written facts collide is a hypothesis, since hash functions are parameters.

  \<^item> State. \<open>Leaf_Facts\<close> has the leaf types, \<open>Starknet_Storage\<close> the storage of one contract and its commitment
    (\<open>starknet/starknet_storage.rs\<close>), \<open>Shared_State\<close> the global state (\<open>starknet/business_logic/fact_state/state.rs\<close>).
    \<open>Starknet_Storage\<close> and \<open>State_Properties\<close> show that they refine functions from keys to values and that the roots are the documented ones.

  \<^item> Contract classes. \<open>Class_Cells\<close>, \<open>Deprecated_Classes\<close> and \<open>Class_Facts\<close> model the class objects of
    \<open>starknet-os-types/\<close> with their lazily filled cells. The results of their methods do not depend on earlier calls, with two exceptions that are proved
    there: the serialization of a Sierra class made from bytes, and a deprecated class made from a \<open>starknet-core\<close> class.

  \<^item> Descents. \<open>Guess_Descents\<close> models \<open>starkware_utils/commitment_tree/patricia_tree/patricia_guess_descents.rs\<close>;
    \<open>Descents_Correct\<close> shows that the search finds exactly the maximal descents.

  \<^item> Data availability. \<open>Kzg\<close> models \<open>hints/kzg.rs\<close>, \<open>hints/bls_utils.rs\<close> and \<open>starknet/core/os/kzg_manager.rs\<close>: the
    Fourier transform evaluates the polynomial, and splitting is exact and bounded. The commitment itself is a call of a library.

  \<^item> Output. \<open>Os_Output\<close> models \<open>io/output.rs\<close>: parsing inverts the encoding; malformed outputs are errors or, as characterised, panics.
    How many entries \<open>with_capacity\<close> can reserve is a parameter; beyond it parsing panics.

  \<^item> Storage proofs. \<open>Trie_Proofs\<close> models \<open>rpc-client/src/pathfinder/proofs.rs\<close>: accepted proofs of full length are sound, unless a hash collides,
    and the paths of a tree are accepted or rejected as its leaves say, the empty tree apart.

  \<^item> Execution. \<open>Vm\<close> states what the code relies on of the machine: cells are written once, new segments are empty, and a write to a free cell
    succeeds in a segment without validation rules and within its capacity, which is a parameter; elsewhere it may fail. \<open>Cairo_Types\<close>
    models the layouts of \<open>cairo_types/\<close> and the derive macros of \<open>cairo-type-derive/\<close>. \<open>Execution_Helper\<close> models \<open>execution/helper.rs\<close>: a replay
    takes exactly what was recorded, can always be completed, and its storages refine one function. \<open>Syscall_Utils\<close>, \<open>Syscall_Handlers\<close> and
    \<open>Deprecated_Syscalls\<close> model the system calls (\<open>execution/syscall_handler_utils.rs\<close>, \<open>syscall_handler.rs\<close>, \<open>secp_handler.rs\<close>,
    \<open>deprecated_syscall_handler.rs\<close>, \<open>constants.rs\<close>). The locale of \<open>Syscall_Contract\<close> is the contract of a handler, interpreted on
    every handler; \<open>Syscall_Properties\<close> derives from it what a successful system call leaves in memory, and
    that running out of gas ends the run when the request is in memory.

  \<^bold>\<open>Loops and bounds.\<close> Loops over data are structural recursion or functions with a termination proof. The queue of a traversal and the
  recursion of the Fourier transform are partial functions, in which \<open>None\<close> means not returning. The traversals are proved to return by the
  weight of a node (\<open>Update_Tree\<close>); the theorem on the transform includes that it returns. No fuel is used. Tree heights are at most
  \<open>MAX_HEIGHT\<close>, 251, which is the height of all trees in the code. Addresses are bounded by the range of \<open>usize\<close> where the code adds to them, and by the capacity of a segment, which is smaller, where it writes.

  \<^bold>\<open>Examples.\<close> The theorems with hypotheses are applied to concrete inputs, on concrete hash functions and on the concrete
  machine \<open>toy_api\<close>, for which the laws of \<open>Vm\<close> are proved.

  \<^bold>\<open>Not modelled.\<close> The hints (\<open>hints/\<close> apart from \<open>kzg.rs\<close> and \<open>bls_utils.rs\<close>, and \<open>execution/execute_syscalls.rs\<close>) move values between the
  scopes of the machine and the components above. Configuration, input and entry point (\<open>config.rs\<close>, \<open>io/input.rs\<close>, \<open>lib.rs\<close>) are data
  types with generated codecs and the call of the machine. Proving services, clients and the command line programs do input and
  output. The hash of compiled classes (\<open>starknet/core/os/contract_class/\<close>, \<open>class_hash_utils.rs\<close>) is left for later. Concurrency is
  not modelled: every lock is held for a whole method. In log messages and panics only the fixed text is kept.
\<close>

end
